(* ===== verification/Prelude.thy ===== *)
theory Prelude
  imports Complex_Main "HOL-Library.AList" "HOL-Library.List_Lexorder" "HOL-Library.Char_ord"
    "HOL-Library.Product_Lexorder" "HOL-Library.Sublist" "HOL-Library.Multiset"
begin

section \<open>Shared vocabulary of the development\<close>

text \<open>
  The Python facts every component model shares: dictionaries, the two kinds of datetimes,
  failing computations as sums, and the contracts (locales) that several components implement.

  \<^item> A Python \<open>dict\<close> is an association list in insertion order; \<open>AList.update\<close> overwrites in
    place and appends a new key, as \<open>d[k] = v\<close> does.
  \<^item> A Python \<open>str\<close> is a HOL \<open>string\<close>: the list of its UTF-8 bytes. Code point order and byte
    order agree in UTF-8, so \<open>sorted\<close> on strings is the lexicographic order of
    \<open>List_Lexorder\<close> and \<open>Char_ord\<close>.
  \<^item> A \<open>datetime\<close> is its UTC instant in microseconds, tagged by whether it carries a time zone.
  \<^item> A computation that may raise returns \<open>error + value\<close>; one that also changes a store
    returns the pair of that result and the store after the call, so that writes made before
    an exception are visible in the model.
\<close>

subsection \<open>Dictionaries\<close>

type_synonym ('k, 'v) dict = "('k \<times> 'v) list"

abbreviation dget :: "('k, 'v) dict \<Rightarrow> 'k \<Rightarrow> 'v option" where
  "dget \<equiv> map_of"

abbreviation dset :: "'k \<Rightarrow> 'v \<Rightarrow> ('k, 'v) dict \<Rightarrow> ('k, 'v) dict" where
  "dset \<equiv> AList.update"

abbreviation dkeys :: "('k, 'v) dict \<Rightarrow> 'k list" where
  "dkeys d \<equiv> map fst d"

abbreviation dvalues :: "('k, 'v) dict \<Rightarrow> 'v list" where
  "dvalues d \<equiv> map snd d"

declare update_conv' [simp]

lemma distinct_dset [simp]: "distinct (dkeys d) \<Longrightarrow> distinct (dkeys (dset k v d))"
  by (rule distinct_update)

lemma set_dkeys_dset [simp]: "set (dkeys (dset k v d)) = insert k (set (dkeys d))"
  by (induction d) auto

lemma dget_None_iff: "dget d k = None \<longleftrightarrow> k \<notin> set (dkeys d)"
  by (simp add: map_of_eq_None_iff)

lemma dget_SomeD: "dget d k = Some v \<Longrightarrow> k \<in> set (dkeys d)"
  by (force dest: map_of_SomeD)

lemma in_dvalues_iff:
  "distinct (dkeys d) \<Longrightarrow> v \<in> set (dvalues d) \<longleftrightarrow> (\<exists>k. dget d k = Some v)"
  by (force simp: map_of_eq_Some_iff)

lemma dset_fresh: "dget d k = None \<Longrightarrow> dset k v d = d @ [(k, v)]"
  by (induction d) (auto split: if_splits)

text \<open>How a dictionary may change: entries are kept as they are, or replaced by related values.\<close>

definition keeps :: "('k, 'v) dict \<Rightarrow> ('k, 'v) dict \<Rightarrow> bool" where
  "keeps d d' \<longleftrightarrow> (\<forall>k v. dget d k = Some v \<longrightarrow> dget d' k = Some v)"

definition dict_rel :: "('v \<Rightarrow> 'v \<Rightarrow> bool) \<Rightarrow> ('k, 'v) dict \<Rightarrow> ('k, 'v) dict \<Rightarrow> bool" where
  "dict_rel R d d' \<longleftrightarrow> (\<forall>k v. dget d k = Some v \<longrightarrow> (\<exists>v'. dget d' k = Some v' \<and> R v v'))"

lemma dict_rel_refl: "(\<And>v. R v v) \<Longrightarrow> dict_rel R d d"
  by (simp add: dict_rel_def)

lemma dict_rel_trans:
  "dict_rel R a b \<Longrightarrow> dict_rel R b c \<Longrightarrow> (\<And>x y z. R x y \<Longrightarrow> R y z \<Longrightarrow> R x z) \<Longrightarrow> dict_rel R a c"
  unfolding dict_rel_def by blast

lemma dict_rel_update:
  "(\<And>v. R v v) \<Longrightarrow> (\<And>v. dget d k = Some v \<Longrightarrow> R v v') \<Longrightarrow> dict_rel R d (dset k v' d)"
  by (simp add: dict_rel_def)

lemma keeps_refl [simp]: "keeps d d"
  by (simp add: keeps_def)

lemma keeps_trans: "keeps a b \<Longrightarrow> keeps b c \<Longrightarrow> keeps a c"
  by (simp add: keeps_def)

lemma keeps_fresh: "dget d k = None \<Longrightarrow> keeps d (dset k v d)"
  by (simp add: keeps_def)

subsection \<open>Computations that may raise\<close>

definition rbind :: "'e + 'a \<Rightarrow> ('a \<Rightarrow> 'e + 'b) \<Rightarrow> 'e + 'b" where
  "rbind r f = (case r of Inl e \<Rightarrow> Inl e | Inr x \<Rightarrow> f x)"

definition guard :: "bool \<Rightarrow> 'e \<Rightarrow> 'e + unit" where
  "guard ok e = (if ok then Inr () else Inl e)"

definition of_option :: "'e \<Rightarrow> 'a option \<Rightarrow> 'e + 'a" where
  "of_option e x = (case x of None \<Rightarrow> Inl e | Some v \<Rightarrow> Inr v)"

fun rmap :: "('a \<Rightarrow> 'e + 'b) \<Rightarrow> 'a list \<Rightarrow> 'e + 'b list" where
  "rmap f [] = Inr []"
| "rmap f (x # xs) = rbind (f x) (\<lambda>y. rbind (rmap f xs) (\<lambda>ys. Inr (y # ys)))"

named_theorems outcome "equations and inversions of computations that may raise"

lemma rbind_Inl [simp]: "rbind (Inl e) f = Inl e"
  and rbind_Inr [simp]: "rbind (Inr x) f = f x"
  by (simp_all add: rbind_def)

lemma rbind_eq_Inr [outcome]: "rbind r f = Inr y \<longleftrightarrow> (\<exists>x. r = Inr x \<and> f x = Inr y)"
  by (cases r) auto

lemma rbind_eq_Inl [outcome]:
  "rbind r f = Inl e \<longleftrightarrow> r = Inl e \<or> (\<exists>x. r = Inr x \<and> f x = Inl e)"
  by (cases r) auto

lemma guard_True [simp]: "guard True e = Inr ()"
  and guard_False [simp]: "guard False e = Inl e"
  by (simp_all add: guard_def)

lemma guard_eq_Inr [outcome]: "guard ok e = Inr u \<longleftrightarrow> ok"
  by (cases ok) auto

lemma guard_eq_Inl [outcome]: "guard ok e = Inl e' \<longleftrightarrow> \<not> ok \<and> e' = e"
  by (cases ok) auto

lemma of_option_None [simp]: "of_option e None = Inl e"
  and of_option_Some [simp]: "of_option e (Some v) = Inr v"
  by (simp_all add: of_option_def)

lemma of_option_eq_Inr [outcome]: "of_option e x = Inr v \<longleftrightarrow> x = Some v"
  by (cases x) auto

lemma of_option_eq_Inl [outcome]: "of_option e x = Inl e' \<longleftrightarrow> x = None \<and> e' = e"
  by (cases x) auto

lemma rmap_eq_Inr: "rmap f xs = Inr ys \<longleftrightarrow> list_all2 (\<lambda>x y. f x = Inr y) xs ys"
  by (induction xs arbitrary: ys) (auto simp: outcome list_all2_Cons1)

text \<open>
  A checked store operation: the checks run first and raise without writing, then the effect
  returns its result and the new store. The effect's own result may still be an exception, raised
  after the write.
\<close>

definition commit :: "('e + 'c) \<Rightarrow> ('c \<Rightarrow> ('e + 'a) \<times> 's) \<Rightarrow> 's \<Rightarrow> ('e + 'a) \<times> 's" where
  "commit checked effect s = (case checked of Inl e \<Rightarrow> (Inl e, s) | Inr c \<Rightarrow> effect c)"

lemma commit_Inl [simp]: "commit (Inl e) f s = (Inl e, s)"
  and commit_Inr [simp]: "commit (Inr c) f s = f c"
  by (simp_all add: commit_def)

lemma snd_commit: "snd (commit c f s) = (case c of Inl e \<Rightarrow> s | Inr v \<Rightarrow> snd (f v))"
  by (cases c) auto

lemma fst_commit: "fst (commit c f s) = (case c of Inl e \<Rightarrow> Inl e | Inr v \<Rightarrow> fst (f v))"
  by (cases c) auto

lemma commit_cases [case_names rejected accepted]:
  obtains (rejected) e where "c = Inl e" "commit c f s = (Inl e, s)"
  | (accepted) v where "c = Inr v" "commit c f s = f v"
  by (cases c) auto

text \<open>A property that holds of the store before and after every effect holds of the result.\<close>

lemma commit_preserves:
  "P s \<Longrightarrow> (\<And>v. c = Inr v \<Longrightarrow> P (snd (f v))) \<Longrightarrow> P (snd (commit c f s))"
  by (cases c) auto

subsection \<open>Datetimes\<close>

datatype pytime = Naive int | Aware int

definition aware_utc :: "'e \<Rightarrow> pytime \<Rightarrow> 'e + int" where
  "aware_utc e t = (case t of Naive _ \<Rightarrow> Inl e | Aware us \<Rightarrow> Inr us)"

lemma aware_utc_simps [simp]: "aware_utc e (Naive u) = Inl e" "aware_utc e (Aware u) = Inr u"
  by (simp_all add: aware_utc_def)

lemma aware_utc_eq_Inr [outcome]: "aware_utc e t = Inr us \<longleftrightarrow> t = Aware us"
  by (cases t) auto

definition seconds :: "int \<Rightarrow> int" where
  "seconds n = n * 1000000"

definition milliseconds :: "int \<Rightarrow> int" where
  "milliseconds n = n * 1000"

definition minutes :: "int \<Rightarrow> int" where
  "minutes n = n * 60000000"

lemma seconds_pos: "0 < n \<Longrightarrow> 0 < seconds n"
  by (simp add: seconds_def)

subsection \<open>Lists\<close>

lemma prefix_snoc_last: "prefix xs (xs @ [x])"
  by simp

lemma last_in_list: "xs \<noteq> [] \<Longrightarrow> last xs \<in> set xs"
  by simp

subsection \<open>Step relations\<close>

inductive steps :: "('s \<Rightarrow> 's \<Rightarrow> bool) \<Rightarrow> 's \<Rightarrow> 's \<Rightarrow> bool" for r where
  steps_refl: "steps r s s"
| steps_step: "steps r s t \<Longrightarrow> r t u \<Longrightarrow> steps r s u"

lemma steps_invariant:
  assumes "steps r s t" and "I s" and "\<And>a b. I a \<Longrightarrow> r a b \<Longrightarrow> I b"
  shows "I t"
  using assms by (induction rule: steps.induct) auto

lemma steps_trans: "steps r t u \<Longrightarrow> steps r s t \<Longrightarrow> steps r s u"
  by (induction rule: steps.induct) (auto intro: steps.intros)

subsection \<open>The contract of a lease with a fencing token\<close>

text \<open>
  Both the plan store (NodeRuns) and the event store (Inbox claims) hand out leases protected
  by a fencing token. \<open>token s k\<close> is the current token of resource \<open>k\<close> and \<open>accepts s k t\<close>
  says that some write presenting token \<open>t\<close> for \<open>k\<close> would be accepted in \<open>s\<close>. The provider
  promises that tokens never decrease and that only the current token is accepted; the client
  then knows that a token, once superseded, is dead for every future state.
\<close>

locale fenced_lease =
  fixes inv :: "'s \<Rightarrow> bool"
    and step :: "'s \<Rightarrow> 's \<Rightarrow> bool"
    and token :: "'s \<Rightarrow> 'k \<Rightarrow> nat"
    and accepts :: "'s \<Rightarrow> 'k \<Rightarrow> nat \<Rightarrow> bool"
  assumes inv_step: "inv s \<Longrightarrow> step s t \<Longrightarrow> inv t"
    and token_mono: "inv s \<Longrightarrow> step s t \<Longrightarrow> token s k \<le> token t k"
    and accepts_current: "inv s \<Longrightarrow> accepts s k n \<Longrightarrow> n = token s k"
begin

lemma inv_steps: "steps step s t \<Longrightarrow> inv s \<Longrightarrow> inv t"
  by (induction rule: steps.induct) (auto intro: inv_step)

lemma token_steps: "steps step s t \<Longrightarrow> inv s \<Longrightarrow> token s k \<le> token t k"
  by (induction rule: steps.induct) (auto intro: order_trans inv_steps token_mono)

lemma stale_token_rejected:
  assumes "inv s" and "steps step s t" and "n < token s k"
  shows "\<not> accepts t k n"
proof
  assume "accepts t k n"
  then have "n = token t k" using assms(1,2) by (auto intro: accepts_current inv_steps)
  moreover have "token s k \<le> token t k" using assms(1,2) by (rule token_steps [rotated])
  ultimately show False using assms(3) by simp
qed

end

subsection \<open>The contract of a first-write-wins ledger\<close>

text \<open>
  Command ledger, run keys and budget requests are idempotent ledgers: \<open>recorded s k\<close> is the
  fact first stored under \<open>k\<close>. No step of the component changes or removes a recorded fact, so
  a replay at any later time is answered from the same fact.
\<close>

locale first_write_wins =
  fixes inv :: "'s \<Rightarrow> bool"
    and step :: "'s \<Rightarrow> 's \<Rightarrow> bool"
    and recorded :: "'s \<Rightarrow> 'k \<Rightarrow> 'v option"
  assumes ledger_inv: "inv s \<Longrightarrow> step s t \<Longrightarrow> inv t"
    and recorded_stable: "inv s \<Longrightarrow> step s t \<Longrightarrow> recorded s k = Some v \<Longrightarrow> recorded t k = Some v"
begin

lemma recorded_forever:
  assumes "steps step s t" and "inv s" and "recorded s k = Some v"
  shows "recorded t k = Some v"
proof -
  have "inv t \<and> recorded t k = Some v"
    using assms by (induction rule: steps.induct) (auto intro: ledger_inv recorded_stable)
  then show ?thesis ..
qed

end

subsection \<open>The contract of a transition table with final states\<close>

locale transition_table =
  fixes allowed :: "'s \<Rightarrow> 's \<Rightarrow> bool"
    and final :: "'s \<Rightarrow> bool"
  assumes final_stuck: "final s \<Longrightarrow> \<not> allowed s t"
begin

lemma final_forever: "steps allowed s t \<Longrightarrow> final s \<Longrightarrow> t = s"
  by (induction rule: steps.induct) (auto simp: final_stuck)

end

end
