(* ===== verification/Json.thy ===== *)
theory Json
  imports Sha256
begin

section \<open>JSON values: strict validation, canonical text, digests\<close>

text \<open>
  \<open>pyval\<close> is the range of Python objects that reach a validator; \<open>json\<close> is what is left after
  one accepts. The four validators of \<open>src/plan_engine\<close> (\<open>models._freeze_json\<close>,
  \<open>events._strict_json_copy\<close>, \<open>InputBindingResolver._copy_strict_json\<close> and
  \<open>commands._freeze_command_json\<close>) differ in what they let through, so each is a function of
  its own. \<open>dumps\<close> is \<open>json.dumps\<close> with \<open>sort_keys=True\<close>, compact separators and
  \<open>allow_nan=False\<close>; the digests hash its text.

  A finite float carries its value and its \<open>repr\<close>, the shortest decimal text Python prints for it.
  Containers are trees: a Python container that contains itself is outside the model.
\<close>

subsection \<open>Values\<close>

datatype pyfloat = Finite rat string | Infinite bool | NaN

datatype pyval =
    PyNone
  | PyBool bool
  | PyInt int
  | PyFloat pyfloat
  | PyStr string
  | PyStrSub string \<comment> \<open>an instance of a subclass of \<open>str\<close>, such as a \<open>StrEnum\<close> member\<close>
  | PyList "pyval list"
  | PyTuple "pyval list"
  | PySequence "pyval list" \<comment> \<open>a \<open>Sequence\<close> that is no list, tuple or string\<close>
  | PyDict "(pyval \<times> pyval) list"
  | PyMapping "(pyval \<times> pyval) list" \<comment> \<open>a \<open>Mapping\<close> that is no dict\<close>
  | PyOther string \<comment> \<open>bytes, Decimal, a model, ...: any other type, by its name\<close>

datatype json =
    JNull
  | JBool bool
  | JInt int
  | JFloat rat string
  | JStr string
  | JList "json list"
  | JObj "(string \<times> json) list"

datatype py_error = ValueError | TypeError

fun str_key :: "pyval \<Rightarrow> string option" where
  "str_key (PyStr s) = Some s"
| "str_key (PyStrSub s) = Some s"
| "str_key _ = None"

definition all_str_keys :: "(pyval \<times> pyval) list \<Rightarrow> bool" where
  "all_str_keys kvs \<longleftrightarrow> list_all (\<lambda>(k, v). str_key k \<noteq> None) kvs"

definition key_text :: "pyval \<Rightarrow> string" where
  "key_text k = (case str_key k of None \<Rightarrow> '''' | Some s \<Rightarrow> s)"

subsection \<open>\<open>models._freeze_json\<close>\<close>

fun freeze_json :: "pyval \<Rightarrow> py_error + json"
  and freeze_list :: "pyval list \<Rightarrow> py_error + json list"
  and freeze_items :: "(pyval \<times> pyval) list \<Rightarrow> py_error + (string \<times> json) list" where
  "freeze_json PyNone = Inr JNull"
| "freeze_json (PyStr s) = Inr (JStr s)"
| "freeze_json (PyStrSub s) = Inr (JStr s)"
| "freeze_json (PyBool b) = Inr (JBool b)"
| "freeze_json (PyInt n) = Inr (JInt n)"
| "freeze_json (PyFloat (Finite v r)) = Inr (JFloat v r)"
| "freeze_json (PyFloat _) = Inl ValueError"
| "freeze_json (PyDict kvs) =
     (if \<not> all_str_keys kvs then Inl ValueError else rbind (freeze_items kvs) (\<lambda>ys. Inr (JObj ys)))"
| "freeze_json (PyMapping kvs) =
     (if \<not> all_str_keys kvs then Inl ValueError else rbind (freeze_items kvs) (\<lambda>ys. Inr (JObj ys)))"
| "freeze_json (PyList xs) = rbind (freeze_list xs) (\<lambda>ys. Inr (JList ys))"
| "freeze_json (PyTuple xs) = rbind (freeze_list xs) (\<lambda>ys. Inr (JList ys))"
| "freeze_json (PySequence xs) = rbind (freeze_list xs) (\<lambda>ys. Inr (JList ys))"
| "freeze_json (PyOther _) = Inl ValueError"
| "freeze_list [] = Inr []"
| "freeze_list (x # xs) = rbind (freeze_json x) (\<lambda>y. rbind (freeze_list xs) (\<lambda>ys. Inr (y # ys)))"
| "freeze_items [] = Inr []"
| "freeze_items ((k, v) # kvs) =
     rbind (freeze_json v) (\<lambda>y. rbind (freeze_items kvs) (\<lambda>ys. Inr ((key_text k, y) # ys)))"

subsection \<open>\<open>events._strict_json_copy\<close>\<close>

fun strict_json_copy :: "pyval \<Rightarrow> py_error + json"
  and strict_copy_list :: "pyval list \<Rightarrow> py_error + json list"
  and strict_copy_items :: "(pyval \<times> pyval) list \<Rightarrow> py_error + (string \<times> json) list" where
  "strict_json_copy PyNone = Inr JNull"
| "strict_json_copy (PyStr s) = Inr (JStr s)"
| "strict_json_copy (PyStrSub s) = Inr (JStr s)"
| "strict_json_copy (PyBool b) = Inr (JBool b)"
| "strict_json_copy (PyInt n) = Inr (JInt n)"
| "strict_json_copy (PyFloat (Finite v r)) = Inr (JFloat v r)"
| "strict_json_copy (PyFloat _) = Inl ValueError"
| "strict_json_copy (PyList xs) = rbind (strict_copy_list xs) (\<lambda>ys. Inr (JList ys))"
| "strict_json_copy (PyDict kvs) = rbind (strict_copy_items kvs) (\<lambda>ys. Inr (JObj ys))"
| "strict_json_copy (PyTuple _) = Inl TypeError"
| "strict_json_copy (PySequence _) = Inl TypeError"
| "strict_json_copy (PyMapping _) = Inl TypeError"
| "strict_json_copy (PyOther _) = Inl TypeError"
| "strict_copy_list [] = Inr []"
| "strict_copy_list (x # xs) =
     rbind (strict_json_copy x) (\<lambda>y. rbind (strict_copy_list xs) (\<lambda>ys. Inr (y # ys)))"
| "strict_copy_items [] = Inr []"
| "strict_copy_items ((k, v) # kvs) =
     (case str_key k of
        None \<Rightarrow> Inl TypeError
      | Some s \<Rightarrow> rbind (strict_json_copy v)
          (\<lambda>y. rbind (strict_copy_items kvs) (\<lambda>ys. Inr ((s, y) # ys))))"

subsection \<open>\<open>InputBindingResolver._copy_strict_json\<close>\<close>

fun copy_strict_json :: "pyval \<Rightarrow> py_error + json"
  and copy_strict_list :: "pyval list \<Rightarrow> py_error + json list"
  and copy_strict_items :: "(pyval \<times> pyval) list \<Rightarrow> py_error + (string \<times> json) list" where
  "copy_strict_json PyNone = Inr JNull"
| "copy_strict_json (PyStr s) = Inr (JStr s)"
| "copy_strict_json (PyBool b) = Inr (JBool b)"
| "copy_strict_json (PyInt n) = Inr (JInt n)"
| "copy_strict_json (PyFloat (Finite v r)) = Inr (JFloat v r)"
| "copy_strict_json (PyFloat _) = Inl ValueError"
| "copy_strict_json (PyDict kvs) =
     (if \<not> all_str_keys kvs then Inl TypeError
      else rbind (copy_strict_items kvs) (\<lambda>ys. Inr (JObj ys)))"
| "copy_strict_json (PyList xs) = rbind (copy_strict_list xs) (\<lambda>ys. Inr (JList ys))"
| "copy_strict_json (PyStrSub _) = Inl TypeError"
| "copy_strict_json (PyTuple _) = Inl TypeError"
| "copy_strict_json (PySequence _) = Inl TypeError"
| "copy_strict_json (PyMapping _) = Inl TypeError"
| "copy_strict_json (PyOther _) = Inl TypeError"
| "copy_strict_list [] = Inr []"
| "copy_strict_list (x # xs) =
     rbind (copy_strict_json x) (\<lambda>y. rbind (copy_strict_list xs) (\<lambda>ys. Inr (y # ys)))"
| "copy_strict_items [] = Inr []"
| "copy_strict_items ((k, v) # kvs) =
     rbind (copy_strict_json v) (\<lambda>y. rbind (copy_strict_items kvs) (\<lambda>ys. Inr ((key_text k, y) # ys)))"

subsection \<open>\<open>commands._freeze_command_json\<close>\<close>

fun freeze_command_json :: "pyval \<Rightarrow> py_error + json"
  and freeze_command_list :: "pyval list \<Rightarrow> py_error + json list"
  and freeze_command_items :: "(pyval \<times> pyval) list \<Rightarrow> py_error + (string \<times> json) list" where
  "freeze_command_json PyNone = Inr JNull"
| "freeze_command_json (PyStr s) = Inr (JStr s)"
| "freeze_command_json (PyBool b) = Inr (JBool b)"
| "freeze_command_json (PyInt n) = Inr (JInt n)"
| "freeze_command_json (PyFloat (Finite v r)) = Inr (JFloat v r)"
| "freeze_command_json (PyFloat _) = Inl ValueError"
| "freeze_command_json (PyDict kvs) =
     (if \<not> all_str_keys kvs then Inl ValueError
      else rbind (freeze_command_items kvs) (\<lambda>ys. Inr (JObj ys)))"
| "freeze_command_json (PyMapping kvs) =
     (if \<not> all_str_keys kvs then Inl ValueError
      else rbind (freeze_command_items kvs) (\<lambda>ys. Inr (JObj ys)))"
| "freeze_command_json (PyList xs) = rbind (freeze_command_list xs) (\<lambda>ys. Inr (JList ys))"
| "freeze_command_json (PySequence xs) = rbind (freeze_command_list xs) (\<lambda>ys. Inr (JList ys))"
| "freeze_command_json (PyStrSub _) = Inl ValueError"
| "freeze_command_json (PyTuple _) = Inl ValueError"
| "freeze_command_json (PyOther _) = Inl ValueError"
| "freeze_command_list [] = Inr []"
| "freeze_command_list (x # xs) =
     rbind (freeze_command_json x) (\<lambda>y. rbind (freeze_command_list xs) (\<lambda>ys. Inr (y # ys)))"
| "freeze_command_items [] = Inr []"
| "freeze_command_items ((k, v) # kvs) =
     rbind (freeze_command_json v) (\<lambda>y. rbind (freeze_command_items kvs) (\<lambda>ys. Inr ((key_text k, y) # ys)))"

subsection \<open>Python equality of JSON values\<close>

text \<open>\<open>True == 1 == 1.0\<close>, and dicts compare without regard to insertion order.\<close>

fun json_num :: "json \<Rightarrow> rat option" where
  "json_num (JBool b) = Some (if b then 1 else 0)"
| "json_num (JInt n) = Some (of_int n)"
| "json_num (JFloat v r) = Some v"
| "json_num _ = None"

fun json_eq :: "json \<Rightarrow> json \<Rightarrow> bool"
  and json_list_eq :: "json list \<Rightarrow> json list \<Rightarrow> bool"
  and json_items_in :: "(string \<times> json) list \<Rightarrow> (string \<times> json) list \<Rightarrow> bool" where
  "json_eq (JList xs) j = (case j of JList ys \<Rightarrow> json_list_eq xs ys | _ \<Rightarrow> False)"
| "json_eq (JObj o1) j =
     (case j of JObj o2 \<Rightarrow> length o1 = length o2 \<and> json_items_in o1 o2 | _ \<Rightarrow> False)"
| "json_eq JNull j = (j = JNull)"
| "json_eq (JStr s) j = (j = JStr s)"
| "json_eq i j = (json_num j \<noteq> None \<and> json_num i = json_num j)"
| "json_list_eq [] ys = (ys = [])"
| "json_list_eq (x # xs) ys =
     (case ys of [] \<Rightarrow> False | y # zs \<Rightarrow> json_eq x y \<and> json_list_eq xs zs)"
| "json_items_in [] o2 = True"
| "json_items_in ((k, v) # o1) o2 =
     (case map_of o2 k of None \<Rightarrow> False | Some w \<Rightarrow> json_eq v w \<and> json_items_in o1 o2)"

subsection \<open>Text\<close>

fun nat_text :: "nat \<Rightarrow> string" where
  "nat_text n = (if n < 10 then [''0123456789'' ! n]
                 else nat_text (n div 10) @ [''0123456789'' ! (n mod 10)])"

declare nat_text.simps [simp del]

definition int_text :: "int \<Rightarrow> string" where
  "int_text i = (if i < 0 then CHR ''-'' # nat_text (nat (- i)) else nat_text (nat i))"

text \<open>\<open>len\<close> of a text counts code points: the bytes that continue no earlier one.\<close>

definition py_len :: "string \<Rightarrow> nat" where
  "py_len s = length (filter (\<lambda>c. of_char c div (64::nat) \<noteq> 2) s)"

lemma py_len_sha256: "is_sha256 s \<Longrightarrow> py_len s = 64"
proof -
  have "of_char c div (64::nat) \<noteq> 2" if "is_hex c" for c
    using that by (auto simp: is_hex_def)
  then have "filter (\<lambda>c. of_char c div (64::nat) \<noteq> 2) s = s" if "list_all is_hex s"
    using that by (simp add: filter_id_conv list_all_iff)
  then show "is_sha256 s \<Longrightarrow> py_len s = 64" by (simp add: py_len_def is_sha256_def)
qed

fun join :: "string \<Rightarrow> string list \<Rightarrow> string" where
  "join sep [] = []"
| "join sep [x] = x"
| "join sep (x # y # xs) = x @ sep @ join sep (y # xs)"

definition backslash :: char where
  "backslash = char_of (92::nat)"

definition dquote :: char where
  "dquote = char_of (34::nat)"

definition short_escape :: "nat \<Rightarrow> char option" where
  "short_escape n = map_of [(34, dquote), (92, backslash), (10, CHR ''n''), (13, CHR ''r''),
     (9, CHR ''t''), (12, CHR ''f''), (8, CHR ''b'')] n"

definition unicode_escape :: "nat \<Rightarrow> string" where
  "unicode_escape n = backslash # CHR ''u'' # hex_nat 4 n"

definition escape_byte :: "char \<Rightarrow> string" where
  "escape_byte c = (case short_escape (of_char c) of
       Some e \<Rightarrow> [backslash, e]
     | None \<Rightarrow> if of_char c < (32::nat) then unicode_escape (of_char c) else [c])"

fun utf8_decode :: "nat list \<Rightarrow> nat list" where
  "utf8_decode [] = []"
| "utf8_decode (b # bs) =
     (if b < 128 then b # utf8_decode bs
      else if b < 224 then
        (case bs of b1 # r \<Rightarrow> ((b mod 32) * 64 + b1 mod 64) # utf8_decode r | _ \<Rightarrow> [])
      else if b < 240 then
        (case bs of b1 # b2 # r \<Rightarrow>
             (((b mod 16) * 64 + b1 mod 64) * 64 + b2 mod 64) # utf8_decode r | _ \<Rightarrow> [])
      else
        (case bs of b1 # b2 # b3 # r \<Rightarrow>
             ((((b mod 8) * 64 + b1 mod 64) * 64 + b2 mod 64) * 64 + b3 mod 64) # utf8_decode r
         | _ \<Rightarrow> []))"

definition escape_ascii :: "nat \<Rightarrow> string" where
  "escape_ascii n = (case short_escape n of
       Some e \<Rightarrow> [backslash, e]
     | None \<Rightarrow>
         if 32 \<le> n \<and> n \<le> 126 then [char_of n]
         else if n < 65536 then unicode_escape n
         else unicode_escape (55296 + (n - 65536) div 1024 mod 1024)
            @ unicode_escape (56320 + (n - 65536) mod 1024))"

text \<open>\<open>ensure_ascii\<close> chooses between the two escapes.\<close>

definition json_quote :: "bool \<Rightarrow> string \<Rightarrow> string" where
  "json_quote ensure_ascii s =
     dquote # (if ensure_ascii then concat (map escape_ascii (utf8_decode (map of_char s)))
               else concat (map escape_byte s)) @ [dquote]"

fun dumps :: "bool \<Rightarrow> json \<Rightarrow> string"
  and dumps_list :: "bool \<Rightarrow> json list \<Rightarrow> string list"
  and dumps_items :: "bool \<Rightarrow> (string \<times> json) list \<Rightarrow> (string \<times> string) list" where
  "dumps a JNull = ''null''"
| "dumps a (JBool b) = (if b then ''true'' else ''false'')"
| "dumps a (JInt n) = int_text n"
| "dumps a (JFloat v r) = r"
| "dumps a (JStr s) = json_quote a s"
| "dumps a (JList xs) = ''['' @ join '','' (dumps_list a xs) @ '']''"
| "dumps a (JObj kvs) =
     ''{'' @ join '','' (map (\<lambda>(k, t). json_quote a k @ '':'' @ t) (sort_key fst (dumps_items a kvs))) @ ''}''"
| "dumps_list a [] = []"
| "dumps_list a (x # xs) = dumps a x # dumps_list a xs"
| "dumps_items a [] = []"
| "dumps_items a ((k, v) # kvs) = (k, dumps a v) # dumps_items a kvs"

text \<open>\<open>models._canonical_sha256\<close>, \<open>events.canonical_json_sha256\<close> and the resolver's digest.\<close>

definition canonical_sha256 :: "json \<Rightarrow> string" where
  "canonical_sha256 v = sha256_hex (dumps False v)"

definition canonical_json_sha256 :: "pyval \<Rightarrow> py_error + string" where
  "canonical_json_sha256 v = rbind (strict_json_copy v) (\<lambda>j. Inr (sha256_hex (dumps False j)))"

definition resolver_sha256 :: "json \<Rightarrow> string" where
  "resolver_sha256 v = sha256_hex (dumps True v)"

text \<open>A JSON value as the Python object that holds it.\<close>

fun py_of_json :: "json \<Rightarrow> pyval" where
  "py_of_json JNull = PyNone"
| "py_of_json (JBool b) = PyBool b"
| "py_of_json (JInt n) = PyInt n"
| "py_of_json (JFloat v r) = PyFloat (Finite v r)"
| "py_of_json (JStr s) = PyStr s"
| "py_of_json (JList xs) = PyList (map py_of_json xs)"
| "py_of_json (JObj kvs) = PyDict (map (\<lambda>(k, v). (PyStr k, py_of_json v)) kvs)"

subsection \<open>Same document up to key order\<close>

text \<open>
  \<open>json_same\<close> compares two documents exactly (no \<open>1 == 1.0\<close>) but lets the keys of every object,
  at any depth, come in another order. Objects with a repeated key are not JSON documents.
\<close>

fun json_same :: "json \<Rightarrow> json \<Rightarrow> bool"
  and json_same_list :: "json list \<Rightarrow> json list \<Rightarrow> bool"
  and json_same_items :: "(string \<times> json) list \<Rightarrow> (string \<times> json) list \<Rightarrow> bool" where
  "json_same (JList xs) j = (case j of JList ys \<Rightarrow> json_same_list xs ys | _ \<Rightarrow> False)"
| "json_same (JObj o1) j =
     (case j of
        JObj o2 \<Rightarrow> distinct (map fst o1) \<and> distinct (map fst o2) \<and> length o1 = length o2
          \<and> json_same_items o1 o2
      | _ \<Rightarrow> False)"
| "json_same i j = (i = j)"
| "json_same_list [] ys = (ys = [])"
| "json_same_list (x # xs) ys =
     (case ys of [] \<Rightarrow> False | y # zs \<Rightarrow> json_same x y \<and> json_same_list xs zs)"
| "json_same_items [] o2 = True"
| "json_same_items ((k, v) # o1) o2 =
     (case map_of o2 k of None \<Rightarrow> False | Some w \<Rightarrow> json_same v w \<and> json_same_items o1 o2)"

lemma map_fst_dumps_items [simp]: "map fst (dumps_items a kvs) = map fst kvs"
  by (induction kvs) auto

lemma map_of_dumps_items: "map_of (dumps_items a kvs) k = map_option (dumps a) (map_of kvs k)"
  by (induction kvs) auto

lemma json_same_items_keys:
  "json_same_items o1 o2 \<Longrightarrow> k \<in> set (map fst o1) \<Longrightarrow> k \<in> set (map fst o2)"
proof (induction o1)
  case (Cons kv o1)
  then show ?case by (cases kv) (auto split: option.splits simp del: set_map dest: dget_SomeD)
qed simp

lemma sort_key_fst_unique:
  assumes "distinct (map fst xs)" and "distinct (map fst ys)" and "map_of xs = map_of ys"
  shows "sort_key fst xs = sort_key fst (ys :: ('a::linorder \<times> 'b) list)"
proof -
  have "set xs = set ys" using assms by (simp add: map_of_inject_set)
  moreover have "distinct xs" "distinct ys" using assms(1,2) by (simp_all add: distinct_map)
  ultimately have "mset xs = mset ys" by (simp add: set_eq_iff_mset_eq_distinct)
  then show ?thesis
    using assms(1) by (intro sort_key_inj_key_eq) (simp_all add: distinct_map)
qed

lemma same_keys_same_map:
  assumes d1: "distinct (map fst o1)" and d2: "distinct (map fst o2)"
    and len: "length o1 = length o2"
    and items: "\<And>k v. (k, v) \<in> set o1 \<Longrightarrow> \<exists>w. map_of o2 k = Some w \<and> f v = f w"
  shows "map_option f \<circ> map_of o1 = map_option f \<circ> map_of o2"
proof
  fix k
  have "set (map fst o1) \<subseteq> set (map fst o2)"
  proof
    fix k
    assume "k \<in> set (map fst o1)"
    then obtain v where "(k, v) \<in> set o1" by auto
    then show "k \<in> set (map fst o2)" using items by (blast dest: dget_SomeD)
  qed
  moreover have "card (set (map fst o1)) = card (set (map fst o2))"
    using d1 d2 len by (simp only: distinct_card length_map)
  ultimately have keys: "set (map fst o1) = set (map fst o2)"
    by (intro card_subset_eq) auto
  show "(map_option f \<circ> map_of o1) k = (map_option f \<circ> map_of o2) k"
  proof (cases "map_of o1 k")
    case None
    then show ?thesis using keys by (simp add: dget_None_iff) (metis dget_None_iff set_map option.map(1))
  next
    case (Some v)
    then obtain w where "map_of o2 k = Some w" "f v = f w"
      using items [OF map_of_SomeD] by blast
    with Some show ?thesis by simp
  qed
qed

lemma dumps_same:
  "json_same i j \<Longrightarrow> dumps a i = dumps a j"
  "json_same_list xs ys \<Longrightarrow> dumps_list a xs = dumps_list a ys"
  "json_same_items o1 o2 \<Longrightarrow>
     (\<forall>k v. (k, v) \<in> set o1 \<longrightarrow> (\<exists>w. map_of o2 k = Some w \<and> dumps a v = dumps a w))"
proof (induction i j and xs ys and o1 o2 rule: json_same_json_same_list_json_same_items.induct)
  case (2 o1 j)
  then obtain o2 where j: "j = JObj o2" and d: "distinct (map fst o1)" "distinct (map fst o2)"
    and len: "length o1 = length o2" and items: "json_same_items o1 o2"
    by (auto split: json.splits)
  have "map_option (dumps a) \<circ> map_of o1 = map_option (dumps a) \<circ> map_of o2"
    using d len 2(1)[OF j items] by (intro same_keys_same_map) auto
  then have "sort_key fst (dumps_items a o1) = sort_key fst (dumps_items a o2)"
    using d by (intro sort_key_fst_unique) (auto simp: map_of_dumps_items fun_eq_iff)
  then show ?case by (simp add: j)
qed (auto split: json.splits list.splits option.splits)

subsection \<open>How the validators relate\<close>

lemma strict_copy_freeze:
  "strict_json_copy v = Inr j \<Longrightarrow> freeze_json v = Inr j"
  "strict_copy_list vs = Inr js \<Longrightarrow> freeze_list vs = Inr js"
  "strict_copy_items kvs = Inr ob \<Longrightarrow> all_str_keys kvs \<and> freeze_items kvs = Inr ob"
  by (induction v and vs and kvs arbitrary: j and js and ob
      rule: strict_json_copy_strict_copy_list_strict_copy_items.induct)
    (auto simp: outcome all_str_keys_def key_text_def split: option.splits)

lemma copy_strict_strict_copy:
  "copy_strict_json v = Inr j \<Longrightarrow> strict_json_copy v = Inr j"
  "copy_strict_list vs = Inr js \<Longrightarrow> strict_copy_list vs = Inr js"
  "copy_strict_items kvs = Inr ob \<Longrightarrow> all_str_keys kvs \<Longrightarrow> strict_copy_items kvs = Inr ob"
  by (induction v and vs and kvs arbitrary: j and js and ob
      rule: copy_strict_json_copy_strict_list_copy_strict_items.induct)
    (auto simp: outcome all_str_keys_def key_text_def split: option.splits if_splits)

lemma copy_strict_freeze_command:
  "copy_strict_json v = Inr j \<Longrightarrow> freeze_command_json v = Inr j"
  "copy_strict_list vs = Inr js \<Longrightarrow> freeze_command_list vs = Inr js"
  "copy_strict_items kvs = Inr ob \<Longrightarrow> freeze_command_items kvs = Inr ob"
  by (induction v and vs and kvs arbitrary: j and js and ob
      rule: copy_strict_json_copy_strict_list_copy_strict_items.induct)
    (auto simp: outcome split: if_splits)

lemma freeze_command_freeze:
  "freeze_command_json v = Inr j \<Longrightarrow> freeze_json v = Inr j"
  "freeze_command_list vs = Inr js \<Longrightarrow> freeze_list vs = Inr js"
  "freeze_command_items kvs = Inr ob \<Longrightarrow> freeze_items kvs = Inr ob"
  by (induction v and vs and kvs arbitrary: j and js and ob
      rule: freeze_command_json_freeze_command_list_freeze_command_items.induct)
    (auto simp: outcome split: if_splits)

lemma copy_strict_list_id:
  "(\<And>x. x \<in> set xs \<Longrightarrow> copy_strict_json (py_of_json x) = Inr x) \<Longrightarrow>
     copy_strict_list (map py_of_json xs) = Inr xs"
  by (induction xs) auto

lemma copy_strict_items_id:
  "(\<And>x. x \<in> snd ` set kvs \<Longrightarrow> copy_strict_json (py_of_json x) = Inr x) \<Longrightarrow>
     copy_strict_items (map (\<lambda>(k, v). (PyStr k, py_of_json v)) kvs) = Inr kvs"
  by (induction kvs) (auto simp: key_text_def)

lemma all_str_keys_of_json [simp]:
  "all_str_keys (map (\<lambda>(k, v). (PyStr k, py_of_json v)) kvs)"
  by (induction kvs) (auto simp: all_str_keys_def)

lemma copy_strict_of_json [simp]: "copy_strict_json (py_of_json j) = Inr j"
proof (induction j)
  case (JList xs)
  then show ?case by (simp add: copy_strict_list_id)
next
  case (JObj kvs)
  then have "copy_strict_items (map (\<lambda>(k, v). (PyStr k, py_of_json v)) kvs) = Inr kvs"
    by (intro copy_strict_items_id) (auto simp: snds.simps)
  then show ?case by simp
qed auto

lemmas strict_of_json [simp] = copy_strict_strict_copy(1) [OF copy_strict_of_json]
lemmas freeze_of_json [simp] = strict_copy_freeze(1) [OF strict_of_json]
lemmas freeze_command_of_json [simp] = copy_strict_freeze_command(1) [OF copy_strict_of_json]

lemma canonical_json_of_json: "canonical_json_sha256 (py_of_json j) = Inr (canonical_sha256 j)"
  by (simp add: canonical_json_sha256_def canonical_sha256_def)

end
