(* ===== verification/StateMachines.thy ===== *)
theory StateMachines
  imports Json
begin

section \<open>The state tables of nodes, plans, events and event applications\<close>

text \<open>
  The enumerations of \<open>src/plan_engine/models.py\<close>, the transition white-list of D-015
  (\<open>state_machine.py\<close>) and the two event tables (\<open>event_state_machine.py\<close>). A transition
  request may carry an enumeration member or a plain string, so it takes a \<open>pyval\<close>.
\<close>

subsection \<open>Enumerations\<close>

datatype node_kind = K_CONTROL | K_SKILL

datatype binding_kind = B_PLAN_INPUT | B_NODE_OUTPUT | B_LITERAL

datatype run_state = R_ACTIVE | R_FROZEN | R_SUCCEEDED | R_FAILED

datatype run_kind = CARD_BATCH | EMERGENCY_SOLD_OUT

datatype node_state =
    N_PENDING | N_READY | N_RUNNING | N_WAITING_APPROVAL | N_WAITING_RECONCILIATION
  | N_RETRY_WAIT | N_SUCCEEDED | N_FAILED | N_FROZEN | N_INVALIDATED | N_SKIPPED

datatype command_type = APPROVE | REJECT | RECONCILE | RESUME

datatype inbox_state =
    I_RECEIVED | I_VERIFIED | I_CONFLICT | I_PROCESSING | I_WAITING_HUMAN | I_APPLIED | I_FAILED

datatype occurrence_kind = O_ACCEPTED | O_DUPLICATE | O_CONFLICT | O_REJECTED

datatype app_state =
    A_PENDING | A_FREEZING | A_EMERGENCY_RUNNING | A_WAITING_RECONCILIATION | A_REPLAN_READY
  | A_APPLIED | A_FAILED

fun node_kind_value :: "node_kind \<Rightarrow> string" where
  "node_kind_value K_CONTROL = ''CONTROL''"
| "node_kind_value K_SKILL = ''SKILL''"

fun binding_kind_value :: "binding_kind \<Rightarrow> string" where
  "binding_kind_value B_PLAN_INPUT = ''PLAN_INPUT''"
| "binding_kind_value B_NODE_OUTPUT = ''NODE_OUTPUT''"
| "binding_kind_value B_LITERAL = ''LITERAL''"

definition node_state_members :: "(string \<times> node_state) list" where
  "node_state_members =
     [(''PENDING'', N_PENDING), (''READY'', N_READY), (''RUNNING'', N_RUNNING),
      (''WAITING_APPROVAL'', N_WAITING_APPROVAL),
      (''WAITING_RECONCILIATION'', N_WAITING_RECONCILIATION), (''RETRY_WAIT'', N_RETRY_WAIT),
      (''SUCCEEDED'', N_SUCCEEDED), (''FAILED'', N_FAILED), (''FROZEN'', N_FROZEN),
      (''INVALIDATED'', N_INVALIDATED), (''SKIPPED'', N_SKIPPED)]"

definition run_state_members :: "(string \<times> run_state) list" where
  "run_state_members =
     [(''ACTIVE'', R_ACTIVE), (''FROZEN'', R_FROZEN), (''SUCCEEDED'', R_SUCCEEDED),
      (''FAILED'', R_FAILED)]"

text \<open>
  Calling an enumeration on a value finds the member whose value equals it; a member of another
  \<open>StrEnum\<close> equals its text. Anything else raises, and the caller turns that into its own error.
\<close>

definition enum_call :: "(string \<times> 'a) list \<Rightarrow> pyval \<Rightarrow> 'a option" where
  "enum_call members v = Option.bind (str_key v) (map_of members)"

fun node_state_value :: "node_state \<Rightarrow> string" where
  "node_state_value N_PENDING = ''PENDING''"
| "node_state_value N_READY = ''READY''"
| "node_state_value N_RUNNING = ''RUNNING''"
| "node_state_value N_WAITING_APPROVAL = ''WAITING_APPROVAL''"
| "node_state_value N_WAITING_RECONCILIATION = ''WAITING_RECONCILIATION''"
| "node_state_value N_RETRY_WAIT = ''RETRY_WAIT''"
| "node_state_value N_SUCCEEDED = ''SUCCEEDED''"
| "node_state_value N_FAILED = ''FAILED''"
| "node_state_value N_FROZEN = ''FROZEN''"
| "node_state_value N_INVALIDATED = ''INVALIDATED''"
| "node_state_value N_SKIPPED = ''SKIPPED''"

subsection \<open>The node table\<close>

fun allowed_node_transitions :: "node_state \<Rightarrow> node_state list" where
  "allowed_node_transitions N_PENDING = [N_READY, N_FROZEN, N_INVALIDATED, N_SKIPPED]"
| "allowed_node_transitions N_READY = [N_RUNNING, N_FROZEN, N_INVALIDATED, N_SKIPPED]"
| "allowed_node_transitions N_RUNNING =
     [N_SUCCEEDED, N_FAILED, N_RETRY_WAIT, N_WAITING_APPROVAL, N_WAITING_RECONCILIATION, N_FROZEN]"
| "allowed_node_transitions N_RETRY_WAIT = [N_READY, N_FROZEN, N_FAILED]"
| "allowed_node_transitions N_WAITING_APPROVAL = [N_READY, N_FROZEN, N_FAILED]"
| "allowed_node_transitions N_WAITING_RECONCILIATION = [N_SUCCEEDED, N_FAILED]"
| "allowed_node_transitions N_FROZEN = [N_INVALIDATED, N_SKIPPED]"
| "allowed_node_transitions N_SUCCEEDED = []"
| "allowed_node_transitions N_FAILED = []"
| "allowed_node_transitions N_INVALIDATED = []"
| "allowed_node_transitions N_SKIPPED = []"

definition node_edge :: "node_state \<Rightarrow> node_state \<Rightarrow> bool" where
  "node_edge s t \<longleftrightarrow> t \<in> set (allowed_node_transitions s)"

datatype plan_invariant_error = PlanInvariantError

definition coerce_node_state :: "pyval \<Rightarrow> plan_invariant_error + node_state" where
  "coerce_node_state v = of_option PlanInvariantError (enum_call node_state_members v)"

definition transition_node :: "pyval \<Rightarrow> pyval \<Rightarrow> plan_invariant_error + node_state" where
  "transition_node current target =
     rbind (coerce_node_state current) (\<lambda>current_state.
     rbind (coerce_node_state target) (\<lambda>target_state.
     rbind (guard (node_edge current_state target_state) PlanInvariantError) (\<lambda>_.
     Inr target_state)))"

definition validate_plan_run_state :: "pyval \<Rightarrow> plan_invariant_error + run_state" where
  "validate_plan_run_state v = of_option PlanInvariantError (enum_call run_state_members v)"

text \<open>A member as the Python value that carries it.\<close>

definition py_node_state :: "node_state \<Rightarrow> pyval" where
  "py_node_state s = PyStrSub (node_state_value s)"

lemma coerce_py_node_state [simp]: "coerce_node_state (py_node_state s) = Inr s"
  by (cases s) (simp_all add: coerce_node_state_def py_node_state_def enum_call_def
      node_state_members_def)

lemma coerce_node_state_text: "coerce_node_state (PyStr (node_state_value s)) = Inr s"
  by (cases s) (simp_all add: coerce_node_state_def enum_call_def node_state_members_def)

lemma node_state_members_eq: "map_of node_state_members x = Some s \<longleftrightarrow> x = node_state_value s"
proof
  assume "map_of node_state_members x = Some s"
  then have "(x, s) \<in> set node_state_members" by (rule map_of_SomeD)
  then show "x = node_state_value s" by (auto simp only: node_state_members_def set_simps
      insert_iff empty_iff prod.inject node_state_value.simps)
next
  assume "x = node_state_value s"
  then show "map_of node_state_members x = Some s"
    using coerce_py_node_state [of s]
    by (simp add: coerce_node_state_def py_node_state_def enum_call_def of_option_eq_Inr)
qed

lemma coerce_node_state_eq:
  "coerce_node_state v = Inr s \<longleftrightarrow> str_key v = Some (node_state_value s)"
  by (auto simp: coerce_node_state_def enum_call_def outcome bind_eq_Some_conv
      node_state_members_eq)

lemma transition_node_eq_Inr:
  "transition_node v w = Inr t \<longleftrightarrow>
     (\<exists>s. coerce_node_state v = Inr s \<and> coerce_node_state w = Inr t \<and> node_edge s t)"
  by (auto simp: transition_node_def outcome)

lemma node_edge_simps [simp]:
  "node_edge N_PENDING t \<longleftrightarrow> t \<in> {N_READY, N_FROZEN, N_INVALIDATED, N_SKIPPED}"
  "node_edge N_READY t \<longleftrightarrow> t \<in> {N_RUNNING, N_FROZEN, N_INVALIDATED, N_SKIPPED}"
  "node_edge N_RUNNING t \<longleftrightarrow> t \<in> {N_SUCCEEDED, N_FAILED, N_RETRY_WAIT, N_WAITING_APPROVAL,
     N_WAITING_RECONCILIATION, N_FROZEN}"
  "node_edge N_RETRY_WAIT t \<longleftrightarrow> t \<in> {N_READY, N_FROZEN, N_FAILED}"
  "node_edge N_WAITING_APPROVAL t \<longleftrightarrow> t \<in> {N_READY, N_FROZEN, N_FAILED}"
  "node_edge N_WAITING_RECONCILIATION t \<longleftrightarrow> t \<in> {N_SUCCEEDED, N_FAILED}"
  "node_edge N_FROZEN t \<longleftrightarrow> t \<in> {N_INVALIDATED, N_SKIPPED}"
  "\<not> node_edge N_SUCCEEDED t" "\<not> node_edge N_FAILED t"
  "\<not> node_edge N_INVALIDATED t" "\<not> node_edge N_SKIPPED t"
  by (simp_all add: node_edge_def)

definition node_final :: "node_state \<Rightarrow> bool" where
  "node_final s \<longleftrightarrow> allowed_node_transitions s = []"

lemma node_final_iff: "node_final s \<longleftrightarrow> s \<in> {N_SUCCEEDED, N_FAILED, N_INVALIDATED, N_SKIPPED}"
  by (cases s) (simp_all add: node_final_def)

interpretation node_table: transition_table node_edge node_final
  by unfold_locales (auto simp: node_final_def node_edge_def)

text \<open>
  The rank of a state falls along every edge that does not leave \<open>RUNNING\<close>: a node that is not
  claimed again can only move a bounded number of times.
\<close>

fun node_rank :: "node_state \<Rightarrow> nat" where
  "node_rank N_PENDING = 3"
| "node_rank N_RETRY_WAIT = 3"
| "node_rank N_WAITING_APPROVAL = 3"
| "node_rank N_READY = 2"
| "node_rank N_RUNNING = 0"
| "node_rank N_WAITING_RECONCILIATION = 1"
| "node_rank N_FROZEN = 1"
| "node_rank _ = 0"

lemma node_rank_edge: "node_edge s t \<Longrightarrow> s \<noteq> N_RUNNING \<Longrightarrow> node_rank t < node_rank s"
  by (cases s) auto

text \<open>A history of a node: each state and the next are joined by an edge.\<close>

fun node_path :: "node_state list \<Rightarrow> bool" where
  "node_path (s # t # ss) \<longleftrightarrow> node_edge s t \<and> node_path (t # ss)"
| "node_path _ \<longleftrightarrow> True"

lemma node_path_unclaimed_bound:
  "node_path (s # ss) \<Longrightarrow> N_RUNNING \<notin> set (butlast (s # ss)) \<Longrightarrow>
     length ss + node_rank (last (s # ss)) \<le> node_rank s"
proof (induction ss arbitrary: s)
  case (Cons t ss)
  then have "length ss + node_rank (last (t # ss)) \<le> node_rank t" by auto
  moreover have "node_rank t < node_rank s"
    using Cons.prems by (intro node_rank_edge) auto
  ultimately show ?case by simp
qed simp

lemma node_rank_le: "node_rank s \<le> 3"
  by (cases s) auto

lemma succeeded_entry: "node_edge s N_SUCCEEDED \<Longrightarrow> s = N_RUNNING \<or> s = N_WAITING_RECONCILIATION"
  by (cases s) auto

lemma waiting_reconciliation_entry: "node_edge s N_WAITING_RECONCILIATION \<Longrightarrow> s = N_RUNNING"
  by (cases s) auto

lemma node_path_snoc:
  "ss \<noteq> [] \<Longrightarrow> node_path (ss @ [t]) \<longleftrightarrow> node_path ss \<and> node_edge (last ss) t"
  by (induction ss rule: node_path.induct) auto

lemma node_path_needs_claim:
  assumes "node_path ss" and "ss \<noteq> []"
    and "hd ss \<notin> {N_RUNNING, N_WAITING_RECONCILIATION, N_SUCCEEDED}"
    and "last ss \<in> {N_RUNNING, N_WAITING_RECONCILIATION, N_SUCCEEDED}"
  shows "N_RUNNING \<in> set ss"
  using assms
proof (induction ss rule: rev_induct)
  case (snoc t ss)
  show ?case
  proof (cases "ss = []")
    case True
    then show ?thesis using snoc.prems by auto
  next
    case False
    then have "node_path ss" "node_edge (last ss) t" using snoc.prems by (auto simp: node_path_snoc)
    moreover have "last ss \<in> {N_RUNNING, N_WAITING_RECONCILIATION} \<or> t = N_RUNNING"
      using snoc.prems(4) \<open>node_edge (last ss) t\<close>
      by (auto dest: succeeded_entry waiting_reconciliation_entry)
    ultimately show ?thesis using snoc False by (auto simp: hd_append)
  qed
qed simp

subsection \<open>The inbox and application tables\<close>

datatype event_transition_error = EventStateTransitionError

fun inbox_transitions :: "inbox_state \<Rightarrow> inbox_state list" where
  "inbox_transitions I_RECEIVED = [I_VERIFIED, I_CONFLICT, I_FAILED]"
| "inbox_transitions I_VERIFIED = [I_PROCESSING, I_CONFLICT, I_WAITING_HUMAN, I_FAILED]"
| "inbox_transitions I_CONFLICT = [I_WAITING_HUMAN, I_FAILED]"
| "inbox_transitions I_PROCESSING = [I_VERIFIED, I_CONFLICT, I_WAITING_HUMAN, I_APPLIED, I_FAILED]"
| "inbox_transitions I_WAITING_HUMAN = [I_VERIFIED, I_APPLIED, I_FAILED]"
| "inbox_transitions I_APPLIED = []"
| "inbox_transitions I_FAILED = []"

fun application_transitions :: "app_state \<Rightarrow> app_state list" where
  "application_transitions A_PENDING = [A_FREEZING, A_WAITING_RECONCILIATION, A_FAILED]"
| "application_transitions A_FREEZING =
     [A_EMERGENCY_RUNNING, A_WAITING_RECONCILIATION, A_FAILED]"
| "application_transitions A_EMERGENCY_RUNNING =
     [A_WAITING_RECONCILIATION, A_REPLAN_READY, A_FAILED]"
| "application_transitions A_WAITING_RECONCILIATION =
     [A_EMERGENCY_RUNNING, A_REPLAN_READY, A_FAILED]"
| "application_transitions A_REPLAN_READY = [A_APPLIED, A_FAILED]"
| "application_transitions A_APPLIED = []"
| "application_transitions A_FAILED = []"

definition assert_inbox_transition ::
  "inbox_state \<Rightarrow> inbox_state \<Rightarrow> event_transition_error + unit" where
  "assert_inbox_transition current target =
     guard (target \<in> set (inbox_transitions current)) EventStateTransitionError"

definition assert_application_transition ::
  "app_state \<Rightarrow> app_state \<Rightarrow> event_transition_error + unit" where
  "assert_application_transition current target =
     guard (target \<in> set (application_transitions current)) EventStateTransitionError"

definition inbox_edge :: "inbox_state \<Rightarrow> inbox_state \<Rightarrow> bool" where
  "inbox_edge s t \<longleftrightarrow> assert_inbox_transition s t = Inr ()"

definition application_edge :: "app_state \<Rightarrow> app_state \<Rightarrow> bool" where
  "application_edge s t \<longleftrightarrow> assert_application_transition s t = Inr ()"

lemma inbox_edge_iff: "inbox_edge s t \<longleftrightarrow> t \<in> set (inbox_transitions s)"
  by (simp add: inbox_edge_def assert_inbox_transition_def guard_eq_Inr)

lemma application_edge_iff: "application_edge s t \<longleftrightarrow> t \<in> set (application_transitions s)"
  by (simp add: application_edge_def assert_application_transition_def guard_eq_Inr)

interpretation inbox_table: transition_table inbox_edge "\<lambda>s. s = I_APPLIED \<or> s = I_FAILED"
  by unfold_locales (auto simp: inbox_edge_iff)

interpretation application_table:
  transition_table application_edge "\<lambda>s. s = A_APPLIED \<or> s = A_FAILED"
  by unfold_locales (auto simp: application_edge_iff)

text \<open>
  An application is applied only from \<open>REPLAN_READY\<close>, and it never returns to a phase before the
  emergency: \<open>PENDING\<close> and \<open>FREEZING\<close> are left for good.
\<close>

fun application_phase :: "app_state \<Rightarrow> nat" where
  "application_phase A_PENDING = 0"
| "application_phase A_FREEZING = 1"
| "application_phase A_EMERGENCY_RUNNING = 2"
| "application_phase A_WAITING_RECONCILIATION = 2"
| "application_phase A_REPLAN_READY = 3"
| "application_phase A_APPLIED = 4"
| "application_phase A_FAILED = 4"

lemma application_phase_mono: "application_edge s t \<Longrightarrow> application_phase s \<le> application_phase t"
  by (cases s) (auto simp: application_edge_iff)

lemma application_phase_steps:
  "steps application_edge s t \<Longrightarrow> application_phase s \<le> application_phase t"
  by (induction rule: steps.induct) (auto dest: application_phase_mono)

lemma application_applied_entry: "application_edge s A_APPLIED \<Longrightarrow> s = A_REPLAN_READY"
  by (cases s) (auto simp: application_edge_iff)

end
