(* ===== verification/PlanModels.thy ===== *)
theory PlanModels
  imports StateMachines
begin

section \<open>Candidate plans: bindings, nodes, proposals and the cycle check\<close>

text \<open>
  The validated value objects of \<open>src/plan_engine/models.py\<close>. A validator takes the fields as
  the caller supplies them and returns the frozen object or the reason it was refused. The field
  constraints (\<open>min_length\<close>, \<open>ge\<close>) are checked first, then the field validators, then the model
  validator; pydantic reports one \<open>ValidationError\<close> whichever of them fails, here split by reason.

  \<open>raise_if_cycle\<close> is the depth-first search of \<open>_raise_if_cycle\<close> with its two sets: \<open>visiting\<close>,
  the path from the root to the current node, and \<open>visited\<close>, the finished nodes. The lemmas show
  that it refuses exactly the dependency graphs with a cycle.
\<close>

subsection \<open>Input bindings\<close>

datatype validation_error =
    FieldInvalid | ShapeInvalid | SnapshotInvalid | IdentityMismatch | EmptyDag | DuplicateKey
  | UnknownDependency | UndeclaredUpstream | CycleFound | MissingKey

datatype path_part = Key string | Index int

record input_binding =
  ib_kind :: binding_kind
  ib_path :: "path_part list"
  ib_upstream :: "string option"
  ib_literal :: json

text \<open>
  A part of a path after pydantic's lax coercion to \<open>str | int\<close>, which runs before the field validator:
  a bool becomes 0 or 1, a float without a fraction the integer it stands for when that fits 64 bits.
  So the validator's test for bools never sees one. \<open>bytes\<close> and \<open>Decimal\<close>, which pydantic coerces
  as well, are the opaque \<open>PyOther\<close> here and are refused.
\<close>

definition freeze_index :: "int \<Rightarrow> validation_error + path_part" where
  "freeze_index i = (if i < 0 then Inl FieldInvalid else Inr (Index i))"

definition float_as_int :: "rat \<Rightarrow> int option" where
  "float_as_int v =
     (if v = of_int \<lfloor>v\<rfloor> \<and> - (2 ^ 63) < \<lfloor>v\<rfloor> \<and> \<lfloor>v\<rfloor> < 2 ^ 63 then Some \<lfloor>v\<rfloor> else None)"

fun freeze_path_part :: "pyval \<Rightarrow> validation_error + path_part" where
  "freeze_path_part (PyStr s) = (if s = '''' then Inl FieldInvalid else Inr (Key s))"
| "freeze_path_part (PyStrSub s) = (if s = '''' then Inl FieldInvalid else Inr (Key s))"
| "freeze_path_part (PyInt i) = freeze_index i"
| "freeze_path_part (PyBool b) = freeze_index (if b then 1 else 0)"
| "freeze_path_part (PyFloat (Finite v _)) = (case float_as_int v of
     None \<Rightarrow> Inl FieldInvalid | Some i \<Rightarrow> freeze_index i)"
| "freeze_path_part _ = Inl FieldInvalid"

definition min_length_1 :: "string option \<Rightarrow> bool" where
  "min_length_1 s \<longleftrightarrow> s \<noteq> Some ''''"

definition freeze_json_field :: "pyval \<Rightarrow> validation_error + json" where
  "freeze_json_field v = (case freeze_json v of Inl _ \<Rightarrow> Inl FieldInvalid | Inr j \<Rightarrow> Inr j)"

definition validate_source_shape :: "input_binding \<Rightarrow> validation_error + input_binding" where
  "validate_source_shape b =
     rbind (guard (\<not> (ib_kind b = B_NODE_OUTPUT \<and> ib_upstream b \<in> {None, Some ''''}))
       ShapeInvalid) (\<lambda>_.
     rbind (guard (\<not> (ib_kind b \<noteq> B_NODE_OUTPUT \<and> ib_upstream b \<noteq> None)) ShapeInvalid) (\<lambda>_.
     rbind (guard (\<not> (ib_kind b = B_LITERAL \<and> ib_path b \<noteq> [])) ShapeInvalid) (\<lambda>_.
     rbind (guard (\<not> (ib_kind b \<noteq> B_LITERAL \<and> ib_literal b \<noteq> JNull)) ShapeInvalid) (\<lambda>_.
     Inr b))))"

definition input_binding_create ::
  "binding_kind \<Rightarrow> pyval list \<Rightarrow> string option \<Rightarrow> pyval \<Rightarrow> validation_error + input_binding" where
  "input_binding_create kind path upstream literal =
     rbind (guard (min_length_1 upstream) FieldInvalid) (\<lambda>_.
     rbind (rmap freeze_path_part path) (\<lambda>parts.
     rbind (freeze_json_field literal) (\<lambda>lit.
     validate_source_shape \<lparr>ib_kind = kind, ib_path = parts, ib_upstream = upstream,
       ib_literal = lit\<rparr>)))"

text \<open>The shape every accepted binding has.\<close>

definition path_part_ok :: "path_part \<Rightarrow> bool" where
  "path_part_ok p = (case p of Key s \<Rightarrow> s \<noteq> '''' | Index i \<Rightarrow> 0 \<le> i)"

definition binding_wf :: "input_binding \<Rightarrow> bool" where
  "binding_wf b \<longleftrightarrow> list_all path_part_ok (ib_path b)
     \<and> (case ib_kind b of
          B_PLAN_INPUT \<Rightarrow> ib_upstream b = None \<and> ib_literal b = JNull
        | B_NODE_OUTPUT \<Rightarrow> (\<exists>u. ib_upstream b = Some u \<and> u \<noteq> '''') \<and> ib_literal b = JNull
        | B_LITERAL \<Rightarrow> ib_upstream b = None \<and> ib_path b = [])"

lemma freeze_index_ok: "freeze_index i = Inr p \<Longrightarrow> path_part_ok p"
  by (auto simp: freeze_index_def path_part_ok_def split: if_splits)

lemma freeze_path_part_ok: "freeze_path_part v = Inr p \<Longrightarrow> path_part_ok p"
  by (cases v rule: freeze_path_part.cases)
    (auto simp: path_part_ok_def dest: freeze_index_ok split: if_splits option.splits)

lemma rmap_list_all:
  "rmap f xs = Inr ys \<Longrightarrow> (\<And>x y. f x = Inr y \<Longrightarrow> P y) \<Longrightarrow> list_all P ys"
  by (induction xs arbitrary: ys) (auto simp: outcome)

lemma input_binding_create_wf:
  "input_binding_create k path up lit = Inr b \<Longrightarrow> binding_wf b"
  unfolding input_binding_create_def validate_source_shape_def binding_wf_def
  by (cases k) (auto simp: outcome elim!: rmap_list_all intro: freeze_path_part_ok)

text \<open>
  \<open>InputBinding.model_validate\<close> of the dump of a binding: every field goes through its validators
  again. It accepts a binding exactly when the binding is well formed, and gives it back.
\<close>

fun path_part_py :: "path_part \<Rightarrow> pyval" where
  "path_part_py (Key s) = PyStr s"
| "path_part_py (Index i) = PyInt i"

definition revalidate_binding :: "input_binding \<Rightarrow> validation_error + input_binding" where
  "revalidate_binding b = input_binding_create (ib_kind b) (map path_part_py (ib_path b)) (ib_upstream b)
     (py_of_json (ib_literal b))"

lemma freeze_path_part_py:
  "freeze_path_part (path_part_py p) = (if path_part_ok p then Inr p else Inl FieldInvalid)"
  by (cases p) (auto simp: path_part_ok_def freeze_index_def)

lemma rmap_freeze_path_py:
  "rmap freeze_path_part (map path_part_py ps) = (if list_all path_part_ok ps then Inr ps else Inl FieldInvalid)"
  by (induction ps) (auto simp: freeze_path_part_py)

lemma freeze_json_field_of_json [simp]: "freeze_json_field (py_of_json j) = Inr j"
  by (simp add: freeze_json_field_def)

lemma revalidate_binding_eq_Inr: "revalidate_binding b = Inr c \<longleftrightarrow> c = b \<and> binding_wf b"
proof (cases "list_all path_part_ok (ib_path b)")
  case True
  then have "revalidate_binding b = Inr c \<longleftrightarrow>
      rbind (guard (min_length_1 (ib_upstream b)) FieldInvalid) (\<lambda>_. validate_source_shape b) = Inr c"
    by (cases b) (simp add: revalidate_binding_def input_binding_create_def rmap_freeze_path_py)
  then show ?thesis
    using True
    by (cases "ib_kind b"; cases "ib_upstream b")
      (auto simp: validate_source_shape_def binding_wf_def min_length_1_def outcome)
next
  case False
  then show ?thesis
    by (auto simp: revalidate_binding_def input_binding_create_def rmap_freeze_path_py binding_wf_def outcome)
qed

subsection \<open>Candidate nodes\<close>

record candidate_node =
  cn_logical_key :: string
  cn_node_kind :: node_kind
  cn_skill_id :: "string option"
  cn_depends_on :: "string list"
  cn_input_bindings :: "(string, input_binding) dict"

definition freeze_dependencies :: "string list \<Rightarrow> validation_error + string list" where
  "freeze_dependencies ds =
     rbind (guard (list_all (\<lambda>d. d \<noteq> '''') ds) FieldInvalid) (\<lambda>_.
     rbind (guard (distinct ds) FieldInvalid) (\<lambda>_. Inr ds))"

definition freeze_bindings ::
  "(string, input_binding) dict \<Rightarrow> validation_error + (string, input_binding) dict" where
  "freeze_bindings bs =
     rbind (guard (list_all (\<lambda>k. k \<noteq> '''') (dkeys bs)) FieldInvalid) (\<lambda>_. Inr bs)"

definition validate_node_kind :: "candidate_node \<Rightarrow> validation_error + candidate_node" where
  "validate_node_kind n =
     rbind (guard (\<not> (cn_node_kind n = K_CONTROL \<and> cn_skill_id n \<noteq> None)) ShapeInvalid) (\<lambda>_.
     rbind (guard (\<not> (cn_node_kind n = K_SKILL \<and> cn_skill_id n \<in> {None, Some ''''}))
       ShapeInvalid) (\<lambda>_. Inr n))"

definition revalidate_bindings ::
  "(string, input_binding) dict \<Rightarrow> validation_error + (string, input_binding) dict" where
  "revalidate_bindings bs = rmap (\<lambda>(k, b). rbind (revalidate_binding b) (\<lambda>b'. Inr (k, b'))) bs"

text \<open>
  \<open>CandidatePlanNode.model_validate(node.model_dump())\<close>, the form in which a proposal builds its nodes:
  the bindings of the dump are plain data, so each is validated as an \<open>InputBinding\<close> before
  \<open>_freeze_bindings\<close> looks at the parameter names.
\<close>

definition candidate_plan_node :: "candidate_node \<Rightarrow> validation_error + candidate_node" where
  "candidate_plan_node n =
     rbind (guard (cn_logical_key n \<noteq> '''' \<and> min_length_1 (cn_skill_id n)) FieldInvalid) (\<lambda>_.
     rbind (freeze_dependencies (cn_depends_on n)) (\<lambda>ds.
     rbind (revalidate_bindings (cn_input_bindings n)) (\<lambda>bs.
     rbind (freeze_bindings bs) (\<lambda>frozen.
     validate_node_kind (n\<lparr>cn_depends_on := ds, cn_input_bindings := frozen\<rparr>)))))"

lemma revalidate_bindings_eq_Inr:
  "revalidate_bindings bs = Inr cs \<longleftrightarrow> cs = bs \<and> list_all (\<lambda>(k, b). binding_wf b) bs"
proof (induction bs arbitrary: cs)
  case (Cons e bs)
  have "revalidate_bindings (e # bs) = Inr cs \<longleftrightarrow>
      (\<exists>c ds. revalidate_binding (snd e) = Inr c \<and> revalidate_bindings bs = Inr ds \<and> cs = (fst e, c) # ds)"
    by (cases e) (auto simp: revalidate_bindings_def outcome)
  then show ?case by (cases e) (auto simp: Cons revalidate_binding_eq_Inr)
qed (auto simp: revalidate_bindings_def)

lemma freeze_dependencies_eq_Inr:
  "freeze_dependencies ds = Inr es \<longleftrightarrow> es = ds \<and> '''' \<notin> set ds \<and> distinct ds"
  by (auto simp: freeze_dependencies_def outcome list_all_iff)

lemma freeze_bindings_eq_Inr:
  "freeze_bindings bs = Inr cs \<longleftrightarrow> cs = bs \<and> '''' \<notin> set (dkeys bs)"
  by (auto simp: freeze_bindings_def outcome list_all_iff simp del: set_map)

lemma validate_node_kind_eq_Inr:
  "validate_node_kind n = Inr m \<longleftrightarrow> m = n \<and> (case cn_node_kind n of
       K_CONTROL \<Rightarrow> cn_skill_id n = None
     | K_SKILL \<Rightarrow> (\<exists>s. cn_skill_id n = Some s \<and> s \<noteq> ''''))"
  by (cases "cn_node_kind n"; cases "cn_skill_id n") (auto simp: validate_node_kind_def outcome)

text \<open>The nodes that are accepted, and that they are kept as they are.\<close>

lemma candidate_plan_node_eq_Inr:
  "candidate_plan_node n = Inr m \<longleftrightarrow>
     m = n \<and> cn_logical_key n \<noteq> '''' \<and> '''' \<notin> set (cn_depends_on n) \<and> distinct (cn_depends_on n)
     \<and> '''' \<notin> set (dkeys (cn_input_bindings n))
     \<and> list_all (\<lambda>(k, b). binding_wf b) (cn_input_bindings n)
     \<and> (case cn_node_kind n of
          K_CONTROL \<Rightarrow> cn_skill_id n = None
        | K_SKILL \<Rightarrow> (\<exists>s. cn_skill_id n = Some s \<and> s \<noteq> ''''))"
proof -
  have same: "n\<lparr>cn_depends_on := cn_depends_on n, cn_input_bindings := cn_input_bindings n\<rparr> = n" by simp
  have "candidate_plan_node n = Inr m \<longleftrightarrow> m = n \<and> cn_logical_key n \<noteq> '''' \<and> min_length_1 (cn_skill_id n)
      \<and> '''' \<notin> set (cn_depends_on n) \<and> distinct (cn_depends_on n)
      \<and> '''' \<notin> set (dkeys (cn_input_bindings n))
      \<and> list_all (\<lambda>(k, b). binding_wf b) (cn_input_bindings n)
      \<and> validate_node_kind n = Inr n"
    by (simp add: candidate_plan_node_def rbind_eq_Inr freeze_dependencies_eq_Inr freeze_bindings_eq_Inr
      revalidate_bindings_eq_Inr guard_eq_Inr same validate_node_kind_eq_Inr del: set_map cong: conj_cong)
     blast
  then show ?thesis
    by (cases "cn_node_kind n"; cases "cn_skill_id n") (auto simp: validate_node_kind_eq_Inr min_length_1_def simp del: set_map)
qed

lemma candidate_plan_node_id: "candidate_plan_node n = Inr m \<Longrightarrow> m = n"
  by (simp add: candidate_plan_node_eq_Inr)

subsection \<open>The cycle check\<close>

datatype dag_error = Cycle | MissingNode string

lemma rbind_cong [fundef_cong]:
  "r = r' \<Longrightarrow> (\<And>x. r' = Inr x \<Longrightarrow> f x = g x) \<Longrightarrow> rbind r f = rbind r' g"
  by (cases r') auto

type_synonym deps = "(string, string list) dict"

function (sequential) visit :: "deps \<Rightarrow> string list \<Rightarrow> string list \<Rightarrow> string \<Rightarrow> dag_error + string list"
  and visit_all :: "deps \<Rightarrow> string list \<Rightarrow> string list \<Rightarrow> string list \<Rightarrow> dag_error + string list" where
  "visit D visiting visited k =
     (if k \<in> set visiting then Inl Cycle
      else if k \<in> set visited then Inr visited
      else case dget D k of
             None \<Rightarrow> Inl (MissingNode k)
           | Some ds \<Rightarrow> rbind (visit_all D (k # visiting) visited ds) (\<lambda>fin. Inr (k # fin)))"
| "visit_all D visiting visited [] = Inr visited"
| "visit_all D visiting visited (d # ds) =
     rbind (visit D visiting visited d) (\<lambda>fin. visit_all D visiting fin ds)"
  by pat_completeness auto

termination
proof (relation "measures [\<lambda>x. case x of
      Inl (D, visiting, visited, k) \<Rightarrow> card (set (dkeys D) - set visiting)
    | Inr (D, visiting, visited, ds) \<Rightarrow> card (set (dkeys D) - set visiting),
    \<lambda>x. case x of Inl (D, visiting, visited, k) \<Rightarrow> 0 | Inr (D, visiting, visited, ds) \<Rightarrow> Suc (length ds)]",
    goal_cases)
  case (2 D visiting visited k ds)
  then have "k \<in> set (dkeys D) - set visiting" by (auto dest: dget_SomeD)
  then have "card (set (dkeys D) - set (k # visiting)) < card (set (dkeys D) - set visiting)"
    by (intro psubset_card_mono) auto
  then show ?case by simp
qed auto

declare visit.simps [simp del]

definition node_deps :: "candidate_node list \<Rightarrow> deps" where
  "node_deps ns = fold (\<lambda>n. dset (cn_logical_key n) (cn_depends_on n)) ns []"

definition raise_if_cycle :: "candidate_node list \<Rightarrow> dag_error + unit" where
  "raise_if_cycle ns =
     rbind (visit_all (node_deps ns) [] [] (map cn_logical_key ns)) (\<lambda>_. Inr ())"

subsubsection \<open>What the search computes\<close>

definition dep_rel :: "deps \<Rightarrow> (string \<times> string) set" where
  "dep_rel D = {(k, d). \<exists>ds. dget D k = Some ds \<and> d \<in> set ds}"

text \<open>Finished nodes, newest first: every dependency finished earlier.\<close>

fun topo :: "deps \<Rightarrow> string list \<Rightarrow> bool" where
  "topo D [] \<longleftrightarrow> True"
| "topo D (k # fin) \<longleftrightarrow>
     topo D fin \<and> (\<exists>ds. dget D k = Some ds \<and> set ds \<subseteq> set fin)"

text \<open>The current path: each entry is a dependency of the one that follows.\<close>

fun dep_path :: "deps \<Rightarrow> string list \<Rightarrow> bool" where
  "dep_path D (d # k # ks) \<longleftrightarrow> (k, d) \<in> dep_rel D \<and> dep_path D (k # ks)"
| "dep_path D _ \<longleftrightarrow> True"

definition closed_deps :: "deps \<Rightarrow> bool" where
  "closed_deps D \<longleftrightarrow> list_all (\<lambda>(k, ds). set ds \<subseteq> set (dkeys D)) D"

lemma closed_depsD: "closed_deps D \<Longrightarrow> dget D k = Some ds \<Longrightarrow> set ds \<subseteq> set (dkeys D)"
  by (force simp: closed_deps_def list_all_iff dest: map_of_SomeD)

lemma dep_path_reaches:
  "dep_path D (d # ks) \<Longrightarrow> k \<in> set ks \<Longrightarrow> (k, d) \<in> (dep_rel D)\<^sup>+"
proof (induction ks arbitrary: d)
  case (Cons k' ks)
  then have edge: "(k', d) \<in> dep_rel D" and path: "dep_path D (k' # ks)" by auto
  show ?case
  proof (cases "k = k'")
    case False
    then have "(k, k') \<in> (dep_rel D)\<^sup>+" using Cons path by auto
    then show ?thesis using edge by (rule trancl_into_trancl)
  qed (use edge in auto)
qed simp

lemma visit_topo:
  "visit D visiting visited k = Inr fin \<Longrightarrow> topo D visited \<Longrightarrow>
     topo D fin \<and> set visited \<subseteq> set fin \<and> k \<in> set fin"
  "visit_all D visiting visited ds = Inr fin \<Longrightarrow> topo D visited \<Longrightarrow>
     topo D fin \<and> set visited \<subseteq> set fin \<and> set ds \<subseteq> set fin"
proof (induction D visiting visited k and D visiting visited ds arbitrary: fin and fin
    rule: visit_visit_all.induct)
  case (1 D visiting visited k)
  note run = 1(2) [unfolded visit.simps [of D visiting visited k]]
  show ?case
  proof (cases "k \<in> set visited")
    case True
    then show ?thesis using run 1(3) by (simp split: if_splits)
  next
    case False
    then obtain ds fin' where "k \<notin> set visiting" "dget D k = Some ds"
      "visit_all D (k # visiting) visited ds = Inr fin'" "fin = k # fin'"
      using run by (auto simp: outcome split: if_splits option.splits)
    with False 1(1,3) show ?thesis by fastforce
  qed
next
  case (3 D visiting visited d ds)
  then obtain fin' where "visit D visiting visited d = Inr fin'"
    "visit_all D visiting fin' ds = Inr fin" by (auto simp: outcome)
  with 3 show ?case by fastforce
qed auto

lemma topo_acyclic: "topo D fin \<Longrightarrow> (k, k) \<in> (dep_rel D)\<^sup>+ \<Longrightarrow> k \<notin> set fin"
proof (induction fin arbitrary: k)
  case (Cons a fin)
  show ?case
  proof
    assume k: "k \<in> set (a # fin)"
    have "k \<notin> set fin" using Cons by simp
    then have "k = a" using k by simp
    obtain d where d: "(k, d) \<in> dep_rel D" "(d, k) \<in> (dep_rel D)\<^sup>*"
      using Cons.prems(2) by (auto dest: tranclD)
    then have "d \<in> set fin" using Cons.prems(1) \<open>k = a\<close> by (auto simp: dep_rel_def)
    moreover have "(d, d) \<in> (dep_rel D)\<^sup>+" using d by (rule_tac rtrancl_into_trancl1)
    ultimately show False using Cons by simp
  qed
qed simp

lemma visit_error:
  "visit D visiting visited k = Inl e \<Longrightarrow> dep_path D (k # visiting) \<Longrightarrow> closed_deps D \<Longrightarrow>
     k \<in> set (dkeys D) \<Longrightarrow> e = Cycle \<and> (\<exists>c. (c, c) \<in> (dep_rel D)\<^sup>+)"
  "visit_all D visiting visited ds = Inl e \<Longrightarrow> (\<forall>d\<in>set ds. dep_path D (d # visiting)) \<Longrightarrow>
     closed_deps D \<Longrightarrow> set ds \<subseteq> set (dkeys D) \<Longrightarrow> e = Cycle \<and> (\<exists>c. (c, c) \<in> (dep_rel D)\<^sup>+)"
proof (induction D visiting visited k and D visiting visited ds
    rule: visit_visit_all.induct)
  case (1 D visiting visited k)
  note run = 1(2) [unfolded visit.simps [of D visiting visited k]]
  show ?case
  proof (cases "k \<in> set visiting")
    case True
    then show ?thesis using run dep_path_reaches [OF 1(3)] by auto
  next
    case False
    then obtain ds where ds: "k \<notin> set visited" "dget D k = Some ds"
      "visit_all D (k # visiting) visited ds = Inl e"
      using run 1(5) by (auto simp: outcome dget_None_iff split: if_splits option.splits)
    moreover have "\<forall>d\<in>set ds. dep_path D (d # k # visiting)"
      using ds(2) 1(3) by (auto simp: dep_rel_def)
    ultimately show ?thesis
      using 1(1) False 1(4) closed_depsD [OF 1(4) ds(2)] by blast
  qed
next
  case (3 D visiting visited d ds)
  then show ?case by (auto simp: outcome)
qed auto

lemma search_refuses_exactly_cycles:
  assumes "closed_deps D"
  shows "(visit_all D [] [] (dkeys D) = Inl Cycle \<longleftrightarrow> (\<exists>k. (k, k) \<in> (dep_rel D)\<^sup>+))
       \<and> (\<forall>k. visit_all D [] [] (dkeys D) \<noteq> Inl (MissingNode k))"
proof (cases "visit_all D [] [] (dkeys D)")
  case (Inl e)
  then show ?thesis using visit_error(2) [OF Inl _ assms] by auto
next
  case (Inr fin)
  then have "topo D fin" "set (dkeys D) \<subseteq> set fin" using visit_topo(2) [OF Inr] by auto
  moreover have "k \<in> set (dkeys D)" if "(k, k) \<in> (dep_rel D)\<^sup>+" for k
  proof -
    obtain d where "(k, d) \<in> dep_rel D" using \<open>(k, k) \<in> (dep_rel D)\<^sup>+\<close> by (auto dest: tranclD)
    then show ?thesis by (auto simp: dep_rel_def simp del: set_map dest: dget_SomeD)
  qed
  ultimately have "\<nexists>k. (k, k) \<in> (dep_rel D)\<^sup>+" using topo_acyclic by blast
  then show ?thesis using Inr by simp
qed

subsection \<open>Candidate proposals\<close>

record candidate_proposal =
  cp_provider_id :: string
  cp_provider_version :: string
  cp_nodes :: "candidate_node list"

text \<open>
  The pattern \<open>^\d+\.\d+\.\d+$\<close> on ASCII digits; decimal digits of other scripts, which \<open>\d\<close> also
  matches, are outside the model.
\<close>

definition is_digit :: "char \<Rightarrow> bool" where
  "is_digit c \<longleftrightarrow> c \<in> set ''0123456789''"

definition drop_digits :: "string \<Rightarrow> string option" where
  "drop_digits s = (if s \<noteq> '''' \<and> is_digit (hd s) then Some (dropWhile is_digit s) else None)"

definition drop_dot :: "string \<Rightarrow> string option" where
  "drop_dot s = (case s of c # r \<Rightarrow> if c = CHR ''.'' then Some r else None | [] \<Rightarrow> None)"

definition semantic_version :: "string \<Rightarrow> bool" where
  "semantic_version s =
     (Option.bind (Option.bind (Option.bind (Option.bind (drop_digits s) drop_dot) drop_digits)
        drop_dot) drop_digits = Some '''')"

definition known_upstreams :: "candidate_node \<Rightarrow> bool" where
  "known_upstreams n \<longleftrightarrow>
     list_all (\<lambda>b. ib_kind b = B_NODE_OUTPUT \<longrightarrow>
                   (case ib_upstream b of None \<Rightarrow> False | Some u \<Rightarrow> u \<in> set (cn_depends_on n)))
       (dvalues (cn_input_bindings n))"

fun check_nodes :: "string list \<Rightarrow> candidate_node list \<Rightarrow> validation_error + unit" where
  "check_nodes known [] = Inr ()"
| "check_nodes known (n # ns) =
     rbind (guard (set (cn_depends_on n) \<subseteq> set known) UnknownDependency) (\<lambda>_.
     rbind (guard (known_upstreams n) UndeclaredUpstream) (\<lambda>_.
     check_nodes known ns))"

definition cycle_as_validation :: "dag_error + unit \<Rightarrow> validation_error + unit" where
  "cycle_as_validation r = (case r of
       Inl Cycle \<Rightarrow> Inl CycleFound | Inl (MissingNode _) \<Rightarrow> Inl MissingKey | Inr u \<Rightarrow> Inr u)"

definition validate_dag :: "candidate_proposal \<Rightarrow> validation_error + candidate_proposal" where
  "validate_dag p =
     rbind (guard (cp_nodes p \<noteq> []) EmptyDag) (\<lambda>_.
     rbind (rmap candidate_plan_node (cp_nodes p)) (\<lambda>ns.
     rbind (guard (distinct (map cn_logical_key ns)) DuplicateKey) (\<lambda>_.
     rbind (check_nodes (map cn_logical_key ns) ns) (\<lambda>_.
     rbind (cycle_as_validation (raise_if_cycle ns)) (\<lambda>_.
     Inr (p\<lparr>cp_nodes := ns\<rparr>))))))"

definition candidate_plan_proposal ::
  "candidate_proposal \<Rightarrow> validation_error + candidate_proposal" where
  "candidate_plan_proposal p =
     rbind (guard (cp_provider_id p \<noteq> '''' \<and> semantic_version (cp_provider_version p)) FieldInvalid)
       (\<lambda>_. validate_dag p)"

subsubsection \<open>What an accepted proposal is\<close>

lemma rmap_eq_id:
  assumes "\<And>x y. f x = Inr y \<Longrightarrow> y = x"
  shows "rmap f xs = Inr ys \<longleftrightarrow> ys = xs \<and> (\<forall>x\<in>set xs. f x = Inr x)"
proof (induction xs arbitrary: ys)
  case (Cons x xs)
  show ?case
    using assms [of x] by (cases "f x") (auto simp: outcome Cons)
qed auto

lemma check_nodes_eq_Inr:
  "check_nodes known ns = Inr u \<longleftrightarrow>
     (\<forall>n\<in>set ns. set (cn_depends_on n) \<subseteq> set known \<and> known_upstreams n)"
  by (induction ns) (auto simp: outcome)

lemma node_deps_distinct:
  assumes "distinct (map cn_logical_key ns)"
  shows "node_deps ns = map (\<lambda>n. (cn_logical_key n, cn_depends_on n)) ns"
proof -
  have "fold (\<lambda>n. dset (cn_logical_key n) (cn_depends_on n)) ns d =
      d @ map (\<lambda>n. (cn_logical_key n, cn_depends_on n)) ns"
    if "distinct (map cn_logical_key ns)" and "\<forall>n\<in>set ns. cn_logical_key n \<notin> set (dkeys d)" for d
    using that
  proof (induction ns arbitrary: d)
    case (Cons n ns)
    then have "dget d (cn_logical_key n) = None" by (simp add: dget_None_iff)
    moreover have "\<forall>m\<in>set ns. cn_logical_key m \<notin>
        set (dkeys (d @ [(cn_logical_key n, cn_depends_on n)]))"
      using Cons.prems by (auto simp del: set_map) (auto simp: rev_image_eqI)
    ultimately show ?case
      using Cons.IH [of "d @ [(cn_logical_key n, cn_depends_on n)]"] Cons.prems(1)
      by (simp add: dset_fresh)
  qed simp
  from this [OF assms, of "[]"] show ?thesis by (simp add: node_deps_def)
qed

text \<open>The dependency relation of a set of nodes, read off the nodes themselves.\<close>

definition depends :: "candidate_node list \<Rightarrow> (string \<times> string) set" where
  "depends ns = {(cn_logical_key n, d) | n d. n \<in> set ns \<and> d \<in> set (cn_depends_on n)}"

lemma dep_rel_node_deps:
  assumes "distinct (map cn_logical_key ns)"
  shows "dep_rel (node_deps ns) = depends ns"
proof -
  have "dget (node_deps ns) k = Some ds \<longleftrightarrow>
      (\<exists>n\<in>set ns. cn_logical_key n = k \<and> cn_depends_on n = ds)" for k ds
    using assms by (auto simp: node_deps_distinct comp_def)
  then show ?thesis by (auto simp: dep_rel_def depends_def)
qed

lemma raise_if_cycle_iff:
  assumes dist: "distinct (map cn_logical_key ns)"
    and closed: "\<forall>n\<in>set ns. set (cn_depends_on n) \<subseteq> set (map cn_logical_key ns)"
  shows "raise_if_cycle ns = Inr () \<longleftrightarrow> acyclic (depends ns)"
    and "raise_if_cycle ns \<noteq> Inl (MissingNode k)"
proof -
  have keys: "dkeys (node_deps ns) = map cn_logical_key ns"
    using dist by (simp add: node_deps_distinct comp_def)
  have "closed_deps (node_deps ns)"
    using closed by (auto simp: closed_deps_def node_deps_distinct [OF dist] list_all_iff comp_def)
  note search = search_refuses_exactly_cycles [OF this, unfolded keys dep_rel_node_deps [OF dist]]
  show "raise_if_cycle ns = Inr () \<longleftrightarrow> acyclic (depends ns)"
  proof (cases "visit_all (node_deps ns) [] [] (map cn_logical_key ns)")
    case (Inl e)
    then show ?thesis using search by (cases e) (auto simp: raise_if_cycle_def acyclic_def)
  qed (use search in \<open>auto simp: raise_if_cycle_def acyclic_def\<close>)
  show "raise_if_cycle ns \<noteq> Inl (MissingNode k)"
    using search by (auto simp: raise_if_cycle_def outcome)
qed

lemma cycle_as_validation_eq_Inr: "cycle_as_validation r = Inr u \<longleftrightarrow> r = Inr ()"
  by (auto simp: cycle_as_validation_def split: sum.splits dag_error.splits)

lemma validate_dag_eq_Inr:
  "validate_dag p = Inr q \<longleftrightarrow>
     q = p \<and> cp_nodes p \<noteq> [] \<and> distinct (map cn_logical_key (cp_nodes p))
     \<and> (\<forall>n\<in>set (cp_nodes p). candidate_plan_node n = Inr n)
     \<and> (\<forall>n\<in>set (cp_nodes p). set (cn_depends_on n) \<subseteq> set (map cn_logical_key (cp_nodes p))
          \<and> known_upstreams n)
     \<and> acyclic (depends (cp_nodes p))"
proof -
  have "validate_dag p = Inr q \<longleftrightarrow>
     q = p \<and> cp_nodes p \<noteq> [] \<and> distinct (map cn_logical_key (cp_nodes p))
     \<and> (\<forall>n\<in>set (cp_nodes p). candidate_plan_node n = Inr n)
     \<and> (\<forall>n\<in>set (cp_nodes p). set (cn_depends_on n) \<subseteq> set (map cn_logical_key (cp_nodes p))
          \<and> known_upstreams n)
     \<and> raise_if_cycle (cp_nodes p) = Inr ()"
    unfolding validate_dag_def
    by (auto simp: outcome rmap_eq_id [OF candidate_plan_node_id] check_nodes_eq_Inr
        cycle_as_validation_eq_Inr)
  then show ?thesis using raise_if_cycle_iff(1) by blast
qed

end
