(* ===== verification/PlanInputs.thy ===== *)
theory PlanInputs
  imports PlanModels
begin

section \<open>Event facts and the frozen planning inputs\<close>

text \<open>
  \<open>src/plan_engine/events.py\<close> (the sold-out fact, its provenance and the authorization built from
  both) and the two planning inputs of \<open>models.py\<close>, whose digest is the \<open>run_key\<close> of a plan. A
  validated model is projected to JSON by pydantic's \<open>model_dump(mode="json")\<close>: one object member
  per field in field order, datetimes in ISO 8601 with a trailing \<open>Z\<close>, decimals as their text.
\<close>

subsection \<open>ISO 8601 text of a UTC instant\<close>

definition pad :: "nat \<Rightarrow> string \<Rightarrow> string" where
  "pad n s = replicate (n - length s) (CHR ''0'') @ s"

text \<open>The proleptic Gregorian date of a day number counted from 1970-01-01.\<close>

definition civil_of_days :: "int \<Rightarrow> int \<times> int \<times> int" where
  "civil_of_days days =
     (let z = days + 719468;
          era = z div 146097;
          doe = z - era * 146097;
          yoe = (doe - doe div 1460 + doe div 36524 - doe div 146096) div 365;
          doy = doe - (365 * yoe + yoe div 4 - yoe div 100);
          mp = (5 * doy + 2) div 153;
          d = doy - (153 * mp + 2) div 5 + 1;
          m = (if mp < 10 then mp + 3 else mp - 9);
          y = yoe + era * 400 + (if m \<le> 2 then 1 else 0)
      in (y, m, d))"

definition iso_utc :: "int \<Rightarrow> string" where
  "iso_utc us =
     (let days = us div 86400000000;
          rest = us mod 86400000000;
          micro = rest mod 1000000;
          secs = rest div 1000000;
          (y, m, d) = civil_of_days days;
          two = (\<lambda>i. pad 2 (nat_text (nat i)))
      in pad 4 (nat_text (nat y)) @ ''-'' @ two m @ ''-'' @ two d @ ''T''
         @ two (secs div 3600) @ '':'' @ two (secs div 60 mod 60) @ '':'' @ two (secs mod 60)
         @ (if micro = 0 then [] else CHR ''.'' # pad 6 (nat_text (nat micro))) @ ''Z'')"

subsection \<open>\<open>InventoryFactEvent\<close>\<close>

record inventory_event =
  ev_event_id :: string
  ev_room_id :: string
  ev_product_id :: string
  ev_observed_version :: int
  ev_occurred_at :: int
  ev_source :: string
  ev_payload_digest :: string

definition canonical_payload :: "inventory_event \<Rightarrow> json" where
  "canonical_payload e = JObj
     [(''event_id'', JStr (ev_event_id e)),
      (''event_type'', JStr ''SOLD_OUT''),
      (''room_id'', JStr (ev_room_id e)),
      (''product_id'', JStr (ev_product_id e)),
      (''observed_version'', JInt (ev_observed_version e)),
      (''occurred_at'', JStr (iso_utc (ev_occurred_at e))),
      (''source'', JStr (ev_source e))]"

definition calculate_payload_digest :: "inventory_event \<Rightarrow> string" where
  "calculate_payload_digest e = canonical_sha256 (canonical_payload e)"

definition event_fields_ok :: "inventory_event \<Rightarrow> bool" where
  "event_fields_ok e \<longleftrightarrow> ev_event_id e \<noteq> '''' \<and> ev_room_id e \<noteq> '''' \<and> ev_product_id e \<noteq> ''''
     \<and> 1 \<le> ev_observed_version e \<and> ev_source e \<noteq> '''' \<and> is_sha256 (ev_payload_digest e)"

definition inventory_fact_event ::
  "string \<Rightarrow> string \<Rightarrow> string \<Rightarrow> int \<Rightarrow> pytime \<Rightarrow> string \<Rightarrow> string \<Rightarrow> validation_error + inventory_event" where
  "inventory_fact_event event_id room_id product_id observed_version occurred_at source digest =
     rbind (aware_utc FieldInvalid occurred_at) (\<lambda>us.
     let e = \<lparr>ev_event_id = event_id, ev_room_id = room_id, ev_product_id = product_id,
              ev_observed_version = observed_version, ev_occurred_at = us, ev_source = source,
              ev_payload_digest = digest\<rparr> in
     rbind (guard (event_fields_ok e) FieldInvalid) (\<lambda>_.
     rbind (guard (ev_payload_digest e = calculate_payload_digest e) IdentityMismatch) (\<lambda>_.
     Inr e)))"

definition create_sold_out ::
  "string \<Rightarrow> string \<Rightarrow> string \<Rightarrow> int \<Rightarrow> pytime \<Rightarrow> string \<Rightarrow> validation_error + inventory_event" where
  "create_sold_out event_id room_id product_id observed_version occurred_at source =
     rbind (aware_utc ShapeInvalid occurred_at) (\<lambda>us.
     let payload = JObj
           [(''event_id'', JStr event_id), (''event_type'', JStr ''SOLD_OUT''),
            (''room_id'', JStr room_id), (''product_id'', JStr product_id),
            (''observed_version'', JInt observed_version), (''occurred_at'', JStr (iso_utc us)),
            (''source'', JStr source)] in
     inventory_fact_event event_id room_id product_id observed_version (Aware us) source
       (canonical_sha256 payload))"

definition event_authentic :: "inventory_event \<Rightarrow> bool" where
  "event_authentic e \<longleftrightarrow> event_fields_ok e \<and> ev_payload_digest e = calculate_payload_digest e"

lemma inventory_fact_event_authentic:
  "inventory_fact_event i r p v t src dg = Inr e \<Longrightarrow> event_authentic e"
  by (auto simp: inventory_fact_event_def event_authentic_def Let_def outcome)

text \<open>\<open>InventoryFactEvent.model_validate(event.model_dump(mode="json"))\<close>.\<close>

definition revalidate_event :: "inventory_event \<Rightarrow> validation_error + inventory_event" where
  "revalidate_event e = inventory_fact_event (ev_event_id e) (ev_room_id e) (ev_product_id e)
     (ev_observed_version e) (Aware (ev_occurred_at e)) (ev_source e) (ev_payload_digest e)"

lemma revalidate_event_eq_Inr: "revalidate_event e = Inr e' \<longleftrightarrow> e' = e \<and> event_authentic e"
  by (cases e) (auto simp: revalidate_event_def inventory_fact_event_def event_authentic_def
      Let_def outcome)

text \<open>The factory succeeds on well-formed fields and its event is authentic.\<close>

lemma create_sold_out_authentic:
  assumes "i \<noteq> ''''" "r \<noteq> ''''" "p \<noteq> ''''" "1 \<le> v" "src \<noteq> ''''"
  shows "\<exists>e. create_sold_out i r p v (Aware us) src = Inr e \<and> event_authentic e
           \<and> ev_occurred_at e = us \<and> ev_event_id e = i"
  using assms
  by (simp add: create_sold_out_def inventory_fact_event_def event_fields_ok_def Let_def
      event_authentic_def calculate_payload_digest_def canonical_payload_def canonical_sha256_def)

subsection \<open>Provenance and the event authorization\<close>

record ingress_provenance =
  pv_provenance_id :: string
  pv_profile_id :: string
  pv_transport :: string
  pv_topic :: string
  pv_source :: string
  pv_received_at :: int
  pv_payload_digest :: string

definition provenance_fields_ok :: "ingress_provenance \<Rightarrow> bool" where
  "provenance_fields_ok p \<longleftrightarrow> pv_provenance_id p \<noteq> '''' \<and> pv_profile_id p \<noteq> '''' \<and>
     pv_transport p \<noteq> '''' \<and> pv_topic p \<noteq> '''' \<and> pv_source p \<noteq> '''' \<and>
     is_sha256 (pv_payload_digest p)"

definition revalidate_provenance :: "ingress_provenance \<Rightarrow> validation_error + ingress_provenance" where
  "revalidate_provenance p = rbind (guard (provenance_fields_ok p) FieldInvalid) (\<lambda>_. Inr p)"

record event_authorization =
  ea_event_id :: string
  ea_provenance_id :: string
  ea_payload_digest :: string
  ea_observed_version :: int
  ea_verified_identity :: "(string \<times> string \<times> string \<times> int) option"

definition ea_identity :: "event_authorization \<Rightarrow> string \<times> string \<times> string \<times> int" where
  "ea_identity a =
     (ea_event_id a, ea_provenance_id a, ea_payload_digest a, ea_observed_version a)"

definition provenance_verified :: "event_authorization \<Rightarrow> bool" where
  "provenance_verified a \<longleftrightarrow> ea_verified_identity a = Some (ea_identity a)"

text \<open>\<open>internal\<close> says that the validation context carries the process-private factory token.\<close>

definition event_authorization_validate ::
  "bool \<Rightarrow> event_authorization \<Rightarrow> validation_error + event_authorization" where
  "event_authorization_validate internal a =
     rbind (guard (ea_event_id a \<noteq> '''' \<and> ea_provenance_id a \<noteq> ''''
        \<and> is_sha256 (ea_payload_digest a) \<and> 1 \<le> ea_observed_version a) FieldInvalid) (\<lambda>_.
     if provenance_verified a then Inr a
     else rbind (guard internal ShapeInvalid) (\<lambda>_.
          Inr (a\<lparr>ea_verified_identity := Some (ea_identity a)\<rparr>)))"

definition build_verified_event_authorization ::
  "string \<Rightarrow> string \<Rightarrow> string \<Rightarrow> int \<Rightarrow> validation_error + event_authorization" where
  "build_verified_event_authorization event_id provenance_id digest observed_version =
     event_authorization_validate True
       \<lparr>ea_event_id = event_id, ea_provenance_id = provenance_id, ea_payload_digest = digest,
        ea_observed_version = observed_version, ea_verified_identity = None\<rparr>"

definition build_event_authorization_context ::
  "inventory_event \<Rightarrow> ingress_provenance \<Rightarrow> validation_error + event_authorization" where
  "build_event_authorization_context event provenance =
     rbind (guard (ev_payload_digest event = calculate_payload_digest event) IdentityMismatch) (\<lambda>_.
     rbind (guard (pv_payload_digest provenance = ev_payload_digest event) IdentityMismatch) (\<lambda>_.
     rbind (guard (pv_source provenance = ev_source event) IdentityMismatch) (\<lambda>_.
     build_verified_event_authorization (ev_event_id event) (pv_provenance_id provenance)
       (ev_payload_digest event) (ev_observed_version event))))"

lemma build_event_authorization_sound:
  assumes "build_event_authorization_context e p = Inr a"
  shows "ev_payload_digest e = calculate_payload_digest e" "pv_payload_digest p = ev_payload_digest e"
    "pv_source p = ev_source e" "provenance_verified a"
    "ea_identity a = (ev_event_id e, pv_provenance_id p, calculate_payload_digest e,
       ev_observed_version e)"
  using assms
  by (auto simp: build_event_authorization_context_def build_verified_event_authorization_def
      event_authorization_validate_def provenance_verified_def ea_identity_def outcome
      split: if_splits)

text \<open>Without the token a validator never turns an unverified authorization into a verified one.\<close>

lemma no_forged_authorization:
  "event_authorization_validate False a = Inr b \<Longrightarrow> provenance_verified a \<and> b = a"
  by (auto simp: event_authorization_validate_def outcome split: if_splits)

subsection \<open>Catalogue products and live plans\<close>

text \<open>A \<open>Decimal\<close> carries its value and its text.\<close>

datatype decimal = Dec (dec_value: rat) (dec_text: string)

record live_plan_item =
  li_rank :: int
  li_product_id :: string
  li_product_name :: string
  li_role :: string
  li_reason :: string

record live_plan_draft =
  lp_room_id :: string
  lp_trace_id :: string
  lp_items :: "live_plan_item list"

record catalog_product =
  pr_product_id :: string
  pr_name :: string
  pr_category :: string
  pr_price :: decimal
  pr_inventory :: int
  pr_conversion_rate :: decimal
  pr_commission_rate :: decimal
  pr_tags :: "string list"
  pr_selling_points :: "string list"
  pr_is_active :: bool

definition live_item_ok :: "live_plan_item \<Rightarrow> bool" where
  "live_item_ok i \<longleftrightarrow> 1 \<le> li_rank i \<and> li_product_id i \<noteq> '''' \<and> li_product_name i \<noteq> ''''
     \<and> li_role i \<noteq> '''' \<and> li_reason i \<noteq> ''''"

definition live_plan_ok :: "live_plan_draft \<Rightarrow> bool" where
  "live_plan_ok p \<longleftrightarrow> lp_room_id p \<noteq> '''' \<and> lp_trace_id p \<noteq> '''' \<and> lp_items p \<noteq> []
     \<and> list_all live_item_ok (lp_items p)"

definition catalog_product_ok :: "catalog_product \<Rightarrow> bool" where
  "catalog_product_ok p \<longleftrightarrow> pr_product_id p \<noteq> '''' \<and> pr_name p \<noteq> '''' \<and> pr_category p \<noteq> ''''
     \<and> 0 \<le> dec_value (pr_price p) \<and> 0 \<le> pr_inventory p
     \<and> 0 \<le> dec_value (pr_conversion_rate p) \<and> 0 \<le> dec_value (pr_commission_rate p)"

definition dump_live_item :: "live_plan_item \<Rightarrow> json" where
  "dump_live_item i = JObj
     [(''rank'', JInt (li_rank i)), (''product_id'', JStr (li_product_id i)),
      (''product_name'', JStr (li_product_name i)), (''role'', JStr (li_role i)),
      (''reason'', JStr (li_reason i))]"

definition dump_live_plan :: "live_plan_draft \<Rightarrow> json" where
  "dump_live_plan p = JObj
     [(''room_id'', JStr (lp_room_id p)), (''trace_id'', JStr (lp_trace_id p)),
      (''items'', JList (map dump_live_item (lp_items p)))]"

definition dump_product :: "catalog_product \<Rightarrow> json" where
  "dump_product p = JObj
     [(''product_id'', JStr (pr_product_id p)), (''name'', JStr (pr_name p)),
      (''category'', JStr (pr_category p)), (''price'', JStr (dec_text (pr_price p))),
      (''inventory'', JInt (pr_inventory p)),
      (''conversion_rate'', JStr (dec_text (pr_conversion_rate p))),
      (''commission_rate'', JStr (dec_text (pr_commission_rate p))),
      (''tags'', JList (map JStr (pr_tags p))),
      (''selling_points'', JList (map JStr (pr_selling_points p))),
      (''is_active'', JBool (pr_is_active p))]"

text \<open>
  \<open>_freeze_live_plan\<close> and \<open>_freeze_product\<close> validate the JSON dump anew and freeze the lists; the
  value is unchanged.
\<close>

definition freeze_live_plan :: "live_plan_draft \<Rightarrow> validation_error + live_plan_draft" where
  "freeze_live_plan p = rbind (guard (live_plan_ok p) SnapshotInvalid) (\<lambda>_. Inr p)"

definition freeze_product :: "catalog_product \<Rightarrow> validation_error + catalog_product" where
  "freeze_product p = rbind (guard (catalog_product_ok p) SnapshotInvalid) (\<lambda>_. Inr p)"

fun freeze_products ::
  "(string, catalog_product) dict \<Rightarrow> validation_error + (string, catalog_product) dict" where
  "freeze_products [] = Inr []"
| "freeze_products ((k, p) # ps) =
     rbind (freeze_product p) (\<lambda>q. rbind (freeze_products ps) (\<lambda>qs. Inr ((k, q) # qs)))"

subsection \<open>\<open>CardBatchPlanningInput\<close>\<close>

record card_batch_input =
  cb_room_id :: string
  cb_trace_id :: string
  cb_live_plan :: live_plan_draft
  cb_products_by_id :: "(string, catalog_product) dict"
  cb_run_key :: string

definition card_batch_snapshot ::
  "string \<Rightarrow> string \<Rightarrow> live_plan_draft \<Rightarrow> (string, catalog_product) dict \<Rightarrow> json" where
  "card_batch_snapshot room_id trace_id plan products = JObj
     [(''room_id'', JStr room_id), (''trace_id'', JStr trace_id),
      (''live_plan'', dump_live_plan plan),
      (''products_by_id'', JObj (map (\<lambda>(k, p). (k, dump_product p)) products))]"

text \<open>A \<open>run_key\<close> the caller leaves out is the empty default, which no field constraint checks.\<close>

definition card_batch_planning_input ::
  "string \<Rightarrow> string \<Rightarrow> live_plan_draft \<Rightarrow> (string, catalog_product) dict \<Rightarrow> string option
     \<Rightarrow> validation_error + card_batch_input" where
  "card_batch_planning_input room_id trace_id plan products run_key =
     rbind (guard (room_id \<noteq> '''' \<and> trace_id \<noteq> '''' \<and>
        (case run_key of None \<Rightarrow> True | Some k \<Rightarrow> py_len k = 64)) FieldInvalid) (\<lambda>_.
     rbind (guard (lp_items plan \<noteq> []) ShapeInvalid) (\<lambda>_.
     let product_ids = map li_product_id (lp_items plan) in
     rbind (guard (distinct product_ids) DuplicateKey) (\<lambda>_.
     rbind (guard (list_all (\<lambda>i. i \<in> set (dkeys products)) product_ids) MissingKey) (\<lambda>_.
     rbind (guard (list_all (\<lambda>(k, p). k = pr_product_id p) products) IdentityMismatch) (\<lambda>_.
     rbind (freeze_live_plan plan) (\<lambda>frozen_plan.
     rbind (freeze_products products) (\<lambda>frozen_products.
     let calculated = canonical_sha256
           (card_batch_snapshot room_id trace_id frozen_plan frozen_products) in
     rbind (guard (case run_key of None \<Rightarrow> True | Some k \<Rightarrow> k = '''' \<or> k = calculated)
       IdentityMismatch) (\<lambda>_.
     Inr \<lparr>cb_room_id = room_id, cb_trace_id = trace_id, cb_live_plan = frozen_plan,
          cb_products_by_id = frozen_products, cb_run_key = calculated\<rparr>))))))))"

definition dump_card_batch :: "card_batch_input \<Rightarrow> json" where
  "dump_card_batch c = JObj
     [(''room_id'', JStr (cb_room_id c)), (''trace_id'', JStr (cb_trace_id c)),
      (''live_plan'', dump_live_plan (cb_live_plan c)),
      (''products_by_id'', JObj (map (\<lambda>(k, p). (k, dump_product p)) (cb_products_by_id c))),
      (''run_key'', JStr (cb_run_key c))]"

definition card_batch_wf :: "card_batch_input \<Rightarrow> bool" where
  "card_batch_wf c \<longleftrightarrow> cb_room_id c \<noteq> '''' \<and> cb_trace_id c \<noteq> ''''
     \<and> live_plan_ok (cb_live_plan c) \<and> distinct (map li_product_id (lp_items (cb_live_plan c)))
     \<and> list_all (\<lambda>i. li_product_id i \<in> set (dkeys (cb_products_by_id c))) (lp_items (cb_live_plan c))
     \<and> list_all (\<lambda>(k, p). k = pr_product_id p \<and> catalog_product_ok p) (cb_products_by_id c)
     \<and> cb_run_key c = canonical_sha256 (card_batch_snapshot (cb_room_id c) (cb_trace_id c)
          (cb_live_plan c) (cb_products_by_id c))"

lemma freeze_products_eq_Inr:
  "freeze_products ps = Inr qs \<longleftrightarrow> qs = ps \<and> list_all (\<lambda>(k, p). catalog_product_ok p) ps"
  by (induction ps arbitrary: qs rule: freeze_products.induct)
    (auto simp: freeze_product_def outcome)

lemma card_batch_planning_input_wf:
  "card_batch_planning_input r t plan ps key = Inr c \<Longrightarrow> card_batch_wf c"
  by (auto simp: card_batch_planning_input_def card_batch_wf_def freeze_live_plan_def
      freeze_products_eq_Inr list_all_iff Let_def outcome)

subsection \<open>\<open>EmergencySoldOutPlanningInput\<close>\<close>

record emergency_input =
  em_room_id :: string
  em_trace_id :: string
  em_root_plan_run_id :: string
  em_parent_plan_run_id :: string
  em_trigger_event_id :: string
  em_event :: inventory_event
  em_provenance :: ingress_provenance
  em_product_id :: string
  em_expected_version :: int
  em_run_key :: string

definition dump_event :: "inventory_event \<Rightarrow> json" where
  "dump_event e = JObj
     [(''event_id'', JStr (ev_event_id e)), (''event_type'', JStr ''SOLD_OUT''),
      (''room_id'', JStr (ev_room_id e)), (''product_id'', JStr (ev_product_id e)),
      (''observed_version'', JInt (ev_observed_version e)),
      (''occurred_at'', JStr (iso_utc (ev_occurred_at e))), (''source'', JStr (ev_source e)),
      (''payload_digest'', JStr (ev_payload_digest e))]"

definition dump_provenance :: "ingress_provenance \<Rightarrow> json" where
  "dump_provenance p = JObj
     [(''provenance_id'', JStr (pv_provenance_id p)), (''profile_id'', JStr (pv_profile_id p)),
      (''transport'', JStr (pv_transport p)), (''topic'', JStr (pv_topic p)),
      (''source'', JStr (pv_source p)), (''received_at'', JStr (iso_utc (pv_received_at p))),
      (''payload_digest'', JStr (pv_payload_digest p))]"

definition emergency_snapshot :: "emergency_input \<Rightarrow> json" where
  "emergency_snapshot m = JObj
     [(''room_id'', JStr (em_room_id m)), (''trace_id'', JStr (em_trace_id m)),
      (''root_plan_run_id'', JStr (em_root_plan_run_id m)),
      (''parent_plan_run_id'', JStr (em_parent_plan_run_id m)),
      (''trigger_event_id'', JStr (em_trigger_event_id m)),
      (''event'', dump_event (em_event m)), (''provenance'', dump_provenance (em_provenance m)),
      (''product_id'', JStr (em_product_id m)),
      (''expected_version'', JInt (em_expected_version m))]"

definition dump_emergency :: "emergency_input \<Rightarrow> json" where
  "dump_emergency m = (case emergency_snapshot m of
       JObj kvs \<Rightarrow> JObj (kvs @ [(''run_key'', JStr (em_run_key m))]) | j \<Rightarrow> j)"

definition close_emergency_facts :: "emergency_input \<Rightarrow> validation_error + emergency_input" where
  "close_emergency_facts m =
     rbind (guard (em_room_id m \<noteq> '''' \<and> em_trace_id m \<noteq> '''' \<and> em_root_plan_run_id m \<noteq> ''''
        \<and> em_parent_plan_run_id m \<noteq> '''' \<and> em_trigger_event_id m \<noteq> ''''
        \<and> 1 \<le> em_expected_version m \<and> py_len (em_run_key m) \<le> 64) FieldInvalid) (\<lambda>_.
     rbind (revalidate_event (em_event m)) (\<lambda>event.
     rbind (revalidate_provenance (em_provenance m)) (\<lambda>provenance.
     rbind (guard (em_trigger_event_id m = ev_event_id event \<and> em_room_id m = ev_room_id event)
       IdentityMismatch) (\<lambda>_.
     rbind (guard (em_product_id m = '''' \<or> em_product_id m = ev_product_id event)
       IdentityMismatch) (\<lambda>_.
     rbind (guard (em_expected_version m = ev_observed_version event) IdentityMismatch) (\<lambda>_.
     rbind (guard (pv_payload_digest provenance = ev_payload_digest event
        \<and> pv_source provenance = ev_source event) IdentityMismatch) (\<lambda>_.
     let closed = m\<lparr>em_event := event, em_provenance := provenance,
                    em_product_id := ev_product_id event\<rparr>;
         calculated = canonical_sha256 (emergency_snapshot closed) in
     rbind (guard (em_run_key m = '''' \<or> em_run_key m = calculated) IdentityMismatch) (\<lambda>_.
     Inr (closed\<lparr>em_run_key := calculated\<rparr>)))))))))"

definition emergency_wf :: "emergency_input \<Rightarrow> bool" where
  "emergency_wf m \<longleftrightarrow> event_authentic (em_event m) \<and> provenance_fields_ok (em_provenance m)
     \<and> em_trigger_event_id m = ev_event_id (em_event m) \<and> em_room_id m = ev_room_id (em_event m)
     \<and> em_product_id m = ev_product_id (em_event m)
     \<and> em_expected_version m = ev_observed_version (em_event m)
     \<and> pv_payload_digest (em_provenance m) = calculate_payload_digest (em_event m)
     \<and> pv_source (em_provenance m) = ev_source (em_event m)
     \<and> em_run_key m = canonical_sha256 (emergency_snapshot m)"

lemma emergency_snapshot_run_key [simp]:
  "emergency_snapshot (m\<lparr>em_run_key := k\<rparr>) = emergency_snapshot m"
  by (simp add: emergency_snapshot_def)

lemma close_emergency_facts_wf: "close_emergency_facts m = Inr c \<Longrightarrow> emergency_wf c"
  by (auto simp: close_emergency_facts_def emergency_wf_def revalidate_event_eq_Inr
      revalidate_provenance_def event_authentic_def Let_def outcome emergency_snapshot_def)

end
