(* ===== verification/Capabilities.thy ===== *)
theory Capabilities
  imports PlanInputs
begin

section \<open>Trusted capabilities and the two proposal providers\<close>

text \<open>
  \<open>capabilities.py\<close> turns a candidate node into execution facts taken from the trusted Skill
  catalogue (a parameter of the profile), \<open>proposal.py\<close> and \<open>emergency.py\<close> build the two fixed
  DAGs. Resource keys are the unit of mutual exclusion in the store: the lemmas show that
  percent-encoding keeps the room and product segments apart, so two different
  (room, product) pairs never share a key, and that both providers produce proposals the
  validator of \<open>PlanModels\<close> accepts.
\<close>

subsection \<open>Percent-encoding of a resource key segment\<close>

text \<open>\<open>urllib.parse.quote(value, safe="-._~")\<close> over the UTF-8 bytes of the text.\<close>

definition unreserved :: "char \<Rightarrow> bool" where
  "unreserved c \<longleftrightarrow> c \<in> set
     ''ABCDEFGHIJKLMNOPQRSTUVWXYZabcdefghijklmnopqrstuvwxyz0123456789_.-~''"

definition hex_upper :: "nat \<Rightarrow> char" where
  "hex_upper n = ''0123456789ABCDEF'' ! n"

definition quote_byte :: "char \<Rightarrow> string" where
  "quote_byte c = (if unreserved c then [c]
     else [CHR ''%'', hex_upper (of_char c div 16), hex_upper (of_char c mod 16)])"

definition encode_resource_key_segment :: "string \<Rightarrow> string" where
  "encode_resource_key_segment s = concat (map quote_byte s)"

definition product_resource_key :: "string \<Rightarrow> string \<Rightarrow> string" where
  "product_resource_key room product = ''room:'' @ encode_resource_key_segment room
     @ '':product:'' @ encode_resource_key_segment product"

lemma hex_upper_inj: "m < 16 \<Longrightarrow> n < 16 \<Longrightarrow> hex_upper m = hex_upper n \<Longrightarrow> m = n"
  using nth_eq_iff_index_eq [of "''0123456789ABCDEF''" m n] by (simp add: hex_upper_def)

lemma percent_reserved: "\<not> unreserved (CHR ''%'')"
  by (simp add: unreserved_def)

lemma quote_byte_prefix:
  assumes "quote_byte a @ xs = quote_byte b @ ys"
  shows "a = b \<and> xs = ys"
proof (cases "unreserved a \<or> unreserved b")
  case True
  then show ?thesis using assms percent_reserved by (auto simp: quote_byte_def split: if_splits)
next
  case False
  then have eq: "hex_upper (of_char a div 16) = hex_upper (of_char b div 16)"
    "hex_upper (of_char a mod 16) = hex_upper (of_char b mod 16)" "xs = ys"
    using assms by (auto simp: quote_byte_def)
  have "of_char a < (256 :: nat)" "of_char b < (256 :: nat)" by simp_all
  then have "(of_char a :: nat) div 16 = of_char b div 16"
    using eq(1) by (intro hex_upper_inj) (simp_all add: div_less_iff_less_mult)
  moreover have "(of_char a :: nat) mod 16 = of_char b mod 16"
    using eq(2) by (intro hex_upper_inj) simp_all
  ultimately have "(of_char a :: nat) = of_char b" by (metis div_mult_mod_eq)
  then show ?thesis using eq(3) by simp
qed

lemma quote_byte_ne [simp]: "quote_byte c \<noteq> []"
  by (simp add: quote_byte_def)

lemma encode_segment_simps [simp]:
  "encode_resource_key_segment [] = []"
  "encode_resource_key_segment (c # s) = quote_byte c @ encode_resource_key_segment s"
  by (simp_all add: encode_resource_key_segment_def)

lemma encode_segment_inj: "encode_resource_key_segment s = encode_resource_key_segment t \<Longrightarrow> s = t"
proof (induction s arbitrary: t)
  case Nil
  then show ?case by (cases t) auto
next
  case (Cons a s)
  then obtain b t' where "t = b # t'" by (cases t) auto
  with Cons show ?case using quote_byte_prefix by fastforce
qed

lemma hex_upper_in: "n < 16 \<Longrightarrow> hex_upper n \<in> set ''0123456789ABCDEF''"
  using nth_mem [of n "''0123456789ABCDEF''"] by (simp add: hex_upper_def del: nth_mem)

lemma encode_segment_no_colon: "CHR '':'' \<notin> set (encode_resource_key_segment s)"
proof (induction s)
  case (Cons c s)
  have "of_char c div 16 < (16 :: nat)" "of_char c mod 16 < (16 :: nat)"
    by (simp_all add: div_less_iff_less_mult)
  then have "hex_upper (of_char c div 16) \<noteq> CHR '':''" "hex_upper (of_char c mod 16) \<noteq> CHR '':''"
    by (fastforce dest: hex_upper_in)+
  moreover have "\<not> unreserved (CHR '':'')" by (simp add: unreserved_def)
  ultimately show ?case using Cons by (auto simp: quote_byte_def)
qed simp

lemma colon_free_split:
  "CHR '':'' \<notin> set xs \<Longrightarrow> CHR '':'' \<notin> set ys \<Longrightarrow>
     xs @ CHR '':'' # us = ys @ CHR '':'' # vs \<Longrightarrow> xs = ys \<and> us = vs"
proof (induction xs arbitrary: ys)
  case Nil
  then show ?case by (cases ys) auto
next
  case (Cons x xs)
  then show ?case by (cases ys) auto
qed

lemma product_resource_key_inj:
  "product_resource_key r p = product_resource_key r' p' \<longleftrightarrow> r = r' \<and> p = p'"
proof
  assume "product_resource_key r p = product_resource_key r' p'"
  then have "encode_resource_key_segment r @ CHR '':'' # (''product:'' @ encode_resource_key_segment p)
      = encode_resource_key_segment r' @ CHR '':'' # (''product:'' @ encode_resource_key_segment p')"
    by (simp add: product_resource_key_def)
  then have "encode_resource_key_segment r = encode_resource_key_segment r' \<and>
      ''product:'' @ encode_resource_key_segment p = ''product:'' @ encode_resource_key_segment p'"
    by (rule colon_free_split [OF encode_segment_no_colon encode_segment_no_colon])
  then show "r = r' \<and> p = p'" by (simp add: encode_segment_inj)
qed simp

subsection \<open>\<open>PlanCapabilityProfile\<close>\<close>

record skill_manifest =
  sm_skill_id :: string
  sm_version :: string
  sm_lifecycle :: "string list"
  sm_risk_level :: string
  sm_max_attempt_seconds :: int

text \<open>A frozenset of stages is the list of their values, compared and written sorted.\<close>

record plan_capability =
  rc_node_type :: string
  rc_skill_id :: "string option"
  rc_skill_version :: "string option"
  rc_lifecycle :: "string list"
  rc_risk_level :: "string option"
  rc_max_attempt_seconds :: "int option"
  rc_resource_keys :: "string list"
  rc_max_concurrency :: int

record capability_profile =
  pf_manifests :: "(string, skill_manifest) dict"
  pf_card_manifest :: skill_manifest

datatype capability_error = PlanCapabilityError

definition card_max_concurrency :: int where
  "card_max_concurrency = 4"

definition generate_product_card :: string where
  "generate_product_card = ''generate_product_card''"

definition capability_profile_init ::
  "skill_manifest list \<Rightarrow> capability_error + capability_profile" where
  "capability_profile_init catalog =
     (case filter (\<lambda>m. sm_skill_id m = generate_product_card) catalog of
        [manifest] \<Rightarrow>
          rbind (guard (sm_version manifest \<noteq> '''') PlanCapabilityError) (\<lambda>_.
          Inr \<lparr>pf_manifests = fold (\<lambda>m. dset (sm_skill_id m) m) catalog [],
               pf_card_manifest = manifest\<rparr>)
      | _ \<Rightarrow> Inl PlanCapabilityError)"

definition skill_capability :: "skill_manifest \<Rightarrow> string list \<Rightarrow> int \<Rightarrow> plan_capability" where
  "skill_capability m keys concurrency =
     \<lparr>rc_node_type = ''SKILL'', rc_skill_id = Some (sm_skill_id m),
      rc_skill_version = Some (sm_version m), rc_lifecycle = sm_lifecycle m,
      rc_risk_level = Some (sm_risk_level m),
      rc_max_attempt_seconds = Some (sm_max_attempt_seconds m),
      rc_resource_keys = keys, rc_max_concurrency = concurrency\<rparr>"

definition control_capability :: "string \<Rightarrow> plan_capability" where
  "control_capability control_type =
     \<lparr>rc_node_type = control_type, rc_skill_id = None, rc_skill_version = None, rc_lifecycle = [],
      rc_risk_level = None, rc_max_attempt_seconds = None, rc_resource_keys = [],
      rc_max_concurrency = card_max_concurrency\<rparr>"

definition resolve_skill_node ::
  "capability_profile \<Rightarrow> string \<Rightarrow> string \<Rightarrow> string \<Rightarrow> capability_error + plan_capability" where
  "resolve_skill_node pf skill_id product_id room_id =
     rbind (guard (skill_id = generate_product_card) PlanCapabilityError) (\<lambda>_.
     rbind (guard (room_id \<noteq> '''' \<and> product_id \<noteq> '''') PlanCapabilityError) (\<lambda>_.
     Inr (skill_capability (pf_card_manifest pf) [product_resource_key room_id product_id]
            card_max_concurrency)))"

definition resolve_control_node :: "string \<Rightarrow> capability_error + plan_capability" where
  "resolve_control_node control_type =
     rbind (guard (control_type \<in> {''PREPARE_CARD_BATCH'', ''COLLECT_CARD_RESULTS''})
       PlanCapabilityError) (\<lambda>_.
     Inr (control_capability control_type))"

definition resolve_emergency_control_node :: "string \<Rightarrow> capability_error + plan_capability" where
  "resolve_emergency_control_node logical_key =
     rbind (of_option PlanCapabilityError
       (dget [(''validate-sold-out-event'', ''VALIDATE_SOLD_OUT_EVENT''),
              (''collect-sold-out-response'', ''COLLECT_SOLD_OUT_RESPONSE'')] logical_key))
     (\<lambda>control_type. Inr (control_capability control_type))"

definition resolve_emergency_skill_node ::
  "capability_profile \<Rightarrow> string \<Rightarrow> string \<Rightarrow> string \<Rightarrow> capability_error + plan_capability" where
  "resolve_emergency_skill_node pf skill_id room_id product_id =
     rbind (guard (skill_id \<in> {''handle_sold_out_event'', ''recommend_backup_product'',
        ''generate_on_live_prompt''}) PlanCapabilityError) (\<lambda>_.
     rbind (of_option PlanCapabilityError (dget (pf_manifests pf) skill_id)) (\<lambda>manifest.
     rbind (guard (sm_version manifest \<noteq> '''') PlanCapabilityError) (\<lambda>_.
     rbind (guard (room_id \<noteq> '''' \<and> product_id \<noteq> '''') PlanCapabilityError) (\<lambda>_.
     Inr (if skill_id = ''handle_sold_out_event''
          then skill_capability manifest [product_resource_key room_id product_id] 1
          else skill_capability manifest [] card_max_concurrency)))))"

lemma resolve_skill_node_keys:
  "resolve_skill_node pf s p r = Inr c \<Longrightarrow> rc_resource_keys c = [product_resource_key r p]"
  by (auto simp: resolve_skill_node_def skill_capability_def outcome)

lemma resolve_emergency_keys:
  "resolve_emergency_skill_node pf s r p = Inr c \<Longrightarrow>
     rc_resource_keys c = (if s = ''handle_sold_out_event'' then [product_resource_key r p] else [])"
  unfolding resolve_emergency_skill_node_def rbind_eq_Inr
  by (cases "s = ''handle_sold_out_event''") (auto simp: skill_capability_def simp del: insert_iff)

subsection \<open>The card batch provider\<close>

definition plan_input_binding :: "path_part list \<Rightarrow> input_binding" where
  "plan_input_binding path =
     \<lparr>ib_kind = B_PLAN_INPUT, ib_path = path, ib_upstream = None, ib_literal = JNull\<rparr>"

definition control_node :: "string \<Rightarrow> string list \<Rightarrow> candidate_node" where
  "control_node key deps =
     \<lparr>cn_logical_key = key, cn_node_kind = K_CONTROL, cn_skill_id = None, cn_depends_on = deps,
      cn_input_bindings = []\<rparr>"

definition skill_node ::
  "string \<Rightarrow> string \<Rightarrow> string list \<Rightarrow> (string, input_binding) dict \<Rightarrow> candidate_node" where
  "skill_node key skill deps bindings =
     \<lparr>cn_logical_key = key, cn_node_kind = K_SKILL, cn_skill_id = Some skill, cn_depends_on = deps,
      cn_input_bindings = bindings\<rparr>"

definition card_key :: "string \<Rightarrow> string" where
  "card_key product_id = ''card:'' @ product_id"

definition card_node :: "string \<Rightarrow> candidate_node" where
  "card_node product_id =
     skill_node (card_key product_id) generate_product_card [''prepare-card-batch'']
       [(''product'', plan_input_binding [Key ''products_by_id'', Key product_id])]"

definition card_batch_nodes :: "card_batch_input \<Rightarrow> candidate_node list" where
  "card_batch_nodes request =
     (let cards = map card_node (map li_product_id (take 3 (lp_items (cb_live_plan request))))
      in control_node ''prepare-card-batch'' []
         # cards @ [control_node ''collect-card-results'' (map cn_logical_key cards)])"

definition propose_card_batch :: "card_batch_input \<Rightarrow> validation_error + candidate_proposal" where
  "propose_card_batch request = candidate_plan_proposal
     \<lparr>cp_provider_id = ''canonical-card-batch'', cp_provider_version = ''1.0.0'',
      cp_nodes = card_batch_nodes request\<rparr>"

subsection \<open>The sold-out emergency provider\<close>

definition emergency_nodes :: "candidate_node list" where
  "emergency_nodes =
     [control_node ''validate-sold-out-event'' [],
      skill_node ''mark-sold-out'' ''handle_sold_out_event'' [''validate-sold-out-event'']
        [(''product_id'', plan_input_binding [Key ''product_id'']),
         (''expected_version'', plan_input_binding [Key ''expected_version''])],
      skill_node ''recommend-backup-product'' ''recommend_backup_product'' [''mark-sold-out'']
        [(''room_id'', plan_input_binding [Key ''room_id'']),
         (''sold_out_product_id'', plan_input_binding [Key ''product_id''])],
      skill_node ''generate-sold-out-prompt'' ''generate_on_live_prompt''
        [''recommend-backup-product'']
        [(''room_id'', plan_input_binding [Key ''room_id'']),
         (''sold_out_product_id'', plan_input_binding [Key ''product_id'']),
         (''backup_product_id'',
            \<lparr>ib_kind = B_NODE_OUTPUT, ib_path = [Key ''backup_product'', Key ''product_id''],
             ib_upstream = Some ''recommend-backup-product'', ib_literal = JNull\<rparr>)],
      control_node ''collect-sold-out-response'' [''generate-sold-out-prompt'']]"

definition propose_sold_out :: "emergency_input \<Rightarrow> validation_error + candidate_proposal" where
  "propose_sold_out request = candidate_plan_proposal
     \<lparr>cp_provider_id = ''canonical-sold-out-emergency'', cp_provider_version = ''1.0.0'',
      cp_nodes = emergency_nodes\<rparr>"

subsection \<open>Both providers propose valid DAGs\<close>

text \<open>A node list in dependency order has no cycle.\<close>

fun in_order :: "string list \<Rightarrow> candidate_node list \<Rightarrow> bool" where
  "in_order seen [] \<longleftrightarrow> True"
| "in_order seen (n # ns) \<longleftrightarrow>
     set (cn_depends_on n) \<subseteq> set seen \<and> cn_logical_key n \<notin> set seen
     \<and> in_order (cn_logical_key n # seen) ns"

lemma in_order_fresh: "in_order seen ns \<Longrightarrow> n \<in> set ns \<Longrightarrow> cn_logical_key n \<notin> set seen"
  by (induction seen ns rule: in_order.induct) auto

lemma in_order_distinct: "in_order seen ns \<Longrightarrow> distinct (map cn_logical_key ns)"
  by (induction seen ns rule: in_order.induct) (auto dest: in_order_fresh)

lemma in_order_closed:
  "in_order seen ns \<Longrightarrow> n \<in> set ns \<Longrightarrow>
     set (cn_depends_on n) \<subseteq> set seen \<union> set (map cn_logical_key ns)"
  by (induction seen ns rule: in_order.induct) auto

lemma depends_Cons:
  "depends (n # ns) = {cn_logical_key n} \<times> set (cn_depends_on n) \<union> depends ns"
  by (auto simp: depends_def)

lemma in_order_acyclic: "in_order seen ns \<Longrightarrow> acyclic (depends ns)"
proof (induction ns arbitrary: seen)
  case Nil
  then show ?case by (simp add: depends_def acyclic_def)
next
  case (Cons n ns)
  then have order: "in_order (cn_logical_key n # seen) ns" and seen: "set (cn_depends_on n) \<subseteq> set seen"
    and fresh: "cn_logical_key n \<notin> set seen" by auto
  have stuck: "d \<in> set (cn_logical_key n # seen) \<Longrightarrow> (d, e) \<notin> depends ns" for d e
    using in_order_fresh [OF order] by (auto simp: depends_def)
  have "(d, e) \<notin> (depends ns)\<^sup>+" if "d \<in> set (cn_logical_key n # seen)" for d e
    using stuck [OF that] by (blast dest: tranclD)
  moreover have "acyclic (depends ns)" using Cons.IH [OF order] .
  moreover have "acyclic ({cn_logical_key n} \<times> set ds \<union> depends ns)" if "set ds \<subseteq> set seen" for ds
    using that
  proof (induction ds)
    case Nil
    then show ?case using Cons.IH [OF order] by simp
  next
    case (Cons d ds)
    have eq: "{cn_logical_key n} \<times> set (d # ds) \<union> depends ns
        = insert (cn_logical_key n, d) ({cn_logical_key n} \<times> set ds \<union> depends ns)" by auto
    have "d \<noteq> cn_logical_key n" "d \<in> set seen" using Cons.prems fresh by auto
    then have "(d, e) \<notin> {cn_logical_key n} \<times> set ds \<union> depends ns" for e
      using stuck by auto
    then have "(d, cn_logical_key n) \<notin> ({cn_logical_key n} \<times> set ds \<union> depends ns)\<^sup>*"
      using \<open>d \<noteq> cn_logical_key n\<close> by (meson converse_rtranclE)
    then show ?case using Cons by (simp only: eq acyclic_insert) simp
  qed
  ultimately show ?case using seen by (simp only: depends_Cons)
qed

lemma candidate_plan_proposal_in_order:
  assumes "cp_provider_id p \<noteq> ''''" and "semantic_version (cp_provider_version p)"
    and "cp_nodes p \<noteq> []" and "in_order [] (cp_nodes p)"
    and "\<forall>n\<in>set (cp_nodes p). candidate_plan_node n = Inr n \<and> known_upstreams n"
  shows "candidate_plan_proposal p = Inr p"
  using assms in_order_distinct [OF assms(4)] in_order_closed [OF assms(4)]
    in_order_acyclic [OF assms(4)]
  by (auto simp: candidate_plan_proposal_def validate_dag_eq_Inr)

lemma in_order_append:
  "in_order seen (ms @ ns) \<longleftrightarrow>
     in_order seen ms \<and> in_order (rev (map cn_logical_key ms) @ seen) ns"
  by (induction seen ms rule: in_order.induct) auto

lemma semantic_version_1_0_0 [simp]: "semantic_version ''1.0.0''"
  by (simp add: semantic_version_def drop_digits_def drop_dot_def is_digit_def)

lemma node_sel [simp]:
  "cn_logical_key (control_node k ds) = k" "cn_depends_on (control_node k ds) = ds"
  "cn_logical_key (skill_node k s ds bs) = k" "cn_depends_on (skill_node k s ds bs) = ds"
  "cn_logical_key (card_node p) = card_key p" "cn_depends_on (card_node p) = [''prepare-card-batch'']"
  by (simp_all add: control_node_def skill_node_def card_node_def)

lemma card_key_simps [simp]:
  "card_key p = card_key q \<longleftrightarrow> p = q" "card_key p \<noteq> ''''" "'''' \<noteq> card_key p"
  "card_key p \<noteq> ''prepare-card-batch''" "''prepare-card-batch'' \<noteq> card_key p"
  "card_key p \<noteq> ''collect-card-results''" "''collect-card-results'' \<noteq> card_key p"
  by (simp_all add: card_key_def)

lemma control_node_valid:
  "key \<noteq> '''' \<Longrightarrow> '''' \<notin> set ds \<Longrightarrow> distinct ds \<Longrightarrow>
     candidate_plan_node (control_node key ds) = Inr (control_node key ds)
     \<and> known_upstreams (control_node key ds)"
  by (auto simp: candidate_plan_node_eq_Inr control_node_def known_upstreams_def)

lemma card_node_valid:
  "p \<noteq> '''' \<Longrightarrow> candidate_plan_node (card_node p) = Inr (card_node p) \<and> known_upstreams (card_node p)"
  by (simp add: candidate_plan_node_eq_Inr card_node_def skill_node_def known_upstreams_def
      binding_wf_def path_part_ok_def plan_input_binding_def generate_product_card_def)

lemma cards_in_order:
  assumes "distinct ps" and "''prepare-card-batch'' \<in> set seen"
    and "\<forall>p\<in>set ps. card_key p \<notin> set seen"
  shows "in_order seen (map card_node ps)"
  using assms
proof (induction ps arbitrary: seen)
  case (Cons p ps)
  have "in_order (card_key p # seen) (map card_node ps)"
    using Cons.prems by (intro Cons.IH) auto
  then show ?case using Cons.prems by simp
qed simp

lemma propose_card_batch_valid:
  assumes "card_batch_wf c"
  shows "\<exists>p. propose_card_batch c = Inr p \<and> cp_nodes p = card_batch_nodes c"
proof -
  define ps where "ps = map li_product_id (take 3 (lp_items (cb_live_plan c)))"
  have ps: "distinct ps" using assms by (auto simp: ps_def card_batch_wf_def take_map [symmetric])
  have named: "\<forall>p\<in>set ps. p \<noteq> ''''"
    using assms unfolding ps_def card_batch_wf_def live_plan_ok_def
    by (auto simp: list_all_iff live_item_ok_def dest!: in_set_takeD)
  have nodes: "card_batch_nodes c = control_node ''prepare-card-batch'' []
      # map card_node ps @ [control_node ''collect-card-results'' (map card_key ps)]"
    by (simp add: card_batch_nodes_def ps_def Let_def comp_def)
  have keys: "map cn_logical_key (map card_node ps) = map card_key ps" by simp
  have "distinct (map card_key ps)" "'''' \<notin> set (map card_key ps)"
    using ps by (auto simp: distinct_map inj_on_def)
  then have "candidate_plan_node (control_node ''collect-card-results'' (map card_key ps)) =
      Inr (control_node ''collect-card-results'' (map card_key ps))
      \<and> known_upstreams (control_node ''collect-card-results'' (map card_key ps))"
    by (intro control_node_valid) auto
  then have valid: "\<forall>n\<in>set (card_batch_nodes c). candidate_plan_node n = Inr n \<and> known_upstreams n"
    unfolding nodes using named by (auto simp: control_node_valid card_node_valid)
  have "in_order [''prepare-card-batch''] (map card_node ps)"
    using ps by (intro cards_in_order) auto
  then have "in_order [] (card_batch_nodes c)"
    unfolding nodes by (auto simp: in_order_append keys)
  then have "candidate_plan_proposal \<lparr>cp_provider_id = ''canonical-card-batch'',
      cp_provider_version = ''1.0.0'', cp_nodes = card_batch_nodes c\<rparr> =
      Inr \<lparr>cp_provider_id = ''canonical-card-batch'',
      cp_provider_version = ''1.0.0'', cp_nodes = card_batch_nodes c\<rparr>"
    using valid by (intro candidate_plan_proposal_in_order) (simp_all add: nodes)
  then show ?thesis by (simp add: propose_card_batch_def)
qed

lemma emergency_nodes_valid:
  "n \<in> set emergency_nodes \<Longrightarrow> candidate_plan_node n = Inr n \<and> known_upstreams n"
  unfolding emergency_nodes_def
  by (auto simp: candidate_plan_node_eq_Inr skill_node_def control_node_def known_upstreams_def
      binding_wf_def path_part_ok_def plan_input_binding_def)

lemma propose_sold_out_valid:
  "\<exists>p. propose_sold_out m = Inr p \<and> cp_nodes p = emergency_nodes"
proof -
  have "in_order [] emergency_nodes"
    by (simp add: emergency_nodes_def skill_node_def control_node_def)
  then have "candidate_plan_proposal \<lparr>cp_provider_id = ''canonical-sold-out-emergency'',
      cp_provider_version = ''1.0.0'', cp_nodes = emergency_nodes\<rparr> =
      Inr \<lparr>cp_provider_id = ''canonical-sold-out-emergency'',
      cp_provider_version = ''1.0.0'', cp_nodes = emergency_nodes\<rparr>"
    using emergency_nodes_valid
    by (intro candidate_plan_proposal_in_order) (auto simp: emergency_nodes_def)
  then show ?thesis by (simp add: propose_sold_out_def)
qed

end
