(* ===== verification/Bindings.thy ===== *)
theory Bindings
  imports Capabilities
begin

section \<open>Materialising the inputs of a node\<close>

text \<open>
  \<open>src/plan_engine/bindings.py\<close>: the resolver reads each declared binding from the planning input,
  from the output of a declared dependency of the same plan version, or from a literal, and
  freezes the parameters with their SHA-256. It revalidates everything it is handed, because
  \<open>model_construct\<close> can bypass the validators of \<open>PlanModels\<close>; a binding is therefore raw here.
\<close>

datatype binding_error =
    PathNotTuple | BadPathPart | UnknownSource | LiteralShape | EmptyPath | PlanInputShape
  | NoUpstream | UndeclaredDependency | NoOutput | NoVersion | NoCurrentVersion | BadVersion
  | CrossVersion | ObjectKeyType | PathMissing | ArrayIndexType | IndexOutOfRange | NotContainer
  | NotJson | BadParameterName | FingerprintMismatch

record raw_binding =
  rb_kind :: pyval
  rb_path :: pyval
  rb_upstream :: "string option"
  rb_literal :: pyval

datatype dependency_output = Versioned pyval pyval | Bare pyval

record materialized_input =
  mi_parameters :: json
  mi_fingerprint :: string

definition is_str :: "pyval \<Rightarrow> bool" where
  "is_str v \<longleftrightarrow> str_key v \<noteq> None"

fun is_bool :: "pyval \<Rightarrow> bool" where
  "is_bool (PyBool _) = True"
| "is_bool _ = False"

text \<open>\<open>isinstance(v, int)\<close> holds for bools as well.\<close>

fun as_int :: "pyval \<Rightarrow> int option" where
  "as_int (PyInt i) = Some i"
| "as_int (PyBool b) = Some (if b then 1 else 0)"
| "as_int _ = None"

definition copy_json :: "pyval \<Rightarrow> binding_error + json" where
  "copy_json v = (case copy_strict_json v of Inl _ \<Rightarrow> Inl NotJson | Inr j \<Rightarrow> Inr j)"

definition binding_kind_members :: "(string \<times> binding_kind) list" where
  "binding_kind_members =
     [(''PLAN_INPUT'', B_PLAN_INPUT), (''NODE_OUTPUT'', B_NODE_OUTPUT), (''LITERAL'', B_LITERAL)]"

definition binding_kind_of :: "raw_binding \<Rightarrow> binding_error + binding_kind" where
  "binding_kind_of b = of_option UnknownSource (enum_call binding_kind_members (rb_kind b))"

definition validate_plan_version :: "pyval \<Rightarrow> binding_error + int" where
  "validate_plan_version v =
     (case v of PyInt i \<Rightarrow> if i < 1 then Inl BadVersion else Inr i | _ \<Rightarrow> Inl BadVersion)"

definition validate_runtime_path :: "pyval \<Rightarrow> binding_error + pyval list" where
  "validate_runtime_path path =
     (case path of
        PyTuple parts \<Rightarrow>
          rbind (guard (list_all (\<lambda>p. \<not> (is_bool p \<or> \<not> (is_str p \<or> as_int p \<noteq> None))) parts)
            BadPathPart) (\<lambda>_.
          rbind (guard (list_all (\<lambda>p. str_key p \<noteq> Some '''') parts) BadPathPart) (\<lambda>_.
          rbind (guard (list_all (\<lambda>p. case as_int p of None \<Rightarrow> True | Some i \<Rightarrow> 0 \<le> i) parts)
            BadPathPart) (\<lambda>_. Inr parts)))
      | _ \<Rightarrow> Inl PathNotTuple)"

text \<open>Lookup of a string key in a Python dict, whose keys may be of any type.\<close>

fun py_dict_get :: "(pyval \<times> pyval) list \<Rightarrow> string \<Rightarrow> pyval option" where
  "py_dict_get [] s = None"
| "py_dict_get ((k, v) # kvs) s = (if str_key k = Some s then Some v else py_dict_get kvs s)"

definition traverse_part :: "pyval \<Rightarrow> pyval \<Rightarrow> binding_error + pyval" where
  "traverse_part current part =
     (case current of
        PyDict kvs \<Rightarrow>
          (case str_key part of
             None \<Rightarrow> Inl ObjectKeyType
           | Some s \<Rightarrow> of_option PathMissing (py_dict_get kvs s))
      | PyList xs \<Rightarrow>
          (if is_bool part then Inl ArrayIndexType
           else case as_int part of
                  None \<Rightarrow> Inl ArrayIndexType
                | Some i \<Rightarrow> if i < 0 \<or> int (length xs) \<le> i then Inl IndexOutOfRange
                            else Inr (xs ! nat i))
      | _ \<Rightarrow> Inl NotContainer)"

fun traverse_path :: "pyval \<Rightarrow> pyval list \<Rightarrow> binding_error + pyval" where
  "traverse_path current [] = Inr current"
| "traverse_path current (part # parts) =
     rbind (traverse_part current part) (\<lambda>next. traverse_path next parts)"

definition node_output_source ::
  "raw_binding \<Rightarrow> (string, dependency_output) dict \<Rightarrow> string list \<Rightarrow> pyval \<Rightarrow> binding_error + pyval" where
  "node_output_source b outputs declared current_version =
     rbind (guard (rb_upstream b \<notin> {None, Some ''''}) NoUpstream) (\<lambda>_.
     rbind (of_option NoUpstream (rb_upstream b)) (\<lambda>upstream.
     rbind (guard (upstream \<in> set declared) UndeclaredDependency) (\<lambda>_.
     rbind (of_option NoOutput (dget outputs upstream)) (\<lambda>supplied.
     case supplied of
       Bare _ \<Rightarrow> Inl NoVersion
     | Versioned version output \<Rightarrow>
         rbind (guard (current_version \<noteq> PyNone) NoCurrentVersion) (\<lambda>_.
         rbind (validate_plan_version version) (\<lambda>output_version.
         rbind (validate_plan_version current_version) (\<lambda>current.
         rbind (guard (output_version = current) CrossVersion) (\<lambda>_. Inr output))))))))"

datatype planning_input = CardBatch card_batch_input | Emergency emergency_input

definition dump_planning_input :: "planning_input \<Rightarrow> json" where
  "dump_planning_input i =
     (case i of CardBatch c \<Rightarrow> dump_card_batch c | Emergency m \<Rightarrow> dump_emergency m)"

definition resolve_binding ::
  "raw_binding \<Rightarrow> planning_input \<Rightarrow> (string, dependency_output) dict \<Rightarrow> string list \<Rightarrow> pyval
     \<Rightarrow> binding_error + json" where
  "resolve_binding b input outputs declared current_version =
     rbind (validate_runtime_path (rb_path b)) (\<lambda>path.
     rbind (binding_kind_of b) (\<lambda>kind.
     case kind of
       B_LITERAL \<Rightarrow>
         rbind (guard (path = [] \<and> rb_upstream b = None) LiteralShape) (\<lambda>_.
         copy_json (rb_literal b))
     | B_PLAN_INPUT \<Rightarrow>
         rbind (guard (path \<noteq> []) EmptyPath) (\<lambda>_.
         rbind (guard (rb_upstream b = None) PlanInputShape) (\<lambda>_.
         rbind (traverse_path (py_of_json (dump_planning_input input)) path) copy_json))
     | B_NODE_OUTPUT \<Rightarrow>
         rbind (guard (path \<noteq> []) EmptyPath) (\<lambda>_.
         rbind (node_output_source b outputs declared current_version) (\<lambda>source.
         rbind (traverse_path source path) copy_json))))"

text \<open>\<open>MaterializedNodeInput.__post_init__\<close>: any caller may construct the value object.\<close>

definition materialized_node_input :: "pyval \<Rightarrow> string \<Rightarrow> binding_error + materialized_input" where
  "materialized_node_input parameters fingerprint =
     rbind (copy_json parameters) (\<lambda>canonical.
     rbind (guard (fingerprint = resolver_sha256 canonical) FingerprintMismatch) (\<lambda>_.
     Inr \<lparr>mi_parameters = canonical, mi_fingerprint = fingerprint\<rparr>))"

fun resolve_parameters ::
  "(pyval \<times> raw_binding) list \<Rightarrow> planning_input \<Rightarrow> (string, dependency_output) dict \<Rightarrow> string list
     \<Rightarrow> pyval \<Rightarrow> binding_error + (string, json) dict" where
  "resolve_parameters [] input outputs declared current_version = Inr []"
| "resolve_parameters ((name, b) # bs) input outputs declared current_version =
     (case str_key name of
        None \<Rightarrow> Inl BadParameterName
      | Some s \<Rightarrow>
          rbind (guard (s \<noteq> '''') BadParameterName) (\<lambda>_.
          rbind (resolve_binding b input outputs declared current_version) (\<lambda>v.
          rbind (resolve_parameters bs input outputs declared current_version) (\<lambda>ps.
          Inr ((s, v) # ps)))))"

definition materialize ::
  "(pyval \<times> raw_binding) list \<Rightarrow> planning_input \<Rightarrow> (string, dependency_output) dict \<Rightarrow> string list
     \<Rightarrow> pyval \<Rightarrow> binding_error + materialized_input" where
  "materialize bindings input outputs declared current_version =
     rbind (resolve_parameters bindings input outputs declared current_version) (\<lambda>parameters.
     rbind (copy_json (py_of_json (JObj parameters))) (\<lambda>canonical.
     materialized_node_input (py_of_json canonical) (resolver_sha256 canonical)))"

subsection \<open>What a materialised input guarantees\<close>

lemma copy_json_of_json [simp]: "copy_json (py_of_json j) = Inr j"
  by (simp add: copy_json_def)

lemma copy_json_eq_Inr: "copy_json v = Inr j \<longleftrightarrow> copy_strict_json v = Inr j"
  by (simp add: copy_json_def split: sum.splits)

lemma materialize_eq:
  "materialize bs i os ds v =
     rbind (resolve_parameters bs i os ds v) (\<lambda>ps.
     Inr \<lparr>mi_parameters = JObj ps, mi_fingerprint = resolver_sha256 (JObj ps)\<rparr>)"
  unfolding materialize_def materialized_node_input_def
  by (simp add: guard_def del: py_of_json.simps)

lemma validate_plan_version_eq_Inr: "validate_plan_version v = Inr n \<longleftrightarrow> v = PyInt n \<and> 1 \<le> n"
  by (cases v) (auto simp: validate_plan_version_def)

lemma node_output_source_sound:
  assumes "node_output_source b outputs declared v = Inr out"
  shows "\<exists>u n. rb_upstream b = Some u \<and> u \<in> set declared \<and> v = PyInt n \<and> 1 \<le> n
     \<and> dget outputs u = Some (Versioned (PyInt n) out)"
proof -
  obtain u x where u: "rb_upstream b = Some u" "u \<in> set declared" "dget outputs u = Some x"
    using assms by (auto simp: node_output_source_def outcome)
  then show ?thesis
    using assms
    by (cases x) (auto simp: node_output_source_def validate_plan_version_eq_Inr outcome)
qed

lemma resolve_node_output_sound:
  assumes "resolve_binding b input outputs declared v = Inr j"
    and "binding_kind_of b = Inr B_NODE_OUTPUT"
  shows "\<exists>u n out. rb_upstream b = Some u \<and> u \<in> set declared \<and> v = PyInt n \<and> 1 \<le> n
     \<and> dget outputs u = Some (Versioned (PyInt n) out)"
proof -
  obtain out where "node_output_source b outputs declared v = Inr out"
    using assms by (auto simp: resolve_binding_def outcome)
  then show ?thesis using node_output_source_sound by blast
qed

text \<open>Whatever the path, the value read from the planning input is a part of its JSON dump.\<close>

fun json_parts :: "json \<Rightarrow> json set" where
  "json_parts (JList xs) = insert (JList xs) (\<Union>x\<in>set xs. json_parts x)"
| "json_parts (JObj kvs) = insert (JObj kvs) (\<Union>kv\<in>set kvs. json_parts (snd kv))"
| "json_parts j = {j}"

lemma json_parts_self [simp]: "j \<in> json_parts j"
  by (cases j) auto

lemma json_parts_trans: "i \<in> json_parts j \<Longrightarrow> j \<in> json_parts k \<Longrightarrow> i \<in> json_parts k"
proof (induction k)
  case (JList xs)
  then show ?case by auto
next
  case (JObj kvs)
  then show ?case by (fastforce simp: snds.simps)
qed auto

lemma py_dict_get_of_json:
  "py_dict_get (map (\<lambda>(k, v). (PyStr k, py_of_json v)) kvs) s = map_option py_of_json (map_of kvs s)"
  by (induction kvs) auto

lemma traverse_part_of_json:
  assumes "traverse_part (py_of_json j) part = Inr w"
  shows "\<exists>i. w = py_of_json i \<and> i \<in> json_parts j"
proof (cases j)
  case (JList xs)
  obtain i where i: "0 \<le> i" "i < int (length xs)" "w = map py_of_json xs ! nat i"
    using assms JList that
    by (auto simp: traverse_part_def not_le not_less simp del: nth_map split: if_splits option.splits)
  then have "w = py_of_json (xs ! nat i)" "xs ! nat i \<in> set xs" by auto
  then show ?thesis using JList by (intro exI [of _ "xs ! nat i"]) (auto intro!: bexI [of _ "xs ! nat i"])
next
  case (JObj kvs)
  then obtain s i where "map_of kvs s = Some i" "w = py_of_json i"
    using assms
    by (auto simp: traverse_part_def py_dict_get_of_json outcome split: option.splits)
  then show ?thesis using JObj by (intro exI [of _ i]) (force dest: map_of_SomeD)
qed (use assms in \<open>auto simp: traverse_part_def\<close>)

lemma traverse_path_of_json:
  "traverse_path (py_of_json j) path = Inr w \<Longrightarrow> \<exists>i. w = py_of_json i \<and> i \<in> json_parts j"
proof (induction path arbitrary: j)
  case (Cons p path)
  then obtain v where v: "traverse_part (py_of_json j) p = Inr v" "traverse_path v path = Inr w"
    by (auto simp: outcome)
  then obtain i where "v = py_of_json i" "i \<in> json_parts j" using traverse_part_of_json by blast
  then show ?case using Cons.IH v(2) json_parts_trans by blast
qed auto

lemma resolve_plan_input_sound:
  assumes "resolve_binding b input outputs declared v = Inr j"
    and "binding_kind_of b = Inr B_PLAN_INPUT"
  shows "j \<in> json_parts (dump_planning_input input)"
  using assms
  by (auto simp: resolve_binding_def outcome dest!: traverse_path_of_json)

end
