(* ===== verification/Materialize.thy ===== *)
theory Materialize
  imports Bindings
begin

section \<open>Materialised plans and the failure policy\<close>

text \<open>
  \<open>MaterializedPlan\<close> of \<open>store.py\<close>, the closed value the store accepts: a planning input, a
  proposal and the capability of every node, validated together; and \<open>failure_policy.py\<close>, which
  decides what follows a failed attempt. The lemmas show that no caller can give a plan another
  node set, capability or priority than the trusted providers, and bound what the policy retries.
\<close>

subsection \<open>\<open>MaterializedPlan.__post_init__\<close>\<close>

record materialized_plan =
  mp_planning_input :: planning_input
  mp_proposal :: candidate_proposal
  mp_capabilities :: "(string, plan_capability) dict"

datatype materialize_error = ModelRejected validation_error | PlanInvariant

definition model_checked :: "validation_error + 'a \<Rightarrow> materialize_error + 'a" where
  "model_checked r = (case r of Inl e \<Rightarrow> Inl (ModelRejected e) | Inr x \<Rightarrow> Inr x)"

fun opt_json :: "('a \<Rightarrow> json) \<Rightarrow> 'a option \<Rightarrow> json" where
  "opt_json f None = JNull"
| "opt_json f (Some x) = f x"

fun path_part_json :: "path_part \<Rightarrow> json" where
  "path_part_json (Key s) = JStr s"
| "path_part_json (Index i) = JInt i"

definition dump_binding :: "input_binding \<Rightarrow> json" where
  "dump_binding b = JObj
     [(''kind'', JStr (binding_kind_value (ib_kind b))),
      (''path'', JList (map path_part_json (ib_path b))),
      (''upstream_logical_key'', opt_json JStr (ib_upstream b)),
      (''literal_value'', ib_literal b)]"

definition dump_node :: "candidate_node \<Rightarrow> json" where
  "dump_node n = JObj
     [(''logical_key'', JStr (cn_logical_key n)),
      (''node_kind'', JStr (node_kind_value (cn_node_kind n))),
      (''skill_id'', opt_json JStr (cn_skill_id n)),
      (''depends_on'', JList (map JStr (cn_depends_on n))),
      (''input_bindings'', JObj (map (\<lambda>(k, b). (k, dump_binding b)) (cn_input_bindings n)))]"

definition dump_proposal :: "candidate_proposal \<Rightarrow> json" where
  "dump_proposal p = JObj
     [(''provider_id'', JStr (cp_provider_id p)),
      (''provider_version'', JStr (cp_provider_version p)),
      (''nodes'', JList (map dump_node (cp_nodes p)))]"

definition revalidate_planning_input :: "planning_input \<Rightarrow> validation_error + planning_input" where
  "revalidate_planning_input i =
     (case i of
        CardBatch c \<Rightarrow>
          rbind (card_batch_planning_input (cb_room_id c) (cb_trace_id c) (cb_live_plan c)
                   (cb_products_by_id c) (Some (cb_run_key c))) (\<lambda>c'. Inr (CardBatch c'))
      | Emergency m \<Rightarrow> rbind (close_emergency_facts m) (\<lambda>m'. Inr (Emergency m')))"

definition expected_control_types :: "planning_input \<Rightarrow> (string \<times> string) list" where
  "expected_control_types i =
     (case i of
        CardBatch _ \<Rightarrow> [(''prepare-card-batch'', ''PREPARE_CARD_BATCH''),
                        (''collect-card-results'', ''COLLECT_CARD_RESULTS'')]
      | Emergency _ \<Rightarrow> [(''validate-sold-out-event'', ''VALIDATE_SOLD_OUT_EVENT''),
                        (''collect-sold-out-response'', ''COLLECT_SOLD_OUT_RESPONSE'')])"

definition check_fixed_proposal ::
  "planning_input \<Rightarrow> candidate_proposal \<Rightarrow> materialize_error + unit" where
  "check_fixed_proposal i p =
     (case i of
        CardBatch _ \<Rightarrow> Inr ()
      | Emergency m \<Rightarrow>
          rbind (model_checked (propose_sold_out m)) (\<lambda>canonical.
          guard (json_eq (dump_proposal p) (dump_proposal canonical)) PlanInvariant))"

definition capability_matches ::
  "planning_input \<Rightarrow> candidate_node \<Rightarrow> plan_capability \<Rightarrow> bool" where
  "capability_matches i n c =
     (case cn_node_kind n of
        K_CONTROL \<Rightarrow>
          \<not> (case dget (expected_control_types i) (cn_logical_key n) of
               None \<Rightarrow> True
             | Some t \<Rightarrow> rc_node_type c \<noteq> t \<or> rc_skill_id c \<noteq> None \<or> rc_skill_version c \<noteq> None
                 \<or> rc_resource_keys c \<noteq> [])
      | K_SKILL \<Rightarrow>
          \<not> (rc_node_type c \<noteq> ''SKILL'' \<or> rc_skill_id c \<noteq> cn_skill_id n
               \<or> rc_skill_version c \<in> {None, Some ''''}))"

definition node_by_key :: "candidate_node list \<Rightarrow> string \<Rightarrow> candidate_node option" where
  "node_by_key ns k = find (\<lambda>n. cn_logical_key n = k) ns"

fun check_capabilities ::
  "planning_input \<Rightarrow> candidate_node list \<Rightarrow> (string, plan_capability) dict
     \<Rightarrow> materialize_error + unit" where
  "check_capabilities i ns [] = Inr ()"
| "check_capabilities i ns ((k, c) # cs) =
     rbind (of_option PlanInvariant (node_by_key ns k)) (\<lambda>n.
     rbind (guard (capability_matches i n c) PlanInvariant) (\<lambda>_.
     check_capabilities i ns cs))"

definition materialized_plan_init ::
  "planning_input \<Rightarrow> candidate_proposal \<Rightarrow> (string, plan_capability) dict
     \<Rightarrow> materialize_error + materialized_plan" where
  "materialized_plan_init i p caps =
     rbind (model_checked (revalidate_planning_input i)) (\<lambda>input.
     rbind (model_checked (candidate_plan_proposal p)) (\<lambda>proposal.
     rbind (check_fixed_proposal input proposal) (\<lambda>_.
     rbind (guard (set (dkeys caps) = set (map cn_logical_key (cp_nodes proposal))) PlanInvariant)
       (\<lambda>_.
     rbind (check_capabilities input (cp_nodes proposal) caps) (\<lambda>_.
     Inr \<lparr>mp_planning_input = input, mp_proposal = proposal, mp_capabilities = caps\<rparr>)))))"

subsection \<open>\<open>MaterializedPlan.digest\<close>\<close>

definition dump_capability :: "plan_capability \<Rightarrow> json" where
  "dump_capability c = JObj
     [(''node_type'', JStr (rc_node_type c)),
      (''skill_id'', opt_json JStr (rc_skill_id c)),
      (''skill_version'', opt_json JStr (rc_skill_version c)),
      (''lifecycle'', JList (map JStr (sort (remdups (rc_lifecycle c))))),
      (''risk_level'', opt_json JStr (rc_risk_level c)),
      (''max_attempt_seconds'', opt_json JInt (rc_max_attempt_seconds c)),
      (''resource_keys'', JList (map JStr (rc_resource_keys c))),
      (''max_concurrency'', JInt (rc_max_concurrency c))]"

definition plan_snapshot :: "materialized_plan \<Rightarrow> json" where
  "plan_snapshot p = JObj
     [(''planning_input'', dump_planning_input (mp_planning_input p)),
      (''proposal'', dump_proposal (mp_proposal p)),
      (''capabilities'', JObj (map (\<lambda>(k, c). (k, dump_capability c)) (mp_capabilities p)))]"

definition plan_digest :: "materialized_plan \<Rightarrow> string" where
  "plan_digest p = canonical_sha256 (plan_snapshot p)"

subsection \<open>What a materialised plan guarantees\<close>

definition planning_input_wf :: "planning_input \<Rightarrow> bool" where
  "planning_input_wf i = (case i of CardBatch c \<Rightarrow> card_batch_wf c | Emergency m \<Rightarrow> emergency_wf m)"

text \<open>
  A plan fit for the store: every node has its own capability, of the kind the node declares, and
  the nodes form a closed, acyclic graph.
\<close>

definition plan_wf :: "materialized_plan \<Rightarrow> bool" where
  "plan_wf p \<longleftrightarrow>
     planning_input_wf (mp_planning_input p)
     \<and> candidate_plan_proposal (mp_proposal p) = Inr (mp_proposal p)
     \<and> set (dkeys (mp_capabilities p)) = set (map cn_logical_key (cp_nodes (mp_proposal p)))
     \<and> (\<forall>k c. (k, c) \<in> set (mp_capabilities p) \<longrightarrow>
          (\<exists>n\<in>set (cp_nodes (mp_proposal p)). cn_logical_key n = k
             \<and> capability_matches (mp_planning_input p) n c))"

lemma model_checked_eq_Inr [outcome]: "model_checked r = Inr x \<longleftrightarrow> r = Inr x"
  by (auto simp: model_checked_def split: sum.splits)

lemma candidate_plan_proposal_id: "candidate_plan_proposal p = Inr q \<Longrightarrow> q = p"
  by (auto simp: candidate_plan_proposal_def validate_dag_eq_Inr outcome)

lemma node_by_key_SomeD: "node_by_key ns k = Some n \<Longrightarrow> n \<in> set ns \<and> cn_logical_key n = k"
  unfolding node_by_key_def by (induction ns) (auto split: if_splits)

lemma check_capabilitiesD:
  "check_capabilities i ns cs = Inr u \<Longrightarrow> (k, c) \<in> set cs \<Longrightarrow>
     \<exists>n\<in>set ns. cn_logical_key n = k \<and> capability_matches i n c"
proof (induction i ns cs rule: check_capabilities.induct)
  case (2 i ns k' c' cs)
  then obtain n where "node_by_key ns k' = Some n" "capability_matches i n c'"
    "check_capabilities i ns cs = Inr ()" by (auto simp: outcome)
  with 2 show ?case by (auto dest: node_by_key_SomeD)
qed simp

lemma revalidate_planning_input_wf:
  "revalidate_planning_input i = Inr j \<Longrightarrow> planning_input_wf j"
  by (auto simp: revalidate_planning_input_def planning_input_wf_def outcome
      dest: card_batch_planning_input_wf close_emergency_facts_wf split: planning_input.split_asm)

lemma materialized_plan_init_wf:
  assumes "materialized_plan_init i p caps = Inr m"
  shows "plan_wf m"
proof -
  obtain input where input: "revalidate_planning_input i = Inr input"
    and p: "candidate_plan_proposal p = Inr p"
    and keys: "set (dkeys caps) = set (map cn_logical_key (cp_nodes p))"
    and caps: "check_capabilities input (cp_nodes p) caps = Inr ()"
    and m: "m = \<lparr>mp_planning_input = input, mp_proposal = p, mp_capabilities = caps\<rparr>"
  proof -
    obtain input q where *: "revalidate_planning_input i = Inr input"
      "candidate_plan_proposal p = Inr q"
      "set (dkeys caps) = set (map cn_logical_key (cp_nodes q))"
      "check_capabilities input (cp_nodes q) caps = Inr ()"
      "m = \<lparr>mp_planning_input = input, mp_proposal = q, mp_capabilities = caps\<rparr>"
      using assms unfolding materialized_plan_init_def by (auto simp: outcome)
    show thesis using that * candidate_plan_proposal_id [OF *(2)] by simp
  qed
  show ?thesis
    using input p keys check_capabilitiesD [OF caps]
    by (simp add: plan_wf_def m revalidate_planning_input_wf)
qed

lemma plan_wf_nodes:
  assumes "plan_wf p"
  shows "cp_nodes (mp_proposal p) \<noteq> []" "distinct (map cn_logical_key (cp_nodes (mp_proposal p)))"
    "n \<in> set (cp_nodes (mp_proposal p)) \<Longrightarrow>
       set (cn_depends_on n) \<subseteq> set (map cn_logical_key (cp_nodes (mp_proposal p)))"
    "n \<in> set (cp_nodes (mp_proposal p)) \<Longrightarrow> \<exists>c. dget (mp_capabilities p) (cn_logical_key n) = Some c"
    "acyclic (depends (cp_nodes (mp_proposal p)))"
proof -
  have p: "candidate_plan_proposal (mp_proposal p) = Inr (mp_proposal p)"
    and keys: "set (dkeys (mp_capabilities p)) = set (map cn_logical_key (cp_nodes (mp_proposal p)))"
    using assms by (auto simp: plan_wf_def)
  then have v: "validate_dag (mp_proposal p) = Inr (mp_proposal p)"
    by (auto simp: candidate_plan_proposal_def outcome)
  show "cp_nodes (mp_proposal p) \<noteq> []" "distinct (map cn_logical_key (cp_nodes (mp_proposal p)))"
    "acyclic (depends (cp_nodes (mp_proposal p)))"
    "n \<in> set (cp_nodes (mp_proposal p)) \<Longrightarrow>
       set (cn_depends_on n) \<subseteq> set (map cn_logical_key (cp_nodes (mp_proposal p)))"
    using v by (auto simp: validate_dag_eq_Inr)
  show "\<exists>c. dget (mp_capabilities p) (cn_logical_key n) = Some c" if "n \<in> set (cp_nodes (mp_proposal p))"
    using that keys dget_None_iff [of "mp_capabilities p" "cn_logical_key n"] by fastforce
qed

text \<open>
  A proposal that claims the emergency priority is the fixed five-node one: same providers, same
  nodes in the same order, with the same kinds, skills and dependencies.
\<close>

lemma json_eq_str [simp]: "json_eq (JStr s) (JStr t) \<longleftrightarrow> s = t" by auto

lemma json_list_eq_strs: "json_list_eq (map JStr xs) (map JStr ys) \<longleftrightarrow> xs = ys"
proof (induction xs arbitrary: ys)
  case (Cons x xs)
  then show ?case by (cases ys) auto
qed auto

lemma json_eq_opt_str: "json_eq (opt_json JStr x) (opt_json JStr y) \<longleftrightarrow> x = y"
  by (cases x; cases y) auto

lemma node_kind_value_inj [simp]: "node_kind_value k = node_kind_value l \<longleftrightarrow> k = l"
  by (cases k; cases l) auto

lemma json_eq_node:
  "json_eq (dump_node n) (dump_node m) \<Longrightarrow> cn_logical_key n = cn_logical_key m
     \<and> cn_node_kind n = cn_node_kind m \<and> cn_skill_id n = cn_skill_id m
     \<and> cn_depends_on n = cn_depends_on m"
  by (simp add: dump_node_def json_eq_opt_str json_list_eq_strs)

definition node_shape :: "candidate_node \<Rightarrow> string \<times> node_kind \<times> string option \<times> string list" where
  "node_shape n = (cn_logical_key n, cn_node_kind n, cn_skill_id n, cn_depends_on n)"

lemma json_list_eq_nodes:
  "json_list_eq (map dump_node ns) (map dump_node ms) \<Longrightarrow> map node_shape ns = map node_shape ms"
proof (induction ns arbitrary: ms)
  case (Cons n ns)
  then show ?case by (cases ms) (auto simp: node_shape_def dest: json_eq_node)
qed simp

lemma emergency_proposal_fixed:
  assumes "materialized_plan_init i p caps = Inr m" and "mp_planning_input m = Emergency e"
  shows "cp_provider_id (mp_proposal m) = ''canonical-sold-out-emergency''
       \<and> map node_shape (cp_nodes (mp_proposal m)) = map node_shape emergency_nodes"
proof -
  have fixed: "check_fixed_proposal (Emergency e) (mp_proposal m) = Inr ()"
    using assms unfolding materialized_plan_init_def
    by (auto simp: outcome dest!: candidate_plan_proposal_id)
  obtain c where c: "propose_sold_out e = Inr c" and eq: "json_eq (dump_proposal (mp_proposal m)) (dump_proposal c)"
    using fixed by (auto simp: check_fixed_proposal_def outcome)
  have "c = \<lparr>cp_provider_id = ''canonical-sold-out-emergency'', cp_provider_version = ''1.0.0'',
      cp_nodes = emergency_nodes\<rparr>"
    using c by (auto simp: propose_sold_out_def dest!: candidate_plan_proposal_id)
  then show ?thesis using eq by (auto simp: dump_proposal_def intro: json_list_eq_nodes)
qed

subsection \<open>The failure policy\<close>

datatype failure_category =
    TRANSIENT_INFRA | RATE_LIMITED | INVALID_INPUT | BUSINESS_CONFLICT | POLICY_DENIED
  | VERSION_CONFLICT | SIDE_EFFECT_UNKNOWN | INTERNAL_INVARIANT

datatype side_effect_state = NOT_SENT | CONFIRMED | UNKNOWN_EFFECT

record failure_fact =
  ff_category :: failure_category
  ff_external_code :: string
  ff_side_effect_state :: side_effect_state
  ff_attempt_id :: string
  ff_retry_after_seconds :: "int option"

datatype failure_decision = Retry int | WaitHuman | SkipNode | FailPlan

definition max_read_attempts :: int where
  "max_read_attempts = 3"

definition hex_value :: "char \<Rightarrow> nat" where
  "hex_value c = length (takeWhile (\<lambda>d. d \<noteq> c) ''0123456789abcdef'')"

definition parse_hex :: "string \<Rightarrow> nat" where
  "parse_hex s = foldl (\<lambda>n c. 16 * n + hex_value c) 0 s"

definition retry_seed :: "failure_fact \<Rightarrow> int \<Rightarrow> string" where
  "retry_seed f attempt_number =
     ff_external_code f @ [char_of (31::nat)] @ ff_attempt_id f @ [char_of (31::nat)]
       @ int_text attempt_number"

definition retry_delay :: "failure_fact \<Rightarrow> int \<Rightarrow> int" where
  "retry_delay f attempt_number =
     (case (ff_category f, ff_retry_after_seconds f) of
        (RATE_LIMITED, Some s) \<Rightarrow> seconds s
      | _ \<Rightarrow>
          seconds (2 ^ nat (attempt_number - 1))
          + milliseconds (int (parse_hex (take 8 (sha256_hex (retry_seed f attempt_number))) mod 1000)))"

definition decide_failure ::
  "failure_fact \<Rightarrow> plan_capability \<Rightarrow> pyval \<Rightarrow> pytime \<Rightarrow> pytime \<Rightarrow> materialize_error + failure_decision" where
  "decide_failure failure capability attempt deadline now =
     rbind (aware_utc PlanInvariant now) (\<lambda>now_us.
     rbind (aware_utc PlanInvariant deadline) (\<lambda>deadline_us.
     rbind (case attempt of PyInt n \<Rightarrow> (if n < 1 then Inl PlanInvariant else Inr n)
                          | _ \<Rightarrow> Inl PlanInvariant) (\<lambda>attempt_number.
     if ff_category failure = SIDE_EFFECT_UNKNOWN then Inr WaitHuman
     else
       let retryable_read = rc_node_type capability = ''SKILL''
             \<and> rc_skill_id capability = Some generate_product_card
             \<and> ff_category failure \<in> {TRANSIENT_INFRA, RATE_LIMITED} in
       if \<not> retryable_read \<or> max_read_attempts \<le> attempt_number then Inr FailPlan
       else
         let retry_at = now_us + retry_delay failure attempt_number;
             required = (case rc_max_attempt_seconds capability of None \<Rightarrow> 0 | Some n \<Rightarrow> n) in
         if deadline_us \<le> retry_at + seconds required then Inr FailPlan
         else Inr (Retry retry_at))))"

lemma retry_delay_backoff:
  assumes "\<not> (ff_category f = RATE_LIMITED \<and> ff_retry_after_seconds f \<noteq> None)"
  shows "seconds (2 ^ nat (n - 1)) \<le> retry_delay f n"
    and "retry_delay f n < seconds (2 ^ nat (n - 1)) + seconds 1"
  using assms
  by (auto simp: retry_delay_def milliseconds_def seconds_def split: failure_category.splits option.splits)

lemma retry_delay_nonneg:
  assumes "\<And>s. ff_retry_after_seconds f = Some s \<Longrightarrow> 0 \<le> s"
  shows "0 \<le> retry_delay f n"
proof (cases "ff_category f = RATE_LIMITED \<and> ff_retry_after_seconds f \<noteq> None")
  case True
  then show ?thesis using assms by (auto simp: retry_delay_def seconds_def)
next
  case False
  have "(0 :: int) \<le> seconds (2 ^ nat (n - 1))" by (simp add: seconds_def)
  then show ?thesis using retry_delay_backoff(1) [OF False, of n] by linarith
qed

lemma decide_failure_retry:
  assumes "decide_failure f c attempt deadline now = Inr (Retry t)"
  shows "\<exists>n d s. attempt = PyInt n \<and> deadline = Aware d \<and> now = Aware s \<and> 1 \<le> n \<and> n < 3
     \<and> ff_category f \<in> {TRANSIENT_INFRA, RATE_LIMITED} \<and> t = s + retry_delay f n
     \<and> t + seconds (case rc_max_attempt_seconds c of None \<Rightarrow> 0 | Some n \<Rightarrow> n) < d"
  using assms
  by (cases attempt)
    (auto simp: decide_failure_def max_read_attempts_def Let_def outcome split: if_splits)

lemma decide_failure_unknown:
  assumes "ff_category f = SIDE_EFFECT_UNKNOWN" and "1 \<le> n"
  shows "decide_failure f c (PyInt n) (Aware d) (Aware s) = Inr WaitHuman"
  using assms by (simp add: decide_failure_def)

end
