(* ===== verification/PlanStore.thy ===== *)
theory PlanStore
  imports Materialize
begin

section \<open>The plan store: records, views and queries\<close>

text \<open>
  \<open>InMemoryPlanStore\<close> of \<open>src/plan_engine/store.py\<close>. Its nine dictionaries are the fields of
  \<open>plan_store\<close>; the lock makes every method one atomic step, so a method is a function from the
  store to a result and the next store. \<open>uuid4()\<close> is the argument \<open>u\<close> of the operations that
  draw: the \<open>n\<close>-th call returns \<open>u n\<close>, and \<open>ps_draws\<close> counts the calls made so far. The wall
  clock is an argument too.

  An exception is a \<open>store_error\<close>. \<open>Invariant r\<close> is a \<open>PlanStoreInvariantError\<close>, with one
  \<open>reason\<close> per message; \<open>BadTransition\<close> is the state machine's \<open>PlanInvariantError\<close>;
  \<open>ViewRejected\<close> is the \<open>ValidationError\<close> of a view that refuses the record it is built from;
  the others are the Python exceptions of a failed lookup.
\<close>

subsection \<open>Errors\<close>

datatype reason =
    NaiveTime | DigestConflict | NoPlanRun | NoPlanVersion | BadVersionNumber | BadFailure
  | BadSignature | NotCardBatch | BadReplanSignature | DuplicateSource | BadReplanRoot
  | LoopBlocked | StaleVersion | BudgetExhausted | BadReuse | ReuseLoop | ReuseStale | ReuseNoRun
  | ReuseForeign | EmptyWorker | BadLease | BadLimit | NoReadyAt | NoNodeRun | TokenMismatch
  | StaleToken | NotRunning | LeaseExpired | InputConflict | RetryBeforeNow | IsSuperseded
  | LeaseLive | ResourceHeld | BadOutput | NotActive | EmptyEvent | StaleImpact | ImpactIdentity
  | ImpactNodes | TerminalPlan | BadOutcome | NotReconcilable | NoReconcileRun | RunMismatch
  | NoReference | ForeignNode | NoCommand | CommandPlanMissing

datatype store_error =
    Invariant reason | BadTransition | ViewRejected | KeyError | AttributeError | TypeErrorRaised

subsection \<open>Records\<close>

record plan_run_rec =
  pl_id :: string
  pl_room_id :: string
  pl_trace_id :: string
  pl_run_key :: string
  pl_current_version :: int
  pl_state :: run_state
  pl_planning_input :: json
  pl_plan_kind :: run_kind
  pl_priority :: int
  pl_root :: "string option"
  pl_parent :: "string option"
  pl_trigger :: "string option"
  pl_rec_required :: bool
  pl_rec_failure :: "json option"
  pl_rec_signature :: "string option"
  pl_rec_attempts :: nat
  pl_last_reconciled :: "int option"

record version_rec =
  ver_plan_run_id :: string
  ver_number :: int
  ver_provider_id :: string
  ver_provider_version :: string
  ver_proposal :: json
  ver_change_reason :: string
  ver_source_events :: "string list"
  ver_planning_input :: "json option"
  ver_failure_signature :: "string option"
  ver_fingerprint :: "string option"

record node_rec =
  nd_id :: string
  nd_plan_run_id :: string
  nd_version :: int
  nd_logical_key :: string
  nd_kind :: node_kind
  nd_state :: node_state
  nd_skill_id :: "string option"
  nd_input_bindings :: json
  nd_depends_on :: "string list"
  nd_capability :: plan_capability
  nd_retry_at :: "int option"
  nd_deadline_at :: "int option"
  nd_ready_at :: "int option"
  nd_reused_from :: "string option"
  nd_invalidated_from :: "string option"

record node_run_rec =
  nr_id :: string
  nr_plan_run_id :: string
  nr_node_id :: string
  nr_attempt :: nat
  nr_claim_version :: nat
  nr_state :: node_state
  nr_worker :: string
  nr_lease_until :: int
  nr_input_snapshot :: json
  nr_output :: json
  nr_resource_keys :: "string list"
  nr_node_type :: string
  nr_skill_id :: "string option"
  nr_skill_version :: "string option"
  nr_fingerprint :: "string option"
  nr_deadline_at :: "int option"
  nr_superseded :: bool
  nr_superseded_by :: "string option"
  nr_superseded_at :: "int option"

subsection \<open>Commands\<close>

record plan_command =
  pc_id :: string
  pc_type :: command_type
  pc_plan_run_id :: string
  pc_expected_version :: int
  pc_node_id :: "string option"
  pc_expected_status :: "node_state option"
  pc_payload :: json
  pc_issued_at :: int

definition plan_command_create ::
  "string \<Rightarrow> command_type \<Rightarrow> string \<Rightarrow> pyval \<Rightarrow> string option \<Rightarrow> node_state option \<Rightarrow> pyval \<Rightarrow> pytime
     \<Rightarrow> validation_error + plan_command" where
  "plan_command_create i t plan_run_id version node_id status payload issued_at =
     rbind (guard (i \<noteq> '''' \<and> plan_run_id \<noteq> '''' \<and> min_length_1 node_id) FieldInvalid) (\<lambda>_.
     rbind (case version of PyInt n \<Rightarrow> (if 1 \<le> n then Inr n else Inl FieldInvalid)
                          | _ \<Rightarrow> Inl FieldInvalid) (\<lambda>n.
     rbind (case freeze_command_json payload of Inl _ \<Rightarrow> Inl FieldInvalid | Inr j \<Rightarrow> Inr j) (\<lambda>j.
     rbind (aware_utc FieldInvalid issued_at) (\<lambda>us.
     Inr \<lparr>pc_id = i, pc_type = t, pc_plan_run_id = plan_run_id, pc_expected_version = n,
          pc_node_id = node_id, pc_expected_status = status, pc_payload = j,
          pc_issued_at = us\<rparr>))))"

definition approval_command_ttl :: int where
  "approval_command_ttl = minutes 10"

definition reconciliation_command_ttl :: int where
  "reconciliation_command_ttl = minutes 30"

definition command_ttl :: "plan_command \<Rightarrow> int" where
  "command_ttl c =
     (if pc_type c = RECONCILE then reconciliation_command_ttl else approval_command_ttl)"

datatype command_reason =
    ACCEPTED | COMMAND_NOT_YET_VALID | COMMAND_EXPIRED | PLAN_VERSION_MISMATCH
  | RECONCILIATION_REQUIRED | RESUME_MUST_TARGET_PLAN | COMMAND_STATE_NOT_APPLICABLE
  | NODE_NOT_FOUND | NODE_STATUS_MISMATCH | COMMAND_TYPE_NOT_IMPLEMENTED
  | INVALID_RECONCILIATION_PAYLOAD | NODE_RUN_NOT_FOUND | NODE_RUN_STATE_MISMATCH

record command_outcome =
  cr_command_id :: string
  cr_command_type :: command_type
  cr_plan_run_id :: string
  cr_accepted :: bool
  cr_reason :: command_reason
  cr_plan_version :: int
  cr_node_id :: "string option"
  cr_resulting_status :: "node_state option"
  cr_completed_at :: int

record ledger_rec =
  lg_command :: plan_command
  lg_result :: command_outcome

subsection \<open>The store\<close>

record plan_store =
  ps_run_id_by_key :: "(string, string) dict"
  ps_digest_by_key :: "(string, string) dict"
  ps_plan_runs :: "(string, plan_run_rec) dict"
  ps_versions :: "(string \<times> int, version_rec) dict"
  ps_nodes :: "(string, node_rec) dict"
  ps_node_ids :: "(string \<times> int, string list) dict"
  ps_run_ids :: "(string, string list) dict"
  ps_node_runs :: "(string, node_run_rec) dict"
  ps_commands :: "(string, ledger_rec) dict"
  ps_draws :: nat

definition empty_store :: plan_store where
  "empty_store =
     \<lparr>ps_run_id_by_key = [], ps_digest_by_key = [], ps_plan_runs = [], ps_versions = [],
      ps_nodes = [], ps_node_ids = [], ps_run_ids = [], ps_node_runs = [], ps_commands = [],
      ps_draws = 0\<rparr>"

type_synonym 'a outcome = "(store_error + 'a) \<times> plan_store"

subsection \<open>Writes\<close>

text \<open>The only writes of the store: one record, one history, one published version.\<close>

definition put_plan_run :: "plan_run_rec \<Rightarrow> plan_store \<Rightarrow> plan_store" where
  "put_plan_run r s = s\<lparr>ps_plan_runs := dset (pl_id r) r (ps_plan_runs s)\<rparr>"

definition put_node :: "node_rec \<Rightarrow> plan_store \<Rightarrow> plan_store" where
  "put_node n s = s\<lparr>ps_nodes := dset (nd_id n) n (ps_nodes s)\<rparr>"

definition put_node_run :: "node_run_rec \<Rightarrow> plan_store \<Rightarrow> plan_store" where
  "put_node_run r s = s\<lparr>ps_node_runs := dset (nr_id r) r (ps_node_runs s)\<rparr>"

definition put_history :: "string \<Rightarrow> string list \<Rightarrow> plan_store \<Rightarrow> plan_store" where
  "put_history i ids s = s\<lparr>ps_run_ids := dset i ids (ps_run_ids s)\<rparr>"

definition put_command :: "ledger_rec \<Rightarrow> plan_store \<Rightarrow> plan_store" where
  "put_command l s = s\<lparr>ps_commands := dset (pc_id (lg_command l)) l (ps_commands s)\<rparr>"

definition draw :: "plan_store \<Rightarrow> plan_store" where
  "draw s = s\<lparr>ps_draws := Suc (ps_draws s)\<rparr>"

lemmas store_writes =
  put_plan_run_def put_node_def put_node_run_def put_history_def put_command_def draw_def

subsection \<open>Shared checks\<close>

definition inv_guard :: "bool \<Rightarrow> reason \<Rightarrow> store_error + unit" where
  "inv_guard ok r = guard ok (Invariant r)"

definition utc :: "pytime \<Rightarrow> store_error + int" where
  "utc t = aware_utc (Invariant NaiveTime) t"

definition utc_option :: "pytime option \<Rightarrow> store_error + int option" where
  "utc_option t = (case t of None \<Rightarrow> Inr None | Some u \<Rightarrow> rbind (utc u) (\<lambda>us. Inr (Some us)))"

text \<open>\<open>type(x) is int and x > 0\<close>; a bool or a float is refused.\<close>

definition positive_int :: "reason \<Rightarrow> pyval \<Rightarrow> store_error + int" where
  "positive_int r v =
     (case v of PyInt n \<Rightarrow> (if n \<le> 0 then Inl (Invariant r) else Inr n) | _ \<Rightarrow> Inl (Invariant r))"

definition validate_version_number :: "pyval \<Rightarrow> store_error + int" where
  "validate_version_number v = positive_int BadVersionNumber v"

definition of_key :: "'a option \<Rightarrow> store_error + 'a" where
  "of_key x = of_option KeyError x"

text \<open>
  \<open>PlanStateMachine.transition_node\<close> on two states of the enumeration. Where the code has just
  tested the current state, the target is written directly below and the edge is a lemma.
\<close>

definition move :: "node_state \<Rightarrow> node_state \<Rightarrow> store_error + node_state" where
  "move s t = (case transition_node (py_node_state s) (py_node_state t) of
       Inl _ \<Rightarrow> Inl BadTransition | Inr t' \<Rightarrow> Inr t')"

lemma move_eq: "move s t = (if node_edge s t then Inr t else Inl BadTransition)"
  by (simp add: move_def transition_node_def guard_def)

lemma inv_guard_outcome [outcome]:
  "inv_guard ok r = Inr u \<longleftrightarrow> ok" "inv_guard ok r = Inl e \<longleftrightarrow> \<not> ok \<and> e = Invariant r"
  by (auto simp: inv_guard_def outcome)

lemma inv_guard_simps [simp]: "inv_guard True r = Inr ()" "inv_guard False r = Inl (Invariant r)"
  by (simp_all add: inv_guard_def)

lemma utc_outcome [outcome]: "utc t = Inr us \<longleftrightarrow> t = Aware us"
  by (simp add: utc_def outcome)

lemma utc_simps [simp]: "utc (Aware us) = Inr us" "utc (Naive us) = Inl (Invariant NaiveTime)"
  by (simp_all add: utc_def)

lemma positive_int_outcome [outcome]: "positive_int r v = Inr n \<longleftrightarrow> v = PyInt n \<and> 0 < n"
  by (cases v) (auto simp: positive_int_def)

lemma positive_int_simps [simp]: "0 < n \<Longrightarrow> positive_int r (PyInt n) = Inr n"
  by (simp add: positive_int_def)

lemma of_key_outcome [outcome]: "of_key x = Inr v \<longleftrightarrow> x = Some v" "of_key x = Inl e \<longleftrightarrow> x = None \<and> e = KeyError"
  by (auto simp: of_key_def outcome)

lemma of_key_Some [simp]: "of_key (Some v) = Inr v" "of_key None = Inl KeyError"
  by (simp_all add: of_key_def)

subsection \<open>Current claims and resource locks\<close>

definition history :: "plan_store \<Rightarrow> string \<Rightarrow> string list" where
  "history s i = (case dget (ps_run_ids s) i of None \<Rightarrow> [] | Some ids \<Rightarrow> ids)"

definition current_node_run_id :: "plan_store \<Rightarrow> string \<Rightarrow> string option" where
  "current_node_run_id s i = (if history s i = [] then None else Some (last (history s i)))"

definition holds_lock :: "plan_store \<Rightarrow> int \<Rightarrow> node_run_rec \<Rightarrow> bool" where
  "holds_lock s now r \<longleftrightarrow> nr_state r = N_RUNNING \<and> now < nr_lease_until r
     \<and> current_node_run_id s (nr_node_id r) = Some (nr_id r)"

definition locked_resource_keys :: "plan_store \<Rightarrow> int \<Rightarrow> string list" where
  "locked_resource_keys s now =
     concat (map nr_resource_keys (filter (holds_lock s now) (dvalues (ps_node_runs s))))"

subsection \<open>Views\<close>

definition lineage_ok :: "plan_run_rec \<Rightarrow> bool" where
  "lineage_ok r =
     (if pl_plan_kind r = CARD_BATCH
      then pl_priority r = 0 \<and> pl_root r = None \<and> pl_parent r = None \<and> pl_trigger r = None
      else pl_priority r = 100 \<and> pl_root r \<noteq> None \<and> pl_parent r \<noteq> None \<and> pl_trigger r \<noteq> None)"

definition sha_option_ok :: "string option \<Rightarrow> bool" where
  "sha_option_ok x = (case x of None \<Rightarrow> True | Some s \<Rightarrow> is_sha256 s)"

definition plan_run_view_ok :: "plan_run_rec \<Rightarrow> bool" where
  "plan_run_view_ok r \<longleftrightarrow> pl_id r \<noteq> '''' \<and> pl_room_id r \<noteq> '''' \<and> pl_trace_id r \<noteq> '''' \<and> pl_run_key r \<noteq> ''''
     \<and> 1 \<le> pl_current_version r \<and> 0 \<le> pl_priority r
     \<and> min_length_1 (pl_root r) \<and> min_length_1 (pl_parent r) \<and> min_length_1 (pl_trigger r)
     \<and> sha_option_ok (pl_rec_signature r) \<and> lineage_ok r"

definition plan_run_view :: "plan_run_rec \<Rightarrow> store_error + plan_run_rec" where
  "plan_run_view r = rbind (guard (plan_run_view_ok r) ViewRejected) (\<lambda>_. Inr r)"

definition version_view_ok :: "version_rec \<Rightarrow> bool" where
  "version_view_ok v \<longleftrightarrow> ver_plan_run_id v \<noteq> '''' \<and> 1 \<le> ver_number v \<and> ver_provider_id v \<noteq> ''''
     \<and> ver_provider_version v \<noteq> '''' \<and> ver_change_reason v \<noteq> '''' \<and> '''' \<notin> set (ver_source_events v)
     \<and> distinct (ver_source_events v)
     \<and> sha_option_ok (ver_failure_signature v) \<and> sha_option_ok (ver_fingerprint v)"

definition version_view :: "version_rec \<Rightarrow> store_error + version_rec" where
  "version_view v = rbind (guard (version_view_ok v) ViewRejected) (\<lambda>_. Inr v)"

record node_view_rec =
  nv_id :: string
  nv_plan_run_id :: string
  nv_version :: int
  nv_logical_key :: string
  nv_kind :: node_kind
  nv_state :: node_state
  nv_skill_id :: "string option"
  nv_input_bindings :: json
  nv_depends_on :: "string list"
  nv_resource_keys :: "string list"
  nv_ready_at :: "int option"
  nv_reused_from :: "string option"
  nv_invalidated_from :: "string option"

definition node_view_ok :: "node_rec \<Rightarrow> bool" where
  "node_view_ok n \<longleftrightarrow> nd_id n \<noteq> '''' \<and> nd_plan_run_id n \<noteq> '''' \<and> 1 \<le> nd_version n
     \<and> nd_logical_key n \<noteq> '''' \<and> '''' \<notin> set (nd_depends_on n) \<and> distinct (nd_depends_on n)
     \<and> '''' \<notin> set (rc_resource_keys (nd_capability n))
     \<and> distinct (rc_resource_keys (nd_capability n))
     \<and> min_length_1 (nd_reused_from n) \<and> min_length_1 (nd_invalidated_from n)"

definition node_view :: "node_rec \<Rightarrow> store_error + node_view_rec" where
  "node_view n = rbind (guard (node_view_ok n) ViewRejected) (\<lambda>_. Inr
     \<lparr>nv_id = nd_id n, nv_plan_run_id = nd_plan_run_id n, nv_version = nd_version n,
      nv_logical_key = nd_logical_key n, nv_kind = nd_kind n, nv_state = nd_state n,
      nv_skill_id = nd_skill_id n, nv_input_bindings = nd_input_bindings n,
      nv_depends_on = nd_depends_on n, nv_resource_keys = rc_resource_keys (nd_capability n),
      nv_ready_at = nd_ready_at n, nv_reused_from = nd_reused_from n,
      nv_invalidated_from = nd_invalidated_from n\<rparr>)"

definition node_run_view_ok :: "node_run_rec \<Rightarrow> bool" where
  "node_run_view_ok r \<longleftrightarrow> nr_id r \<noteq> '''' \<and> nr_plan_run_id r \<noteq> '''' \<and> nr_node_id r \<noteq> ''''
     \<and> 1 \<le> nr_attempt r \<and> 1 \<le> nr_claim_version r \<and> nr_worker r \<noteq> '''' \<and> nr_node_type r \<noteq> ''''
     \<and> sha_option_ok (nr_fingerprint r) \<and> min_length_1 (nr_superseded_by r)
     \<and> (if nr_superseded r then nr_superseded_by r \<noteq> None \<and> nr_superseded_at r \<noteq> None
        else nr_superseded_by r = None \<and> nr_superseded_at r = None)"

definition node_run_view :: "node_run_rec \<Rightarrow> store_error + node_run_rec" where
  "node_run_view r = rbind (guard (node_run_view_ok r) ViewRejected) (\<lambda>_. Inr r)"

subsection \<open>Queries\<close>

definition get_plan_run :: "string \<Rightarrow> plan_store \<Rightarrow> store_error + plan_run_rec" where
  "get_plan_run i s =
     rbind (of_option (Invariant NoPlanRun) (dget (ps_plan_runs s) i)) plan_run_view"

definition list_plan_runs :: "bool \<Rightarrow> plan_store \<Rightarrow> store_error + plan_run_rec list" where
  "list_plan_runs include_terminal s =
     (let records = sort_key pl_id (dvalues (ps_plan_runs s));
          selected = (if include_terminal then records
                      else filter (\<lambda>r. pl_state r \<in> {R_ACTIVE, R_FROZEN} \<or> pl_rec_required r) records)
      in rmap plan_run_view selected)"

definition get_plan_version :: "string \<Rightarrow> pyval \<Rightarrow> plan_store \<Rightarrow> store_error + version_rec" where
  "get_plan_version i version s =
     rbind (validate_version_number version) (\<lambda>n.
     rbind (of_option (Invariant NoPlanVersion) (dget (ps_versions s) (i, n))) version_view)"

definition list_nodes :: "string \<Rightarrow> pyval option \<Rightarrow> plan_store \<Rightarrow> store_error + node_view_rec list" where
  "list_nodes i version s =
     rbind (case version of None \<Rightarrow> Inr None
              | Some v \<Rightarrow> rbind (validate_version_number v) (\<lambda>n. Inr (Some n))) (\<lambda>requested.
     rbind (of_option (Invariant NoPlanRun) (dget (ps_plan_runs s) i)) (\<lambda>run.
     let selected = (case requested of None \<Rightarrow> pl_current_version run | Some n \<Rightarrow> n) in
     rbind (of_option (Invariant NoPlanVersion) (dget (ps_node_ids s) (i, selected))) (\<lambda>ids.
     rmap (\<lambda>j. rbind (of_key (dget (ps_nodes s) j)) node_view) ids)))"

definition list_node_runs ::
  "string \<Rightarrow> string option \<Rightarrow> plan_store \<Rightarrow> store_error + node_run_rec list" where
  "list_node_runs i node_id s =
     rbind (of_option (Invariant NoPlanRun) (dget (ps_plan_runs s) i)) (\<lambda>run.
     rbind (of_key (dget (ps_node_ids s) (i, pl_current_version run))) (\<lambda>plan_node_ids.
     rbind (case node_id of
              None \<Rightarrow> Inr plan_node_ids
            | Some j \<Rightarrow>
                (case dget (ps_nodes s) j of
                   None \<Rightarrow> Inl (Invariant ForeignNode)
                 | Some n \<Rightarrow> if nd_plan_run_id n \<noteq> i then Inl (Invariant ForeignNode) else Inr [j]))
     (\<lambda>selected.
     rbind (rmap (\<lambda>j. of_key (dget (ps_run_ids s) j)) selected) (\<lambda>histories.
     rmap (\<lambda>k. rbind (of_key (dget (ps_node_runs s) k)) node_run_view) (concat histories)))))"

record ledger_view =
  lv_command :: plan_command
  lv_expires_at :: int
  lv_accepted :: bool
  lv_reason :: command_reason
  lv_plan_version :: int
  lv_resulting_status :: "node_state option"
  lv_completed_at :: int

text \<open>The view repeats the command's own fields, here as \<open>lv_command\<close>.\<close>

definition get_command :: "string \<Rightarrow> plan_store \<Rightarrow> store_error + ledger_view" where
  "get_command i s =
     rbind (of_option (Invariant NoCommand) (dget (ps_commands s) i)) (\<lambda>entry.
     let c = lg_command entry; r = lg_result entry in
     Inr \<lparr>lv_command = c, lv_expires_at = pc_issued_at c + command_ttl c,
          lv_accepted = cr_accepted r, lv_reason = cr_reason r, lv_plan_version = cr_plan_version r,
          lv_resulting_status = cr_resulting_status r, lv_completed_at = cr_completed_at r\<rparr>)"

end
