(* ===== verification/StoreClaims.thy ===== *)
theory StoreClaims
  imports PlanStore
begin

section \<open>Claims, leases and fencing tokens\<close>

text \<open>
  The operations of \<open>InMemoryPlanStore\<close> a worker calls: \<open>claim_ready_nodes\<close>,
  \<open>claim_next_ready_nodes\<close>, \<open>record_node_input\<close>, \<open>schedule_retry\<close>, \<open>heartbeat_node_run\<close> and
  \<open>reclaim_expired_node\<close>. Each is a \<open>commit\<close>: its checks in the order of the code, then its
  writes. The dictionary lookups of a loop are made before the loop's first write; the invariant of
  \<open>StoreInvariant\<close> shows that in a reachable store none of them fails.
\<close>

subsection \<open>Promotion of due retries\<close>

definition retry_due :: "int \<Rightarrow> node_rec \<Rightarrow> bool" where
  "retry_due now n \<longleftrightarrow> nd_state n = N_RETRY_WAIT \<and>
     (case nd_retry_at n of None \<Rightarrow> False | Some t \<Rightarrow> t \<le> now)"

definition promote_retry :: "int \<Rightarrow> node_rec \<Rightarrow> plan_store \<Rightarrow> plan_store" where
  "promote_retry now n s =
     (if retry_due now n
      then put_node (n\<lparr>nd_state := N_READY, nd_retry_at := None, nd_ready_at := Some now\<rparr>) s
      else s)"

subsection \<open>Selection under the resource locks\<close>

fun select_ready :: "node_rec list \<Rightarrow> string list \<Rightarrow> nat \<Rightarrow> node_rec list" where
  "select_ready [] locked limit = []"
| "select_ready (n # ns) locked limit =
     (if nd_state n \<noteq> N_READY then select_ready ns locked limit
      else if set (rc_resource_keys (nd_capability n)) \<inter> set locked \<noteq> {}
      then select_ready ns locked limit
      else n # (if limit \<le> 1 then []
                else select_ready ns (rc_resource_keys (nd_capability n) @ locked) (limit - 1)))"

subsection \<open>One claim\<close>

definition next_claim_version :: "node_run_rec list \<Rightarrow> nat" where
  "next_claim_version runs = foldr (\<lambda>r. max (nr_claim_version r)) runs 0 + 1"

definition claim_snapshot :: "node_rec \<Rightarrow> json" where
  "claim_snapshot n = JObj
     [(''input_bindings'', nd_input_bindings n), (''depends_on'', JList (map JStr (nd_depends_on n)))]"

definition new_claim ::
  "string \<Rightarrow> string \<Rightarrow> int \<Rightarrow> int option \<Rightarrow> node_rec \<Rightarrow> nat \<Rightarrow> nat \<Rightarrow> node_run_rec" where
  "new_claim run_id worker lease_until deadline n attempt claim_version =
     \<lparr>nr_id = run_id, nr_plan_run_id = nd_plan_run_id n, nr_node_id = nd_id n,
      nr_attempt = attempt, nr_claim_version = claim_version, nr_state = N_RUNNING,
      nr_worker = worker, nr_lease_until = lease_until, nr_input_snapshot = claim_snapshot n,
      nr_output = JNull, nr_resource_keys = rc_resource_keys (nd_capability n),
      nr_node_type = rc_node_type (nd_capability n), nr_skill_id = rc_skill_id (nd_capability n),
      nr_skill_version = rc_skill_version (nd_capability n), nr_fingerprint = None,
      nr_deadline_at = deadline, nr_superseded = False, nr_superseded_by = None,
      nr_superseded_at = None\<rparr>"

definition runs_of :: "plan_store \<Rightarrow> string \<Rightarrow> store_error + string list \<times> node_run_rec list" where
  "runs_of s i =
     rbind (of_key (dget (ps_run_ids s) i)) (\<lambda>ids.
     rbind (rmap (\<lambda>k. of_key (dget (ps_node_runs s) k)) ids) (\<lambda>runs. Inr (ids, runs)))"

text \<open>Append a claim to the history of node \<open>n\<close>: a fresh id, the run, the longer history.\<close>

definition append_claim :: "string list \<Rightarrow> node_run_rec \<Rightarrow> plan_store \<Rightarrow> plan_store" where
  "append_claim ids r s = put_history (nr_node_id r) (ids @ [nr_id r]) (put_node_run r (draw s))"

definition start_claim ::
  "(nat \<Rightarrow> string) \<Rightarrow> string \<Rightarrow> int \<Rightarrow> int \<Rightarrow> int option \<Rightarrow> string \<Rightarrow> plan_store \<Rightarrow> node_run_rec outcome" where
  "start_claim u worker now lease deadline i s = commit
     (rbind (of_key (dget (ps_nodes s) i)) (\<lambda>n.
      rbind (runs_of s i) (\<lambda>(ids, runs). Inr (n, ids, runs))))
     (\<lambda>(n, ids, runs).
        let persisted_deadline = (case nd_deadline_at n of None \<Rightarrow> deadline | Some d \<Rightarrow> Some d);
            run = new_claim (u (ps_draws s)) worker (now + seconds lease) persisted_deadline n
                    (length ids + 1) (next_claim_version runs)
        in (node_run_view run,
            append_claim ids run
              (put_node (n\<lparr>nd_state := N_RUNNING, nd_deadline_at := persisted_deadline\<rparr>) s)))
     s"

fun claim_each ::
  "(nat \<Rightarrow> string) \<Rightarrow> string \<Rightarrow> int \<Rightarrow> int \<Rightarrow> int option \<Rightarrow> string list \<Rightarrow> plan_store
     \<Rightarrow> node_run_rec list outcome" where
  "claim_each u worker now lease deadline [] s = (Inr [], s)"
| "claim_each u worker now lease deadline (i # is) s =
     (case start_claim u worker now lease deadline i s of
        (Inl e, s') \<Rightarrow> (Inl e, s')
      | (Inr r, s') \<Rightarrow>
          (case claim_each u worker now lease deadline is s' of
             (Inl e, s'') \<Rightarrow> (Inl e, s'')
           | (Inr rs, s'') \<Rightarrow> (Inr (r # rs), s'')))"

definition claim_arguments ::
  "string \<Rightarrow> pytime \<Rightarrow> pyval \<Rightarrow> pyval \<Rightarrow> pytime option \<Rightarrow> store_error + int \<times> int \<times> int \<times> int option" where
  "claim_arguments worker now lease limit deadline =
     rbind (utc now) (\<lambda>now_us.
     rbind (inv_guard (worker \<noteq> '''') EmptyWorker) (\<lambda>_.
     rbind (positive_int BadLease lease) (\<lambda>lease_s.
     rbind (positive_int BadLimit limit) (\<lambda>limit_n.
     rbind (utc_option deadline) (\<lambda>deadline_us. Inr (now_us, lease_s, limit_n, deadline_us))))))"

subsection \<open>\<open>claim_ready_nodes\<close>\<close>

definition claim_ready_nodes ::
  "(nat \<Rightarrow> string) \<Rightarrow> string \<Rightarrow> string \<Rightarrow> pytime \<Rightarrow> pyval \<Rightarrow> pyval \<Rightarrow> pytime option \<Rightarrow> plan_store
     \<Rightarrow> node_run_rec list outcome" where
  "claim_ready_nodes u plan_run_id worker now lease limit deadline s = commit
     (rbind (claim_arguments worker now lease limit deadline) (\<lambda>args.
      rbind (of_option (Invariant NoPlanRun) (dget (ps_plan_runs s) plan_run_id)) (\<lambda>run.
      if pl_state run \<noteq> R_ACTIVE then Inr (args, None)
      else rbind (of_key (dget (ps_node_ids s) (plan_run_id, pl_current_version run))) (\<lambda>ids.
           rbind (rmap (\<lambda>i. of_key (dget (ps_nodes s) i)) ids) (\<lambda>nodes.
           Inr (args, Some nodes))))))
     (\<lambda>((now_us, lease_s, limit_n, deadline_us), active).
        case active of
          None \<Rightarrow> (Inr [], s)
        | Some nodes \<Rightarrow>
            let s1 = fold (promote_retry now_us) nodes s;
                current = map (\<lambda>n. the (dget (ps_nodes s1) (nd_id n))) nodes;
                chosen = select_ready current (locked_resource_keys s1 now_us) (nat limit_n)
            in claim_each u worker now_us lease_s deadline_us (map nd_id chosen) s1)
     s"

subsection \<open>\<open>claim_next_ready_nodes\<close>\<close>

text \<open>A node takes part when its plan run is active and the node is of the current version.\<close>

definition schedulable :: "plan_store \<Rightarrow> node_rec \<Rightarrow> plan_run_rec option" where
  "schedulable s n = (case dget (ps_plan_runs s) (nd_plan_run_id n) of
       None \<Rightarrow> None
     | Some r \<Rightarrow> if pl_state r = R_ACTIVE \<and> nd_version n = pl_current_version r then Some r else None)"

fun claim_candidates :: "plan_store \<Rightarrow> node_rec list \<Rightarrow> store_error + (int \<times> int \<times> string) list" where
  "claim_candidates s [] = Inr []"
| "claim_candidates s (n # ns) =
     (case schedulable s n of
        None \<Rightarrow> claim_candidates s ns
      | Some r \<Rightarrow>
          if nd_state n \<noteq> N_READY then claim_candidates s ns
          else rbind (of_option (Invariant NoReadyAt) (nd_ready_at n)) (\<lambda>ready_at.
               rbind (claim_candidates s ns) (\<lambda>cs.
               Inr ((- pl_priority r, ready_at, nd_id n) # cs))))"

definition claim_next_ready_nodes ::
  "(nat \<Rightarrow> string) \<Rightarrow> string \<Rightarrow> pytime \<Rightarrow> pyval \<Rightarrow> pyval \<Rightarrow> pytime option \<Rightarrow> plan_store
     \<Rightarrow> node_run_rec list outcome" where
  "claim_next_ready_nodes u worker now lease limit deadline s = commit
     (rbind (claim_arguments worker now lease limit deadline) (\<lambda>args.
      rbind (rmap (\<lambda>n. of_key (dget (ps_plan_runs s) (nd_plan_run_id n))) (dvalues (ps_nodes s)))
        (\<lambda>_. Inr args)))
     (\<lambda>(now_us, lease_s, limit_n, deadline_us).
        let s1 = fold (promote_retry now_us)
                   (filter (\<lambda>n. schedulable s n \<noteq> None) (dvalues (ps_nodes s))) s
        in case claim_candidates s1 (dvalues (ps_nodes s1)) of
             Inl e \<Rightarrow> (Inl e, s1)
           | Inr candidates \<Rightarrow>
               let ordered = map (\<lambda>(_, _, i). the (dget (ps_nodes s1) i)) (sort candidates);
                   chosen = select_ready ordered (locked_resource_keys s1 now_us) (nat limit_n)
               in claim_each u worker now_us lease_s deadline_us (map nd_id chosen) s1)
     s"

subsection \<open>The fence every later write passes\<close>

text \<open>
  The worker and the token must be those of the run, the run must be the node's latest, and it
  must still be running.
\<close>

definition fenced_run ::
  "plan_store \<Rightarrow> string \<Rightarrow> string \<Rightarrow> nat \<Rightarrow> store_error + node_run_rec" where
  "fenced_run s run_id worker claim_version =
     rbind (of_option (Invariant NoNodeRun) (dget (ps_node_runs s) run_id)) (\<lambda>r.
     rbind (inv_guard (nr_worker r = worker \<and> nr_claim_version r = claim_version) TokenMismatch) (\<lambda>_.
     rbind (inv_guard (current_node_run_id s (nr_node_id r) = Some run_id) StaleToken) (\<lambda>_.
     rbind (inv_guard (nr_state r = N_RUNNING) NotRunning) (\<lambda>_. Inr r))))"

lemma fenced_run_eq_Inr:
  "fenced_run s i w c = Inr r \<longleftrightarrow>
     dget (ps_node_runs s) i = Some r \<and> nr_worker r = w \<and> nr_claim_version r = c
     \<and> current_node_run_id s (nr_node_id r) = Some i \<and> nr_state r = N_RUNNING"
  by (auto simp: fenced_run_def outcome)

definition record_node_input ::
  "string \<Rightarrow> string \<Rightarrow> nat \<Rightarrow> materialized_input \<Rightarrow> pytime \<Rightarrow> plan_store \<Rightarrow> node_run_rec outcome" where
  "record_node_input run_id worker claim_version input now s = commit
     (rbind (utc now) (\<lambda>now_us.
      rbind (fenced_run s run_id worker claim_version) (\<lambda>r.
      rbind (inv_guard (now_us < nr_lease_until r) LeaseExpired) (\<lambda>_.
      rbind (case nr_fingerprint r of
               None \<Rightarrow> Inr ()
             | Some f \<Rightarrow> inv_guard (f = mi_fingerprint input
                 \<and> json_eq (nr_input_snapshot r) (mi_parameters input)) InputConflict) (\<lambda>_.
      Inr r)))))
     (\<lambda>r. if nr_fingerprint r \<noteq> None then (node_run_view r, s)
          else let recorded = r\<lparr>nr_input_snapshot := mi_parameters input,
                                nr_fingerprint := Some (mi_fingerprint input)\<rparr>
               in (node_run_view recorded, put_node_run recorded s))
     s"

definition schedule_retry ::
  "string \<Rightarrow> string \<Rightarrow> nat \<Rightarrow> pytime \<Rightarrow> pytime \<Rightarrow> plan_store \<Rightarrow> node_view_rec outcome" where
  "schedule_retry run_id worker claim_version now retry_at s = commit
     (rbind (utc now) (\<lambda>now_us.
      rbind (utc retry_at) (\<lambda>retry_us.
      rbind (inv_guard (now_us \<le> retry_us) RetryBeforeNow) (\<lambda>_.
      rbind (fenced_run s run_id worker claim_version) (\<lambda>r.
      rbind (inv_guard (\<not> nr_superseded r) IsSuperseded) (\<lambda>_.
      rbind (inv_guard (now_us < nr_lease_until r) LeaseExpired) (\<lambda>_.
      rbind (of_key (dget (ps_nodes s) (nr_node_id r))) (\<lambda>n.
      rbind (move (nd_state n) N_RETRY_WAIT) (\<lambda>retry_state.
      Inr (retry_us, r, n, retry_state))))))))))
     (\<lambda>(retry_us, r, n, retry_state).
        let waiting = n\<lparr>nd_state := retry_state, nd_retry_at := Some retry_us\<rparr>
        in (node_view waiting, put_node waiting (put_node_run (r\<lparr>nr_state := retry_state\<rparr>) s)))
     s"

definition heartbeat_node_run ::
  "string \<Rightarrow> string \<Rightarrow> nat \<Rightarrow> pytime \<Rightarrow> pyval \<Rightarrow> plan_store \<Rightarrow> node_run_rec outcome" where
  "heartbeat_node_run run_id worker claim_version now lease s = commit
     (rbind (utc now) (\<lambda>now_us.
      rbind (positive_int BadLease lease) (\<lambda>lease_s.
      rbind (fenced_run s run_id worker claim_version) (\<lambda>r.
      rbind (inv_guard (now_us < nr_lease_until r) LeaseExpired) (\<lambda>_.
      Inr (now_us, lease_s, r))))))
     (\<lambda>(now_us, lease_s, r).
        let renewed = r\<lparr>nr_lease_until := max (nr_lease_until r) (now_us + seconds lease_s)\<rparr>
        in (node_run_view renewed, put_node_run renewed s))
     s"

definition reclaim_expired_node ::
  "(nat \<Rightarrow> string) \<Rightarrow> string \<Rightarrow> string \<Rightarrow> pytime \<Rightarrow> pyval \<Rightarrow> plan_store \<Rightarrow> node_run_rec outcome" where
  "reclaim_expired_node u run_id worker now lease s = commit
     (rbind (utc now) (\<lambda>now_us.
      rbind (inv_guard (worker \<noteq> '''') EmptyWorker) (\<lambda>_.
      rbind (positive_int BadLease lease) (\<lambda>lease_s.
      rbind (of_option (Invariant NoNodeRun) (dget (ps_node_runs s) run_id)) (\<lambda>r.
      rbind (inv_guard (current_node_run_id s (nr_node_id r) = Some run_id) StaleToken) (\<lambda>_.
      rbind (inv_guard (nr_state r = N_RUNNING) NotRunning) (\<lambda>_.
      rbind (inv_guard (\<not> nr_superseded r) IsSuperseded) (\<lambda>_.
      rbind (inv_guard (nr_lease_until r \<le> now_us) LeaseLive) (\<lambda>_.
      rbind (inv_guard (set (nr_resource_keys r) \<inter> set (locked_resource_keys s now_us) = {})
        ResourceHeld) (\<lambda>_.
      rbind (runs_of s (nr_node_id r)) (\<lambda>(ids, runs).
      Inr (now_us, lease_s, r, ids, runs))))))))))))
     (\<lambda>(now_us, lease_s, r, ids, runs).
        let reclaimed = r\<lparr>nr_id := u (ps_draws s), nr_attempt := length ids + 1,
              nr_claim_version := next_claim_version runs, nr_state := N_RUNNING,
              nr_worker := worker, nr_lease_until := now_us + seconds lease_s, nr_output := JNull,
              nr_superseded := False, nr_superseded_by := None, nr_superseded_at := None\<rparr>
        in (node_run_view reclaimed, append_claim ids reclaimed s))
     s"

end
