(* ===== verification/StoreResults.thy ===== *)
theory StoreResults
  imports StoreClaims
begin

section \<open>Results, reconciliation and human commands\<close>

text \<open>
  \<open>record_node_result\<close>, \<open>reconcile_plan_reference\<close> and the command ledger \<open>submit_command\<close> of
  \<open>InMemoryPlanStore\<close>: the operations that close a node run and move the plan on.
\<close>

subsection \<open>Opening the nodes whose dependencies succeeded\<close>

fun all_found :: "(string, node_state) dict \<Rightarrow> string list \<Rightarrow> store_error + bool" where
  "all_found states [] = Inr True"
| "all_found states (d # ds) =
     rbind (of_key (dget states d)) (\<lambda>t. if t = N_SUCCEEDED then all_found states ds else Inr False)"

text \<open>
  The loop over the nodes of the version. \<open>states\<close> is \<open>states_by_logical_key\<close>; a node that becomes
  ready is written back to it, as in the code.
\<close>

fun ready_loop ::
  "int \<Rightarrow> string list \<Rightarrow> (string, node_state) dict \<Rightarrow> plan_store \<Rightarrow> unit outcome" where
  "ready_loop now [] states s = (Inr (), s)"
| "ready_loop now (i # is) states s =
     (case dget (ps_nodes s) i of
        None \<Rightarrow> (Inl KeyError, s)
      | Some n \<Rightarrow>
          if nd_state n \<noteq> N_PENDING then ready_loop now is states s
          else (case all_found states (nd_depends_on n) of
                  Inl e \<Rightarrow> (Inl e, s)
                | Inr ok \<Rightarrow>
                    if ok
                    then ready_loop now is (dset (nd_logical_key n) N_READY states)
                           (put_node (n\<lparr>nd_state := N_READY, nd_ready_at := Some now\<rparr>) s)
                    else ready_loop now is states s))"

definition all_succeeded :: "plan_store \<Rightarrow> string list \<Rightarrow> bool" where
  "all_succeeded s ids \<longleftrightarrow>
     list_all (\<lambda>i. case dget (ps_nodes s) i of None \<Rightarrow> False | Some n \<Rightarrow> nd_state n = N_SUCCEEDED) ids"

definition states_by_logical_key :: "node_rec list \<Rightarrow> (string, node_state) dict" where
  "states_by_logical_key ns = fold (\<lambda>n. dset (nd_logical_key n) (nd_state n)) ns []"

definition ready_satisfied_dependents :: "string \<Rightarrow> int \<Rightarrow> plan_store \<Rightarrow> unit outcome" where
  "ready_satisfied_dependents plan_run_id now s =
     (case rbind (of_key (dget (ps_plan_runs s) plan_run_id)) (\<lambda>run.
           rbind (of_key (dget (ps_node_ids s) (plan_run_id, pl_current_version run))) (\<lambda>ids.
           rbind (rmap (\<lambda>i. of_key (dget (ps_nodes s) i)) ids) (\<lambda>nodes. Inr (run, ids, nodes)))) of
        Inl e \<Rightarrow> (Inl e, s)
      | Inr (run, ids, nodes) \<Rightarrow>
          (case ready_loop now ids (states_by_logical_key nodes) s of
             (Inl e, s') \<Rightarrow> (Inl e, s')
           | (Inr _, s') \<Rightarrow>
               (Inr (), if all_succeeded s' ids then put_plan_run (run\<lparr>pl_state := R_SUCCEEDED\<rparr>) s'
                        else s')))"

text \<open>Set the aggregate state of an existing plan run; the code reads the run anew.\<close>

definition set_plan_state :: "string \<Rightarrow> run_state \<Rightarrow> plan_store \<Rightarrow> unit outcome" where
  "set_plan_state plan_run_id st s = (case dget (ps_plan_runs s) plan_run_id of
       None \<Rightarrow> (Inl KeyError, s)
     | Some run \<Rightarrow> (Inr (), put_plan_run (run\<lparr>pl_state := st\<rparr>) s))"

subsection \<open>\<open>record_node_result\<close>\<close>

definition json_safe_copy :: "reason \<Rightarrow> pyval \<Rightarrow> store_error + json" where
  "json_safe_copy r v = (case freeze_json v of Inl _ \<Rightarrow> Inl (Invariant r) | Inr j \<Rightarrow> Inr j)"

text \<open>
  \<open>node_state\<close> is the target as the caller passes it, a member or a plain string. After the run
  and the node are written, a success opens dependents, and an unsuperseded failure or freeze
  moves the whole plan.
\<close>

definition record_node_result ::
  "string \<Rightarrow> string \<Rightarrow> nat \<Rightarrow> pyval \<Rightarrow> pyval \<Rightarrow> pytime \<Rightarrow> plan_store \<Rightarrow> node_run_rec outcome" where
  "record_node_result run_id worker claim_version target output now s = commit
     (rbind (utc now) (\<lambda>now_us.
      rbind (json_safe_copy BadOutput output) (\<lambda>out.
      rbind (fenced_run s run_id worker claim_version) (\<lambda>r.
      rbind (inv_guard (now_us < nr_lease_until r) LeaseExpired) (\<lambda>_.
      rbind (of_key (dget (ps_nodes s) (nr_node_id r))) (\<lambda>n.
      rbind (case transition_node (py_node_state (nd_state n)) target of
               Inl _ \<Rightarrow> Inl BadTransition | Inr t \<Rightarrow> Inr t) (\<lambda>target_state.
      Inr (now_us, out, r, n, target_state))))))))
     (\<lambda>(now_us, out, r, n, target_state).
        let completed_run = r\<lparr>nr_state := target_state, nr_output := out\<rparr>;
            s1 = put_node (n\<lparr>nd_state := target_state\<rparr>) (put_node_run completed_run s);
            (done, s2) =
              (if target_state = N_SUCCEEDED then ready_satisfied_dependents (nr_plan_run_id r) now_us s1
               else if target_state = N_FAILED \<and> \<not> nr_superseded r
               then set_plan_state (nr_plan_run_id r) R_FAILED s1
               else if target_state = N_FROZEN \<and> \<not> nr_superseded r
               then set_plan_state (nr_plan_run_id r) R_FROZEN s1
               else (Inr (), s1))
        in (rbind done (\<lambda>_. node_run_view completed_run), s2))
     s"

subsection \<open>\<open>reconcile_plan_reference\<close>\<close>

definition reconciled_output :: "node_run_rec \<Rightarrow> json \<Rightarrow> json" where
  "reconciled_output r payload =
     JObj [(''worker_output'', nr_output r), (''reconciliation'', payload)]"

text \<open>The writes both reconciliation paths share: close run and node, then move the plan.\<close>

definition close_reconciliation ::
  "plan_run_rec \<Rightarrow> node_rec \<Rightarrow> node_run_rec \<Rightarrow> node_state \<Rightarrow> int \<Rightarrow> json \<Rightarrow> plan_store \<Rightarrow> node_rec outcome" where
  "close_reconciliation run n r target completed_at payload s =
     (let n' = n\<lparr>nd_state := target\<rparr>;
          s1 = put_node n' (put_node_run (r\<lparr>nr_state := target,
                 nr_output := reconciled_output r payload\<rparr>) s)
      in if target = N_FAILED then (Inr n', put_plan_run (run\<lparr>pl_state := R_FAILED\<rparr>) s1)
         else (case ready_satisfied_dependents (pl_id run) completed_at s1 of
                 (Inl e, s2) \<Rightarrow> (Inl e, s2) | (Inr _, s2) \<Rightarrow> (Inr n', s2)))"

definition reconcile_reference_locked ::
  "plan_run_rec \<Rightarrow> node_rec \<Rightarrow> node_state \<Rightarrow> int \<Rightarrow> json \<Rightarrow> plan_store \<Rightarrow> node_rec outcome" where
  "reconcile_reference_locked run n target completed_at payload s = commit
     (rbind (inv_guard (target \<in> {N_SUCCEEDED, N_FAILED}) BadOutcome) (\<lambda>_.
      rbind (inv_guard (nd_state n = N_WAITING_RECONCILIATION) NotReconcilable) (\<lambda>_.
      rbind (of_option (Invariant NoReconcileRun) (current_node_run_id s (nd_id n))) (\<lambda>run_id.
      rbind (of_key (dget (ps_node_runs s) run_id)) (\<lambda>r.
      rbind (inv_guard (nr_state r = N_WAITING_RECONCILIATION) RunMismatch) (\<lambda>_. Inr r))))))
     (\<lambda>r. close_reconciliation run n r target completed_at payload s)
     s"

text \<open>\<open>wall\<close> is the store's own clock, \<open>datetime.now(timezone.utc)\<close>.\<close>

definition reconcile_plan_reference ::
  "int \<Rightarrow> string \<Rightarrow> string \<Rightarrow> pyval \<Rightarrow> pyval \<Rightarrow> plan_store \<Rightarrow> node_view_rec outcome" where
  "reconcile_plan_reference wall plan_run_id node_id outcome_value reference s = commit
     (rbind (of_option (Invariant BadOutcome) (enum_call node_state_members outcome_value)) (\<lambda>target.
      rbind (inv_guard (target \<in> {N_SUCCEEDED, N_FAILED}) BadOutcome) (\<lambda>_.
      rbind (json_safe_copy BadOutput reference) (\<lambda>ref.
      rbind (of_option (Invariant NoReference) (dget (ps_plan_runs s) plan_run_id)) (\<lambda>run.
      rbind (of_option (Invariant NoReference) (dget (ps_nodes s) node_id)) (\<lambda>n.
      rbind (inv_guard (nd_plan_run_id n = plan_run_id \<and> nd_version n = pl_current_version run)
        ForeignNode) (\<lambda>_.
      Inr (target, ref, run, n))))))))
     (\<lambda>(target, ref, run, n).
        case reconcile_reference_locked run n target wall
               (JObj [(''outcome'', JStr (node_state_value target)), (''reference'', ref)]) s of
          (Inl e, s') \<Rightarrow> (Inl e, s')
        | (Inr n', s') \<Rightarrow> (node_view n', s'))
     s"

subsection \<open>\<open>submit_command\<close>\<close>

definition command_result ::
  "plan_command \<Rightarrow> plan_run_rec \<Rightarrow> int \<Rightarrow> command_reason \<Rightarrow> string option \<Rightarrow> node_state option
     \<Rightarrow> command_outcome" where
  "command_result c run completed_at reason node_id status =
     \<lparr>cr_command_id = pc_id c, cr_command_type = pc_type c, cr_plan_run_id = pc_plan_run_id c,
      cr_accepted = (reason = ACCEPTED), cr_reason = reason,
      cr_plan_version = pl_current_version run, cr_node_id = node_id, cr_resulting_status = status,
      cr_completed_at = completed_at\<rparr>"

text \<open>
  The value of \<open>payload.get("outcome")\<close>: a payload that is no object has no \<open>get\<close>, and a list or
  object is unhashable, so asking whether it is in the set of outcomes raises.
\<close>

definition payload_outcome :: "json \<Rightarrow> store_error + string option" where
  "payload_outcome payload = (case payload of
       JObj kvs \<Rightarrow> (case map_of kvs ''outcome'' of
           Some (JStr t) \<Rightarrow> Inr (Some t)
         | Some (JList _) \<Rightarrow> Inl TypeErrorRaised
         | Some (JObj _) \<Rightarrow> Inl TypeErrorRaised
         | _ \<Rightarrow> Inr None)
     | _ \<Rightarrow> Inl AttributeError)"

definition apply_reconciliation_command ::
  "plan_command \<Rightarrow> plan_run_rec \<Rightarrow> node_rec \<Rightarrow> int \<Rightarrow> plan_store \<Rightarrow> command_outcome outcome" where
  "apply_reconciliation_command c run n completed_at s =
     (let reject = (\<lambda>reason. (Inr (command_result c run completed_at reason (pc_node_id c)
                      (Some (nd_state n))), s)) in
      if nd_state n \<noteq> N_WAITING_RECONCILIATION then reject COMMAND_STATE_NOT_APPLICABLE
      else case payload_outcome (pc_payload c) of
        Inl e \<Rightarrow> (Inl e, s)
      | Inr outcome_text \<Rightarrow>
          if outcome_text \<notin> {Some ''SUCCEEDED'', Some ''FAILED''} then reject INVALID_RECONCILIATION_PAYLOAD
          else case current_node_run_id s (nd_id n) of
            None \<Rightarrow> reject NODE_RUN_NOT_FOUND
          | Some run_id \<Rightarrow>
              (case dget (ps_node_runs s) run_id of
                 None \<Rightarrow> (Inl KeyError, s)
               | Some r \<Rightarrow>
                   if nr_state r \<noteq> N_WAITING_RECONCILIATION then reject NODE_RUN_STATE_MISMATCH
                   else let target = (if outcome_text = Some ''SUCCEEDED'' then N_SUCCEEDED else N_FAILED)
                        in case close_reconciliation run n r target completed_at (pc_payload c) s of
                             (Inl e, s') \<Rightarrow> (Inl e, s')
                           | (Inr n', s') \<Rightarrow>
                               (Inr (command_result c run completed_at ACCEPTED (pc_node_id c)
                                  (Some (nd_state n'))), s')))"

definition apply_first_command ::
  "plan_command \<Rightarrow> plan_run_rec \<Rightarrow> int \<Rightarrow> plan_store \<Rightarrow> command_outcome outcome" where
  "apply_first_command c run completed_at s =
     (let reject = (\<lambda>reason node_id status.
            (Inr (command_result c run completed_at reason node_id status), s)) in
      if pc_type c = RESUME then
        if pc_node_id c \<noteq> None \<or> pc_expected_status c \<noteq> None
        then reject RESUME_MUST_TARGET_PLAN (pc_node_id c) None
        else if pl_state run \<noteq> R_FROZEN then reject COMMAND_STATE_NOT_APPLICABLE None None
        else (Inr (command_result c run completed_at ACCEPTED None None),
              put_plan_run (run\<lparr>pl_state := R_ACTIVE\<rparr>) s)
      else case Option.bind (pc_node_id c) (dget (ps_nodes s)) of
        None \<Rightarrow> reject NODE_NOT_FOUND (pc_node_id c) None
      | Some n \<Rightarrow>
          if nd_plan_run_id n \<noteq> pc_plan_run_id c \<or> nd_version n \<noteq> pl_current_version run
          then reject NODE_NOT_FOUND (pc_node_id c) None
          else if pc_expected_status c \<noteq> Some (nd_state n)
          then reject NODE_STATUS_MISMATCH (pc_node_id c) (Some (nd_state n))
          else if pc_type c = RECONCILE then apply_reconciliation_command c run n completed_at s
          else if nd_state n \<noteq> N_WAITING_APPROVAL
          then reject COMMAND_STATE_NOT_APPLICABLE (pc_node_id c) (Some (nd_state n))
          else if pc_type c = APPROVE
          then (Inr (command_result c run completed_at ACCEPTED (pc_node_id c) (Some N_READY)),
                put_node (n\<lparr>nd_state := N_READY, nd_ready_at := Some completed_at\<rparr>) s)
          else (Inr (command_result c run completed_at ACCEPTED (pc_node_id c) (Some N_FAILED)),
                put_plan_run (run\<lparr>pl_state := R_FAILED\<rparr>) (put_node (n\<lparr>nd_state := N_FAILED\<rparr>) s)))"

text \<open>The checks that come before any reading of a node: clock, expiry, version, incident.\<close>

definition command_gate :: "plan_command \<Rightarrow> plan_run_rec \<Rightarrow> int \<Rightarrow> command_reason option" where
  "command_gate c run now =
     (if now < pc_issued_at c then Some COMMAND_NOT_YET_VALID
      else if pc_issued_at c + command_ttl c \<le> now then Some COMMAND_EXPIRED
      else if pc_expected_version c \<noteq> pl_current_version run then Some PLAN_VERSION_MISMATCH
      else if pl_rec_required run \<and> pc_type c \<noteq> RECONCILE then Some RECONCILIATION_REQUIRED
      else None)"

definition submit_command :: "plan_command \<Rightarrow> pytime \<Rightarrow> plan_store \<Rightarrow> command_outcome outcome" where
  "submit_command c now s =
     (case dget (ps_commands s) (pc_id c) of
        Some entry \<Rightarrow> (Inr (lg_result entry), s)
      | None \<Rightarrow> commit
          (rbind (utc now) (\<lambda>now_us.
           rbind (of_option (Invariant CommandPlanMissing) (dget (ps_plan_runs s) (pc_plan_run_id c)))
             (\<lambda>run. Inr (now_us, run))))
          (\<lambda>(now_us, run).
             case (case command_gate c run now_us of
                     Some reason \<Rightarrow> (Inr (command_result c run now_us reason (pc_node_id c) None), s)
                   | None \<Rightarrow> apply_first_command c run now_us s) of
               (Inl e, s') \<Rightarrow> (Inl e, s')
             | (Inr res, s') \<Rightarrow> (Inr res, put_command \<lparr>lg_command = c, lg_result = res\<rparr> s'))
          s)"

text \<open>
  \<open>CommandService.submit\<close>: an optional reconciler runs before the store sees the command, and its
  exception stops the command. \<open>reconcile\<close> is that reconciler on the store; \<open>wall\<close> replaces a
  missing clock.
\<close>

definition command_service_submit ::
  "(plan_command \<Rightarrow> plan_store \<Rightarrow> unit outcome) option \<Rightarrow> int \<Rightarrow> plan_command \<Rightarrow> pytime option
     \<Rightarrow> plan_store \<Rightarrow> command_outcome outcome" where
  "command_service_submit reconcile wall c now s =
     (case (case reconcile of None \<Rightarrow> (Inr (), s) | Some f \<Rightarrow> f c s) of
        (Inl e, s') \<Rightarrow> (Inl e, s')
      | (Inr _, s') \<Rightarrow>
          submit_command c (case now of None \<Rightarrow> Aware wall | Some t \<Rightarrow> t) s')"

end
