(* ===== verification/StorePlans.thy ===== *)
theory StorePlans
  imports StoreResults
begin

section \<open>Creating, replanning and freezing plans\<close>

text \<open>
  \<open>create_or_resume\<close>, \<open>create_replan_version\<close>, \<open>freeze_plan\<close>, \<open>apply_impact_freeze\<close> and the two
  reconciliation-incident operations of \<open>InMemoryPlanStore\<close>.
\<close>

subsection \<open>\<open>create_or_resume\<close>\<close>

definition planning_run_key :: "planning_input \<Rightarrow> string" where
  "planning_run_key i = (case i of CardBatch c \<Rightarrow> cb_run_key c | Emergency m \<Rightarrow> em_run_key m)"

definition planning_room :: "planning_input \<Rightarrow> string" where
  "planning_room i = (case i of CardBatch c \<Rightarrow> cb_room_id c | Emergency m \<Rightarrow> em_room_id m)"

definition planning_trace :: "planning_input \<Rightarrow> string" where
  "planning_trace i = (case i of CardBatch c \<Rightarrow> cb_trace_id c | Emergency m \<Rightarrow> em_trace_id m)"

definition emergency_field :: "(emergency_input \<Rightarrow> string) \<Rightarrow> planning_input \<Rightarrow> string option" where
  "emergency_field f i = (case i of CardBatch _ \<Rightarrow> None | Emergency m \<Rightarrow> Some (f m))"

definition new_plan_run :: "string \<Rightarrow> materialized_plan \<Rightarrow> plan_run_rec" where
  "new_plan_run i p =
     (let input = mp_planning_input p; emergency = (case input of CardBatch _ \<Rightarrow> False | _ \<Rightarrow> True) in
      \<lparr>pl_id = i, pl_room_id = planning_room input, pl_trace_id = planning_trace input,
       pl_run_key = planning_run_key input, pl_current_version = 1, pl_state = R_ACTIVE,
       pl_planning_input = dump_planning_input input,
       pl_plan_kind = (if emergency then EMERGENCY_SOLD_OUT else CARD_BATCH),
       pl_priority = (if emergency then 100 else 0),
       pl_root = emergency_field em_root_plan_run_id input,
       pl_parent = emergency_field em_parent_plan_run_id input,
       pl_trigger = emergency_field em_trigger_event_id input,
       pl_rec_required = False, pl_rec_failure = None, pl_rec_signature = None,
       pl_rec_attempts = 0, pl_last_reconciled = None\<rparr>)"

definition initial_version :: "string \<Rightarrow> materialized_plan \<Rightarrow> version_rec" where
  "initial_version i p =
     \<lparr>ver_plan_run_id = i, ver_number = 1, ver_provider_id = cp_provider_id (mp_proposal p),
      ver_provider_version = cp_provider_version (mp_proposal p),
      ver_proposal = dump_proposal (mp_proposal p), ver_change_reason = ''INITIAL'',
      ver_source_events = [], ver_planning_input = Some (dump_planning_input (mp_planning_input p)),
      ver_failure_signature = None, ver_fingerprint = None\<rparr>"

definition bindings_json :: "candidate_node \<Rightarrow> json" where
  "bindings_json n = JObj (map (\<lambda>(k, b). (k, dump_binding b)) (cn_input_bindings n))"

definition new_node ::
  "string \<Rightarrow> string \<Rightarrow> int \<Rightarrow> candidate_node \<Rightarrow> plan_capability \<Rightarrow> node_state \<Rightarrow> int
     \<Rightarrow> string option \<Rightarrow> string option \<Rightarrow> node_rec" where
  "new_node i plan_run_id version c cap st now reused invalidated =
     \<lparr>nd_id = i, nd_plan_run_id = plan_run_id, nd_version = version,
      nd_logical_key = cn_logical_key c, nd_kind = cn_node_kind c, nd_state = st,
      nd_skill_id = cn_skill_id c, nd_input_bindings = bindings_json c,
      nd_depends_on = cn_depends_on c, nd_capability = cap, nd_retry_at = None,
      nd_deadline_at = None, nd_ready_at = (if st = N_READY then Some now else None),
      nd_reused_from = reused, nd_invalidated_from = invalidated\<rparr>"

definition initial_node_state :: "plan_capability \<Rightarrow> node_state" where
  "initial_node_state cap =
     (if rc_node_type cap \<in> {''PREPARE_CARD_BATCH'', ''VALIDATE_SOLD_OUT_EVENT''}
      then N_READY else N_PENDING)"

text \<open>
  The loop over the candidate nodes: each draws an id and is written with an empty history; the
  result is the list of ids in proposal order.
\<close>

definition add_node :: "node_rec \<Rightarrow> plan_store \<Rightarrow> plan_store" where
  "add_node n s = put_history (nd_id n) [] (put_node n (draw s))"

fun create_nodes ::
  "(nat \<Rightarrow> string) \<Rightarrow> string \<Rightarrow> int \<Rightarrow> (string, plan_capability) dict \<Rightarrow> candidate_node list
     \<Rightarrow> plan_store \<Rightarrow> string list outcome" where
  "create_nodes u plan_run_id created_at caps [] s = (Inr [], s)"
| "create_nodes u plan_run_id created_at caps (c # cs) s =
     (case dget caps (cn_logical_key c) of
        None \<Rightarrow> (Inl KeyError, s)
      | Some cap \<Rightarrow>
          let i = u (ps_draws s);
              n = new_node i plan_run_id 1 c cap (initial_node_state cap) created_at None None
          in case create_nodes u plan_run_id created_at caps cs (add_node n s) of
               (Inl e, s') \<Rightarrow> (Inl e, s')
             | (Inr ids, s') \<Rightarrow> (Inr (i # ids), s'))"

text \<open>Publication of the indexes, after every node is in place.\<close>

definition publish_version :: "version_rec \<Rightarrow> string list \<Rightarrow> plan_store \<Rightarrow> plan_store" where
  "publish_version v ids s =
     s\<lparr>ps_versions := dset (ver_plan_run_id v, ver_number v) v (ps_versions s),
       ps_node_ids := dset (ver_plan_run_id v, ver_number v) ids (ps_node_ids s)\<rparr>"

definition publish_key :: "string \<Rightarrow> string \<Rightarrow> string \<Rightarrow> plan_store \<Rightarrow> plan_store" where
  "publish_key run_key plan_run_id digest s =
     s\<lparr>ps_run_id_by_key := dset run_key plan_run_id (ps_run_id_by_key s),
       ps_digest_by_key := dset run_key digest (ps_digest_by_key s)\<rparr>"

definition create_or_resume ::
  "(nat \<Rightarrow> string) \<Rightarrow> int \<Rightarrow> materialized_plan \<Rightarrow> plan_store \<Rightarrow> plan_run_rec outcome" where
  "create_or_resume u wall p s =
     (let run_key = planning_run_key (mp_planning_input p); digest = plan_digest p in
      case dget (ps_run_id_by_key s) run_key of
        Some existing_id \<Rightarrow>
          (rbind (of_key (dget (ps_digest_by_key s) run_key)) (\<lambda>first_digest.
           rbind (inv_guard (first_digest = digest) DigestConflict) (\<lambda>_.
           rbind (of_key (dget (ps_plan_runs s) existing_id)) plan_run_view)), s)
      | None \<Rightarrow>
          let i = u (ps_draws s); run = new_plan_run i p in
          case create_nodes u i wall (mp_capabilities p) (cp_nodes (mp_proposal p)) (draw s) of
            (Inl e, s1) \<Rightarrow> (Inl e, s1)
          | (Inr ids, s1) \<Rightarrow>
              (plan_run_view run,
               publish_key run_key i digest
                 (publish_version (initial_version i p) ids (put_plan_run run s1))))"

subsection \<open>Reconciliation incidents\<close>

definition validate_reconciliation_signature :: "pyval \<Rightarrow> store_error + string" where
  "validate_reconciliation_signature v = (case str_key v of
       None \<Rightarrow> Inl (Invariant BadSignature)
     | Some t \<Rightarrow> if is_sha256 t then Inr t else Inl (Invariant BadSignature))"

definition reconciliation_failure_snapshot :: "pyval \<Rightarrow> store_error + json" where
  "reconciliation_failure_snapshot v = (case v of
       PyDict _ \<Rightarrow> json_safe_copy BadFailure v
     | _ \<Rightarrow> Inl (Invariant BadFailure))"

definition record_reconciliation_failure ::
  "string \<Rightarrow> pyval \<Rightarrow> pyval \<Rightarrow> pytime \<Rightarrow> plan_store \<Rightarrow> plan_run_rec outcome" where
  "record_reconciliation_failure plan_run_id failure signature now s = commit
     (rbind (reconciliation_failure_snapshot failure) (\<lambda>snapshot.
      rbind (validate_reconciliation_signature signature) (\<lambda>sig.
      rbind (utc now) (\<lambda>now_us.
      rbind (of_option (Invariant NoPlanRun) (dget (ps_plan_runs s) plan_run_id)) (\<lambda>run.
      Inr (snapshot, sig, now_us, run))))))
     (\<lambda>(snapshot, sig, now_us, run).
        let updated = run\<lparr>pl_state := (if pl_state run = R_ACTIVE then R_FROZEN else pl_state run),
              pl_rec_required := True, pl_rec_failure := Some snapshot,
              pl_rec_signature := Some sig, pl_rec_attempts := pl_rec_attempts run + 1,
              pl_last_reconciled := Some now_us\<rparr>
        in (plan_run_view updated, put_plan_run updated s))
     s"

definition clear_reconciliation_failure ::
  "string \<Rightarrow> pytime \<Rightarrow> plan_store \<Rightarrow> plan_run_rec outcome" where
  "clear_reconciliation_failure plan_run_id now s = commit
     (rbind (utc now) (\<lambda>now_us.
      rbind (of_option (Invariant NoPlanRun) (dget (ps_plan_runs s) plan_run_id)) (\<lambda>run.
      Inr (now_us, run))))
     (\<lambda>(now_us, run).
        if \<not> pl_rec_required run then (plan_run_view run, s)
        else let updated = run\<lparr>pl_rec_required := False, pl_rec_failure := None,
                   pl_rec_signature := None, pl_last_reconciled := Some now_us\<rparr>
             in (plan_run_view updated, put_plan_run updated s))
     s"

subsection \<open>\<open>freeze_plan\<close>\<close>

definition freeze_plan :: "string \<Rightarrow> plan_store \<Rightarrow> plan_run_rec outcome" where
  "freeze_plan plan_run_id s = commit
     (rbind (of_option (Invariant NoPlanRun) (dget (ps_plan_runs s) plan_run_id)) (\<lambda>run.
      rbind (inv_guard (pl_state run \<in> {R_FROZEN, R_ACTIVE}) NotActive) (\<lambda>_. Inr run)))
     (\<lambda>run. if pl_state run = R_FROZEN then (plan_run_view run, s)
            else let frozen = run\<lparr>pl_state := R_FROZEN\<rparr>
                 in (plan_run_view frozen, put_plan_run frozen s))
     s"

subsection \<open>\<open>create_replan_version\<close>\<close>

definition freeze_and_raise :: "plan_run_rec \<Rightarrow> reason \<Rightarrow> plan_store \<Rightarrow> 'a outcome" where
  "freeze_and_raise run r s = (Inl (Invariant r), put_plan_run (run\<lparr>pl_state := R_FROZEN\<rparr>) s)"

text \<open>
  The search for the node run that proves a reused success: from the source node along
  \<open>reused_from_node_id\<close> until a node has runs of its own. A node seen twice stops the search, so
  \<open>length (ps_nodes s) + 1\<close> rounds are enough.
\<close>

fun reuse_evidence :: "nat \<Rightarrow> plan_store \<Rightarrow> string \<Rightarrow> string list \<Rightarrow> node_rec \<Rightarrow> store_error + unit" where
  "reuse_evidence 0 s plan_run_id visited n = Inl (Invariant ReuseLoop)"
| "reuse_evidence (Suc fuel) s plan_run_id visited n =
     rbind (inv_guard (nd_id n \<notin> set visited) ReuseLoop) (\<lambda>_.
     rbind (of_key (dget (ps_run_ids s) (nd_id n))) (\<lambda>run_ids.
     if run_ids \<noteq> [] then
       rbind (of_key (dget (ps_node_runs s) (last run_ids))) (\<lambda>r.
       inv_guard (\<not> (nr_state r \<noteq> N_SUCCEEDED \<or> nr_superseded r \<or> nr_fingerprint r = None)) ReuseStale)
     else
       rbind (of_option (Invariant ReuseNoRun) (nd_reused_from n)) (\<lambda>next_id.
       rbind (of_option (Invariant ReuseForeign) (dget (ps_nodes s) next_id)) (\<lambda>next_node.
       rbind (inv_guard (nd_plan_run_id next_node = plan_run_id) ReuseForeign) (\<lambda>_.
       reuse_evidence fuel s plan_run_id (nd_id n # visited) next_node)))))"

fun check_reuse ::
  "plan_store \<Rightarrow> string \<Rightarrow> (string, node_rec) dict \<Rightarrow> (string, string) dict \<Rightarrow> store_error + unit" where
  "check_reuse s plan_run_id old [] = Inr ()"
| "check_reuse s plan_run_id old ((key, source_id) # rest) =
     rbind (of_option (Invariant BadReuse) (dget old key)) (\<lambda>source.
     rbind (inv_guard (nd_id source = source_id \<and> nd_state source = N_SUCCEEDED) BadReuse) (\<lambda>_.
     rbind (reuse_evidence (length (ps_nodes s) + 1) s plan_run_id [] source) (\<lambda>_.
     check_reuse s plan_run_id old rest)))"

definition replan_version ::
  "string \<Rightarrow> int \<Rightarrow> materialized_plan \<Rightarrow> string list \<Rightarrow> string \<Rightarrow> string \<Rightarrow> version_rec" where
  "replan_version plan_run_id next p sources signature fingerprint =
     \<lparr>ver_plan_run_id = plan_run_id, ver_number = next,
      ver_provider_id = cp_provider_id (mp_proposal p),
      ver_provider_version = cp_provider_version (mp_proposal p),
      ver_proposal = dump_proposal (mp_proposal p), ver_change_reason = ''INCREMENTAL_REPLAN'',
      ver_source_events = sources,
      ver_planning_input = Some (dump_planning_input (mp_planning_input p)),
      ver_failure_signature = Some signature, ver_fingerprint = Some fingerprint\<rparr>"

text \<open>
  The node loop of a replan. A node that is not reused points at the old node of the same logical
  key; where there is none, \<open>None.node_id\<close> raises with the earlier nodes already written.
\<close>

fun replan_nodes ::
  "(nat \<Rightarrow> string) \<Rightarrow> string \<Rightarrow> int \<Rightarrow> int \<Rightarrow> (string, plan_capability) dict \<Rightarrow> (string, node_rec) dict
     \<Rightarrow> (string, string) dict \<Rightarrow> candidate_node list \<Rightarrow> plan_store \<Rightarrow> string list outcome" where
  "replan_nodes u plan_run_id next now caps old reused [] s = (Inr [], s)"
| "replan_nodes u plan_run_id next now caps old reused (c # cs) s =
     (case dget caps (cn_logical_key c) of
        None \<Rightarrow> (Inl KeyError, s)
      | Some cap \<Rightarrow>
          let reused_from = dget reused (cn_logical_key c);
              st = (if reused_from \<noteq> None then N_SUCCEEDED
                    else if rc_node_type cap = ''PREPARE_CARD_BATCH'' then N_READY else N_PENDING);
              i = u (ps_draws s); s1 = draw s
          in if reused_from = None \<and> dget old (cn_logical_key c) = None
             then (Inl AttributeError, s1)
             else
               let invalidated = (if reused_from \<noteq> None then None
                     else map_option nd_id (dget old (cn_logical_key c)));
                   n = new_node i plan_run_id next c cap st now reused_from invalidated
               in case replan_nodes u plan_run_id next now caps old reused cs
                         (put_history i [] (put_node n s1)) of
                    (Inl e, s') \<Rightarrow> (Inl e, s')
                  | (Inr ids, s') \<Rightarrow> (Inr (i # ids), s'))"

definition create_replan_version ::
  "(nat \<Rightarrow> string) \<Rightarrow> string \<Rightarrow> int \<Rightarrow> materialized_plan \<Rightarrow> string list \<Rightarrow> string \<Rightarrow> string
     \<Rightarrow> (string, string) dict \<Rightarrow> pytime \<Rightarrow> plan_store \<Rightarrow> (version_rec \<times> bool) outcome" where
  "create_replan_version u plan_run_id expected p sources signature fingerprint reused now s = commit
     (rbind (utc now) (\<lambda>now_us.
      rbind (inv_guard (case mp_planning_input p of CardBatch _ \<Rightarrow> True | Emergency _ \<Rightarrow> False)
        NotCardBatch) (\<lambda>_.
      rbind (inv_guard (py_len signature = 64 \<and> py_len fingerprint = 64) BadReplanSignature) (\<lambda>_.
      rbind (inv_guard (distinct sources) DuplicateSource) (\<lambda>_.
      rbind (of_option (Invariant BadReplanRoot) (dget (ps_plan_runs s) plan_run_id)) (\<lambda>run.
      rbind (inv_guard (pl_plan_kind run = CARD_BATCH) BadReplanRoot) (\<lambda>_.
      rbind (of_key (dget (ps_versions s) (plan_run_id, pl_current_version run))) (\<lambda>latest.
      Inr (now_us, run, latest)))))))))
     (\<lambda>(now_us, run, latest).
        if ver_failure_signature latest = Some signature \<and> ver_fingerprint latest = Some fingerprint
        then if sources = [] \<or> set sources \<subseteq> set (ver_source_events latest)
             then (rbind (version_view latest) (\<lambda>v. Inr (v, False)), s)
             else freeze_and_raise run LoopBlocked s
        else if pl_current_version run \<noteq> expected then (Inl (Invariant StaleVersion), s)
        else if 3 \<le> pl_current_version run then freeze_and_raise run BudgetExhausted s
        else if \<exists>((run_id, _), v) \<in> set (ps_versions s). run_id = plan_run_id
                  \<and> ver_failure_signature v = Some signature \<and> ver_fingerprint v = Some fingerprint
        then freeze_and_raise run LoopBlocked s
        else commit
          (rbind (of_key (dget (ps_node_ids s) (plan_run_id, pl_current_version run))) (\<lambda>old_ids.
           rbind (rmap (\<lambda>i. of_key (dget (ps_nodes s) i)) old_ids) (\<lambda>old_nodes.
           let old = fold (\<lambda>n. dset (nd_logical_key n) n) old_nodes [] in
           rbind (check_reuse s plan_run_id old reused) (\<lambda>_. Inr old))))
          (\<lambda>old.
             let next = pl_current_version run + 1;
                 v = replan_version plan_run_id next p sources signature fingerprint
             in case replan_nodes u plan_run_id next now_us (mp_capabilities p) old reused
                       (cp_nodes (mp_proposal p)) s of
                  (Inl e, s1) \<Rightarrow> (Inl e, s1)
                | (Inr ids, s1) \<Rightarrow>
                    (rbind (version_view v) (\<lambda>w. Inr (w, True)),
                     put_plan_run (run\<lparr>pl_current_version := next, pl_state := R_ACTIVE\<rparr>)
                       (publish_version v ids s1)))
          s)
     s"

subsection \<open>\<open>apply_impact_freeze\<close>\<close>

datatype impact_scope = SCOPE_PRODUCT | SCOPE_ROOM | SCOPE_PLATFORM

record impact_analysis =
  ia_event_id :: string
  ia_event_payload_digest :: string
  ia_plan_run_id :: string
  ia_plan_version :: int
  ia_scope :: impact_scope
  ia_affected_logical_keys :: "string list"
  ia_affected_node_ids :: "string list"
  ia_resource_keys :: "string list"
  ia_reason_codes :: "string list"
  ia_platform_failure_code :: "string option"
  ia_analysis_digest :: string

definition freezable :: "node_state \<Rightarrow> bool" where
  "freezable st \<longleftrightarrow> st \<in> {N_PENDING, N_READY, N_RETRY_WAIT, N_WAITING_APPROVAL}"

definition supersede :: "string \<Rightarrow> int \<Rightarrow> node_run_rec \<Rightarrow> node_run_rec" where
  "supersede event_id now r = (if nr_superseded r then r
     else r\<lparr>nr_superseded := True, nr_superseded_by := Some event_id, nr_superseded_at := Some now\<rparr>)"

text \<open>One affected node: mark the latest run superseded, then freeze the node if it has not started.\<close>

definition freeze_node :: "string \<Rightarrow> int \<Rightarrow> string \<Rightarrow> plan_store \<Rightarrow> unit outcome" where
  "freeze_node event_id now i s = commit
     (rbind (of_key (dget (ps_nodes s) i)) (\<lambda>n.
      rbind (of_key (dget (ps_run_ids s) i)) (\<lambda>ids.
      rbind (if ids = [] then Inr None
             else rbind (of_key (dget (ps_node_runs s) (last ids))) (\<lambda>r. Inr (Some r))) (\<lambda>current.
      Inr (n, current)))))
     (\<lambda>(n, current).
        let s1 = (case current of None \<Rightarrow> s
                  | Some r \<Rightarrow> if nr_superseded r then s else put_node_run (supersede event_id now r) s)
        in (Inr (), if freezable (nd_state n) then put_node (n\<lparr>nd_state := N_FROZEN\<rparr>) s1 else s1))
     s"

fun freeze_nodes :: "string \<Rightarrow> int \<Rightarrow> string list \<Rightarrow> plan_store \<Rightarrow> unit outcome" where
  "freeze_nodes event_id now [] s = (Inr (), s)"
| "freeze_nodes event_id now (i # is) s =
     (case freeze_node event_id now i s of
        (Inl e, s') \<Rightarrow> (Inl e, s')
      | (Inr _, s') \<Rightarrow> freeze_nodes event_id now is s')"

definition validate_impact_identity ::
  "plan_run_rec \<Rightarrow> int \<Rightarrow> string \<Rightarrow> impact_analysis \<Rightarrow> store_error + unit" where
  "validate_impact_identity run version event_id a =
     rbind (inv_guard (pl_current_version run = version) StaleImpact) (\<lambda>_.
     inv_guard (ia_event_id a = event_id \<and> ia_plan_run_id a = pl_id run
       \<and> ia_plan_version a = version) ImpactIdentity)"

definition apply_impact_freeze ::
  "string \<Rightarrow> pyval \<Rightarrow> string \<Rightarrow> impact_analysis \<Rightarrow> pytime \<Rightarrow> plan_store \<Rightarrow> node_view_rec list outcome" where
  "apply_impact_freeze plan_run_id expected event_id a now s = commit
     (rbind (utc now) (\<lambda>now_us.
      rbind (validate_version_number expected) (\<lambda>version.
      rbind (inv_guard (event_id \<noteq> '''') EmptyEvent) (\<lambda>_.
      rbind (of_option (Invariant NoPlanRun) (dget (ps_plan_runs s) plan_run_id)) (\<lambda>run.
      rbind (validate_impact_identity run version event_id a) (\<lambda>_.
      rbind (of_key (dget (ps_node_ids s) (plan_run_id, version))) (\<lambda>current_ids.
      rbind (inv_guard (ia_affected_node_ids a \<noteq> []
        \<and> set (ia_affected_node_ids a) \<subseteq> set current_ids) ImpactNodes) (\<lambda>_.
      rbind (inv_guard (pl_state run \<in> {R_ACTIVE, R_FROZEN}) TerminalPlan) (\<lambda>_.
      Inr (now_us, run))))))))))
     (\<lambda>(now_us, run).
        let affected = sort (remdups (ia_affected_node_ids a));
            s1 = (if ia_scope a \<in> {SCOPE_ROOM, SCOPE_PLATFORM} \<and> pl_state run = R_ACTIVE
                  then put_plan_run (run\<lparr>pl_state := R_FROZEN\<rparr>) s else s)
        in case freeze_nodes event_id now_us affected s1 of
             (Inl e, s2) \<Rightarrow> (Inl e, s2)
           | (Inr _, s2) \<Rightarrow>
               (rmap (\<lambda>i. rbind (of_key (dget (ps_nodes s2) i)) node_view) affected, s2))
     s"

end
