(* ===== verification/StoreInvariant.thy ===== *)
theory StoreInvariant
  imports StorePlans
begin

section \<open>The invariant of the plan store\<close>

text \<open>
  \<open>wf u P s\<close>: the dictionaries of \<open>s\<close> agree with each other. Every key is the identity of its
  record, every history lists the runs of its node with attempt and claim version counting from
  one, node and latest run agree on running and on waiting for reconciliation, published versions
  are closed under dependencies, and a node that has started has seen its dependencies succeed.
  \<open>P\<close> holds the identities of plans whose nodes are being written before the plan itself.

  \<open>evolves s t\<close>: what no operation ever undoes. Records keep their identity, node and run states
  follow the edges of the state machine, leases grow, histories are extended at the end, and
  versions, ledger entries and run keys stay as first written.

  Each write of the store is shown to preserve both; the operations then follow.
\<close>

subsection \<open>Definitions\<close>

declare map_of_eq_Some_iff [simp del]

definition drawn :: "(nat \<Rightarrow> string) \<Rightarrow> plan_store \<Rightarrow> string \<Rightarrow> bool" where
  "drawn u s i \<longleftrightarrow> (\<exists>k<ps_draws s. i = u k)"

definition started :: "node_state \<Rightarrow> bool" where
  "started st \<longleftrightarrow> st \<notin> {N_PENDING, N_FROZEN, N_INVALIDATED, N_SKIPPED}"

text \<open>Nodes that are opened without looking at dependencies: the entry of a DAG, a reused success.\<close>

definition entry_node :: "node_rec \<Rightarrow> bool" where
  "entry_node n \<longleftrightarrow> rc_node_type (nd_capability n) \<in> {''PREPARE_CARD_BATCH'', ''VALIDATE_SOLD_OUT_EVENT''}
     \<or> nd_reused_from n \<noteq> None"

definition dep_node :: "plan_store \<Rightarrow> string list \<Rightarrow> string \<Rightarrow> node_rec \<Rightarrow> bool" where
  "dep_node s ids d m \<longleftrightarrow> (\<exists>j\<in>set ids. dget (ps_nodes s) j = Some m \<and> nd_logical_key m = d)"

definition deps_known :: "plan_store \<Rightarrow> string list \<Rightarrow> node_rec \<Rightarrow> bool" where
  "deps_known s ids n \<longleftrightarrow> (\<forall>d\<in>set (nd_depends_on n). \<exists>m. dep_node s ids d m)"

definition deps_done :: "plan_store \<Rightarrow> string list \<Rightarrow> node_rec \<Rightarrow> bool" where
  "deps_done s ids n \<longleftrightarrow> (started (nd_state n) \<and> \<not> entry_node n \<longrightarrow>
     (\<forall>d\<in>set (nd_depends_on n). \<exists>m. dep_node s ids d m \<and> nd_state m = N_SUCCEEDED))"

text \<open>A node and its latest run agree on running and on waiting for reconciliation.\<close>

definition in_step :: "node_rec \<Rightarrow> node_run_rec \<Rightarrow> bool" where
  "in_step n r \<longleftrightarrow> (nd_state n = N_RUNNING \<longleftrightarrow> nr_state r = N_RUNNING)
     \<and> (nd_state n = N_WAITING_RECONCILIATION \<longleftrightarrow> nr_state r = N_WAITING_RECONCILIATION)"

definition run_entry :: "plan_store \<Rightarrow> node_rec \<Rightarrow> string list \<Rightarrow> nat \<Rightarrow> bool" where
  "run_entry s n ids k \<longleftrightarrow> (\<exists>r. dget (ps_node_runs s) (ids ! k) = Some r \<and> nr_node_id r = nd_id n
     \<and> nr_plan_run_id r = nd_plan_run_id n \<and> nr_attempt r = k + 1 \<and> nr_claim_version r = k + 1
     \<and> nr_resource_keys r = rc_resource_keys (nd_capability n))"

definition wf_history :: "plan_store \<Rightarrow> node_rec \<Rightarrow> string list \<Rightarrow> bool" where
  "wf_history s n ids \<longleftrightarrow> distinct ids \<and> (\<forall>k<length ids. run_entry s n ids k)
     \<and> (if ids = [] then nd_state n \<notin> {N_RUNNING, N_WAITING_RECONCILIATION}
        else \<exists>r. dget (ps_node_runs s) (last ids) = Some r \<and> in_step n r)"

definition wf_dicts :: "plan_store \<Rightarrow> bool" where
  "wf_dicts s \<longleftrightarrow> distinct (dkeys (ps_plan_runs s)) \<and> distinct (dkeys (ps_nodes s))
     \<and> distinct (dkeys (ps_node_runs s)) \<and> distinct (dkeys (ps_versions s))"

definition wf_plan_runs :: "(nat \<Rightarrow> string) \<Rightarrow> plan_store \<Rightarrow> bool" where
  "wf_plan_runs u s \<longleftrightarrow> (\<forall>i r. dget (ps_plan_runs s) i = Some r \<longrightarrow>
     pl_id r = i \<and> drawn u s i \<and> 1 \<le> pl_current_version r \<and> pl_current_version r \<le> 3
     \<and> lineage_ok r \<and> dget (ps_versions s) (i, pl_current_version r) \<noteq> None
     \<and> dget (ps_node_ids s) (i, pl_current_version r) \<noteq> None)"

definition wf_versions :: "plan_store \<Rightarrow> bool" where
  "wf_versions s \<longleftrightarrow>
     (\<forall>p v x. dget (ps_versions s) (p, v) = Some x \<longrightarrow> ver_plan_run_id x = p \<and> ver_number x = v
        \<and> (\<exists>r. dget (ps_plan_runs s) p = Some r \<and> 1 \<le> v \<and> v \<le> pl_current_version r))
     \<and> (\<forall>p v. dget (ps_node_ids s) (p, v) \<noteq> None \<longrightarrow> dget (ps_versions s) (p, v) \<noteq> None)"

definition wf_published :: "plan_store \<Rightarrow> bool" where
  "wf_published s \<longleftrightarrow> (\<forall>p v ids. dget (ps_node_ids s) (p, v) = Some ids \<longrightarrow> distinct ids
     \<and> (\<forall>i\<in>set ids. \<exists>n. dget (ps_nodes s) i = Some n \<and> nd_plan_run_id n = p \<and> nd_version n = v
          \<and> deps_known s ids n \<and> deps_done s ids n)
     \<and> (\<forall>i\<in>set ids. \<forall>j\<in>set ids. \<forall>n m. dget (ps_nodes s) i = Some n \<longrightarrow>
          dget (ps_nodes s) j = Some m \<longrightarrow> nd_logical_key n = nd_logical_key m \<longrightarrow> i = j))"

definition wf_nodes :: "(nat \<Rightarrow> string) \<Rightarrow> string set \<Rightarrow> plan_store \<Rightarrow> bool" where
  "wf_nodes u P s \<longleftrightarrow> (\<forall>i n. dget (ps_nodes s) i = Some n \<longrightarrow>
     nd_id n = i \<and> drawn u s i
     \<and> (nd_plan_run_id n \<in> P \<or> dget (ps_plan_runs s) (nd_plan_run_id n) \<noteq> None)
     \<and> (nd_state n = N_READY \<longrightarrow> nd_ready_at n \<noteq> None)
     \<and> (\<exists>ids. dget (ps_run_ids s) i = Some ids \<and> wf_history s n ids))"

definition wf_node_runs :: "(nat \<Rightarrow> string) \<Rightarrow> plan_store \<Rightarrow> bool" where
  "wf_node_runs u s \<longleftrightarrow>
     (\<forall>k r. dget (ps_node_runs s) k = Some r \<longrightarrow> nr_id r = k \<and> drawn u s k
        \<and> (\<exists>n ids. dget (ps_nodes s) (nr_node_id r) = Some n
             \<and> dget (ps_run_ids s) (nr_node_id r) = Some ids \<and> k \<in> set ids))
     \<and> (\<forall>i. dget (ps_run_ids s) i \<noteq> None \<longrightarrow> dget (ps_nodes s) i \<noteq> None)"

definition wf_ledgers :: "plan_store \<Rightarrow> bool" where
  "wf_ledgers s \<longleftrightarrow>
     (\<forall>k i. dget (ps_run_id_by_key s) k = Some i \<longrightarrow>
        (\<exists>r. dget (ps_plan_runs s) i = Some r \<and> pl_run_key r = k)
        \<and> dget (ps_digest_by_key s) k \<noteq> None)
     \<and> (\<forall>k. dget (ps_digest_by_key s) k \<noteq> None \<longrightarrow> dget (ps_run_id_by_key s) k \<noteq> None)
     \<and> (\<forall>i r. dget (ps_plan_runs s) i = Some r \<longrightarrow> dget (ps_run_id_by_key s) (pl_run_key r) = Some i)
     \<and> (\<forall>i l. dget (ps_commands s) i = Some l \<longrightarrow>
          pc_id (lg_command l) = i \<and> cr_command_id (lg_result l) = i)"

definition wf :: "(nat \<Rightarrow> string) \<Rightarrow> string set \<Rightarrow> plan_store \<Rightarrow> bool" where
  "wf u P s \<longleftrightarrow> wf_dicts s \<and> wf_plan_runs u s \<and> wf_versions s \<and> wf_published s \<and> wf_nodes u P s
     \<and> wf_node_runs u s \<and> wf_ledgers s"

definition same_plan :: "plan_run_rec \<Rightarrow> plan_run_rec \<Rightarrow> bool" where
  "same_plan r r' \<longleftrightarrow> pl_id r' = pl_id r \<and> pl_room_id r' = pl_room_id r \<and> pl_trace_id r' = pl_trace_id r
     \<and> pl_run_key r' = pl_run_key r \<and> pl_planning_input r' = pl_planning_input r
     \<and> pl_plan_kind r' = pl_plan_kind r \<and> pl_priority r' = pl_priority r \<and> pl_root r' = pl_root r
     \<and> pl_parent r' = pl_parent r \<and> pl_trigger r' = pl_trigger r
     \<and> pl_rec_attempts r \<le> pl_rec_attempts r'"

definition same_node :: "node_rec \<Rightarrow> node_rec \<Rightarrow> bool" where
  "same_node n n' \<longleftrightarrow> nd_id n' = nd_id n \<and> nd_plan_run_id n' = nd_plan_run_id n
     \<and> nd_version n' = nd_version n \<and> nd_logical_key n' = nd_logical_key n \<and> nd_kind n' = nd_kind n
     \<and> nd_skill_id n' = nd_skill_id n \<and> nd_input_bindings n' = nd_input_bindings n
     \<and> nd_depends_on n' = nd_depends_on n \<and> nd_capability n' = nd_capability n
     \<and> nd_reused_from n' = nd_reused_from n \<and> nd_invalidated_from n' = nd_invalidated_from n
     \<and> steps node_edge (nd_state n) (nd_state n')"

definition same_run :: "node_run_rec \<Rightarrow> node_run_rec \<Rightarrow> bool" where
  "same_run r r' \<longleftrightarrow> nr_id r' = nr_id r \<and> nr_plan_run_id r' = nr_plan_run_id r
     \<and> nr_node_id r' = nr_node_id r \<and> nr_attempt r' = nr_attempt r
     \<and> nr_claim_version r' = nr_claim_version r \<and> nr_worker r' = nr_worker r
     \<and> nr_resource_keys r' = nr_resource_keys r \<and> nr_lease_until r \<le> nr_lease_until r'
     \<and> (\<forall>f. nr_fingerprint r = Some f \<longrightarrow> nr_fingerprint r' = Some f)
     \<and> (nr_superseded r \<longrightarrow> nr_superseded r' \<and> nr_superseded_by r' = nr_superseded_by r)
     \<and> steps node_edge (nr_state r) (nr_state r') \<and> (nr_state r' = N_RUNNING \<longrightarrow> nr_state r = N_RUNNING)"

definition plan_grows :: "plan_run_rec \<Rightarrow> plan_run_rec \<Rightarrow> bool" where
  "plan_grows r r' \<longleftrightarrow> same_plan r r' \<and> pl_current_version r \<le> pl_current_version r'"

definition evolves :: "plan_store \<Rightarrow> plan_store \<Rightarrow> bool" where
  "evolves s t \<longleftrightarrow> dict_rel plan_grows (ps_plan_runs s) (ps_plan_runs t)
     \<and> dict_rel same_node (ps_nodes s) (ps_nodes t)
     \<and> dict_rel same_run (ps_node_runs s) (ps_node_runs t)
     \<and> dict_rel prefix (ps_run_ids s) (ps_run_ids t)
     \<and> keeps (ps_versions s) (ps_versions t) \<and> keeps (ps_node_ids s) (ps_node_ids t)
     \<and> keeps (ps_commands s) (ps_commands t) \<and> keeps (ps_run_id_by_key s) (ps_run_id_by_key t)
     \<and> keeps (ps_digest_by_key s) (ps_digest_by_key t) \<and> ps_draws s \<le> ps_draws t"

subsection \<open>\<open>evolves\<close> is a preorder\<close>

lemma same_plan_refl [simp]: "same_plan r r"
  by (simp add: same_plan_def)

lemma plan_grows_refl [simp]: "plan_grows r r"
  by (simp add: plan_grows_def)

lemma plan_grows_trans: "plan_grows a b \<Longrightarrow> plan_grows b c \<Longrightarrow> plan_grows a c"
  by (auto simp: plan_grows_def same_plan_def)

lemma same_node_refl [simp]: "same_node n n"
  by (simp add: same_node_def steps_refl)

lemma same_node_trans: "same_node a b \<Longrightarrow> same_node b c \<Longrightarrow> same_node a c"
  by (auto simp: same_node_def intro: steps_trans)

lemma same_run_refl [simp]: "same_run r r"
  by (simp add: same_run_def steps_refl)

lemma same_run_trans: "same_run a b \<Longrightarrow> same_run b c \<Longrightarrow> same_run a c"
  by (auto simp: same_run_def intro: steps_trans)

lemma evolves_refl [simp]: "evolves s s"
  by (simp add: evolves_def dict_rel_refl)

lemma evolves_trans: "evolves a b \<Longrightarrow> evolves b c \<Longrightarrow> evolves a c"
  unfolding evolves_def
  by (auto intro: keeps_trans order_trans dict_rel_trans [OF _ _ plan_grows_trans]
      dict_rel_trans [OF _ _ same_node_trans] dict_rel_trans [OF _ _ same_run_trans]
      dict_rel_trans [OF _ _ prefix_order.trans])

lemma succeeded_stays: "steps node_edge N_SUCCEEDED st \<Longrightarrow> st = N_SUCCEEDED"
  using node_table.final_forever [of N_SUCCEEDED st] by (simp add: node_final_iff)

subsection \<open>The writes preserve the invariant\<close>

text \<open>Which fields each write touches.\<close>

lemma write_sel [simp]:
  "ps_nodes (put_plan_run r s) = ps_nodes s" "ps_node_runs (put_plan_run r s) = ps_node_runs s"
  "ps_run_ids (put_plan_run r s) = ps_run_ids s" "ps_versions (put_plan_run r s) = ps_versions s"
  "ps_node_ids (put_plan_run r s) = ps_node_ids s" "ps_draws (put_plan_run r s) = ps_draws s"
  "ps_commands (put_plan_run r s) = ps_commands s"
  "ps_run_id_by_key (put_plan_run r s) = ps_run_id_by_key s"
  "ps_digest_by_key (put_plan_run r s) = ps_digest_by_key s"
  "ps_plan_runs (put_plan_run r s) = dset (pl_id r) r (ps_plan_runs s)"
  "ps_plan_runs (put_node n s) = ps_plan_runs s" "ps_node_runs (put_node n s) = ps_node_runs s"
  "ps_run_ids (put_node n s) = ps_run_ids s" "ps_versions (put_node n s) = ps_versions s"
  "ps_node_ids (put_node n s) = ps_node_ids s" "ps_draws (put_node n s) = ps_draws s"
  "ps_commands (put_node n s) = ps_commands s"
  "ps_run_id_by_key (put_node n s) = ps_run_id_by_key s"
  "ps_digest_by_key (put_node n s) = ps_digest_by_key s"
  "ps_nodes (put_node n s) = dset (nd_id n) n (ps_nodes s)"
  "ps_plan_runs (put_node_run q s) = ps_plan_runs s" "ps_nodes (put_node_run q s) = ps_nodes s"
  "ps_run_ids (put_node_run q s) = ps_run_ids s" "ps_versions (put_node_run q s) = ps_versions s"
  "ps_node_ids (put_node_run q s) = ps_node_ids s" "ps_draws (put_node_run q s) = ps_draws s"
  "ps_commands (put_node_run q s) = ps_commands s"
  "ps_run_id_by_key (put_node_run q s) = ps_run_id_by_key s"
  "ps_digest_by_key (put_node_run q s) = ps_digest_by_key s"
  "ps_node_runs (put_node_run q s) = dset (nr_id q) q (ps_node_runs s)"
  by (simp_all add: store_writes)

lemma write_sel2 [simp]:
  "ps_plan_runs (put_history i h s) = ps_plan_runs s" "ps_nodes (put_history i h s) = ps_nodes s"
  "ps_node_runs (put_history i h s) = ps_node_runs s" "ps_versions (put_history i h s) = ps_versions s"
  "ps_node_ids (put_history i h s) = ps_node_ids s" "ps_draws (put_history i h s) = ps_draws s"
  "ps_commands (put_history i h s) = ps_commands s"
  "ps_run_id_by_key (put_history i h s) = ps_run_id_by_key s"
  "ps_digest_by_key (put_history i h s) = ps_digest_by_key s"
  "ps_run_ids (put_history i h s) = dset i h (ps_run_ids s)"
  "ps_plan_runs (put_command l s) = ps_plan_runs s" "ps_nodes (put_command l s) = ps_nodes s"
  "ps_node_runs (put_command l s) = ps_node_runs s" "ps_versions (put_command l s) = ps_versions s"
  "ps_node_ids (put_command l s) = ps_node_ids s" "ps_draws (put_command l s) = ps_draws s"
  "ps_run_ids (put_command l s) = ps_run_ids s"
  "ps_run_id_by_key (put_command l s) = ps_run_id_by_key s"
  "ps_digest_by_key (put_command l s) = ps_digest_by_key s"
  "ps_commands (put_command l s) = dset (pc_id (lg_command l)) l (ps_commands s)"
  "ps_plan_runs (draw s) = ps_plan_runs s" "ps_nodes (draw s) = ps_nodes s"
  "ps_node_runs (draw s) = ps_node_runs s" "ps_versions (draw s) = ps_versions s"
  "ps_node_ids (draw s) = ps_node_ids s" "ps_draws (draw s) = Suc (ps_draws s)"
  "ps_commands (draw s) = ps_commands s" "ps_run_ids (draw s) = ps_run_ids s"
  "ps_run_id_by_key (draw s) = ps_run_id_by_key s"
  "ps_digest_by_key (draw s) = ps_digest_by_key s"
  by (simp_all add: store_writes)

lemma drawn_mono: "drawn u s i \<Longrightarrow> ps_draws s \<le> ps_draws t \<Longrightarrow> drawn u t i"
  by (auto simp: drawn_def intro: less_le_trans)

lemma drawn_write [simp]:
  "drawn u (put_plan_run r s) i = drawn u s i" "drawn u (put_node n s) i = drawn u s i"
  "drawn u (put_node_run q s) i = drawn u s i" "drawn u (put_history i' h s) i = drawn u s i"
  "drawn u (put_command l s) i = drawn u s i"
  by (simp_all add: drawn_def)

lemma drawn_draw: "drawn u (draw s) i \<longleftrightarrow> drawn u s i \<or> i = u (ps_draws s)"
  by (auto simp: drawn_def less_Suc_eq)

lemma fresh_draw: "inj u \<Longrightarrow> \<not> drawn u s (u (ps_draws s))"
  by (auto simp: drawn_def inj_eq)

lemma lineage_same: "same_plan r r' \<Longrightarrow> lineage_ok r' = lineage_ok r"
  by (simp add: lineage_ok_def same_plan_def)

text \<open>What each part of the invariant reads.\<close>

lemma wf_history_frame:
  "ps_node_runs t = ps_node_runs s \<Longrightarrow> wf_history t n ids = wf_history s n ids"
  by (simp add: wf_history_def run_entry_def)

lemma deps_frame:
  assumes "ps_nodes t = ps_nodes s"
  shows "dep_node t = dep_node s" "deps_known t = deps_known s" "deps_done t = deps_done s"
  using assms by (simp_all add: dep_node_def deps_known_def deps_done_def fun_eq_iff)

lemma wf_published_frame:
  "ps_nodes t = ps_nodes s \<Longrightarrow> ps_node_ids t = ps_node_ids s \<Longrightarrow> wf_published t = wf_published s"
  by (simp add: wf_published_def deps_frame [of t s])

subsubsection \<open>A plan run changes state\<close>

lemma wf_put_plan_run:
  assumes wf: "wf u P s" and old: "dget (ps_plan_runs s) (pl_id r) = Some r0"
    and grow: "same_plan r0 r" "pl_current_version r = pl_current_version r0"
  shows "wf u P (put_plan_run r s)"
proof -
  let ?t = "put_plan_run r s"
  have "wf_dicts ?t" using wf by (simp add: wf_def wf_dicts_def)
  moreover have "wf_plan_runs u ?t"
    using wf old grow lineage_same [OF grow(1)] by (auto simp: wf_def wf_plan_runs_def)
  moreover have "wf_versions ?t" using wf old grow by (fastforce simp: wf_def wf_versions_def)
  moreover have "wf_published ?t"
    using wf by (simp add: wf_def wf_published_frame [of ?t s])
  moreover have "wf_nodes u P ?t"
    using wf by (auto simp: wf_def wf_nodes_def wf_history_frame [of ?t s])
  moreover have "wf_node_runs u ?t" using wf by (simp add: wf_def wf_node_runs_def)
  moreover have "wf_ledgers ?t"
    using wf old grow by (fastforce simp: wf_def wf_ledgers_def same_plan_def)
  ultimately show ?thesis by (simp add: wf_def)
qed

lemma evolves_put_plan_run:
  assumes "dget (ps_plan_runs s) (pl_id r) = Some r0" and "plan_grows r0 r"
  shows "evolves s (put_plan_run r s)"
  using assms by (auto simp: evolves_def intro!: dict_rel_refl dict_rel_update)

subsubsection \<open>A node changes state, alone or with its latest run\<close>

definition same_phase :: "node_rec \<Rightarrow> node_rec \<Rightarrow> bool" where
  "same_phase n n' \<longleftrightarrow> (nd_state n' = N_RUNNING \<longleftrightarrow> nd_state n = N_RUNNING)
     \<and> (nd_state n' = N_WAITING_RECONCILIATION \<longleftrightarrow> nd_state n = N_WAITING_RECONCILIATION)"

text \<open>A node may start only when it had started before or its dependencies have succeeded.\<close>

definition may_start :: "plan_store \<Rightarrow> node_rec \<Rightarrow> node_rec \<Rightarrow> bool" where
  "may_start s n n' \<longleftrightarrow> (started (nd_state n') \<longrightarrow> started (nd_state n)
     \<or> (\<forall>ids. dget (ps_node_ids s) (nd_plan_run_id n, nd_version n) = Some ids \<longrightarrow>
          nd_id n \<in> set ids \<longrightarrow>
          (\<forall>d\<in>set (nd_depends_on n). \<exists>m. dep_node s ids d m \<and> nd_state m = N_SUCCEEDED)))"

lemma run_entry_last:
  assumes "wf_history s n ids" and "ids \<noteq> []"
  obtains r where "dget (ps_node_runs s) (last ids) = Some r" "nr_node_id r = nd_id n"
    "nr_plan_run_id r = nd_plan_run_id n" "nr_claim_version r = length ids"
    "nr_attempt r = length ids" "nr_resource_keys r = rc_resource_keys (nd_capability n)" "in_step n r"
proof -
  have "run_entry s n ids (length ids - 1)" using assms by (simp add: wf_history_def)
  then show ?thesis
    using assms that by (auto simp: run_entry_def last_conv_nth wf_history_def)
qed

lemma run_entry_node: "run_entry s n ids k \<Longrightarrow> same_node n n' \<Longrightarrow> run_entry s n' ids k"
  by (simp add: run_entry_def same_node_def)

lemma run_entry_run:
  assumes "run_entry s n ids k" and "dget (ps_node_runs s) (nr_id r) = Some r0" and "same_run r0 r"
  shows "run_entry (put_node_run r s) n ids k"
  using assms by (cases "ids ! k = nr_id r") (auto simp: run_entry_def same_run_def)

lemma in_step_phase: "in_step n r \<Longrightarrow> same_phase n n' \<Longrightarrow> in_step n' r"
  by (simp add: in_step_def same_phase_def)

lemma wf_history_node:
  assumes "wf_history s n ids" and "same_node n n'" and "same_phase n n'"
  shows "wf_history s n' ids"
proof -
  have "same_phase n n' \<Longrightarrow> in_step n r \<Longrightarrow> in_step n' r" for r by (rule in_step_phase)
  then show ?thesis
    using assms unfolding wf_history_def same_phase_def by (auto intro: run_entry_node)
qed

lemma wf_history_both:
  assumes "wf_history s n ids" and "dget (ps_node_runs s) (nr_id r) = Some r0" and "same_run r0 r"
    and "ids \<noteq> []" "last ids = nr_id r" and "same_node n n'" and "in_step n' r"
  shows "wf_history (put_node_run r s) n' ids"
  using assms unfolding wf_history_def
  by (auto intro: run_entry_node run_entry_run)

lemma wf_history_run:
  assumes "wf_history s n ids" and "dget (ps_node_runs s) (nr_id r) = Some r0" and "same_run r0 r"
    and "ids \<noteq> [] \<Longrightarrow> last ids = nr_id r \<Longrightarrow> in_step n r"
  shows "wf_history (put_node_run r s) n ids"
proof (cases "ids \<noteq> [] \<and> last ids = nr_id r")
  case True
  then show ?thesis using assms by (intro wf_history_both [OF assms(1-3)]) auto
next
  case False
  then show ?thesis using assms(1) run_entry_run [OF _ assms(2,3)]
    by (auto simp: wf_history_def)
qed

lemma wf_history_other:
  assumes "wf_history s n ids" and "dget (ps_node_runs s) (nr_id r) = Some r0" and "same_run r0 r"
    and "nr_node_id r0 \<noteq> nd_id n"
  shows "wf_history (put_node_run r s) n ids"
  using assms by (metis option.inject run_entry_last wf_history_run)

lemma dep_node_put_node:
  assumes "dep_node s ids d m" and "dget (ps_nodes s) (nd_id n') = Some n" and "same_node n n'"
  shows "\<exists>m'. dep_node (put_node n' s) ids d m' \<and> (nd_state m = N_SUCCEEDED \<longrightarrow> nd_state m' = N_SUCCEEDED)"
proof -
  obtain j where j: "j \<in> set ids" "dget (ps_nodes s) j = Some m" "nd_logical_key m = d"
    using assms(1) by (auto simp: dep_node_def)
  show ?thesis
  proof (cases "j = nd_id n'")
    case True
    then have "m = n" using j assms(2) by simp
    then show ?thesis using True j assms(3) succeeded_stays
      by (intro exI [of _ n']) (auto simp: dep_node_def same_node_def)
  next
    case False
    then show ?thesis using j by (intro exI [of _ m]) (auto simp: dep_node_def)
  qed
qed

lemma wf_published_put_node:
  assumes wf: "wf_published s" and old: "dget (ps_nodes s) (nd_id n') = Some n" "nd_id n = nd_id n'"
    and same: "same_node n n'" and start: "may_start s n n'"
  shows "wf_published (put_node n' s)"
  unfolding wf_published_def
proof (intro allI impI conjI)
  fix p v ids
  assume ids: "dget (ps_node_ids (put_node n' s)) (p, v) = Some ids"
  then have ids': "dget (ps_node_ids s) (p, v) = Some ids" by simp
  note pub = wf [unfolded wf_published_def, rule_format, OF ids']
  show "distinct ids" using pub by simp
  show "\<forall>i\<in>set ids. \<exists>m. dget (ps_nodes (put_node n' s)) i = Some m \<and> nd_plan_run_id m = p
      \<and> nd_version m = v \<and> deps_known (put_node n' s) ids m \<and> deps_done (put_node n' s) ids m"
  proof
    fix i assume i: "i \<in> set ids"
    then obtain m where m: "dget (ps_nodes s) i = Some m" "nd_plan_run_id m = p" "nd_version m = v"
      "deps_known s ids m" "deps_done s ids m" using pub by blast
    have known: "deps_known (put_node n' s) ids m"
      using m(4) dep_node_put_node [OF _ old(1) same] unfolding deps_known_def by blast
    have fin: "deps_done (put_node n' s) ids m"
      using m(5) dep_node_put_node [OF _ old(1) same] unfolding deps_done_def by blast
    show "\<exists>m. dget (ps_nodes (put_node n' s)) i = Some m \<and> nd_plan_run_id m = p
      \<and> nd_version m = v \<and> deps_known (put_node n' s) ids m \<and> deps_done (put_node n' s) ids m"
    proof (cases "i = nd_id n'")
      case False
      then show ?thesis using m known fin by (intro exI [of _ m]) simp
    next
      case True
      then have "m = n" using m(1) old by simp
      have "deps_done (put_node n' s) ids n'"
      proof (cases "started (nd_state n)")
        case True
        then show ?thesis using fin \<open>m = n\<close> same by (simp add: deps_done_def same_node_def entry_node_def)
      next
        case False
        then have "started (nd_state n') \<Longrightarrow>
            \<forall>d\<in>set (nd_depends_on n). \<exists>m. dep_node s ids d m \<and> nd_state m = N_SUCCEEDED"
          using start i \<open>i = nd_id n'\<close> m(2,3) \<open>m = n\<close> ids' old(2) by (simp add: may_start_def)
        then show ?thesis
          using dep_node_put_node [OF _ old(1) same] same unfolding deps_done_def same_node_def
          by fastforce
      qed
      then show ?thesis
        using True m known \<open>m = n\<close> same
        by (intro exI [of _ n']) (simp add: same_node_def deps_known_def)
    qed
  qed
  show "\<forall>i\<in>set ids. \<forall>j\<in>set ids. \<forall>a b. dget (ps_nodes (put_node n' s)) i = Some a \<longrightarrow>
      dget (ps_nodes (put_node n' s)) j = Some b \<longrightarrow> nd_logical_key a = nd_logical_key b \<longrightarrow> i = j"
  proof (intro ballI allI impI)
    fix i j a b
    assume "i \<in> set ids" "j \<in> set ids" and a: "dget (ps_nodes (put_node n' s)) i = Some a"
      and b: "dget (ps_nodes (put_node n' s)) j = Some b" and key: "nd_logical_key a = nd_logical_key b"
    have "\<exists>a0. dget (ps_nodes s) i = Some a0 \<and> nd_logical_key a0 = nd_logical_key a"
      using a old(1) same by (cases "i = nd_id n'") (auto simp: same_node_def)
    moreover have "\<exists>b0. dget (ps_nodes s) j = Some b0 \<and> nd_logical_key b0 = nd_logical_key b"
      using b old(1) same by (cases "j = nd_id n'") (auto simp: same_node_def)
    ultimately show "i = j" using pub \<open>i \<in> set ids\<close> \<open>j \<in> set ids\<close> key by metis
  qed
qed

lemma wf_put_node:
  assumes wf: "wf u P s" and old: "dget (ps_nodes s) (nd_id n') = Some n" and same: "same_node n n'"
    and phase: "same_phase n n'" and start: "may_start s n n'"
    and ready: "nd_state n' = N_READY \<Longrightarrow> nd_ready_at n' \<noteq> None"
  shows "wf u P (put_node n' s)"
proof -
  let ?t = "put_node n' s"
  have ids: "nd_id n = nd_id n'" using same by (simp add: same_node_def)
  have "wf_dicts ?t" using wf by (simp add: wf_def wf_dicts_def)
  moreover have "wf_plan_runs u ?t" using wf by (simp add: wf_def wf_plan_runs_def)
  moreover have "wf_versions ?t" using wf by (simp add: wf_def wf_versions_def)
  moreover have "wf_published ?t"
    using wf old ids same start by (intro wf_published_put_node) (auto simp: wf_def)
  moreover have "wf_nodes u P ?t"
  proof -
    have nodes: "wf_nodes u P s" using wf by (simp add: wf_def)
    obtain h where "dget (ps_run_ids s) (nd_id n') = Some h" "wf_history s n h"
      using nodes old unfolding wf_nodes_def by blast
    then have n: "\<exists>h. dget (ps_run_ids s) (nd_id n') = Some h \<and> wf_history s n' h"
      "drawn u s (nd_id n')" "nd_plan_run_id n \<in> P \<or> dget (ps_plan_runs s) (nd_plan_run_id n) \<noteq> None"
      using nodes old wf_history_node [OF _ same phase] unfolding wf_nodes_def by blast+
    show ?thesis
      using nodes n ready same
      by (auto simp: wf_nodes_def wf_history_frame [of ?t s] same_node_def)
  qed
  moreover have "wf_node_runs u ?t" using wf old by (fastforce simp: wf_def wf_node_runs_def)
  moreover have "wf_ledgers ?t" using wf by (simp add: wf_def wf_ledgers_def)
  ultimately show ?thesis by (simp add: wf_def)
qed

lemma evolves_put_node:
  "dget (ps_nodes s) (nd_id n') = Some n \<Longrightarrow> same_node n n' \<Longrightarrow> evolves s (put_node n' s)"
  by (auto simp: evolves_def intro!: dict_rel_refl dict_rel_update)

subsubsection \<open>A run changes, alone or with its node\<close>

lemma wf_nodesD:
  "wf u P s \<Longrightarrow> dget (ps_nodes s) i = Some n \<Longrightarrow> nd_id n = i \<and> drawn u s i
     \<and> (nd_plan_run_id n \<in> P \<or> dget (ps_plan_runs s) (nd_plan_run_id n) \<noteq> None)
     \<and> (nd_state n = N_READY \<longrightarrow> nd_ready_at n \<noteq> None)
     \<and> (\<exists>ids. dget (ps_run_ids s) i = Some ids \<and> wf_history s n ids)"
  unfolding wf_def wf_nodes_def by blast

lemma wf_node_runsD:
  "wf u P s \<Longrightarrow> dget (ps_node_runs s) k = Some r \<Longrightarrow> nr_id r = k \<and> drawn u s k
     \<and> (\<exists>n ids. dget (ps_nodes s) (nr_node_id r) = Some n
          \<and> dget (ps_run_ids s) (nr_node_id r) = Some ids \<and> k \<in> set ids)"
  unfolding wf_def wf_node_runs_def by blast

lemma wf_plan_runsD:
  "wf u P s \<Longrightarrow> dget (ps_plan_runs s) i = Some r \<Longrightarrow> pl_id r = i \<and> drawn u s i
     \<and> 1 \<le> pl_current_version r \<and> pl_current_version r \<le> 3 \<and> lineage_ok r
     \<and> dget (ps_versions s) (i, pl_current_version r) \<noteq> None
     \<and> dget (ps_node_ids s) (i, pl_current_version r) \<noteq> None"
  unfolding wf_def wf_plan_runs_def by blast

lemma wf_historyD:
  "wf u P s \<Longrightarrow> dget (ps_nodes s) i = Some n \<Longrightarrow> dget (ps_run_ids s) i = Some ids \<Longrightarrow>
     wf_history s n ids"
  by (auto dest: wf_nodesD)

lemma current_node_run_history:
  "current_node_run_id s i = Some k \<longleftrightarrow>
     (\<exists>ids. dget (ps_run_ids s) i = Some ids \<and> ids \<noteq> [] \<and> last ids = k)"
  by (auto simp: current_node_run_id_def history_def split: option.splits)

lemma wf_node_runs_put:
  assumes wf: "wf_node_runs u s" and node: "dget (ps_nodes s) (nd_id n') = Some n"
    and run: "dget (ps_node_runs s) (nr_id r) = Some r0" and same_run: "same_run r0 r"
  shows "wf_node_runs u (put_node n' (put_node_run r s))"
  unfolding wf_node_runs_def
proof (intro conjI allI impI)
  let ?t = "put_node n' (put_node_run r s)"
  have nodes: "dget (ps_nodes s) i \<noteq> None \<Longrightarrow> dget (ps_nodes ?t) i \<noteq> None" for i by simp
  have runs: "dget (ps_node_runs s) k = Some q \<Longrightarrow> nr_id q = k \<and> drawn u s k
        \<and> (\<exists>n ids. dget (ps_nodes s) (nr_node_id q) = Some n
             \<and> dget (ps_run_ids s) (nr_node_id q) = Some ids \<and> k \<in> set ids)" for k q
    using wf unfolding wf_node_runs_def by blast
  fix k q
  assume "dget (ps_node_runs ?t) k = Some q"
  then obtain q0 where q0: "dget (ps_node_runs s) k = Some q0" "nr_node_id q = nr_node_id q0"
    "nr_id q = nr_id q0"
    using run same_run by (cases "k = nr_id r") (auto simp: same_run_def)
  note old = runs [OF q0(1)]
  show "nr_id q = k" "drawn u ?t k" using old q0(3) by auto
  show "\<exists>n ids. dget (ps_nodes ?t) (nr_node_id q) = Some n
      \<and> dget (ps_run_ids ?t) (nr_node_id q) = Some ids \<and> k \<in> set ids"
    using old q0(2) by auto
next
  fix i
  assume "dget (ps_run_ids (put_node n' (put_node_run r s))) i \<noteq> None"
  then show "dget (ps_nodes (put_node n' (put_node_run r s))) i \<noteq> None"
    using wf by (simp add: wf_node_runs_def)
qed

lemma wf_put_close:
  assumes wf: "wf u P s" and node: "dget (ps_nodes s) (nd_id n') = Some n" and same: "same_node n n'"
    and run: "dget (ps_node_runs s) (nr_id r) = Some r0" and same_run: "same_run r0 r"
    and current: "current_node_run_id s (nd_id n') = Some (nr_id r)"
    and "step": "in_step n' r" and start: "may_start s n n'"
    and ready: "nd_state n' = N_READY \<Longrightarrow> nd_ready_at n' \<noteq> None"
  shows "wf u P (put_node n' (put_node_run r s))"
proof -
  let ?t = "put_node n' (put_node_run r s)"
  obtain ids where ids: "dget (ps_run_ids s) (nd_id n') = Some ids" "ids \<noteq> []" "last ids = nr_id r"
    using current by (auto simp: current_node_run_history)
  have hist: "wf_history s n ids" by (rule wf_historyD [OF wf node ids(1)])
  have "nd_id n = nd_id n'" and drawn: "drawn u s (nd_id n')"
    and plan: "nd_plan_run_id n \<in> P \<or> dget (ps_plan_runs s) (nd_plan_run_id n) \<noteq> None"
    using wf_nodesD [OF wf node] by auto
  have rn: "nr_node_id r0 = nd_id n'"
    using run_entry_last [OF hist ids(2)] run ids(3) \<open>nd_id n = nd_id n'\<close> by (metis option.inject)
  have hist': "wf_history (put_node_run r s) n' ids"
    by (rule wf_history_both [OF hist run same_run ids(2,3) same "step"])
  have "wf_dicts ?t" using wf by (simp add: wf_def wf_dicts_def)
  moreover have "wf_plan_runs u ?t" using wf by (simp add: wf_def wf_plan_runs_def)
  moreover have "wf_versions ?t" using wf by (simp add: wf_def wf_versions_def)
  moreover have "wf_published ?t"
  proof (rule wf_published_put_node)
    show "wf_published (put_node_run r s)"
      using wf by (simp add: wf_def wf_published_frame [of "put_node_run r s" s])
    show "may_start (put_node_run r s) n n'"
      using start by (simp add: may_start_def deps_frame [of "put_node_run r s" s])
  qed (use node same \<open>nd_id n = nd_id n'\<close> in auto)
  moreover have "wf_nodes u P ?t"
    unfolding wf_nodes_def
  proof (intro allI impI)
    fix i m assume m: "dget (ps_nodes ?t) i = Some m"
    show "nd_id m = i \<and> drawn u ?t i
     \<and> (nd_plan_run_id m \<in> P \<or> dget (ps_plan_runs ?t) (nd_plan_run_id m) \<noteq> None)
     \<and> (nd_state m = N_READY \<longrightarrow> nd_ready_at m \<noteq> None)
     \<and> (\<exists>ids. dget (ps_run_ids ?t) i = Some ids \<and> wf_history ?t m ids)"
    proof (cases "i = nd_id n'")
      case True
      then have "m = n'" using m by simp
      then show ?thesis
        using True ids hist' drawn plan ready same
        by (auto simp: wf_history_frame [of ?t "put_node_run r s"] same_node_def)
    next
      case False
      then have m': "dget (ps_nodes s) i = Some m" using m by simp
      obtain h where h: "nd_id m = i" "drawn u s i" "dget (ps_run_ids s) i = Some h" "wf_history s m h"
        "nd_state m = N_READY \<longrightarrow> nd_ready_at m \<noteq> None"
        "nd_plan_run_id m \<in> P \<or> dget (ps_plan_runs s) (nd_plan_run_id m) \<noteq> None"
        using wf_nodesD [OF wf m'] by blast
      have "wf_history (put_node_run r s) m h"
        using wf_history_other [OF h(4) run same_run] h(1) rn False by simp
      then show ?thesis using h by (simp add: wf_history_frame [of ?t "put_node_run r s"])
    qed
  qed
  moreover have "wf_node_runs u ?t"
    by (rule wf_node_runs_put [OF _ node run same_run]) (use wf in \<open>simp add: wf_def\<close>)
  moreover have "wf_ledgers ?t" using wf by (simp add: wf_def wf_ledgers_def)
  ultimately show ?thesis by (simp add: wf_def)
qed

lemma dset_same: "dget d k = Some v \<Longrightarrow> dset k v d = d"
  by (induction d) auto

lemma put_node_same: "dget (ps_nodes s) (nd_id n) = Some n \<Longrightarrow> put_node n s = s"
  by (simp add: put_node_def dset_same)

lemma evolves_put_node_run:
  "dget (ps_node_runs s) (nr_id r) = Some r0 \<Longrightarrow> same_run r0 r \<Longrightarrow> evolves s (put_node_run r s)"
  by (auto simp: evolves_def intro!: dict_rel_refl dict_rel_update)

lemma may_start_refl: "may_start s n n"
  by (simp add: may_start_def)

text \<open>A run that keeps its state: heartbeat, recorded input, superseding.\<close>

lemma wf_put_node_run:
  assumes wf: "wf u P s" and run: "dget (ps_node_runs s) (nr_id r) = Some r0"
    and same: "same_run r0 r" and st: "nr_state r = nr_state r0"
    and current: "current_node_run_id s (nr_node_id r0) = Some (nr_id r)"
  shows "wf u P (put_node_run r s)"
proof -
  obtain n ids where n: "dget (ps_nodes s) (nr_node_id r0) = Some n"
    "dget (ps_run_ids s) (nr_node_id r0) = Some ids"
    using wf_node_runsD [OF wf run] by blast
  have hist: "wf_history s n ids" and id: "nd_id n = nr_node_id r0"
    and ready: "nd_state n = N_READY \<longrightarrow> nd_ready_at n \<noteq> None"
    using wf_historyD [OF wf n] wf_nodesD [OF wf n(1)] by auto
  have last: "ids \<noteq> []" "last ids = nr_id r"
    using current n(2) by (auto simp: current_node_run_history)
  have "in_step n r0"
    using run_entry_last [OF hist last(1)] run last(2) by (metis option.inject)
  then have "in_step n r" using st by (simp add: in_step_def)
  then have "wf u P (put_node n (put_node_run r s))"
    using n(1) id current run same ready may_start_refl
    by (intro wf_put_close [OF wf]) auto
  then show ?thesis using n id by (simp add: put_node_same)
qed

subsubsection \<open>A new claim\<close>

lemma next_claim_version_history:
  assumes "\<And>k. k < length runs \<Longrightarrow> nr_claim_version (runs ! k) = k + 1"
  shows "next_claim_version runs = length runs + 1"
proof -
  have "foldr (\<lambda>r. max (nr_claim_version r)) runs 0 = length runs"
    if "\<And>k. k < length runs \<Longrightarrow> nr_claim_version (runs ! k) = k + 1" for runs
    using that
  proof (induction runs rule: rev_induct)
    case (snoc r runs)
    have "foldr (\<lambda>r. max (nr_claim_version r)) runs c = max c (foldr (\<lambda>r. max (nr_claim_version r)) runs 0)" for c
      by (induction runs) (auto simp: max_def)
    moreover have "nr_claim_version r = length runs + 1"
      using snoc.prems [of "length runs"] by simp
    moreover have "foldr (\<lambda>r. max (nr_claim_version r)) runs 0 = length runs"
    proof (rule snoc.IH)
      show "nr_claim_version (runs ! k) = k + 1" if "k < length runs" for k
        using snoc.prems [of k] that by (simp add: nth_append)
    qed
    ultimately show ?case by simp
  qed simp
  from this [OF assms] show ?thesis by (simp add: next_claim_version_def)
qed

lemma runs_of_wf:
  assumes "wf u P s" and "dget (ps_nodes s) i = Some n" and "runs_of s i = Inr (ids, runs)"
  shows "dget (ps_run_ids s) i = Some ids \<and> next_claim_version runs = length ids + 1"
proof -
  have ids: "dget (ps_run_ids s) i = Some ids"
    and runs: "list_all2 (\<lambda>k r. dget (ps_node_runs s) k = Some r) ids runs"
    using assms(3) by (auto simp: runs_of_def outcome rmap_eq_Inr)
  then have hist: "wf_history s n ids" using wf_historyD [OF assms(1,2)] by simp
  have "nr_claim_version (runs ! k) = k + 1" if "k < length runs" for k
    using that hist runs
    by (auto simp: wf_history_def run_entry_def list_all2_conv_all_nth)
  then show ?thesis using ids runs next_claim_version_history by (metis list_all2_lengthD)
qed

definition claim_of :: "node_rec \<Rightarrow> nat \<Rightarrow> node_run_rec \<Rightarrow> bool" where
  "claim_of n k r \<longleftrightarrow> nr_node_id r = nd_id n \<and> nr_plan_run_id r = nd_plan_run_id n
     \<and> nr_attempt r = k + 1 \<and> nr_claim_version r = k + 1 \<and> nr_state r = N_RUNNING
     \<and> nr_resource_keys r = rc_resource_keys (nd_capability n)"

lemma append_claim_sel [simp]:
  "ps_nodes (append_claim ids r s) = ps_nodes s"
  "ps_plan_runs (append_claim ids r s) = ps_plan_runs s"
  "ps_versions (append_claim ids r s) = ps_versions s"
  "ps_node_ids (append_claim ids r s) = ps_node_ids s"
  "ps_commands (append_claim ids r s) = ps_commands s"
  "ps_run_id_by_key (append_claim ids r s) = ps_run_id_by_key s"
  "ps_digest_by_key (append_claim ids r s) = ps_digest_by_key s"
  "ps_draws (append_claim ids r s) = Suc (ps_draws s)"
  "ps_node_runs (append_claim ids r s) = dset (nr_id r) r (ps_node_runs s)"
  "ps_run_ids (append_claim ids r s) = dset (nr_node_id r) (ids @ [nr_id r]) (ps_run_ids s)"
  by (simp_all add: append_claim_def)

lemma run_entry_append:
  assumes "run_entry s n ids k" and "k < length ids" and "dget (ps_node_runs s) (nr_id r) = None"
  shows "run_entry (append_claim h r s) n (ids @ [nr_id r]) k"
    and "run_entry (append_claim h r s) n ids k"
proof -
  have "ids ! k \<noteq> nr_id r" using assms by (auto simp: run_entry_def)
  then show "run_entry (append_claim h r s) n (ids @ [nr_id r]) k"
    "run_entry (append_claim h r s) n ids k"
    using assms by (auto simp: run_entry_def nth_append)
qed

lemma fresh_run:
  assumes "wf u P s" and "inj u"
  shows "dget (ps_node_runs s) (u (ps_draws s)) = None" "dget (ps_nodes s) (u (ps_draws s)) = None"
    "dget (ps_plan_runs s) (u (ps_draws s)) = None"
proof -
  have fresh: "\<not> drawn u s (u (ps_draws s))" by (rule fresh_draw [OF assms(2)])
  show "dget (ps_node_runs s) (u (ps_draws s)) = None"
    using fresh wf_node_runsD [OF assms(1)] by (cases "dget (ps_node_runs s) (u (ps_draws s))") auto
  show "dget (ps_nodes s) (u (ps_draws s)) = None"
    using fresh wf_nodesD [OF assms(1)] by (cases "dget (ps_nodes s) (u (ps_draws s))") auto
  show "dget (ps_plan_runs s) (u (ps_draws s)) = None"
    using fresh wf_plan_runsD [OF assms(1)] by (cases "dget (ps_plan_runs s) (u (ps_draws s))") auto
qed

lemma drawn_append_claim:
  "nr_id r = u (ps_draws s) \<Longrightarrow> drawn u (append_claim ids r s) i \<longleftrightarrow> drawn u s i \<or> i = nr_id r"
  by (auto simp: drawn_def less_Suc_eq)

lemma wf_history_claim:
  assumes hist: "wf_history s n ids" and fresh: "dget (ps_node_runs s) (nr_id r) = None"
    and r: "claim_of n (length ids) r" and same: "same_node n n'" and st: "nd_state n' = N_RUNNING"
  shows "wf_history (append_claim h r s) n' (ids @ [nr_id r])"
proof -
  have old: "run_entry s n ids k" if "k < length ids" for k using hist that by (simp add: wf_history_def)
  then have "nr_id r \<notin> set ids" using fresh by (force simp: in_set_conv_nth run_entry_def)
  moreover have "run_entry (append_claim h r s) n' (ids @ [nr_id r]) k" if "k < Suc (length ids)" for k
  proof (cases "k = length ids")
    case True
    then show ?thesis using r same by (simp add: run_entry_def claim_of_def same_node_def)
  next
    case False
    then have "run_entry (append_claim h r s) n (ids @ [nr_id r]) k"
      using old that fresh by (intro run_entry_append) auto
    then show ?thesis using same by (rule run_entry_node)
  qed
  ultimately show ?thesis
    using hist r st by (auto simp: wf_history_def in_step_def claim_of_def)
qed

lemma wf_history_append_other:
  assumes "wf_history s m ids" and "dget (ps_node_runs s) (nr_id r) = None"
  shows "wf_history (append_claim h r s) m ids"
proof -
  have "last ids \<noteq> nr_id r" if "ids \<noteq> []"
    using run_entry_last [OF assms(1) that] assms(2) by (metis option.distinct(1))
  then show ?thesis
    using assms run_entry_append(2) [OF _ _ assms(2)] by (auto simp: wf_history_def)
qed

lemma wf_claim:
  assumes wf: "wf u P s" and inj: "inj u" and node: "dget (ps_nodes s) (nd_id n') = Some n"
    and same: "same_node n n'" and ids: "dget (ps_run_ids s) (nd_id n') = Some ids"
    and r: "claim_of n (length ids) r" and id: "nr_id r = u (ps_draws s)"
    and st: "nd_state n' = N_RUNNING" "started (nd_state n)"
  shows "wf u P (append_claim ids r (put_node n' s))" (is "wf u P ?t")
    and "evolves s (append_claim ids r (put_node n' s))"
proof -
  have fresh: "dget (ps_node_runs s) (nr_id r) = None" using fresh_run(1) [OF wf inj] id by simp
  have nid: "nd_id n = nd_id n'" using same by (simp add: same_node_def)
  have rn: "nr_node_id r = nd_id n'" using r nid by (simp add: claim_of_def)
  note drawn = drawn_append_claim [of r u "put_node n' s" ids, simplified, OF id]
  have hist: "wf_history s n ids" by (rule wf_historyD [OF wf node ids])
  have "wf_dicts ?t" using wf by (simp add: wf_def wf_dicts_def)
  moreover have "wf_plan_runs u ?t"
    unfolding wf_plan_runs_def using wf_plan_runsD [OF wf] by (simp add: drawn)
  moreover have "wf_versions ?t" using wf by (simp add: wf_def wf_versions_def)
  moreover have "wf_published ?t"
  proof -
    have "wf_published (put_node n' s)"
      using wf node nid same st by (intro wf_published_put_node) (auto simp: wf_def may_start_def)
    then show ?thesis by (simp add: wf_published_frame [of ?t "put_node n' s"])
  qed
  moreover have "wf_nodes u P ?t"
    unfolding wf_nodes_def
  proof (intro allI impI)
    fix i m assume m: "dget (ps_nodes ?t) i = Some m"
    show "nd_id m = i \<and> drawn u ?t i
     \<and> (nd_plan_run_id m \<in> P \<or> dget (ps_plan_runs ?t) (nd_plan_run_id m) \<noteq> None)
     \<and> (nd_state m = N_READY \<longrightarrow> nd_ready_at m \<noteq> None)
     \<and> (\<exists>ids. dget (ps_run_ids ?t) i = Some ids \<and> wf_history ?t m ids)"
    proof (cases "i = nd_id n'")
      case True
      then have "m = n'" using m by simp
      have "wf_history ?t n' (ids @ [nr_id r])"
        using wf_history_claim [of "put_node n' s" n ids r n' ids] hist fresh r same st
        by (simp add: wf_history_frame [of "put_node n' s" s])
      then show ?thesis
        using True \<open>m = n'\<close> wf_nodesD [OF wf node] same st rn
        by (auto simp: same_node_def drawn)
    next
      case False
      then have "dget (ps_nodes s) i = Some m" using m by simp
      note old = wf_nodesD [OF wf this]
      then obtain h where h: "dget (ps_run_ids s) i = Some h" "wf_history s m h" by blast
      have "wf_history ?t m h"
        using wf_history_append_other [of "put_node n' s" m h r ids] h fresh
        by (simp add: wf_history_frame [of "put_node n' s" s])
      then show ?thesis using old h False rn by (simp add: drawn)
    qed
  qed
  moreover have "wf_node_runs u ?t"
    unfolding wf_node_runs_def
  proof (intro conjI allI impI)
    fix k q
    assume q: "dget (ps_node_runs ?t) k = Some q"
    have "nr_id q = k \<and> drawn u ?t k \<and> (\<exists>n ids. dget (ps_nodes ?t) (nr_node_id q) = Some n
        \<and> dget (ps_run_ids ?t) (nr_node_id q) = Some ids \<and> k \<in> set ids)"
    proof (cases "k = nr_id r")
      case True
      then have "drawn u ?t k" by (simp add: drawn id)
      then show ?thesis using q rn True by auto
    next
      case False
      then have "dget (ps_node_runs s) k = Some q" using q by simp
      note old = wf_node_runsD [OF wf this]
      then show ?thesis using rn ids by (cases "nr_node_id q = nd_id n'") (auto simp: drawn)
    qed
    then show "nr_id q = k" "drawn u ?t k" "\<exists>n ids. dget (ps_nodes ?t) (nr_node_id q) = Some n
        \<and> dget (ps_run_ids ?t) (nr_node_id q) = Some ids \<and> k \<in> set ids" by auto
  next
    fix i
    assume "dget (ps_run_ids ?t) i \<noteq> None"
    then show "dget (ps_nodes ?t) i \<noteq> None"
      using wf rn by (auto simp: wf_def wf_node_runs_def split: if_splits)
  qed
  moreover have "wf_ledgers ?t" using wf by (simp add: wf_def wf_ledgers_def)
  ultimately show "wf u P ?t" by (simp add: wf_def)
  show "evolves s ?t"
    using node same ids fresh rn
    by (auto simp: evolves_def intro!: dict_rel_refl dict_rel_update)
qed

subsubsection \<open>A new node and a new version\<close>

lemma wf_draw:
  assumes wf: "wf u P s"
  shows "wf u P (draw s)"
proof -
  have "wf_dicts (draw s)" using wf by (simp add: wf_def wf_dicts_def)
  moreover have "wf_plan_runs u (draw s)"
    unfolding wf_plan_runs_def using wf_plan_runsD [OF wf] by (simp add: drawn_draw)
  moreover have "wf_versions (draw s)" using wf by (simp add: wf_def wf_versions_def)
  moreover have "wf_published (draw s)"
    using wf by (simp add: wf_def wf_published_frame [of "draw s" s])
  moreover have "wf_nodes u P (draw s)"
    unfolding wf_nodes_def using wf_nodesD [OF wf]
    by (simp add: drawn_draw wf_history_frame [of "draw s" s])
  moreover have "wf_node_runs u (draw s)"
    using wf unfolding wf_def wf_node_runs_def by (simp add: drawn_draw)
  moreover have "wf_ledgers (draw s)" using wf by (simp add: wf_def wf_ledgers_def)
  ultimately show ?thesis by (simp add: wf_def)
qed

lemma evolves_draw: "evolves s (draw s)"
  by (auto simp: evolves_def intro!: dict_rel_refl)

lemma add_node_sel [simp]:
  "ps_nodes (add_node n s) = dset (nd_id n) n (ps_nodes s)"
  "ps_plan_runs (add_node n s) = ps_plan_runs s" "ps_versions (add_node n s) = ps_versions s"
  "ps_node_ids (add_node n s) = ps_node_ids s" "ps_commands (add_node n s) = ps_commands s"
  "ps_run_id_by_key (add_node n s) = ps_run_id_by_key s"
  "ps_digest_by_key (add_node n s) = ps_digest_by_key s"
  "ps_draws (add_node n s) = Suc (ps_draws s)" "ps_node_runs (add_node n s) = ps_node_runs s"
  "ps_run_ids (add_node n s) = dset (nd_id n) [] (ps_run_ids s)"
  by (simp_all add: add_node_def)

lemma dep_node_add:
  assumes "dget (ps_nodes s) (nd_id n) = None"
    and "dep_node s ids d m"
  shows "dep_node (add_node n s) ids d m"
proof -
  obtain j where "j \<in> set ids" "dget (ps_nodes s) j = Some m" "nd_logical_key m = d"
    using assms(2) by (auto simp: dep_node_def)
  then show ?thesis using assms(1) by (auto simp: dep_node_def intro!: bexI [of _ j])
qed

lemma wf_published_add:
  assumes wf: "wf_published s" and fresh: "dget (ps_nodes s) (nd_id n) = None"
  shows "wf_published (add_node n s)"
  unfolding wf_published_def
proof (intro allI impI conjI)
  fix p v ids
  assume "dget (ps_node_ids (add_node n s)) (p, v) = Some ids"
  then have "dget (ps_node_ids s) (p, v) = Some ids" by simp
  note pub = wf [unfolded wf_published_def, rule_format, OF this]
  show "distinct ids" using pub by simp
  have same: "dget (ps_nodes (add_node n s)) i = dget (ps_nodes s) i" if "i \<in> set ids" for i
  proof -
    have "dget (ps_nodes s) i \<noteq> None" using pub that by force
    then have "i \<noteq> nd_id n" using fresh by metis
    then show ?thesis by simp
  qed
  show "\<forall>i\<in>set ids. \<exists>m. dget (ps_nodes (add_node n s)) i = Some m \<and> nd_plan_run_id m = p
      \<and> nd_version m = v \<and> deps_known (add_node n s) ids m \<and> deps_done (add_node n s) ids m"
    using pub same dep_node_add [OF fresh] unfolding deps_known_def deps_done_def by metis
  show "\<forall>i\<in>set ids. \<forall>j\<in>set ids. \<forall>a b. dget (ps_nodes (add_node n s)) i = Some a \<longrightarrow>
      dget (ps_nodes (add_node n s)) j = Some b \<longrightarrow> nd_logical_key a = nd_logical_key b \<longrightarrow> i = j"
    using pub same by metis
qed

lemma wf_add_node:
  assumes wf: "wf u P s" and inj: "inj u" and id: "nd_id n = u (ps_draws s)"
    and st: "nd_state n \<notin> {N_RUNNING, N_WAITING_RECONCILIATION}"
    and ready: "nd_state n = N_READY \<longrightarrow> nd_ready_at n \<noteq> None"
    and plan: "nd_plan_run_id n \<in> P \<or> dget (ps_plan_runs s) (nd_plan_run_id n) \<noteq> None"
  shows "wf u P (add_node n s)" (is "wf u P ?t") and "evolves s (add_node n s)"
proof -
  have fresh: "dget (ps_nodes s) (nd_id n) = None" using fresh_run(2) [OF wf inj] id by simp
  have none: "dget (ps_run_ids s) (nd_id n) = None"
    using fresh wf by (auto simp: wf_def wf_node_runs_def)
  have drawn: "drawn u ?t i \<longleftrightarrow> drawn u s i \<or> i = nd_id n" for i
    using id by (auto simp: drawn_def less_Suc_eq)
  have "wf_dicts ?t" using wf by (simp add: wf_def wf_dicts_def)
  moreover have "wf_plan_runs u ?t"
    unfolding wf_plan_runs_def using wf_plan_runsD [OF wf] by (simp add: drawn)
  moreover have "wf_versions ?t" using wf by (simp add: wf_def wf_versions_def)
  moreover have "wf_published ?t" using wf fresh by (intro wf_published_add) (auto simp: wf_def)
  moreover have "wf_nodes u P ?t"
    unfolding wf_nodes_def
  proof (intro allI impI)
    fix i m assume m: "dget (ps_nodes ?t) i = Some m"
    show "nd_id m = i \<and> drawn u ?t i
     \<and> (nd_plan_run_id m \<in> P \<or> dget (ps_plan_runs ?t) (nd_plan_run_id m) \<noteq> None)
     \<and> (nd_state m = N_READY \<longrightarrow> nd_ready_at m \<noteq> None)
     \<and> (\<exists>ids. dget (ps_run_ids ?t) i = Some ids \<and> wf_history ?t m ids)"
    proof (cases "i = nd_id n")
      case True
      have "wf_history ?t n []" using st by (simp add: wf_history_def)
      moreover have "drawn u ?t i" using True by (simp add: drawn)
      ultimately show ?thesis using True m ready plan by simp
    next
      case False
      then have "dget (ps_nodes s) i = Some m" using m by simp
      then show ?thesis
        using wf_nodesD [OF wf, of i m] False by (simp add: drawn wf_history_frame [of ?t s])
    qed
  qed
  moreover have "wf_node_runs u ?t"
    unfolding wf_node_runs_def
  proof (intro conjI allI impI)
    fix k q
    assume "dget (ps_node_runs ?t) k = Some q"
    then have "dget (ps_node_runs s) k = Some q" by simp
    note old = wf_node_runsD [OF wf this]
    then have "nr_node_id q \<noteq> nd_id n" using fresh by auto
    then show "nr_id q = k" "drawn u ?t k" "\<exists>n ids. dget (ps_nodes ?t) (nr_node_id q) = Some n
        \<and> dget (ps_run_ids ?t) (nr_node_id q) = Some ids \<and> k \<in> set ids"
      using old by (auto simp: drawn)
  next
    fix i
    assume "dget (ps_run_ids ?t) i \<noteq> None"
    then show "dget (ps_nodes ?t) i \<noteq> None"
      using wf by (auto simp: wf_def wf_node_runs_def split: if_splits)
  qed
  moreover have "wf_ledgers ?t" using wf by (simp add: wf_def wf_ledgers_def)
  ultimately show "wf u P ?t" by (simp add: wf_def)
  show "evolves s ?t"
    using fresh none by (auto simp: evolves_def intro!: dict_rel_refl dict_rel_update)
qed

subsubsection \<open>Ledger entries and run keys\<close>

lemma wf_put_command:
  assumes "wf u P s" and "cr_command_id (lg_result l) = pc_id (lg_command l)"
  shows "wf u P (put_command l s)"
proof -
  let ?t = "put_command l s"
  have "wf_ledgers ?t" using assms by (simp add: wf_def wf_ledgers_def)
  moreover have "wf_published ?t" using assms by (simp add: wf_def wf_published_frame [of ?t s])
  moreover have "wf_nodes u P ?t"
    using assms by (simp add: wf_def wf_nodes_def wf_history_frame [of ?t s])
  moreover have "wf_dicts ?t" using assms(1) by (simp add: wf_def wf_dicts_def)
  moreover have "wf_plan_runs u ?t" using assms(1) by (simp add: wf_def wf_plan_runs_def)
  moreover have "wf_versions ?t" using assms(1) by (simp add: wf_def wf_versions_def)
  moreover have "wf_node_runs u ?t" using assms(1) by (simp add: wf_def wf_node_runs_def)
  ultimately show ?thesis by (simp add: wf_def)
qed

lemma evolves_put_command:
  "dget (ps_commands s) (pc_id (lg_command l)) = None \<Longrightarrow> evolves s (put_command l s)"
  by (auto simp: evolves_def intro!: dict_rel_refl keeps_fresh)

text \<open>
  A new version: its nodes exist, are closed under dependencies, have pairwise different logical
  keys, and only entry nodes have started.
\<close>

definition fresh_version :: "plan_store \<Rightarrow> string \<Rightarrow> int \<Rightarrow> string list \<Rightarrow> bool" where
  "fresh_version s p v ids \<longleftrightarrow> distinct ids
     \<and> (\<forall>i\<in>set ids. \<exists>n. dget (ps_nodes s) i = Some n \<and> nd_plan_run_id n = p \<and> nd_version n = v
          \<and> deps_known s ids n \<and> (started (nd_state n) \<longrightarrow> entry_node n))
     \<and> (\<forall>i\<in>set ids. \<forall>j\<in>set ids. \<forall>n m. dget (ps_nodes s) i = Some n \<longrightarrow>
          dget (ps_nodes s) j = Some m \<longrightarrow> nd_logical_key n = nd_logical_key m \<longrightarrow> i = j)"

lemma publish_sel [simp]:
  "ps_nodes (publish_version x ids s) = ps_nodes s"
  "ps_plan_runs (publish_version x ids s) = ps_plan_runs s"
  "ps_node_runs (publish_version x ids s) = ps_node_runs s"
  "ps_run_ids (publish_version x ids s) = ps_run_ids s"
  "ps_commands (publish_version x ids s) = ps_commands s"
  "ps_run_id_by_key (publish_version x ids s) = ps_run_id_by_key s"
  "ps_digest_by_key (publish_version x ids s) = ps_digest_by_key s"
  "ps_draws (publish_version x ids s) = ps_draws s"
  "ps_versions (publish_version x ids s) = dset (ver_plan_run_id x, ver_number x) x (ps_versions s)"
  "ps_node_ids (publish_version x ids s) = dset (ver_plan_run_id x, ver_number x) ids (ps_node_ids s)"
  "ps_nodes (publish_key k i d s) = ps_nodes s"
  "ps_plan_runs (publish_key k i d s) = ps_plan_runs s"
  "ps_node_runs (publish_key k i d s) = ps_node_runs s"
  "ps_run_ids (publish_key k i d s) = ps_run_ids s"
  "ps_commands (publish_key k i d s) = ps_commands s"
  "ps_versions (publish_key k i d s) = ps_versions s"
  "ps_node_ids (publish_key k i d s) = ps_node_ids s"
  "ps_draws (publish_key k i d s) = ps_draws s"
  "ps_run_id_by_key (publish_key k i d s) = dset k i (ps_run_id_by_key s)"
  "ps_digest_by_key (publish_key k i d s) = dset k d (ps_digest_by_key s)"
  by (simp_all add: publish_version_def publish_key_def)

lemma drawn_publish [simp]:
  "drawn u (publish_version x ids s) i = drawn u s i" "drawn u (publish_key k j d s) i = drawn u s i"
  by (simp_all add: drawn_def)

lemma wf_published_publish:
  assumes "wf_published s" and "fresh_version s (ver_plan_run_id x) (ver_number x) ids"
  shows "wf_published (publish_version x ids s)"
proof -
  let ?t = "publish_version x ids s"
  show ?thesis
    unfolding wf_published_def
  proof (intro allI impI)
    fix p v h
    assume h: "dget (ps_node_ids ?t) (p, v) = Some h"
    show "distinct h \<and> (\<forall>i\<in>set h. \<exists>n. dget (ps_nodes ?t) i = Some n \<and> nd_plan_run_id n = p
        \<and> nd_version n = v \<and> deps_known ?t h n \<and> deps_done ?t h n)
      \<and> (\<forall>i\<in>set h. \<forall>j\<in>set h. \<forall>n m. dget (ps_nodes ?t) i = Some n \<longrightarrow>
          dget (ps_nodes ?t) j = Some m \<longrightarrow> nd_logical_key n = nd_logical_key m \<longrightarrow> i = j)"
    proof (cases "(p, v) = (ver_plan_run_id x, ver_number x)")
      case True
      then have "h = ids" using h by simp
      have "deps_done s ids n" if "started (nd_state n) \<longrightarrow> entry_node n" for n
        using that by (auto simp: deps_done_def)
      then show ?thesis
        using assms(2) True unfolding fresh_version_def deps_frame [of ?t s, simplified] \<open>h = ids\<close>
        by (simp add: conj_ac) blast
    next
      case False
      then have "dget (ps_node_ids s) (p, v) = Some h" using h by (auto split: if_splits)
      then show ?thesis
        using assms(1) unfolding wf_published_def deps_frame [of ?t s, simplified] publish_sel by blast
    qed
  qed
qed

text \<open>Publication of the first version of a new plan, and of the next version of an existing one.\<close>

lemma wf_publish_new:
  assumes wf: "wf u {pl_id run} s" and drawn: "drawn u s (pl_id run)"
    and none: "dget (ps_plan_runs s) (pl_id run) = None" "dget (ps_run_id_by_key s) (pl_run_key run) = None"
    and ver: "ver_plan_run_id x = pl_id run" "ver_number x = 1" "pl_current_version run = 1"
    and lineage: "lineage_ok run" and fresh: "fresh_version s (pl_id run) 1 ids"
  shows "wf u {} (publish_key (pl_run_key run) (pl_id run) dg (publish_version x ids (put_plan_run run s)))"
      (is "wf u {} ?t")
    and "evolves s (publish_key (pl_run_key run) (pl_id run) dg (publish_version x ids (put_plan_run run s)))"
proof -
  have noversion: "dget (ps_versions s) (pl_id run, v) = None" "dget (ps_node_ids s) (pl_id run, v) = None" for v
    using wf none(1) by (auto simp: wf_def wf_versions_def) (metis not_Some_eq option.distinct(1))+
  have dr: "drawn u ?t i = drawn u s i" for i by (simp add: drawn_def)
  have "wf_dicts ?t" using wf by (simp add: wf_def wf_dicts_def)
  moreover have "wf_plan_runs u ?t"
    unfolding wf_plan_runs_def
    using wf_plan_runsD [OF wf] drawn ver lineage by (auto simp: dr)
  moreover have "wf_versions ?t"
    using wf ver noversion unfolding wf_def wf_versions_def by auto
  moreover have "wf_published ?t"
  proof -
    have "wf_published (put_plan_run run s)"
      using wf by (simp add: wf_def wf_published_frame [of "put_plan_run run s" s])
    moreover have "fresh_version (put_plan_run run s) (pl_id run) 1 ids"
      using fresh by (simp add: fresh_version_def deps_frame [of "put_plan_run run s" s])
    ultimately have "wf_published (publish_version x ids (put_plan_run run s))"
      using ver by (intro wf_published_publish) auto
    then show ?thesis by (simp add: wf_published_frame [of ?t "publish_version x ids (put_plan_run run s)"])
  qed
  moreover have "wf_nodes u {} ?t"
    unfolding wf_nodes_def using wf_nodesD [OF wf]
    by (auto simp: dr wf_history_frame [of ?t s])
  moreover have "wf_node_runs u ?t"
    using wf unfolding wf_def wf_node_runs_def by (simp add: dr)
  moreover have "wf_ledgers ?t"
  proof -
    have "wf_ledgers s" using wf by (simp add: wf_def)
    moreover from this have "dget (ps_run_id_by_key s) k \<noteq> Some (pl_id run)" for k
      using none(1) unfolding wf_ledgers_def by fastforce
    moreover have "pl_run_key q \<noteq> pl_run_key run" if "dget (ps_plan_runs s) i = Some q" for i q
      using \<open>wf_ledgers s\<close> that none(2) unfolding wf_ledgers_def by fastforce
    ultimately show ?thesis unfolding wf_ledgers_def by auto
  qed
  ultimately show "wf u {} ?t" by (simp add: wf_def)
  show "evolves s ?t"
    using none wf noversion ver
    by (auto simp: evolves_def wf_def wf_ledgers_def intro!: dict_rel_refl dict_rel_update keeps_fresh)
qed

lemma wf_publish_next:
  assumes wf: "wf u P s" and run: "dget (ps_plan_runs s) (pl_id r) = Some r0" and same: "same_plan r0 r"
    and ver: "pl_current_version r = pl_current_version r0 + 1" "pl_current_version r \<le> 3"
      "ver_plan_run_id x = pl_id r" "ver_number x = pl_current_version r"
    and fresh: "fresh_version s (pl_id r) (pl_current_version r) ids"
  shows "wf u P (put_plan_run r (publish_version x ids s))" (is "wf u P ?t")
    and "evolves s (put_plan_run r (publish_version x ids s))"
proof -
  have noversion: "dget (ps_versions s) (pl_id r, pl_current_version r) = None"
    "dget (ps_node_ids s) (pl_id r, pl_current_version r) = None"
  proof -
    have vs: "wf_versions s" using wf by (simp add: wf_def)
    show "dget (ps_versions s) (pl_id r, pl_current_version r) = None"
    proof (rule ccontr)
      assume "dget (ps_versions s) (pl_id r, pl_current_version r) \<noteq> None"
      then have "\<exists>q. dget (ps_plan_runs s) (pl_id r) = Some q
          \<and> pl_current_version r \<le> pl_current_version q"
        using vs unfolding wf_versions_def by blast
      then show False using run ver(1) by simp
    qed
    then show "dget (ps_node_ids s) (pl_id r, pl_current_version r) = None"
      using vs unfolding wf_versions_def by blast
  qed
  have dr: "drawn u ?t i = drawn u s i" for i by (simp add: drawn_def)
  have "wf_dicts ?t" using wf by (simp add: wf_def wf_dicts_def)
  moreover have "wf_plan_runs u ?t"
    unfolding wf_plan_runs_def
  proof (intro allI impI)
    fix i q
    assume q: "dget (ps_plan_runs ?t) i = Some q"
    show "pl_id q = i \<and> drawn u ?t i \<and> 1 \<le> pl_current_version q \<and> pl_current_version q \<le> 3
      \<and> lineage_ok q \<and> dget (ps_versions ?t) (i, pl_current_version q) \<noteq> None
      \<and> dget (ps_node_ids ?t) (i, pl_current_version q) \<noteq> None"
    proof (cases "i = pl_id r")
      case True
      then show ?thesis
        using q wf_plan_runsD [OF wf run] same lineage_same [OF same] ver by (auto simp: dr)
    next
      case False
      then show ?thesis using q wf_plan_runsD [OF wf, of i q] ver(3) by (auto simp: dr)
    qed
  qed
  moreover have "wf_versions ?t"
    unfolding wf_versions_def
  proof (intro conjI allI impI)
    have old: "dget (ps_versions s) (p, v) = Some y \<Longrightarrow> ver_plan_run_id y = p \<and> ver_number y = v
        \<and> (\<exists>q. dget (ps_plan_runs s) p = Some q \<and> 1 \<le> v \<and> v \<le> pl_current_version q)" for p v y
      using wf unfolding wf_def wf_versions_def by blast
    fix p v y
    assume y: "dget (ps_versions ?t) (p, v) = Some y"
    have "ver_plan_run_id y = p \<and> ver_number y = v
        \<and> (\<exists>q. dget (ps_plan_runs ?t) p = Some q \<and> 1 \<le> v \<and> v \<le> pl_current_version q)"
    proof (cases "(p, v) = (pl_id r, pl_current_version r)")
      case True
      then show ?thesis using y ver wf_plan_runsD [OF wf run] by auto
    next
      case False
      then have "dget (ps_versions s) (p, v) = Some y" using y ver by (auto split: if_splits)
      note o = old [OF this]
      then show ?thesis using run ver(1) by (cases "p = pl_id r") auto
    qed
    then show "ver_plan_run_id y = p" "ver_number y = v"
      "\<exists>q. dget (ps_plan_runs ?t) p = Some q \<and> 1 \<le> v \<and> v \<le> pl_current_version q" by auto
  next
    fix p v
    assume "dget (ps_node_ids ?t) (p, v) \<noteq> None"
    then show "dget (ps_versions ?t) (p, v) \<noteq> None"
      using wf unfolding wf_def wf_versions_def by (auto split: if_splits)
  qed
  moreover have "wf_published ?t"
  proof -
    have "wf_published (publish_version x ids s)"
      using wf fresh ver by (intro wf_published_publish) (auto simp: wf_def)
    then show ?thesis by (simp add: wf_published_frame [of ?t "publish_version x ids s"])
  qed
  moreover have "wf_nodes u P ?t"
    unfolding wf_nodes_def using wf_nodesD [OF wf] by (auto simp: dr wf_history_frame [of ?t s])
  moreover have "wf_node_runs u ?t"
    using wf unfolding wf_def wf_node_runs_def by (simp add: dr)
  moreover have "wf_ledgers ?t"
  proof -
    have "pl_run_key r = pl_run_key r0" using same by (simp add: same_plan_def)
    moreover have "wf_ledgers s" using wf by (simp add: wf_def)
    moreover from this have "pl_run_key r0 = k" if "dget (ps_run_id_by_key s) k = Some (pl_id r)" for k
      using that run unfolding wf_ledgers_def by fastforce
    ultimately show ?thesis using run unfolding wf_ledgers_def by auto
  qed
  ultimately show "wf u P ?t" by (simp add: wf_def)
  show "evolves s ?t"
    using run same ver noversion
    by (auto simp: evolves_def plan_grows_def intro!: dict_rel_refl dict_rel_update keeps_fresh)
qed

lemma wf_empty: "wf u {} empty_store"
  by (simp add: wf_def wf_dicts_def wf_plan_runs_def wf_versions_def wf_published_def wf_nodes_def
      wf_node_runs_def wf_ledgers_def empty_store_def)

end
