(* ===== verification/StoreSteps.thy ===== *)
theory StoreSteps
  imports StoreInvariant
begin

section \<open>The worker's operations preserve the invariant\<close>

text \<open>
  For each operation of a worker (claim, heartbeat, input, retry, reclaim, result), on any arguments
  and whether it returns or raises: a well-formed store stays well formed and only evolves.
\<close>

definition good :: "(nat \<Rightarrow> string) \<Rightarrow> plan_store \<Rightarrow> plan_store \<Rightarrow> bool" where
  "good u s t \<longleftrightarrow> wf u {} t \<and> evolves s t"

lemma good_refl [intro]: "wf u {} s \<Longrightarrow> good u s s"
  by (simp add: good_def)

lemma good_trans: "good u s t \<Longrightarrow> good u t v \<Longrightarrow> good u s v"
  by (auto simp: good_def intro: evolves_trans)

lemma good_wf: "good u s t \<Longrightarrow> wf u {} t"
  by (simp add: good_def)

lemma good_commit:
  assumes "wf u {} s" and "\<And>v. c = Inr v \<Longrightarrow> good u s (snd (f v))"
  shows "good u s (snd (commit c f s))"
  using assms by (cases c) auto

lemma good_put_plan_run:
  assumes "wf u {} s" and "dget (ps_plan_runs s) (pl_id r) = Some r0" and "same_plan r0 r"
    and "pl_current_version r = pl_current_version r0"
  shows "good u s (put_plan_run r s)"
  unfolding good_def
  using wf_put_plan_run [OF assms] evolves_put_plan_run [OF assms(2)] assms(3,4)
  by (auto simp: plan_grows_def)

lemma good_put_node:
  assumes "wf u {} s" and "dget (ps_nodes s) (nd_id n') = Some n" and "same_node n n'"
    and "same_phase n n'" and "may_start s n n'"
    and "nd_state n' = N_READY \<Longrightarrow> nd_ready_at n' \<noteq> None"
  shows "good u s (put_node n' s)"
  using wf_put_node [OF assms] evolves_put_node [OF assms(2,3)] by (simp add: good_def)

lemma edge_step: "node_edge a b \<Longrightarrow> steps node_edge a b"
  by (rule steps_step [OF steps_refl])

subsection \<open>The fence\<close>

lemma fenced_runD:
  assumes wf: "wf u P s" and r: "dget (ps_node_runs s) i = Some r"
    and current: "current_node_run_id s (nr_node_id r) = Some i"
  obtains n ids where "nr_id r = i" "dget (ps_nodes s) (nr_node_id r) = Some n" "nd_id n = nr_node_id r"
    "dget (ps_run_ids s) (nr_node_id r) = Some ids" "ids \<noteq> []" "last ids = i" "wf_history s n ids"
    "in_step n r" "nr_plan_run_id r = nd_plan_run_id n" "nr_claim_version r = length ids"
    "nr_resource_keys r = rc_resource_keys (nd_capability n)"
proof -
  obtain ids where ids: "dget (ps_run_ids s) (nr_node_id r) = Some ids" "ids \<noteq> []" "last ids = i"
    using current by (auto simp: current_node_run_history)
  obtain n where n: "dget (ps_nodes s) (nr_node_id r) = Some n" "nr_id r = i"
    using wf_node_runsD [OF wf r] by auto
  have hist: "wf_history s n ids" by (rule wf_historyD [OF wf n(1) ids(1)])
  obtain r' where "dget (ps_node_runs s) (last ids) = Some r'" "nr_plan_run_id r' = nd_plan_run_id n"
    "nr_claim_version r' = length ids" "nr_resource_keys r' = rc_resource_keys (nd_capability n)"
    "in_step n r'"
    using run_entry_last [OF hist ids(2)] by metis
  then show ?thesis
    using that n ids hist r wf_nodesD [OF wf n(1)] by auto
qed

lemma good_put_node_run:
  assumes "wf u {} s" and "dget (ps_node_runs s) (nr_id r) = Some r0" and "same_run r0 r"
    and "nr_state r = nr_state r0" and "current_node_run_id s (nr_node_id r0) = Some (nr_id r)"
  shows "good u s (put_node_run r s)"
  using wf_put_node_run [OF assms] evolves_put_node_run [OF assms(2,3)] by (simp add: good_def)

lemma good_put_close:
  assumes wf: "wf u {} s" and node: "dget (ps_nodes s) (nd_id n') = Some n" and same: "same_node n n'"
    and run: "dget (ps_node_runs s) (nr_id r) = Some r0" and same_run: "same_run r0 r"
    and current: "current_node_run_id s (nd_id n') = Some (nr_id r)"
    and "step": "in_step n' r" and start: "may_start s n n'"
    and ready: "nd_state n' = N_READY \<Longrightarrow> nd_ready_at n' \<noteq> None"
  shows "good u s (put_node n' (put_node_run r s))"
proof -
  have "evolves (put_node_run r s) (put_node n' (put_node_run r s))"
    using node same by (intro evolves_put_node) auto
  then show ?thesis
    using wf_put_close [OF assms] evolves_trans [OF evolves_put_node_run [OF run same_run]]
    by (auto simp: good_def)
qed

subsection \<open>Writes behind the fence\<close>

lemma heartbeat_good:
  assumes wf: "wf u {} s"
  shows "good u s (snd (heartbeat_node_run i w c now lease s))"
  unfolding heartbeat_node_run_def
proof (rule good_commit [OF wf], goal_cases)
  case (1 v)
  then obtain now_us lease_s r where v: "v = (now_us, lease_s, r)"
    and r: "dget (ps_node_runs s) i = Some r" "current_node_run_id s (nr_node_id r) = Some i"
    by (auto simp: outcome fenced_run_eq_Inr)
  have "nr_id r = i" using wf_node_runsD [OF wf r(1)] by simp
  then have "good u s (put_node_run
      (r\<lparr>nr_lease_until := max (nr_lease_until r) (now_us + seconds lease_s)\<rparr>) s)"
    using r by (intro good_put_node_run [OF wf]) (auto simp: same_run_def steps_refl)
  then show ?case by (simp add: v Let_def)
qed

lemma record_input_good:
  assumes wf: "wf u {} s"
  shows "good u s (snd (record_node_input i w c input now s))"
  unfolding record_node_input_def
proof (rule good_commit [OF wf], goal_cases)
  case (1 r)
  then have r: "dget (ps_node_runs s) i = Some r" "current_node_run_id s (nr_node_id r) = Some i"
    by (auto simp: outcome fenced_run_eq_Inr)
  have "nr_id r = i" using wf_node_runsD [OF wf r(1)] by simp
  then have "nr_fingerprint r = None \<Longrightarrow> good u s (put_node_run (r\<lparr>nr_input_snapshot := mi_parameters input,
      nr_fingerprint := Some (mi_fingerprint input)\<rparr>) s)"
    using r by (intro good_put_node_run [OF wf]) (auto simp: same_run_def steps_refl)
  then show ?case using good_refl [OF wf] by (simp add: Let_def)
qed

lemma retry_wait_entry: "node_edge st N_RETRY_WAIT \<Longrightarrow> st = N_RUNNING"
  by (cases st) auto

lemma schedule_retry_good:
  assumes wf: "wf u {} s"
  shows "good u s (snd (schedule_retry i w c now retry_at s))"
  unfolding schedule_retry_def
proof (rule good_commit [OF wf], goal_cases)
  case (1 v)
  then obtain retry_us r n where v: "v = (retry_us, r, n, N_RETRY_WAIT)"
    and r: "dget (ps_node_runs s) i = Some r" "current_node_run_id s (nr_node_id r) = Some i"
    and st: "nr_state r = N_RUNNING" and n: "dget (ps_nodes s) (nr_node_id r) = Some n"
    and edge: "node_edge (nd_state n) N_RETRY_WAIT"
    by (auto simp: outcome fenced_run_eq_Inr move_eq split: if_splits)
  have ids: "nr_id r = i" "nd_id n = nr_node_id r"
    using wf_node_runsD [OF wf r(1)] wf_nodesD [OF wf n] by auto
  have "node_edge (nr_state r) N_RETRY_WAIT" by (simp add: st)
  then have "good u s (put_node (n\<lparr>nd_state := N_RETRY_WAIT, nd_retry_at := Some retry_us\<rparr>)
      (put_node_run (r\<lparr>nr_state := N_RETRY_WAIT\<rparr>) s))"
    using r n ids edge
    by (intro good_put_close [OF wf])
      (auto simp: same_node_def same_run_def in_step_def may_start_def started_def
        intro: edge_step dest: retry_wait_entry)
  then show ?case by (simp add: v Let_def)
qed

subsection \<open>Claims\<close>

lemma promote_retry_good:
  assumes wf: "wf u {} s" and n: "dget (ps_nodes s) (nd_id n) = Some n"
  shows "good u s (promote_retry now n s)"
proof (cases "retry_due now n")
  case True
  then have st: "nd_state n = N_RETRY_WAIT" by (simp add: retry_due_def)
  then have "node_edge (nd_state n) N_READY" by simp
  then show ?thesis
    using True n st
    by (auto simp: promote_retry_def same_node_def same_phase_def may_start_def started_def
        intro!: good_put_node [OF wf] edge_step)
next
  case False
  then show ?thesis using good_refl [OF wf] by (simp add: promote_retry_def)
qed

lemma promote_retry_other:
  "i \<noteq> nd_id n \<Longrightarrow> dget (ps_nodes (promote_retry now n s)) i = dget (ps_nodes s) i"
  by (simp add: promote_retry_def)

lemma promote_all_good:
  assumes "wf u {} s" and "\<forall>n\<in>set ns. dget (ps_nodes s) (nd_id n) = Some n" and "distinct (map nd_id ns)"
  shows "good u s (fold (promote_retry now) ns s)"
  using assms
proof (induction ns arbitrary: s)
  case Nil
  then show ?case by auto
next
  case (Cons n ns)
  have "good u s (promote_retry now n s)" using Cons.prems by (intro promote_retry_good) auto
  moreover have "good u (promote_retry now n s) (fold (promote_retry now) ns (promote_retry now n s))"
  proof (rule Cons.IH)
    show "wf u {} (promote_retry now n s)" using calculation by (rule good_wf)
    show "\<forall>m\<in>set ns. dget (ps_nodes (promote_retry now n s)) (nd_id m) = Some m"
      using Cons.prems(2,3) by (metis distinct.simps(2) image_eqI list.map(2) list.set_intros(2)
          promote_retry_other set_map)
  qed (use Cons.prems in auto)
  ultimately show ?case by (auto intro: good_trans)
qed

lemma start_claim_good:
  assumes wf: "wf u {} s" and inj: "inj u" and n: "dget (ps_nodes s) i = Some n" "nd_state n = N_READY"
  shows "good u s (snd (start_claim u w now lease deadline i s))"
    and "j \<noteq> i \<Longrightarrow> dget (ps_nodes (snd (start_claim u w now lease deadline i s))) j = dget (ps_nodes s) j"
proof -
  let ?P = "\<lambda>t. good u s t \<and> (\<forall>j. j \<noteq> i \<longrightarrow> dget (ps_nodes t) j = dget (ps_nodes s) j)"
  have "?P (snd (start_claim u w now lease deadline i s))"
    unfolding start_claim_def
  proof (rule commit_preserves, goal_cases)
    case 1
    then show ?case using good_refl [OF wf] by simp
  next
    case (2 v)
    then obtain ids runs where v: "v = (n, ids, runs)" and runs: "runs_of s i = Inr (ids, runs)"
      using n by (auto simp: outcome)
    have id: "nd_id n = i" using wf_nodesD [OF wf n(1)] by simp
    have ids: "dget (ps_run_ids s) i = Some ids" "next_claim_version runs = length ids + 1"
      using runs_of_wf [OF wf n(1) runs] by auto
    define d where "d = (case nd_deadline_at n of None \<Rightarrow> deadline | Some d \<Rightarrow> Some d)"
    define r where "r = new_claim (u (ps_draws s)) w (now + seconds lease) d n (length ids + 1)
        (length ids + 1)"
    define n' where "n' = n\<lparr>nd_state := N_RUNNING, nd_deadline_at := d\<rparr>"
    have "same_node n n'" using n(2) by (auto simp: same_node_def n'_def intro!: edge_step)
    then have "good u s (append_claim ids r (put_node n' s))"
      unfolding good_def
      using wf_claim [OF wf inj, of n' n ids r] n id ids(1)
      by (simp add: r_def new_claim_def claim_of_def n'_def started_def)
    then show ?case
      using id by (auto simp: v Let_def ids(2) d_def [symmetric] r_def n'_def)
  qed
  then show "good u s (snd (start_claim u w now lease deadline i s))"
    and "j \<noteq> i \<Longrightarrow> dget (ps_nodes (snd (start_claim u w now lease deadline i s))) j = dget (ps_nodes s) j"
    by auto
qed

lemma claim_each_good:
  assumes "wf u {} s" and "inj u" and "distinct is"
    and "\<forall>i\<in>set is. \<exists>n. dget (ps_nodes s) i = Some n \<and> nd_state n = N_READY"
  shows "good u s (snd (claim_each u w now lease deadline is s))"
  using assms
proof (induction "is" arbitrary: s)
  case Nil
  then show ?case by auto
next
  case (Cons i "is")
  obtain n where n: "dget (ps_nodes s) i = Some n" "nd_state n = N_READY" using Cons.prems by auto
  obtain x s1 where c: "start_claim u w now lease deadline i s = (x, s1)" by fastforce
  have g: "good u s s1" and other: "\<And>j. j \<noteq> i \<Longrightarrow> dget (ps_nodes s1) j = dget (ps_nodes s) j"
    using start_claim_good [OF Cons.prems(1,2) n, where w = w and now = now and lease = lease and deadline = deadline] by (simp_all add: c)
  have "good u s1 (snd (claim_each u w now lease deadline is s1))"
  proof (rule Cons.IH)
    show "\<forall>j\<in>set is. \<exists>n. dget (ps_nodes s1) j = Some n \<and> nd_state n = N_READY"
      using Cons.prems(3,4) other by (metis distinct.simps(2) list.set_intros(2))
  qed (use g Cons.prems in \<open>auto simp: good_def\<close>)
  then show ?case
    using good_trans [OF g] g by (auto simp: c split: sum.splits prod.splits)
qed

lemma select_ready_ready: "n \<in> set (select_ready ns locked k) \<Longrightarrow> n \<in> set ns \<and> nd_state n = N_READY"
  by (induction ns locked k rule: select_ready.induct) (auto split: if_splits)

lemma select_ready_distinct:
  "distinct (map f ns) \<Longrightarrow> distinct (map f (select_ready ns locked k))"
  by (induction ns locked k rule: select_ready.induct) (auto dest: select_ready_ready)

lemma list_all2_right: "list_all2 P xs ys \<Longrightarrow> y \<in> set ys \<Longrightarrow> \<exists>x\<in>set xs. P x y"
  by (induction rule: list_all2_induct) auto

lemma published_node:
  "wf_published s \<Longrightarrow> dget (ps_node_ids s) (p, v) = Some ids \<Longrightarrow> i \<in> set ids \<Longrightarrow>
     \<exists>n. dget (ps_nodes s) i = Some n \<and> nd_plan_run_id n = p \<and> nd_version n = v
       \<and> deps_known s ids n \<and> deps_done s ids n"
  unfolding wf_published_def by blast

lemma published_nodes:
  assumes wf: "wf u P s" and ids: "dget (ps_node_ids s) (p, v) = Some ids"
    and nodes: "rmap (\<lambda>i. of_key (dget (ps_nodes s) i)) ids = Inr ns"
  shows "map nd_id ns = ids" "distinct (map nd_id ns)"
    "\<forall>n\<in>set ns. dget (ps_nodes s) (nd_id n) = Some n \<and> nd_plan_run_id n = p \<and> nd_version n = v"
proof -
  have l: "list_all2 (\<lambda>i n. dget (ps_nodes s) i = Some n) ids ns"
    using nodes by (simp add: rmap_eq_Inr outcome)
  then have l2: "list_all2 (\<lambda>i n. dget (ps_nodes s) i = Some n \<and> nd_id n = i) ids ns"
    by (rule list_all2_mono) (use wf_nodesD [OF wf] in auto)
  then show eq: "map nd_id ns = ids" by (induction rule: list_all2_induct) auto
  have pub: "wf_published s" using wf by (simp add: wf_def)
  then show "distinct (map nd_id ns)" using ids eq by (simp add: wf_published_def)
  show "\<forall>n\<in>set ns. dget (ps_nodes s) (nd_id n) = Some n \<and> nd_plan_run_id n = p \<and> nd_version n = v"
  proof
    fix n assume "n \<in> set ns"
    then obtain i where i: "i \<in> set ids" "dget (ps_nodes s) i = Some n" "nd_id n = i"
      using list_all2_right [OF l2] by blast
    then show "dget (ps_nodes s) (nd_id n) = Some n \<and> nd_plan_run_id n = p \<and> nd_version n = v"
      using published_node [OF pub ids i(1)] by simp
  qed
qed

lemma claim_ready_good:
  assumes wf: "wf u {} s" and inj: "inj u"
  shows "good u s (snd (claim_ready_nodes u p w now lease limit deadline s))"
  unfolding claim_ready_nodes_def
proof (rule good_commit [OF wf], goal_cases)
  case (1 v)
  then obtain now_us lease_s limit_n d active where v: "v = ((now_us, lease_s, limit_n, d), active)"
    by (metis prod.exhaust)
  show ?case
  proof (cases active)
    case None
    then show ?thesis using good_refl [OF wf] by (simp add: v)
  next
    case (Some ns)
    then obtain run :: plan_run_rec and ids where "dget (ps_node_ids s) (p, pl_current_version run) = Some ids"
      "rmap (\<lambda>i. of_key (dget (ps_nodes s) i)) ids = Inr ns"
      using 1 by (auto simp: v outcome split: if_splits)
    note ns = published_nodes [OF wf this]
    define s1 where "s1 = fold (promote_retry now_us) ns s"
    define current where "current = map (\<lambda>n. the (dget (ps_nodes s1) (nd_id n))) ns"
    define chosen where "chosen = select_ready current (locked_resource_keys s1 now_us) (nat limit_n)"
    have g: "good u s s1" unfolding s1_def using ns wf by (intro promote_all_good) auto
    then have wf1: "wf u {} s1" by (rule good_wf)
    have cur: "\<exists>m. dget (ps_nodes s1) (nd_id n) = Some m \<and> nd_id m = nd_id n" if "n \<in> set ns" for n
      using g ns(3) that unfolding good_def evolves_def dict_rel_def same_node_def by metis
    have ids: "map nd_id current = map nd_id ns"
      unfolding current_def using cur by fastforce
    have read: "dget (ps_nodes s1) (nd_id m) = Some m" if "m \<in> set current" for m
      using that cur unfolding current_def by fastforce
    have "good u s1 (snd (claim_each u w now_us lease_s d (map nd_id chosen) s1))"
    proof (rule claim_each_good [OF wf1 inj])
      show "distinct (map nd_id chosen)"
        unfolding chosen_def by (rule select_ready_distinct) (simp add: ids ns(2))
      show "\<forall>i\<in>set (map nd_id chosen). \<exists>n. dget (ps_nodes s1) i = Some n \<and> nd_state n = N_READY"
        unfolding chosen_def using read by (auto dest: select_ready_ready)
    qed
    then show ?thesis
      using good_trans [OF g] by (simp add: v Some Let_def s1_def current_def chosen_def)
  qed
qed

lemma node_values:
  assumes wf: "wf u P s"
  shows "distinct (map nd_id (dvalues (ps_nodes s)))"
    and "n \<in> set (dvalues (ps_nodes s)) \<longleftrightarrow> dget (ps_nodes s) (nd_id n) = Some n"
proof -
  have d: "distinct (dkeys (ps_nodes s))" using wf by (simp add: wf_def wf_dicts_def)
  have ids: "nd_id n = i" if "(i, n) \<in> set (ps_nodes s)" for i n
    using that d wf_nodesD [OF wf, of i n] by (simp add: map_of_eq_Some_iff)
  then have eq: "map nd_id (dvalues (ps_nodes s)) = dkeys (ps_nodes s)" by auto
  show "distinct (map nd_id (dvalues (ps_nodes s)))" unfolding eq by (rule d)
  show "n \<in> set (dvalues (ps_nodes s)) \<longleftrightarrow> dget (ps_nodes s) (nd_id n) = Some n"
    using wf_nodesD [OF wf] in_dvalues_iff [OF d, of n] by auto
qed

lemma claim_candidates_in:
  "claim_candidates s ns = Inr cs \<Longrightarrow> (a, b, i) \<in> set cs \<Longrightarrow>
     \<exists>n\<in>set ns. nd_id n = i \<and> nd_state n = N_READY \<and> nd_ready_at n = Some b
       \<and> (\<exists>r. schedulable s n = Some r \<and> a = - pl_priority r)"
proof (induction s ns arbitrary: cs rule: claim_candidates.induct)
  case (2 s n ns)
  then show ?case by (cases "schedulable s n") (fastforce simp: outcome split: if_splits)+
qed simp

lemma claim_candidates_distinct:
  "claim_candidates s ns = Inr cs \<Longrightarrow> distinct (map nd_id ns) \<Longrightarrow> distinct (map (\<lambda>(a, b, i). i) cs)"
proof (induction s ns arbitrary: cs rule: claim_candidates.induct)
  case (2 s n ns)
  show ?case
  proof (cases "\<exists>r. schedulable s n = Some r \<and> nd_state n = N_READY")
    case True
    then obtain r b cs' where "schedulable s n = Some r" "nd_state n = N_READY" "nd_ready_at n = Some b"
      "claim_candidates s ns = Inr cs'" "cs = (- pl_priority r, b, nd_id n) # cs'"
      using "2.prems"(1) by (auto simp: outcome)
    moreover have "nd_id n \<notin> set (map (\<lambda>(a, b, i). i) cs')"
    proof
      assume "nd_id n \<in> set (map (\<lambda>(a, b, i). i) cs')"
      then obtain x y where "(x, y, nd_id n) \<in> set cs'" by auto
      then obtain m where "m \<in> set ns" "nd_id m = nd_id n"
        using claim_candidates_in [OF \<open>claim_candidates s ns = Inr cs'\<close>] by blast
      then have "nd_id n \<in> set (map nd_id ns)" by (metis image_eqI set_map)
      then show False using "2.prems"(2) by simp
    qed
    ultimately show ?thesis using 2 by simp
  next
    case False
    then have "claim_candidates s ns = Inr cs"
      using "2.prems"(1) by (auto split: option.splits if_splits)
    then show ?thesis using 2 False by (cases "schedulable s n") auto
  qed
qed simp

lemma claim_next_good:
  assumes wf: "wf u {} s" and inj: "inj u"
  shows "good u s (snd (claim_next_ready_nodes u w now lease limit deadline s))"
  unfolding claim_next_ready_nodes_def
proof (rule good_commit [OF wf], goal_cases)
  case (1 v)
  obtain now_us lease_s limit_n d where v: "v = (now_us, lease_s, limit_n, d)" by (metis prod.exhaust)
  define s1 where "s1 = fold (promote_retry now_us)
      (filter (\<lambda>n. schedulable s n \<noteq> None) (dvalues (ps_nodes s))) s"
  have g: "good u s s1"
    unfolding s1_def using node_values [OF wf] wf
    by (intro promote_all_good) (auto simp: distinct_map_filter)
  then have wf1: "wf u {} s1" by (rule good_wf)
  show ?case
  proof (cases "claim_candidates s1 (dvalues (ps_nodes s1))")
    case (Inl e)
    then show ?thesis using g by (simp add: v Let_def s1_def)
  next
    case (Inr cs)
    define ordered where "ordered = map (\<lambda>(_, _, i). the (dget (ps_nodes s1) i)) (sort cs)"
    define chosen where "chosen = select_ready ordered (locked_resource_keys s1 now_us) (nat limit_n)"
    have cs: "dget (ps_nodes s1) i \<noteq> None \<and> nd_id (the (dget (ps_nodes s1) i)) = i"
      if "(a, b, i) \<in> set cs" for a b i
    proof -
      note found = claim_candidates_in [OF Inr that]
      obtain n where "n \<in> set (dvalues (ps_nodes s1))" "nd_id n = i"
        using found by blast
      then have "dget (ps_nodes s1) i = Some n" using node_values(2) [OF wf1] by blast
      then show ?thesis using \<open>nd_id n = i\<close> by simp
    qed
    then have read: "dget (ps_nodes s1) (nd_id m) = Some m" if "m \<in> set ordered" for m
      using that unfolding ordered_def by fastforce
    have ids: "map nd_id ordered = map (\<lambda>(a, b, i). i) (sort cs)"
      unfolding ordered_def using cs by auto
    have "good u s1 (snd (claim_each u w now_us lease_s d (map nd_id chosen) s1))"
    proof (rule claim_each_good [OF wf1 inj])
      have "distinct (map (\<lambda>(a, b, i). i) (sort cs))"
        using claim_candidates_distinct [OF Inr node_values(1) [OF wf1]] by (simp add: distinct_map)
      then show "distinct (map nd_id chosen)"
        unfolding chosen_def by (intro select_ready_distinct) (simp add: ids)
      show "\<forall>i\<in>set (map nd_id chosen). \<exists>n. dget (ps_nodes s1) i = Some n \<and> nd_state n = N_READY"
        unfolding chosen_def using read by (auto dest: select_ready_ready)
    qed
    then show ?thesis
      using good_trans [OF g] Inr by (simp add: v Let_def s1_def ordered_def chosen_def)
  qed
qed

lemma reclaim_good:
  assumes wf: "wf u {} s" and inj: "inj u"
  shows "good u s (snd (reclaim_expired_node u i w now lease s))"
  unfolding reclaim_expired_node_def
proof (rule good_commit [OF wf], goal_cases)
  case (1 v)
  then obtain now_us lease_s r ids runs where v: "v = (now_us, lease_s, r, ids, runs)"
    and r: "dget (ps_node_runs s) i = Some r" "current_node_run_id s (nr_node_id r) = Some i"
    and st: "nr_state r = N_RUNNING" and runs: "runs_of s (nr_node_id r) = Inr (ids, runs)"
    by (auto simp: outcome)
  obtain n ids' where n: "dget (ps_nodes s) (nr_node_id r) = Some n" "nd_id n = nr_node_id r"
    "in_step n r" "nr_plan_run_id r = nd_plan_run_id n"
    "nr_resource_keys r = rc_resource_keys (nd_capability n)"
    using fenced_runD [OF wf r] by metis
  have ids: "dget (ps_run_ids s) (nr_node_id r) = Some ids" "next_claim_version runs = length ids + 1"
    using runs_of_wf [OF wf n(1) runs] by auto
  define q where "q = r\<lparr>nr_id := u (ps_draws s), nr_attempt := length ids + 1,
      nr_claim_version := length ids + 1, nr_state := N_RUNNING,
      nr_worker := w, nr_lease_until := now_us + seconds lease_s, nr_output := JNull,
      nr_superseded := False, nr_superseded_by := None, nr_superseded_at := None\<rparr>"
  have run: "nd_state n = N_RUNNING" using n(3) st by (simp add: in_step_def)
  have "good u s (append_claim ids q (put_node n s))"
    unfolding good_def
    using wf_claim [OF wf inj, of n n ids q] n ids(1) run
    by (simp add: q_def claim_of_def started_def)
  then show ?case
    using n by (simp add: v Let_def ids(2) q_def put_node_same)
qed

subsection \<open>Results\<close>

text \<open>
  \<open>states\<close> names only states that nodes of the version really have; the loop keeps it so, hence a
  node it opens has seen all its dependencies succeed.
\<close>

definition states_sound :: "plan_store \<Rightarrow> string list \<Rightarrow> (string, node_state) dict \<Rightarrow> bool" where
  "states_sound s ids states \<longleftrightarrow>
     (\<forall>d t. dget states d = Some t \<longrightarrow> (\<exists>m. dep_node s ids d m \<and> nd_state m = t))"

lemma all_found_True:
  "all_found states ds = Inr True \<Longrightarrow> d \<in> set ds \<Longrightarrow> dget states d = Some N_SUCCEEDED"
  by (induction states ds rule: all_found.induct) (auto simp: outcome split: if_splits)

lemma states_by_logical_key_in:
  "dget (states_by_logical_key ns) d = Some t \<Longrightarrow> \<exists>n\<in>set ns. nd_logical_key n = d \<and> nd_state n = t"
proof (induction ns rule: rev_induct)
  case Nil
  then show ?case by (simp add: states_by_logical_key_def)
next
  case (snoc n ns)
  then show ?case
    by (cases "d = nd_logical_key n") (auto simp: states_by_logical_key_def)
qed

lemma states_sound_initial:
  assumes wf: "wf u P s" and ids: "dget (ps_node_ids s) (p, v) = Some ids"
    and nodes: "rmap (\<lambda>i. of_key (dget (ps_nodes s) i)) ids = Inr ns"
  shows "states_sound s ids (states_by_logical_key ns)"
  unfolding states_sound_def
proof (intro allI impI)
  fix d t
  assume "dget (states_by_logical_key ns) d = Some t"
  then obtain n where n: "n \<in> set ns" "nd_logical_key n = d" "nd_state n = t"
    using states_by_logical_key_in by blast
  note ns = published_nodes [OF wf ids nodes]
  have "nd_id n \<in> set ids" using n(1) ns(1) by (metis image_eqI set_map)
  moreover have "dget (ps_nodes s) (nd_id n) = Some n" using n(1) ns(3) by blast
  ultimately show "\<exists>m. dep_node s ids d m \<and> nd_state m = t"
    using n unfolding dep_node_def by blast
qed

text \<open>What a loop over nodes leaves alone.\<close>

definition same_frame :: "plan_store \<Rightarrow> plan_store \<Rightarrow> bool" where
  "same_frame s t \<longleftrightarrow> ps_plan_runs t = ps_plan_runs s \<and> ps_node_ids t = ps_node_ids s
     \<and> ps_commands t = ps_commands s \<and> ps_node_runs t = ps_node_runs s"

lemma same_frame_refl [simp]: "same_frame s s"
  by (simp add: same_frame_def)

lemma open_node_good:
  assumes wf: "wf u {} s" and ids: "dget (ps_node_ids s) (p, v) = Some ids" "i \<in> set ids"
    and n: "dget (ps_nodes s) i = Some n" and st: "nd_state n = N_PENDING"
    and sound: "states_sound s ids states" and found: "all_found states (nd_depends_on n) = Inr True"
  shows "good u s (put_node (n\<lparr>nd_state := N_READY, nd_ready_at := Some now\<rparr>) s)"
    and "states_sound (put_node (n\<lparr>nd_state := N_READY, nd_ready_at := Some now\<rparr>) s) ids
           (dset (nd_logical_key n) N_READY states)"
proof -
  let ?n = "n\<lparr>nd_state := N_READY, nd_ready_at := Some now\<rparr>"
  have pub: "wf_published s" using wf by (simp add: wf_def)
  have id: "nd_id n = i" using wf_nodesD [OF wf n] by simp
  have pv: "nd_plan_run_id n = p" "nd_version n = v"
    using published_node [OF pub ids] n by auto
  have deps: "\<exists>m. dep_node s ids d m \<and> nd_state m = N_SUCCEEDED" if "d \<in> set (nd_depends_on n)" for d
    using all_found_True [OF found that] sound unfolding states_sound_def by blast
  have same: "same_node n ?n" using st by (auto simp: same_node_def intro!: edge_step)
  show "good u s (put_node ?n s)"
  proof (rule good_put_node [OF wf])
    show "may_start s n ?n" using deps ids pv by (simp add: may_start_def)
  qed (use n id st same in \<open>auto simp: same_phase_def\<close>)
  show "states_sound (put_node ?n s) ids (dset (nd_logical_key n) N_READY states)"
    unfolding states_sound_def
  proof (intro allI impI)
    fix d t
    assume t: "dget (dset (nd_logical_key n) N_READY states) d = Some t"
    show "\<exists>m. dep_node (put_node ?n s) ids d m \<and> nd_state m = t"
    proof (cases "d = nd_logical_key n")
      case True
      then show ?thesis using t ids(2) id
        by (intro exI [of _ ?n]) (auto simp: dep_node_def intro!: bexI [of _ i])
    next
      case False
      then have "dget states d = Some t" using t by simp
      then obtain m where "dep_node s ids d m" "nd_state m = t"
        using sound unfolding states_sound_def by blast
      then obtain j where m: "j \<in> set ids" "dget (ps_nodes s) j = Some m" "nd_logical_key m = d" "nd_state m = t"
        unfolding dep_node_def by blast
      then have "j \<noteq> i" using n False by auto
      then show ?thesis using m id
        by (intro exI [of _ m]) (auto simp: dep_node_def intro!: bexI [of _ j])
    qed
  qed
qed

lemma ready_loop_good:
  assumes "wf u {} s" and "dget (ps_node_ids s) (p, v) = Some ids" and "set is \<subseteq> set ids"
    and "states_sound s ids states"
  shows "good u s (snd (ready_loop now is states s)) \<and> same_frame s (snd (ready_loop now is states s))"
  using assms
proof (induction "is" arbitrary: s states)
  case Nil
  then show ?case by auto
next
  case (Cons i "is")
  show ?case
  proof (cases "dget (ps_nodes s) i")
    case None
    then show ?thesis using Cons.prems good_refl by simp
  next
    case (Some n)
    show ?thesis
    proof (cases "nd_state n = N_PENDING \<and> all_found states (nd_depends_on n) = Inr True")
      case True
      define t where "t = put_node (n\<lparr>nd_state := N_READY, nd_ready_at := Some now\<rparr>) s"
      have g: "good u s t" and sound: "states_sound t ids (dset (nd_logical_key n) N_READY states)"
        using open_node_good [OF Cons.prems(1,2) _ Some _ Cons.prems(4)] True Cons.prems(3)
        by (auto simp: t_def)
      have "good u t (snd (ready_loop now is (dset (nd_logical_key n) N_READY states) t))
          \<and> same_frame t (snd (ready_loop now is (dset (nd_logical_key n) N_READY states) t))"
        using g sound Cons.prems by (intro Cons.IH) (auto simp: good_def t_def)
      then show ?thesis
        using True Some good_trans [OF g] by (auto simp: t_def same_frame_def)
    next
      case False
      then show ?thesis
        using Some Cons.IH [OF Cons.prems(1,2) _ Cons.prems(4)] Cons.prems(1,3)
        by (auto split: sum.splits)
    qed
  qed
qed

lemma ready_dependents_good:
  assumes wf: "wf u {} s"
  shows "good u s (snd (ready_satisfied_dependents p now s))"
proof (cases "rbind (of_key (dget (ps_plan_runs s) p)) (\<lambda>run.
           rbind (of_key (dget (ps_node_ids s) (p, pl_current_version run))) (\<lambda>ids.
           rbind (rmap (\<lambda>i. of_key (dget (ps_nodes s) i)) ids) (\<lambda>nodes. Inr (run, ids, nodes))))")
  case (Inl e)
  then show ?thesis using good_refl [OF wf] by (simp add: ready_satisfied_dependents_def)
next
  case (Inr x)
  then obtain run ids nodes where x: "x = (run, ids, nodes)" and run: "dget (ps_plan_runs s) p = Some run"
    and ids: "dget (ps_node_ids s) (p, pl_current_version run) = Some ids"
    and nodes: "rmap (\<lambda>i. of_key (dget (ps_nodes s) i)) ids = Inr nodes"
    by (auto simp: outcome)
  obtain res t where t: "ready_loop now ids (states_by_logical_key nodes) s = (res, t)" by fastforce
  have g: "good u s t" and frame: "same_frame s t"
    using ready_loop_good [OF wf ids subset_refl states_sound_initial [OF wf ids nodes], of now] t
    by auto
  have "good u t (put_plan_run (run\<lparr>pl_state := R_SUCCEEDED\<rparr>) t)"
    using g run wf_plan_runsD [OF wf run] frame
    by (intro good_put_plan_run) (auto simp: good_def same_plan_def same_frame_def)
  then show ?thesis
    using good_trans [OF g] g Inr by (auto simp: ready_satisfied_dependents_def x t split: sum.splits)
qed

lemma set_plan_state_good:
  assumes wf: "wf u {} s"
  shows "good u s (snd (set_plan_state p st s))"
proof (cases "dget (ps_plan_runs s) p")
  case None
  then show ?thesis using good_refl [OF wf] by (simp add: set_plan_state_def)
next
  case (Some run)
  then show ?thesis
    using wf_plan_runsD [OF wf Some] wf
    by (auto simp: set_plan_state_def same_plan_def intro!: good_put_plan_run)
qed

lemma close_good:
  assumes wf: "wf u {} s" and r: "dget (ps_node_runs s) k = Some r"
    and current: "current_node_run_id s (nr_node_id r) = Some k"
    and n: "dget (ps_nodes s) (nr_node_id r) = Some n"
    and edge: "node_edge (nr_state r) t" "node_edge (nd_state n) t" and target: "t \<noteq> N_READY" "t \<noteq> N_RUNNING"
    and st: "started (nd_state n)"
  shows "good u s (put_node (n\<lparr>nd_state := t\<rparr>) (put_node_run (r\<lparr>nr_state := t, nr_output := out\<rparr>) s))"
proof -
  have "nr_id r = k" "nd_id n = nr_node_id r"
    using wf_node_runsD [OF wf r] wf_nodesD [OF wf n] by auto
  then show ?thesis
    using r n current edge target st
    by (intro good_put_close [OF wf])
      (auto simp: same_node_def same_run_def in_step_def may_start_def intro: edge_step)
qed

lemma checked_transition:
  "(case transition_node (py_node_state st) target of Inl e \<Rightarrow> Inl (x e) | Inr t \<Rightarrow> Inr t) = Inr t
     \<longleftrightarrow> coerce_node_state target = Inr t \<and> node_edge st t"
  using transition_node_eq_Inr [of "py_node_state st" target t]
  by (cases "transition_node (py_node_state st) target") auto

lemma record_result_good:
  assumes wf: "wf u {} s"
  shows "good u s (snd (record_node_result i w c target out now s))"
  unfolding record_node_result_def
proof (rule good_commit [OF wf], goal_cases)
  case (1 v)
  then obtain now_us j r n t where v: "v = (now_us, j, r, n, t)"
    and r: "dget (ps_node_runs s) i = Some r" "current_node_run_id s (nr_node_id r) = Some i"
    and st: "nr_state r = N_RUNNING" and n: "dget (ps_nodes s) (nr_node_id r) = Some n"
    and edge: "node_edge (nd_state n) t"
    by (auto simp: outcome fenced_run_eq_Inr checked_transition)
  have run: "nd_state n = N_RUNNING"
    using fenced_runD [OF wf r] n st unfolding in_step_def by (metis option.inject)
  define s1 where "s1 = put_node (n\<lparr>nd_state := t\<rparr>) (put_node_run (r\<lparr>nr_state := t, nr_output := j\<rparr>) s)"
  have g: "good u s s1"
    unfolding s1_def using run edge st
    by (intro close_good [OF wf r n]) (auto simp: started_def)
  then have wf1: "wf u {} s1" by (rule good_wf)
  show ?case
    using good_trans [OF g ready_dependents_good [OF wf1]] good_trans [OF g set_plan_state_good [OF wf1]] g
    unfolding s1_def by (auto simp: v Let_def case_prod_unfold)
qed

end
