(* ===== verification/StoreReach.thy ===== *)
theory StoreReach
  imports StoreSteps
begin

section \<open>Every store operation preserves the invariant\<close>

text \<open>
  The operations that reconcile, command, freeze, create and replan; then \<open>store_step\<close>, one step
  of the store by any of its operations, and what holds in every reachable store.
\<close>

subsection \<open>Reconciliation and commands\<close>

lemma snd_outcome:
  "snd (case x of (Inl e, s') \<Rightarrow> (Inl e, s') | (Inr a, s') \<Rightarrow> (f a s', s')) = snd x"
  by (simp split: prod.split sum.split)

lemma latest_run_node:
  assumes wf: "wf u P s" and n: "dget (ps_nodes s) i = Some n"
    and current: "current_node_run_id s i = Some k" and r: "dget (ps_node_runs s) k = Some r"
  shows "nr_node_id r = i \<and> in_step n r"
proof -
  obtain ids where ids: "dget (ps_run_ids s) i = Some ids" "ids \<noteq> []" "last ids = k"
    using current by (auto simp: current_node_run_history)
  have "wf_history s n ids" by (rule wf_historyD [OF wf n ids(1)])
  then show ?thesis
    using run_entry_last [OF _ ids(2)] ids(3) r wf_nodesD [OF wf n] by (metis option.inject)
qed

lemma close_reconciliation_good:
  assumes wf: "wf u {} s" and run: "dget (ps_plan_runs s) (pl_id run) = Some run"
    and n: "dget (ps_nodes s) (nd_id n) = Some n" and r: "dget (ps_node_runs s) k = Some r"
    and current: "current_node_run_id s (nd_id n) = Some k"
    and st: "nd_state n = N_WAITING_RECONCILIATION" "nr_state r = N_WAITING_RECONCILIATION"
    and target: "target \<in> {N_SUCCEEDED, N_FAILED}"
  shows "good u s (snd (close_reconciliation run n r target now payload s))"
proof -
  have node: "nr_node_id r = nd_id n" using latest_run_node [OF wf n current r] by simp
  define t where "t = put_node (n\<lparr>nd_state := target\<rparr>) (put_node_run (r\<lparr>nr_state := target,
      nr_output := reconciled_output r payload\<rparr>) s)"
  have g: "good u s t"
    unfolding t_def using target node current n
    by (intro close_good [OF wf r]) (auto simp: st started_def)
  have "good u t (put_plan_run (run\<lparr>pl_state := R_FAILED\<rparr>) t)"
    using g run by (intro good_put_plan_run) (auto simp: good_def same_plan_def t_def)
  then show ?thesis
    using good_trans [OF g] ready_dependents_good [OF good_wf [OF g]]
    unfolding t_def by (auto simp: close_reconciliation_def Let_def split: prod.splits sum.splits)
      (metis snd_conv)+
qed

lemma reconcile_locked_good:
  assumes wf: "wf u {} s" and run: "dget (ps_plan_runs s) (pl_id run) = Some run"
    and n: "dget (ps_nodes s) (nd_id n) = Some n"
  shows "good u s (snd (reconcile_reference_locked run n target now payload s))"
  unfolding reconcile_reference_locked_def
proof (rule good_commit [OF wf], goal_cases)
  case (1 r)
  then obtain k where "dget (ps_node_runs s) k = Some r" "current_node_run_id s (nd_id n) = Some k"
    "nd_state n = N_WAITING_RECONCILIATION" "nr_state r = N_WAITING_RECONCILIATION"
    "target \<in> {N_SUCCEEDED, N_FAILED}"
    by (auto simp: outcome)
  then show ?case by (rule close_reconciliation_good [OF wf run n])
qed

lemma reconcile_reference_good:
  assumes wf: "wf u {} s"
  shows "good u s (snd (reconcile_plan_reference wall p i v ref s))"
  unfolding reconcile_plan_reference_def
proof (rule good_commit [OF wf], goal_cases)
  case (1 x)
  then obtain target j run n where x: "x = (target, j, run, n)"
    and run: "dget (ps_plan_runs s) p = Some run" and n: "dget (ps_nodes s) i = Some n"
    by (auto simp: outcome)
  have "dget (ps_plan_runs s) (pl_id run) = Some run" "dget (ps_nodes s) (nd_id n) = Some n"
    using run n wf_plan_runsD [OF wf run] wf_nodesD [OF wf n] by auto
  note g = reconcile_locked_good [OF wf this, of target wall
      "JObj [(''outcome'', JStr (node_state_value target)), (''reference'', j)]"]
  then show ?case by (simp add: x snd_outcome)
qed

lemma apply_reconciliation_good:
  assumes wf: "wf u {} s" and run: "dget (ps_plan_runs s) (pl_id run) = Some run"
    and n: "dget (ps_nodes s) (nd_id n) = Some n"
  shows "good u s (snd (apply_reconciliation_command c run n now s))"
proof -
  have "good u s (snd (close_reconciliation run n r target now (pc_payload c) s))"
    if "dget (ps_node_runs s) k = Some r" "current_node_run_id s (nd_id n) = Some k"
      "nd_state n = N_WAITING_RECONCILIATION" "nr_state r = N_WAITING_RECONCILIATION"
      "target \<in> {N_SUCCEEDED, N_FAILED}" for k r target
    using close_reconciliation_good [OF wf run n that] .
  then have "good u s (snd (case close_reconciliation run n r target now (pc_payload c) s of
      (Inl e, s') \<Rightarrow> (Inl e, s') | (Inr n', s') \<Rightarrow> (Inr (f n'), s')))"
    if "dget (ps_node_runs s) k = Some r" "current_node_run_id s (nd_id n) = Some k"
      "nd_state n = N_WAITING_RECONCILIATION" "nr_state r = N_WAITING_RECONCILIATION"
      "target \<in> {N_SUCCEEDED, N_FAILED}" for k r target and f :: "node_rec \<Rightarrow> command_outcome"
    using that by (simp add: snd_outcome)
  then show ?thesis
    using good_refl [OF wf]
    by (auto simp: apply_reconciliation_command_def Let_def split: sum.split option.split)
qed

lemma approve_good:
  assumes wf: "wf u {} s" and n: "dget (ps_nodes s) (nd_id n) = Some n"
    and st: "nd_state n = N_WAITING_APPROVAL" and t: "t = N_READY \<and> ra \<noteq> None \<or> t = N_FAILED"
  shows "good u s (put_node (n\<lparr>nd_state := t, nd_ready_at := ra\<rparr>) s)"
  using assms
  by (intro good_put_node [OF wf])
    (auto simp: same_node_def same_phase_def may_start_def started_def intro!: edge_step)

lemma apply_first_good:
  assumes wf: "wf u {} s" and run: "dget (ps_plan_runs s) (pl_id run) = Some run"
  shows "good u s (snd (apply_first_command c run now s))"
proof (cases "pc_type c = RESUME")
  case True
  then show ?thesis
    using good_refl [OF wf] good_put_plan_run [OF wf, of "run\<lparr>pl_state := R_ACTIVE\<rparr>" run] run
    by (simp add: apply_first_command_def Let_def same_plan_def)
next
  case False
  show ?thesis
  proof (cases "Option.bind (pc_node_id c) (dget (ps_nodes s))")
    case None
    then show ?thesis using False good_refl [OF wf] by (simp add: apply_first_command_def)
  next
    case (Some n)
    then have n: "dget (ps_nodes s) (nd_id n) = Some n"
      using wf_nodesD [OF wf] by (cases "pc_node_id c") auto
    have "n\<lparr>nd_state := N_FAILED\<rparr> = n\<lparr>nd_state := N_FAILED, nd_ready_at := nd_ready_at n\<rparr>" by simp
    then have fail: "nd_state n = N_WAITING_APPROVAL \<Longrightarrow> good u s (put_node (n\<lparr>nd_state := N_FAILED\<rparr>) s)"
      using approve_good [OF wf n] by metis
    have reject: "nd_state n = N_WAITING_APPROVAL \<Longrightarrow>
        good u s (put_plan_run (run\<lparr>pl_state := R_FAILED\<rparr>) (put_node (n\<lparr>nd_state := N_FAILED\<rparr>) s))"
      using run by (intro good_trans [OF fail] good_put_plan_run [OF good_wf [OF fail]])
        (auto simp: same_plan_def)
    show ?thesis
      using False Some reject good_refl [OF wf] approve_good [OF wf n, of N_READY "Some now"]
        apply_reconciliation_good [OF wf run n, of c now]
      by (simp add: apply_first_command_def)
  qed
qed

lemma command_result_id [simp]: "cr_command_id (command_result c run now reason i st) = pc_id c"
  by (simp add: command_result_def)

lemma apply_reconciliation_id:
  "fst (apply_reconciliation_command c run n now s) = Inr res \<Longrightarrow> cr_command_id res = pc_id c"
  by (auto simp: apply_reconciliation_command_def Let_def
      split: if_splits sum.splits option.splits prod.splits)

lemma apply_first_id: "fst (apply_first_command c run now s) = Inr res \<Longrightarrow> cr_command_id res = pc_id c"
  by (auto simp: apply_first_command_def Let_def
      split: if_splits option.splits dest: apply_reconciliation_id)

lemma good_put_command:
  "wf u {} s \<Longrightarrow> cr_command_id (lg_result l) = pc_id (lg_command l) \<Longrightarrow>
     dget (ps_commands s) (pc_id (lg_command l)) = None \<Longrightarrow> good u s (put_command l s)"
  by (simp add: good_def wf_put_command evolves_put_command)

text \<open>No operation but \<open>submit_command\<close> itself writes the ledger.\<close>

lemma ready_loop_commands: "ps_commands (snd (ready_loop now is states s)) = ps_commands s"
  by (induction now "is" states s rule: ready_loop.induct) (auto split: option.split sum.split)

lemma ready_dependents_commands:
  "ps_commands (snd (ready_satisfied_dependents p now s)) = ps_commands s"
  using ready_loop_commands
  by (auto simp: ready_satisfied_dependents_def split: sum.split prod.split) (metis snd_conv)+

lemma close_reconciliation_commands:
  "ps_commands (snd (close_reconciliation run n r t now payload s)) = ps_commands s"
  using ready_dependents_commands
  by (auto simp: close_reconciliation_def Let_def snd_outcome split: sum.split prod.split)

lemma apply_first_commands: "ps_commands (snd (apply_first_command c run now s)) = ps_commands s"
  by (auto simp: apply_first_command_def apply_reconciliation_command_def Let_def snd_outcome
      close_reconciliation_commands split: sum.split option.split)

lemma submit_good:
  assumes wf: "wf u {} s"
  shows "good u s (snd (submit_command c now s))"
proof (cases "dget (ps_commands s) (pc_id c)")
  case (Some l)
  then show ?thesis using good_refl [OF wf] by (simp add: submit_command_def)
next
  case None
  show ?thesis
    unfolding submit_command_def None option.case
  proof (rule good_commit [OF wf], goal_cases)
    case (1 v)
    then obtain now_us and run :: plan_run_rec where v: "v = (now_us, run)"
      and p: "dget (ps_plan_runs s) (pc_plan_run_id c) = Some run"
      by (auto simp: outcome)
    have run: "dget (ps_plan_runs s) (pl_id run) = Some run" using wf_plan_runsD [OF wf p] p by simp
    define x where "x = (case command_gate c run now_us of
        Some reason \<Rightarrow> (Inr (command_result c run now_us reason (pc_node_id c) None), s)
      | None \<Rightarrow> apply_first_command c run now_us s)"
    have g: "good u s (snd x)"
      using good_refl [OF wf] apply_first_good [OF wf run] by (simp add: x_def split: option.split)
    have none: "dget (ps_commands (snd x)) (pc_id c) = None"
      using None by (simp add: x_def apply_first_commands split: option.split)
    have id: "cr_command_id res = pc_id c" if "fst x = Inr res" for res
      using that by (auto simp: x_def split: option.splits dest: apply_first_id)
    show ?case
      using g none id good_trans [OF g] good_put_command [OF good_wf [OF g]]
      by (cases x; cases "fst x") (auto simp: v x_def [symmetric])
  qed
qed

subsection \<open>Freezing and reconciliation incidents\<close>

lemma good_plan_update:
  assumes wf: "wf u {} s" and run: "dget (ps_plan_runs s) i = Some run"
    and "same_plan run run'" "pl_current_version run' = pl_current_version run"
  shows "good u s (put_plan_run run' s)"
proof -
  have "pl_id run' = i" using wf_plan_runsD [OF wf run] assms(3) by (simp add: same_plan_def)
  then show ?thesis using assms by (intro good_put_plan_run) auto
qed

lemma freeze_plan_good: "wf u {} s \<Longrightarrow> good u s (snd (freeze_plan p s))"
  unfolding freeze_plan_def
  by (rule good_commit)
    (auto simp: outcome same_plan_def Let_def intro!: good_plan_update)

lemma record_failure_good:
  "wf u {} s \<Longrightarrow> good u s (snd (record_reconciliation_failure p failure sig now s))"
  unfolding record_reconciliation_failure_def
  by (rule good_commit)
    (auto simp: outcome same_plan_def Let_def intro!: good_plan_update)

lemma clear_failure_good:
  "wf u {} s \<Longrightarrow> good u s (snd (clear_reconciliation_failure p now s))"
  unfolding clear_reconciliation_failure_def
  by (rule good_commit)
    (auto simp: outcome same_plan_def Let_def intro!: good_plan_update)

lemma freeze_node_good:
  assumes wf: "wf u {} s"
  shows "good u s (snd (freeze_node e now i s))"
  unfolding freeze_node_def
proof (rule good_commit [OF wf], goal_cases)
  case (1 v)
  then obtain n ids current where v: "v = (n, current)" and n: "dget (ps_nodes s) i = Some n"
    and ids: "dget (ps_run_ids s) i = Some ids"
    and current: "current = None \<or> ids \<noteq> [] \<and> (\<exists>r. current = Some r \<and> dget (ps_node_runs s) (last ids) = Some r)"
    by (auto simp: outcome split: if_splits)
  define s1 where "s1 = (case current of None \<Rightarrow> s
      | Some r \<Rightarrow> if nr_superseded r then s else put_node_run (supersede e now r) s)"
  have g: "good u s s1"
  proof (cases "\<exists>r. current = Some r \<and> \<not> nr_superseded r")
    case True
    then obtain r where r: "current = Some r" "\<not> nr_superseded r" by blast
    then have *: "ids \<noteq> []" "dget (ps_node_runs s) (last ids) = Some r" using current by auto
    have "nr_node_id r = i"
      using latest_run_node [OF wf n, of "last ids" r] * ids by (auto simp: current_node_run_history)
    moreover have "nr_id r = last ids" using wf_node_runsD [OF wf *(2)] by simp
    ultimately show ?thesis
      using r * ids unfolding s1_def
      by (auto simp: supersede_def same_run_def steps_refl current_node_run_history
          intro!: good_put_node_run [OF wf])
  next
    case False
    then show ?thesis using good_refl [OF wf] by (auto simp: s1_def split: option.split)
  qed
  have same: "ps_nodes s1 = ps_nodes s" by (simp add: s1_def split: option.split)
  have "freezable (nd_state n) \<Longrightarrow> good u s1 (put_node (n\<lparr>nd_state := N_FROZEN\<rparr>) s1)"
    using n wf_nodesD [OF wf n] same
    by (intro good_put_node [OF good_wf [OF g]])
      (auto simp: freezable_def same_node_def same_phase_def may_start_def started_def
        intro!: edge_step)
  then show ?case using g good_trans [OF g] by (simp add: v Let_def s1_def [symmetric])
qed

lemma freeze_nodes_good: "wf u {} s \<Longrightarrow> good u s (snd (freeze_nodes e now is s))"
proof (induction "is" arbitrary: s)
  case Nil
  then show ?case by auto
next
  case (Cons i "is")
  note g = freeze_node_good [OF Cons.prems, of e now i]
  show ?case
    using g good_trans [OF g Cons.IH [OF good_wf [OF g]]]
    by (cases "freeze_node e now i s"; cases "fst (freeze_node e now i s)") auto
qed

lemma impact_freeze_good:
  assumes wf: "wf u {} s"
  shows "good u s (snd (apply_impact_freeze p v e a now s))"
  unfolding apply_impact_freeze_def
proof (rule good_commit [OF wf], goal_cases)
  case (1 x)
  then obtain now_us and run :: plan_run_rec where x: "x = (now_us, run)"
    and run: "dget (ps_plan_runs s) p = Some run"
    by (auto simp: outcome)
  define s1 where "s1 = (if ia_scope a \<in> {SCOPE_ROOM, SCOPE_PLATFORM} \<and> pl_state run = R_ACTIVE
      then put_plan_run (run\<lparr>pl_state := R_FROZEN\<rparr>) s else s)"
  have g: "good u s s1"
    unfolding s1_def using run good_refl [OF wf]
    by (auto intro!: good_plan_update [OF wf] simp: same_plan_def)
  then show ?case
    using good_trans [OF g freeze_nodes_good [OF good_wf [OF g]]]
    unfolding s1_def by (auto simp: x Let_def snd_outcome)
qed

subsection \<open>New versions\<close>

text \<open>\<open>added\<close>: the loop over candidate nodes added one fresh node for each, and nothing else.\<close>

definition node_of_candidate :: "string \<Rightarrow> int \<Rightarrow> candidate_node \<Rightarrow> node_rec \<Rightarrow> bool" where
  "node_of_candidate p v c n \<longleftrightarrow> nd_plan_run_id n = p \<and> nd_version n = v
     \<and> nd_logical_key n = cn_logical_key c \<and> nd_depends_on n = cn_depends_on c
     \<and> (started (nd_state n) \<longrightarrow> entry_node n)"

definition added ::
  "string \<Rightarrow> int \<Rightarrow> plan_store \<Rightarrow> plan_store \<Rightarrow> string list \<Rightarrow> candidate_node list \<Rightarrow> bool" where
  "added p v s t ids cs \<longleftrightarrow> keeps (ps_nodes s) (ps_nodes t) \<and> distinct ids
     \<and> (\<forall>i\<in>set ids. dget (ps_nodes s) i = None)
     \<and> list_all2 (\<lambda>i c. \<exists>n. dget (ps_nodes t) i = Some n \<and> node_of_candidate p v c n) ids cs"

definition same_plans :: "plan_store \<Rightarrow> plan_store \<Rightarrow> bool" where
  "same_plans s t \<longleftrightarrow> ps_plan_runs t = ps_plan_runs s \<and> ps_versions t = ps_versions s
     \<and> ps_node_ids t = ps_node_ids s \<and> ps_run_id_by_key t = ps_run_id_by_key s"

lemma added_Nil: "added p v s s [] []"
  by (simp add: added_def)

lemma added_Cons:
  assumes "added p v (add_node n s) t ids cs" and "dget (ps_nodes s) (nd_id n) = None"
    and "node_of_candidate p v c n"
  shows "added p v s t (nd_id n # ids) (c # cs)"
proof -
  have k: "keeps (ps_nodes (add_node n s)) (ps_nodes t)" using assms(1) by (simp add: added_def)
  then have "dget (ps_nodes t) (nd_id n) = Some n" by (simp add: keeps_def)
  moreover have "keeps (ps_nodes s) (ps_nodes t)"
    using k assms(2) unfolding keeps_def by (simp split: if_splits) (metis option.distinct(1))
  moreover have "dget (ps_nodes s) i = None \<and> i \<noteq> nd_id n" if "i \<in> set ids" for i
    using assms(1) that by (auto simp: added_def split: if_splits)
  ultimately show ?thesis using assms by (auto simp: added_def)
qed

lemma added_fresh_version:
  assumes a: "added p v s t ids cs" and keys: "distinct (map cn_logical_key cs)"
    and deps: "\<And>c. c \<in> set cs \<Longrightarrow> set (cn_depends_on c) \<subseteq> set (map cn_logical_key cs)"
  shows "fresh_version t p v ids"
proof -
  have l: "list_all2 (\<lambda>i c. \<exists>n. dget (ps_nodes t) i = Some n \<and> node_of_candidate p v c n) ids cs"
    and ids: "distinct ids"
    using a by (simp_all add: added_def)
  have nth: "\<exists>n. dget (ps_nodes t) (ids ! k) = Some n \<and> node_of_candidate p v (cs ! k) n"
    if "k < length ids" for k using l that by (auto simp: list_all2_conv_all_nth)
  have len: "length ids = length cs" using l by (rule list_all2_lengthD)
  have known: "\<exists>m. dep_node t ids d m" if "d \<in> set (map cn_logical_key cs)" for d
  proof -
    obtain c where "c \<in> set cs" "cn_logical_key c = d" using \<open>d \<in> set (map cn_logical_key cs)\<close> by auto
    then obtain k where "k < length cs" "cn_logical_key (cs ! k) = d" by (metis in_set_conv_nth)
    then obtain n where "dget (ps_nodes t) (ids ! k) = Some n" "nd_logical_key n = d" "ids ! k \<in> set ids"
      using nth [of k] len by (auto simp: node_of_candidate_def)
    then show ?thesis unfolding dep_node_def by blast
  qed
  have "\<exists>n. dget (ps_nodes t) i = Some n \<and> nd_plan_run_id n = p \<and> nd_version n = v
          \<and> deps_known t ids n \<and> (started (nd_state n) \<longrightarrow> entry_node n)" if i: "i \<in> set ids" for i
  proof -
    obtain k where k: "k < length ids" "ids ! k = i" using i by (auto simp: in_set_conv_nth)
    then obtain n where n: "dget (ps_nodes t) i = Some n" "node_of_candidate p v (cs ! k) n"
      using nth by blast
    have "cs ! k \<in> set cs" using k len by simp
    then have "deps_known t ids n"
      using n(2) known deps [of "cs ! k"] unfolding deps_known_def node_of_candidate_def
      by (metis subsetD)
    then show ?thesis using n by (simp add: node_of_candidate_def)
  qed
  moreover have "i = j" if "i \<in> set ids" "j \<in> set ids" "dget (ps_nodes t) i = Some n"
    "dget (ps_nodes t) j = Some m" "nd_logical_key n = nd_logical_key m" for i j n m
  proof -
    obtain k l where k: "k < length ids" "ids ! k = i" "l < length ids" "ids ! l = j"
      using \<open>i \<in> set ids\<close> \<open>j \<in> set ids\<close> by (auto simp: in_set_conv_nth)
    then have "cn_logical_key (cs ! k) = cn_logical_key (cs ! l)"
      using nth [of k] nth [of l] that(3-5) by (auto simp: node_of_candidate_def)
    then have "k = l" using keys k len by (simp add: distinct_conv_nth) metis
    then show ?thesis using k by simp
  qed
  ultimately show ?thesis using ids unfolding fresh_version_def by blast
qed

lemma new_node_sel [simp]:
  "nd_id (new_node i p v c cap st now re iv) = i"
  "nd_state (new_node i p v c cap st now re iv) = st"
  "nd_plan_run_id (new_node i p v c cap st now re iv) = p"
  "nd_ready_at (new_node i p v c cap st now re iv) = (if st = N_READY then Some now else None)"
  "nd_reused_from (new_node i p v c cap st now re iv) = re"
  "nd_capability (new_node i p v c cap st now re iv) = cap"
  by (simp_all add: new_node_def)

lemma new_node_candidate:
  "(started st \<Longrightarrow> rc_node_type cap \<in> {''PREPARE_CARD_BATCH'', ''VALIDATE_SOLD_OUT_EVENT''} \<or> re \<noteq> None)
     \<Longrightarrow> node_of_candidate p v c (new_node i p v c cap st now re iv)"
  by (auto simp: node_of_candidate_def new_node_def entry_node_def)

lemma create_nodes_result:
  assumes "wf u {p} s" and "inj u" and "create_nodes u p now caps cs s = (res, t)"
    and "\<And>c. c \<in> set cs \<Longrightarrow> dget caps (cn_logical_key c) \<noteq> None"
  shows "wf u {p} t \<and> evolves s t \<and> same_plans s t \<and> (\<exists>ids. res = Inr ids \<and> added p 1 s t ids cs)"
  using assms
proof (induction cs arbitrary: s res t)
  case Nil
  then show ?case using added_Nil by (auto simp: same_plans_def)
next
  case (Cons c cs)
  obtain cap where cap: "dget caps (cn_logical_key c) = Some cap" using Cons.prems(4) by fastforce
  define n where "n = new_node (u (ps_draws s)) p 1 c cap (initial_node_state cap) now None None"
  obtain res' t' where r: "create_nodes u p now caps cs (add_node n s) = (res', t')" by fastforce
  have cand: "node_of_candidate p 1 c n"
    unfolding n_def by (rule new_node_candidate) (auto simp: initial_node_state_def started_def split: if_splits)
  have w: "wf u {p} (add_node n s)" "evolves s (add_node n s)"
    using wf_add_node [OF Cons.prems(1,2), of n]
    by (simp_all add: n_def initial_node_state_def)
  have IH: "wf u {p} t' \<and> evolves (add_node n s) t' \<and> same_plans (add_node n s) t'
      \<and> (\<exists>ids. res' = Inr ids \<and> added p 1 (add_node n s) t' ids cs)"
    using Cons.IH [OF w(1) Cons.prems(2) r] Cons.prems(4) by simp
  then obtain ids where ids: "res' = Inr ids" "added p 1 (add_node n s) t' ids cs" by blast
  have fresh: "dget (ps_nodes s) (nd_id n) = None"
    using fresh_run(2) [OF Cons.prems(1,2)] by (simp add: n_def)
  have "res = Inr (nd_id n # ids)" "t = t'"
    using Cons.prems(3) cap r ids(1) by (auto simp: Let_def n_def)
  then show ?case
    using IH added_Cons [OF ids(2) fresh cand] evolves_trans [OF w(2)]
    by (auto simp: same_plans_def)
qed

lemma replan_nodes_result:
  assumes "wf u {} s" and "inj u" and "replan_nodes u p v now caps old reused cs s = (res, t)"
    and "dget (ps_plan_runs s) p \<noteq> None"
  shows "wf u {} t \<and> evolves s t \<and> same_plans s t \<and> (\<forall>ids. res = Inr ids \<longrightarrow> added p v s t ids cs)"
  using assms
proof (induction cs arbitrary: s res t)
  case Nil
  then show ?case using added_Nil by (auto simp: same_plans_def)
next
  case (Cons c cs)
  show ?case
  proof (cases "dget caps (cn_logical_key c)")
    case None
    then show ?thesis using Cons.prems by (auto simp: same_plans_def)
  next
    case (Some cap)
    define re where "re = dget reused (cn_logical_key c)"
    define st where "st = (if re \<noteq> None then N_SUCCEEDED
        else if rc_node_type cap = ''PREPARE_CARD_BATCH'' then N_READY else N_PENDING)"
    define iv where "iv = (if re \<noteq> None then None else map_option nd_id (dget old (cn_logical_key c)))"
    define n where "n = new_node (u (ps_draws s)) p v c cap st now re iv"
    show ?thesis
    proof (cases "re = None \<and> dget old (cn_logical_key c) = None")
      case True
      then show ?thesis
        using Some Cons.prems wf_draw [OF Cons.prems(1)] evolves_draw
        by (auto simp: Let_def re_def same_plans_def)
    next
      case False
      obtain res' t' where r: "replan_nodes u p v now caps old reused cs (add_node n s) = (res', t')"
        by fastforce
      have cand: "node_of_candidate p v c n"
        unfolding n_def by (rule new_node_candidate) (auto simp: st_def started_def split: if_splits)
      have w: "wf u {} (add_node n s)" "evolves s (add_node n s)"
        using wf_add_node [OF Cons.prems(1,2), of n] Cons.prems(4) by (simp_all add: n_def st_def)
      have IH: "wf u {} t' \<and> evolves (add_node n s) t' \<and> same_plans (add_node n s) t'
          \<and> (\<forall>ids. res' = Inr ids \<longrightarrow> added p v (add_node n s) t' ids cs)"
        using Cons.IH [OF w(1) Cons.prems(2) r] Cons.prems(4) by simp
      have fresh: "dget (ps_nodes s) (nd_id n) = None"
        using fresh_run(2) [OF Cons.prems(1,2)] by (simp add: n_def)
      have out: "(res, t) = (case (res', t') of (Inl e, s') \<Rightarrow> (Inl e, s')
          | (Inr ids, s') \<Rightarrow> (Inr (u (ps_draws s) # ids), s'))"
        using Cons.prems(3) Some False r unfolding n_def st_def iv_def re_def add_node_def
        by (simp add: Let_def split: sum.splits)
      have idn: "nd_id n = u (ps_draws s)" by (simp add: n_def)
      show ?thesis
      proof (cases res')
        case (Inl e)
        then show ?thesis using out IH evolves_trans [OF w(2)] by (auto simp: same_plans_def)
      next
        case (Inr ids)
        then have "added p v (add_node n s) t' ids cs" using IH by blast
        then show ?thesis
          using Inr out IH evolves_trans [OF w(2)] added_Cons [OF _ fresh cand]
          by (auto simp: idn same_plans_def)
      qed
    qed
  qed
qed

lemma wf_mono: "wf u P s \<Longrightarrow> P \<subseteq> Q \<Longrightarrow> wf u Q s"
  unfolding wf_def wf_nodes_def by blast

lemma new_plan_run_sel [simp]:
  "pl_id (new_plan_run i p) = i" "pl_current_version (new_plan_run i p) = 1"
  "pl_run_key (new_plan_run i p) = planning_run_key (mp_planning_input p)"
  "pl_state (new_plan_run i p) = R_ACTIVE"
  by (simp_all add: new_plan_run_def Let_def)

lemma new_plan_run_lineage: "lineage_ok (new_plan_run i p)"
  by (cases "mp_planning_input p")
    (auto simp: new_plan_run_def lineage_ok_def emergency_field_def Let_def)

lemma create_good:
  assumes wf: "wf u {} s" and inj: "inj u" and p: "plan_wf p"
  shows "good u s (snd (create_or_resume u wall p s))"
proof (cases "dget (ps_run_id_by_key s) (planning_run_key (mp_planning_input p))")
  case (Some i)
  then show ?thesis using good_refl [OF wf] by (simp add: create_or_resume_def Let_def)
next
  case None
  define i where "i = u (ps_draws s)"
  define run where "run = new_plan_run i p"
  define x where "x = initial_version i p"
  obtain res t where r: "create_nodes u i wall (mp_capabilities p) (cp_nodes (mp_proposal p)) (draw s) = (res, t)"
    by fastforce
  have "wf u {i} (draw s)" using wf_mono [OF wf_draw [OF wf]] by simp
  from create_nodes_result [OF this inj r] plan_wf_nodes(4) [OF p]
  obtain ids where t: "wf u {i} t" "evolves (draw s) t" "same_plans (draw s) t" and res: "res = Inr ids"
    and a: "added i 1 (draw s) t ids (cp_nodes (mp_proposal p))"
    by (metis option.distinct(1))
  have "drawn u (draw s) i" by (simp add: drawn_draw i_def)
  then have drawn: "drawn u t i" using t(2) by (auto simp: evolves_def intro: drawn_mono)
  have none: "dget (ps_plan_runs t) (pl_id run) = None" "dget (ps_run_id_by_key t) (pl_run_key run) = None"
    using t(3) None fresh_run(3) [OF wf inj] by (simp_all add: same_plans_def run_def i_def)
  have fresh: "fresh_version t (pl_id run) 1 ids"
    using added_fresh_version [OF a] plan_wf_nodes(2,3) [OF p] by (simp add: run_def)
  have "wf u {} (publish_key (pl_run_key run) (pl_id run) (plan_digest p) (publish_version x ids (put_plan_run run t)))
      \<and> evolves t (publish_key (pl_run_key run) (pl_id run) (plan_digest p) (publish_version x ids (put_plan_run run t)))"
    using t(1) drawn none fresh new_plan_run_lineage
    by (intro conjI wf_publish_new) (simp_all add: run_def x_def initial_version_def)
  then show ?thesis
    using None r res evolves_trans [OF evolves_draw evolves_trans [OF t(2)]]
    by (simp add: create_or_resume_def Let_def good_def i_def [symmetric] run_def x_def)
qed

lemma freeze_and_raise_good:
  "wf u {} s \<Longrightarrow> dget (ps_plan_runs s) i = Some run \<Longrightarrow> good u s (snd (freeze_and_raise run r s))"
  by (auto simp: freeze_and_raise_def same_plan_def intro!: good_plan_update)

lemma good_if:
  "(c \<Longrightarrow> good u s (snd a)) \<Longrightarrow> (\<not> c \<Longrightarrow> good u s (snd b)) \<Longrightarrow> good u s (snd (if c then a else b))"
  by simp

lemma replan_good:
  assumes wf: "wf u {} s" and inj: "inj u" and p: "plan_wf p"
  shows "good u s (snd (create_replan_version u i expected p sources sig fp reused now s))"
  unfolding create_replan_version_def
proof (rule good_commit [OF wf], goal_cases)
  case (1 y)
  then obtain now_us and run :: plan_run_rec and latest where y: "y = (now_us, run, latest)"
    and run: "dget (ps_plan_runs s) i = Some run"
    by (auto simp: outcome)
  note base = wf_plan_runsD [OF wf run]
  let ?next = "pl_current_version run + 1"
  let ?x = "replan_version i ?next p sources sig fp"
  have publish: "good u s (snd (commit c (\<lambda>old. case replan_nodes u i ?next now_us (mp_capabilities p) old
        reused (cp_nodes (mp_proposal p)) s of
          (Inl e, s1) \<Rightarrow> (Inl e, s1)
        | (Inr ids, s1) \<Rightarrow> (rbind (version_view ?x) (\<lambda>w. Inr (w, True)),
            put_plan_run (run\<lparr>pl_current_version := ?next, pl_state := R_ACTIVE\<rparr>)
              (publish_version ?x ids s1))) s))"
    if small: "\<not> 3 \<le> pl_current_version run" for c
  proof (rule good_commit [OF wf])
    fix old
    obtain res t where r: "replan_nodes u i ?next now_us (mp_capabilities p) old reused
        (cp_nodes (mp_proposal p)) s = (res, t)" by fastforce
    have t: "wf u {} t" "evolves s t" "same_plans s t"
      and a: "\<And>ids. res = Inr ids \<Longrightarrow> added i ?next s t ids (cp_nodes (mp_proposal p))"
      using replan_nodes_result [OF wf inj r] run by auto
    show "good u s (snd (case replan_nodes u i ?next now_us (mp_capabilities p) old
        reused (cp_nodes (mp_proposal p)) s of
          (Inl e, s1) \<Rightarrow> (Inl e, s1)
        | (Inr ids, s1) \<Rightarrow> (rbind (version_view ?x) (\<lambda>w. Inr (w, True)),
            put_plan_run (run\<lparr>pl_current_version := ?next, pl_state := R_ACTIVE\<rparr>)
              (publish_version ?x ids s1))))"
    proof (cases res)
      case (Inl e)
      then show ?thesis using r t by (simp add: good_def)
    next
      case (Inr ids)
      have fresh: "fresh_version t i ?next ids"
        using added_fresh_version [OF a [OF Inr]] plan_wf_nodes(2,3) [OF p] by simp
      let ?r = "run\<lparr>pl_current_version := ?next, pl_state := R_ACTIVE\<rparr>"
      have same: "dget (ps_plan_runs t) (pl_id ?r) = Some run" "same_plan run ?r"
        using t(3) run base by (simp_all add: same_plans_def same_plan_def)
      have ver: "pl_current_version ?r = pl_current_version run + 1" "pl_current_version ?r \<le> 3"
        "ver_plan_run_id ?x = pl_id ?r" "ver_number ?x = pl_current_version ?r"
        "fresh_version t (pl_id ?r) (pl_current_version ?r) ids"
        using small fresh base by (simp_all add: replan_version_def)
      have "wf u {} (put_plan_run ?r (publish_version ?x ids t))
          \<and> evolves t (put_plan_run ?r (publish_version ?x ids t))"
        using wf_publish_next [OF t(1) same ver] by blast
      then show ?thesis using r Inr evolves_trans [OF t(2)] by (simp add: good_def)
    qed
  qed
  show ?case
    unfolding y prod.case Let_def
    by (intro good_if) (erule publish | rule freeze_and_raise_good [OF wf run] | simp add: good_refl [OF wf])+
qed

subsection \<open>One step of the store\<close>

text \<open>
  \<open>store_step u now s t\<close>: one call of one operation, returning or raising, takes \<open>s\<close> to \<open>t\<close>. A
  call with an aware clock happens at that clock, \<open>now\<close>; a call without one happens at any. Plans
  are materialized plans, as the service layer builds them.
\<close>

definition at_clock :: "int \<Rightarrow> pytime \<Rightarrow> bool" where
  "at_clock now t = (case t of Aware us \<Rightarrow> us = now | Naive _ \<Rightarrow> True)"

inductive store_step :: "(nat \<Rightarrow> string) \<Rightarrow> int \<Rightarrow> plan_store \<Rightarrow> plan_store \<Rightarrow> bool" for u where
  step_create: "plan_wf p \<Longrightarrow> store_step u now s (snd (create_or_resume u now p s))"
| step_replan: "plan_wf p \<Longrightarrow> at_clock now t \<Longrightarrow>
    store_step u now s (snd (create_replan_version u i expected p sources sig fp reused t s))"
| step_claim: "at_clock now t \<Longrightarrow>
    store_step u now s (snd (claim_ready_nodes u i w t lease limit deadline s))"
| step_claim_next: "at_clock now t \<Longrightarrow>
    store_step u now s (snd (claim_next_ready_nodes u w t lease limit deadline s))"
| step_input: "at_clock now t \<Longrightarrow> store_step u now s (snd (record_node_input k w c input t s))"
| step_retry: "at_clock now t \<Longrightarrow> store_step u now s (snd (schedule_retry k w c t retry_at s))"
| step_heartbeat: "at_clock now t \<Longrightarrow> store_step u now s (snd (heartbeat_node_run k w c t lease s))"
| step_reclaim: "at_clock now t \<Longrightarrow> store_step u now s (snd (reclaim_expired_node u k w t lease s))"
| step_result: "at_clock now t \<Longrightarrow> store_step u now s (snd (record_node_result k w c target out t s))"
| step_reconcile: "store_step u now s (snd (reconcile_plan_reference now i j v ref s))"
| step_command: "at_clock now t \<Longrightarrow> store_step u now s (snd (submit_command cmd t s))"
| step_freeze: "store_step u now s (snd (freeze_plan i s))"
| step_impact: "at_clock now t \<Longrightarrow> store_step u now s (snd (apply_impact_freeze i v e a t s))"
| step_failure: "at_clock now t \<Longrightarrow>
    store_step u now s (snd (record_reconciliation_failure i failure sg t s))"
| step_clear: "at_clock now t \<Longrightarrow> store_step u now s (snd (clear_reconciliation_failure i t s))"

lemma store_step_good:
  "store_step u now s t \<Longrightarrow> inj u \<Longrightarrow> wf u {} s \<Longrightarrow> good u s t"
  by (induction rule: store_step.induct)
    (simp_all add: create_good replan_good claim_ready_good claim_next_good record_input_good
      schedule_retry_good heartbeat_good reclaim_good record_result_good reconcile_reference_good
      submit_good freeze_plan_good impact_freeze_good record_failure_good clear_failure_good)

text \<open>Steps at any time, and steps of a clock that never runs backwards.\<close>

definition some_step :: "(nat \<Rightarrow> string) \<Rightarrow> plan_store \<Rightarrow> plan_store \<Rightarrow> bool" where
  "some_step u s t \<longleftrightarrow> (\<exists>now. store_step u now s t)"

definition clocked_step :: "(nat \<Rightarrow> string) \<Rightarrow> int \<times> plan_store \<Rightarrow> int \<times> plan_store \<Rightarrow> bool" where
  "clocked_step u x y \<longleftrightarrow> fst x \<le> fst y \<and> store_step u (fst y) (snd x) (snd y)"

definition store_inv :: "(nat \<Rightarrow> string) \<Rightarrow> plan_store \<Rightarrow> bool" where
  "store_inv u s \<longleftrightarrow> inj u \<and> wf u {} s"

lemma some_step_inv: "store_inv u s \<Longrightarrow> some_step u s t \<Longrightarrow> store_inv u t \<and> evolves s t"
  using store_step_good unfolding store_inv_def some_step_def good_def by blast

lemma steps_evolves:
  "steps (some_step u) s t \<Longrightarrow> store_inv u s \<Longrightarrow> store_inv u t \<and> evolves s t"
proof (induction rule: steps.induct)
  case (steps_step s t v)
  then show ?case using some_step_inv [of u t v] evolves_trans by blast
qed simp

lemma store_inv_empty: "inj u \<Longrightarrow> store_inv u empty_store"
  by (simp add: store_inv_def wf_empty)

lemma evolves_history: "evolves s t \<Longrightarrow> prefix (history s i) (history t i)"
  unfolding evolves_def dict_rel_def history_def by (fastforce split: option.split)

subsection \<open>The store provides the contracts\<close>

text \<open>
  The token of a node is the number of its claims; a token is accepted when some call presenting
  it for a run of the node passes the fence.
\<close>

definition claim_token :: "plan_store \<Rightarrow> string \<Rightarrow> nat" where
  "claim_token s i = length (history s i)"

definition token_accepted :: "plan_store \<Rightarrow> string \<Rightarrow> nat \<Rightarrow> bool" where
  "token_accepted s i c \<longleftrightarrow> (\<exists>k w r. fenced_run s k w c = Inr r \<and> nr_node_id r = i)"

lemma token_accepted_current:
  assumes "wf u P s" and "token_accepted s i c"
  shows "c = claim_token s i"
proof -
  obtain k w r where r: "dget (ps_node_runs s) k = Some r" "current_node_run_id s (nr_node_id r) = Some k"
    "nr_node_id r = i" "nr_claim_version r = c"
    using assms(2) by (auto simp: token_accepted_def fenced_run_eq_Inr)
  obtain ids where "dget (ps_run_ids s) i = Some ids" "nr_claim_version r = length ids"
    using fenced_runD [OF assms(1) r(1,2)] r(3) by metis
  then show ?thesis using r(4) by (simp add: claim_token_def history_def)
qed

interpretation lease: fenced_lease "store_inv u" "some_step u" claim_token token_accepted
  for u :: "nat \<Rightarrow> string"
proof unfold_locales
  show "some_step u s t \<Longrightarrow> store_inv u s \<Longrightarrow> claim_token s k \<le> claim_token t k" for s t k
    using some_step_inv evolves_history prefix_length_le unfolding claim_token_def by blast
  show "store_inv u s \<Longrightarrow> token_accepted s k n \<Longrightarrow> n = claim_token s k" for s k n
    using token_accepted_current unfolding store_inv_def by blast
qed (use some_step_inv in blast)

interpretation commands: first_write_wins "store_inv u" "some_step u" "\<lambda>s. dget (ps_commands s)"
  for u :: "nat \<Rightarrow> string"
  by unfold_locales (use some_step_inv in \<open>auto simp: evolves_def keeps_def\<close>)

interpretation run_keys: first_write_wins "store_inv u" "some_step u"
  "\<lambda>s k. dget (ps_run_id_by_key s) k" for u :: "nat \<Rightarrow> string"
  by unfold_locales (use some_step_inv in \<open>auto simp: evolves_def keeps_def\<close>)

interpretation key_digests: first_write_wins "store_inv u" "some_step u"
  "\<lambda>s k. dget (ps_digest_by_key s) k" for u :: "nat \<Rightarrow> string"
  by unfold_locales (use some_step_inv in \<open>auto simp: evolves_def keeps_def\<close>)

interpretation plan_versions: first_write_wins "store_inv u" "some_step u"
  "\<lambda>s. dget (ps_versions s)" for u :: "nat \<Rightarrow> string"
  by unfold_locales (use some_step_inv in \<open>auto simp: evolves_def keeps_def\<close>)

end
