(* ===== verification/StoreLocks.thy ===== *)
theory StoreLocks
  imports StoreReach
begin

section \<open>Resource locks exclude each other\<close>

text \<open>
  A claim locks the resources of its node until it closes or its lease expires. While the clock
  never runs backwards, two claims that hold locks at the same time have no resource in common.
  \<open>quiet\<close> is what every operation but a claim keeps: no node gains a claim, no dead lock revives.
\<close>

definition live_run :: "int \<Rightarrow> node_run_rec \<Rightarrow> bool" where
  "live_run now r \<longleftrightarrow> nr_state r = N_RUNNING \<and> now < nr_lease_until r"

definition quiet :: "int \<Rightarrow> plan_store \<Rightarrow> plan_store \<Rightarrow> bool" where
  "quiet now s t \<longleftrightarrow>
     (\<forall>i k. current_node_run_id t i = Some k \<longrightarrow> current_node_run_id s i = Some k)
     \<and> (\<forall>k r'. dget (ps_node_runs t) k = Some r' \<longrightarrow> live_run now r' \<longrightarrow>
          (\<exists>r. dget (ps_node_runs s) k = Some r \<and> live_run now r \<and> nr_node_id r = nr_node_id r'
             \<and> nr_resource_keys r = nr_resource_keys r'))"

lemma quiet_refl [simp]: "quiet now s s"
  by (simp add: quiet_def)

lemma quiet_trans:
  assumes "quiet now s t" and "quiet now t v"
  shows "quiet now s v"
proof -
  have "\<exists>r. dget (ps_node_runs s) k = Some r \<and> live_run now r \<and> nr_node_id r = nr_node_id q
      \<and> nr_resource_keys r = nr_resource_keys q"
    if q: "dget (ps_node_runs v) k = Some q" "live_run now q" for k q
  proof -
    obtain q' where q': "dget (ps_node_runs t) k = Some q'" "live_run now q'" "nr_node_id q' = nr_node_id q"
      "nr_resource_keys q' = nr_resource_keys q"
      using assms(2) q unfolding quiet_def by blast
    then obtain r where "dget (ps_node_runs s) k = Some r" "live_run now r" "nr_node_id r = nr_node_id q'"
      "nr_resource_keys r = nr_resource_keys q'"
      using assms(1) unfolding quiet_def by blast
    then show ?thesis using q' by auto
  qed
  then show ?thesis using assms unfolding quiet_def by blast
qed

lemma quiet_frame:
  "ps_run_ids t = ps_run_ids s \<Longrightarrow> ps_node_runs t = ps_node_runs s \<Longrightarrow> quiet now s t"
  by (simp add: quiet_def current_node_run_id_def history_def)

lemma quiet_put_plan_run [simp]: "quiet now s (put_plan_run r s)"
  by (rule quiet_frame) simp_all

lemma quiet_put_node [simp]: "quiet now s (put_node n s)"
  by (rule quiet_frame) simp_all

lemma quiet_put_both [simp]: "quiet now s (put_plan_run r (put_node n s))"
  by (rule quiet_frame) simp_all

lemma quiet_put_command [simp]: "quiet now s (put_command l s)"
  by (rule quiet_frame) simp_all

lemma quiet_publish [simp]: "quiet now s (publish_version v ids s)" "quiet now s (publish_key k i d s)"
  by (rule quiet_frame; simp)+

lemma quiet_draw [simp]: "quiet now s (draw s)"
  by (rule quiet_frame) simp_all

lemma quiet_add_node: "quiet now s (add_node n s)"
  by (simp add: quiet_def current_node_run_id_def history_def)

lemma quiet_put_node_run:
  assumes "dget (ps_node_runs s) (nr_id r) = Some r0"
    and "live_run now r \<Longrightarrow> live_run now r0 \<and> nr_node_id r0 = nr_node_id r \<and> nr_resource_keys r0 = nr_resource_keys r"
  shows "quiet now s (put_node_run r s)"
  using assms by (auto simp: quiet_def current_node_run_id_def history_def)

lemma quiet_commit:
  "(\<And>v. c = Inr v \<Longrightarrow> quiet now s (snd (f v))) \<Longrightarrow> quiet now s (snd (commit c f s))"
  by (cases c) auto

text \<open>The loops.\<close>

lemma quiet_ready_loop: "quiet now s (snd (ready_loop t is states s))"
  by (induction t "is" states s rule: ready_loop.induct)
    (auto split: option.split sum.split intro: quiet_trans [OF quiet_put_node])

lemma quiet_ready_dependents: "quiet now s (snd (ready_satisfied_dependents p t s))"
  using quiet_ready_loop
  by (auto simp: ready_satisfied_dependents_def split: sum.split prod.split
      intro: quiet_trans [OF _ quiet_put_plan_run]) (metis snd_conv quiet_trans quiet_put_plan_run)+

lemma quiet_set_plan_state: "quiet now s (snd (set_plan_state p st s))"
  by (simp add: set_plan_state_def split: option.split)

lemma quiet_create_nodes: "quiet now s (snd (create_nodes u p t caps cs s))"
proof (induction cs arbitrary: s)
  case (Cons c cs)
  show ?case
  proof (cases "dget caps (cn_logical_key c)")
    case (Some cap)
    then show ?thesis
      using quiet_trans [OF quiet_add_node Cons.IH] by (simp add: Let_def snd_outcome)
  qed simp
qed simp

lemma quiet_replan_nodes: "quiet now s (snd (replan_nodes u p v t caps old reused cs s))"
proof (induction cs arbitrary: s)
  case (Cons c cs)
  have hist: "quiet now s (snd (replan_nodes u p v t caps old reused cs
      (put_history (nd_id n) [] (put_node n (draw s)))))" for n
    using quiet_trans [OF quiet_add_node Cons.IH] by (simp add: add_node_def)
  have "quiet now s (snd (replan_nodes u p v t caps old reused cs
      (put_history (u (ps_draws s)) [] (put_node (new_node (u (ps_draws s)) p v c cap st t re iv) (draw s)))))"
    for cap st re iv
    using hist [of "new_node (u (ps_draws s)) p v c cap st t re iv"] by simp
  then show ?case
    by (cases "dget caps (cn_logical_key c)") (simp_all add: Let_def snd_outcome)
qed simp

lemma quiet_supersede:
  assumes "dget (ps_node_runs s) (nr_id r) = Some r"
  shows "quiet now s (put_node_run (supersede e t r) s)"
  by (rule quiet_put_node_run [of _ _ r]) (use assms in \<open>auto simp: supersede_def live_run_def split: if_split_asm\<close>)

lemma quiet_freeze_node:
  assumes wf: "wf u P s"
  shows "quiet now s (snd (freeze_node e t i s))"
  unfolding freeze_node_def
proof (rule quiet_commit, goal_cases)
  case (1 v)
  have super: "quiet now s (put_node_run (supersede e t r) s)"
    if "dget (ps_node_runs s) k = Some r" for k r
    using wf_node_runsD [OF wf that] that by (intro quiet_supersede) simp
  then have "quiet now s (put_node n (put_node_run (supersede e t r) s))"
    if "dget (ps_node_runs s) k = Some r" for k r n
    using that by (blast intro: quiet_trans [OF _ quiet_put_node])
  with super show ?case
    using 1 by (auto simp: outcome Let_def split: if_splits)
qed

lemma quiet_freeze_nodes: "wf u {} s \<Longrightarrow> quiet now s (snd (freeze_nodes e t is s))"
proof (induction "is" arbitrary: s)
  case (Cons i "is")
  note g = freeze_node_good [OF Cons.prems, of e t i]
  show ?case
    using quiet_trans [OF quiet_freeze_node [OF Cons.prems] Cons.IH [OF good_wf [OF g]]]
      quiet_freeze_node [OF Cons.prems]
    by (cases "freeze_node e t i s"; cases "fst (freeze_node e t i s)") (auto, (metis snd_conv)+)
qed simp

text \<open>The operations that close or renew a claim.\<close>

lemma quiet_close:
  assumes wf: "wf u P s" and "dget (ps_node_runs s) k = Some r" and "st \<noteq> N_RUNNING"
  shows "quiet now s (put_node n (put_node_run (r\<lparr>nr_state := st, nr_output := out\<rparr>) s))"
    and "quiet now s (put_node n (put_node_run (r\<lparr>nr_state := st\<rparr>) s))"
proof -
  have "nr_id r = k" using wf_node_runsD [OF wf assms(2)] by simp
  then have "quiet now s (put_node_run (r\<lparr>nr_state := st, nr_output := out\<rparr>) s)"
    "quiet now s (put_node_run (r\<lparr>nr_state := st\<rparr>) s)"
    using assms(2,3) by (auto intro!: quiet_put_node_run simp: live_run_def)
  then show "quiet now s (put_node n (put_node_run (r\<lparr>nr_state := st, nr_output := out\<rparr>) s))"
    "quiet now s (put_node n (put_node_run (r\<lparr>nr_state := st\<rparr>) s))"
    by (auto intro: quiet_trans [OF _ quiet_put_node])
qed

lemma quiet_close_reconciliation:
  assumes wf: "wf u P s" and "dget (ps_node_runs s) k = Some r" and "st \<noteq> N_RUNNING"
  shows "quiet now s (snd (close_reconciliation run n r st t payload s))"
  using quiet_close(1) [OF assms] quiet_ready_dependents
  by (auto simp: close_reconciliation_def Let_def snd_outcome split: sum.split prod.split
      intro: quiet_trans [OF _ quiet_put_plan_run])
    (metis quiet_trans snd_conv)+

lemma quiet_reconcile_reference:
  assumes wf: "wf u P s"
  shows "quiet now s (snd (reconcile_plan_reference wall p i v ref s))"
  unfolding reconcile_plan_reference_def
proof (rule quiet_commit, goal_cases)
  case (1 x)
  have "quiet now s (snd (reconcile_reference_locked run n t wall payload s))" for run n t payload
    unfolding reconcile_reference_locked_def
    by (rule quiet_commit) (auto simp: outcome intro: quiet_close_reconciliation [OF wf])
  then show ?case by (simp add: snd_outcome split: prod.split)
qed

lemma quiet_apply_reconciliation:
  assumes wf: "wf u P s"
  shows "quiet now s (snd (apply_reconciliation_command c run n t s))"
  using quiet_close_reconciliation [OF wf]
  by (auto simp: apply_reconciliation_command_def Let_def snd_outcome split: sum.split option.split)

lemma quiet_apply_first:
  assumes wf: "wf u P s"
  shows "quiet now s (snd (apply_first_command c run t s))"
  using quiet_apply_reconciliation [OF wf]
  by (auto simp: apply_first_command_def Let_def split: option.split)

lemma quiet_submit:
  assumes wf: "wf u P s"
  shows "quiet now s (snd (submit_command c t s))"
proof -
  have "quiet now s (snd (case x of (Inl e, s') \<Rightarrow> (Inl e, s')
      | (Inr res, s') \<Rightarrow> (Inr res, put_command (l res) s')))"
    if "quiet now s (snd x)" for x :: "command_outcome outcome" and l
    using that by (auto split: prod.split sum.split intro: quiet_trans [OF _ quiet_put_command])
  then show ?thesis
    using quiet_apply_first [OF wf]
    by (auto simp: submit_command_def commit_def split: option.split sum.split prod.split)
qed

lemma quiet_freeze_plan: "quiet now s (snd (freeze_plan p s))"
  by (auto simp: freeze_plan_def commit_def Let_def split: sum.split)

lemma quiet_record_failure: "quiet now s (snd (record_reconciliation_failure p failure sg t s))"
  by (auto simp: record_reconciliation_failure_def commit_def Let_def split: sum.split prod.split)

lemma quiet_clear_failure: "quiet now s (snd (clear_reconciliation_failure p t s))"
  by (auto simp: clear_reconciliation_failure_def commit_def Let_def split: sum.split prod.split)

lemma quiet_impact:
  assumes wf: "wf u {} s"
  shows "quiet now s (snd (apply_impact_freeze p v e a t s))"
  unfolding apply_impact_freeze_def
proof (rule quiet_commit, goal_cases)
  case (1 x)
  then obtain now_us and run :: plan_run_rec where x: "x = (now_us, run)"
    and run: "dget (ps_plan_runs s) p = Some run"
    by (auto simp: outcome)
  define s1 where "s1 = (if ia_scope a \<in> {SCOPE_ROOM, SCOPE_PLATFORM} \<and> pl_state run = R_ACTIVE
      then put_plan_run (run\<lparr>pl_state := R_FROZEN\<rparr>) s else s)"
  have "wf u {} s1"
    unfolding s1_def using run wf good_wf [OF good_plan_update [OF wf run]] by (auto simp: same_plan_def)
  then have "quiet now s (snd (freeze_nodes e now_us is s1))" for "is"
    using quiet_trans [OF _ quiet_freeze_nodes] unfolding s1_def by auto
  then show ?case unfolding s1_def by (auto simp: x Let_def snd_outcome)
qed

lemma quiet_create: "quiet now s (snd (create_or_resume u wall p s))"
proof -
  have "quiet now s (snd (create_nodes u i wall caps cs (draw s)))" for i caps cs
    using quiet_trans [OF quiet_draw quiet_create_nodes] .
  then have "quiet now s t" if "create_nodes u i wall caps cs (draw s) = (res, t)" for i caps cs res t
    using that by (metis snd_conv)
  then show ?thesis
    by (auto simp: create_or_resume_def Let_def split: option.split prod.split sum.split
        intro!: quiet_trans [OF _ quiet_publish(2)] quiet_trans [OF _ quiet_publish(1)]
          quiet_trans [OF _ quiet_put_plan_run])
qed

lemma quiet_replan:
  "quiet now s (snd (create_replan_version u i expected p sources sig fp reused t s))"
proof -
  have "quiet now s t'" if "replan_nodes u i v t caps old reused cs s = (res, t')" for v t caps old cs res t'
    using that quiet_replan_nodes by (metis snd_conv)
  then have "quiet now s (snd (case replan_nodes u i v t caps old reused cs s of
      (Inl e, s1) \<Rightarrow> (Inl e, s1)
      | (Inr ids, s1) \<Rightarrow> (x, put_plan_run r (publish_version y ids s1))))" for v t caps old cs x r y
    by (auto split: prod.split sum.split
        intro!: quiet_trans [OF _ quiet_publish(1)] quiet_trans [OF _ quiet_put_plan_run])
  then show ?thesis
    unfolding create_replan_version_def Let_def
    by (intro quiet_commit) (auto simp: freeze_and_raise_def intro!: quiet_commit)
qed

text \<open>Behind the fence.\<close>

lemma quiet_input:
  assumes wf: "wf u P s"
  shows "quiet now s (snd (record_node_input k w c input t s))"
  unfolding record_node_input_def
proof (rule quiet_commit, goal_cases)
  case (1 r)
  then have r: "dget (ps_node_runs s) k = Some r" by (auto simp: outcome fenced_run_eq_Inr)
  have "nr_id r = k" using wf_node_runsD [OF wf r] by simp
  then show ?case using r by (auto simp: Let_def live_run_def intro!: quiet_put_node_run)
qed

lemma quiet_heartbeat:
  assumes wf: "wf u P s" and t: "at_clock now t"
  shows "quiet now s (snd (heartbeat_node_run k w c t lease s))"
  unfolding heartbeat_node_run_def
proof (rule quiet_commit, goal_cases)
  case (1 v)
  then obtain lease_s r where v: "v = (now, lease_s, r)" and r: "dget (ps_node_runs s) k = Some r"
    and live: "live_run now r"
    using t by (auto simp: outcome fenced_run_eq_Inr live_run_def at_clock_def)
  have "nr_id r = k" using wf_node_runsD [OF wf r] by simp
  then show ?case using r live by (auto simp: v Let_def intro!: quiet_put_node_run)
qed

lemma quiet_retry:
  assumes wf: "wf u P s"
  shows "quiet now s (snd (schedule_retry k w c t retry_at s))"
  unfolding schedule_retry_def
  by (rule quiet_commit)
    (auto simp: outcome fenced_run_eq_Inr move_eq Let_def split: if_splits intro!: quiet_close [OF wf])

lemma quiet_result:
  assumes wf: "wf u P s"
  shows "quiet now s (snd (record_node_result k w c target out t s))"
  unfolding record_node_result_def
proof (rule quiet_commit, goal_cases)
  case (1 v)
  then obtain now_us j r n st where v: "v = (now_us, j, r, n, st)"
    and r: "dget (ps_node_runs s) k = Some r" "current_node_run_id s (nr_node_id r) = Some k"
    and run: "nr_state r = N_RUNNING" and n: "dget (ps_nodes s) (nr_node_id r) = Some n"
    and edge: "node_edge (nd_state n) st"
    by (auto simp: outcome fenced_run_eq_Inr checked_transition)
  have "nd_state n = N_RUNNING"
    using fenced_runD [OF wf r] n run unfolding in_step_def by (metis option.inject)
  then have q: "quiet now s (put_node (n\<lparr>nd_state := st\<rparr>) (put_node_run (r\<lparr>nr_state := st, nr_output := j\<rparr>) s))"
    using edge by (intro quiet_close [OF wf r(1)]) auto
  show ?case
    using quiet_trans [OF q quiet_ready_dependents] quiet_trans [OF q quiet_set_plan_state] q
    by (auto simp: v Let_def case_prod_unfold)
qed

subsection \<open>Exclusion\<close>

definition locks_exclusive :: "int \<Rightarrow> plan_store \<Rightarrow> bool" where
  "locks_exclusive now s \<longleftrightarrow>
     (\<forall>k l r q. dget (ps_node_runs s) k = Some r \<longrightarrow> dget (ps_node_runs s) l = Some q \<longrightarrow>
        holds_lock s now r \<longrightarrow> holds_lock s now q \<longrightarrow> k \<noteq> l \<longrightarrow>
        set (nr_resource_keys r) \<inter> set (nr_resource_keys q) = {})"

lemma locks_exclusiveD:
  "locks_exclusive now s \<Longrightarrow> dget (ps_node_runs s) k = Some r \<Longrightarrow> dget (ps_node_runs s) l = Some q \<Longrightarrow>
     holds_lock s now r \<Longrightarrow> holds_lock s now q \<Longrightarrow> k \<noteq> l \<Longrightarrow>
     set (nr_resource_keys r) \<inter> set (nr_resource_keys q) = {}"
  unfolding locks_exclusive_def by blast

lemma holds_live: "holds_lock s now r \<longleftrightarrow> live_run now r \<and> current_node_run_id s (nr_node_id r) = Some (nr_id r)"
  by (auto simp: holds_lock_def live_run_def)

lemma locked_keys_iff:
  assumes "wf u P s"
  shows "x \<in> set (locked_resource_keys s now) \<longleftrightarrow>
     (\<exists>k r. dget (ps_node_runs s) k = Some r \<and> holds_lock s now r \<and> x \<in> set (nr_resource_keys r))"
proof -
  have "distinct (dkeys (ps_node_runs s))" using assms by (simp add: wf_def wf_dicts_def)
  from in_dvalues_iff [OF this] show ?thesis by (auto simp: locked_resource_keys_def)
qed

lemma exclusive_quiet:
  assumes wf: "wf u P s" "wf u Q t" and q: "quiet now s t" and e: "locks_exclusive now s"
  shows "locks_exclusive now t"
proof -
  have orig: "\<exists>r0. dget (ps_node_runs s) k = Some r0 \<and> holds_lock s now r0
      \<and> nr_resource_keys r0 = nr_resource_keys r"
    if r: "dget (ps_node_runs t) k = Some r" "holds_lock t now r" for k r
  proof -
    obtain r0 where r0: "dget (ps_node_runs s) k = Some r0" "live_run now r0" "nr_node_id r0 = nr_node_id r"
      "nr_resource_keys r0 = nr_resource_keys r"
      using q r unfolding quiet_def holds_live by blast
    have "nr_id r0 = k" "nr_id r = k" using wf_node_runsD [OF wf(1) r0(1)] wf_node_runsD [OF wf(2) r(1)] by auto
    then have "current_node_run_id s (nr_node_id r0) = Some (nr_id r0)"
      using q r(2) r0(3) unfolding quiet_def holds_live by auto
    then show ?thesis using r0 unfolding holds_live by blast
  qed
  show ?thesis
    unfolding locks_exclusive_def
  proof (intro allI impI)
    fix k l r q'
    assume *: "dget (ps_node_runs t) k = Some r" "dget (ps_node_runs t) l = Some q'"
      "holds_lock t now r" "holds_lock t now q'" "k \<noteq> l"
    obtain r0 where r0: "dget (ps_node_runs s) k = Some r0" "holds_lock s now r0"
      "nr_resource_keys r0 = nr_resource_keys r" using orig [OF *(1,3)] by blast
    obtain q0 where q0: "dget (ps_node_runs s) l = Some q0" "holds_lock s now q0"
      "nr_resource_keys q0 = nr_resource_keys q'" using orig [OF *(2,4)] by blast
    show "set (nr_resource_keys r) \<inter> set (nr_resource_keys q') = {}"
      using locks_exclusiveD [OF e r0(1) q0(1) r0(2) q0(2) \<open>k \<noteq> l\<close>] r0(3) q0(3) by simp
  qed
qed

lemma exclusive_later: "locks_exclusive now s \<Longrightarrow> now \<le> later \<Longrightarrow> locks_exclusive later s"
  unfolding locks_exclusive_def holds_live live_run_def by (meson order.strict_trans1)

lemma current_append_claim:
  "current_node_run_id (append_claim ids r s) i =
     (if i = nr_node_id r then Some (nr_id r) else current_node_run_id s i)"
  by (simp add: append_claim_def current_node_run_id_def history_def)

text \<open>A claim whose resources are free takes them, and nothing else changes hands.\<close>

lemma exclusive_claim:
  assumes wf: "wf u P s" and wf': "wf u P (append_claim ids r (put_node n s))"
    and fresh: "dget (ps_node_runs s) (nr_id r) = None"
    and free: "set (nr_resource_keys r) \<inter> set (locked_resource_keys s now) = {}"
    and e: "locks_exclusive now s"
  shows "locks_exclusive now (append_claim ids r (put_node n s))" (is "locks_exclusive now ?t")
    and "set (locked_resource_keys (append_claim ids r (put_node n s)) now)
           \<subseteq> set (nr_resource_keys r) \<union> set (locked_resource_keys s now)"
proof -
  have old: "k = nr_id r \<and> q = r \<or> k \<noteq> nr_id r \<and> dget (ps_node_runs s) k = Some q \<and> holds_lock s now q"
    if q: "dget (ps_node_runs ?t) k = Some q" "holds_lock ?t now q" for k q
  proof (cases "k = nr_id r")
    case True
    then show ?thesis using q(1) by simp
  next
    case False
    then have s: "dget (ps_node_runs s) k = Some q" using q(1) by simp
    then have "nr_id q = k" using wf_node_runsD [OF wf] by simp
    then have "current_node_run_id s (nr_node_id q) = Some (nr_id q)"
      using q(2) False
      by (auto simp: holds_live current_append_claim current_node_run_id_def history_def split: if_splits)
    then show ?thesis using s q(2) False by (simp add: holds_live)
  qed
  have clash: "set (nr_resource_keys r) \<inter> set (nr_resource_keys q) = {}"
    if "dget (ps_node_runs s) k = Some q" "holds_lock s now q" for k q
    using that free locked_keys_iff [OF wf] by blast
  show "locks_exclusive now ?t"
    unfolding locks_exclusive_def
  proof (intro allI impI)
    fix k l q q'
    assume *: "dget (ps_node_runs ?t) k = Some q" "dget (ps_node_runs ?t) l = Some q'"
      "holds_lock ?t now q" "holds_lock ?t now q'" "k \<noteq> l"
    show "set (nr_resource_keys q) \<inter> set (nr_resource_keys q') = {}"
      using old [OF *(1,3)] old [OF *(2,4)] \<open>k \<noteq> l\<close> clash locks_exclusiveD [OF e] by blast
  qed
  show "set (locked_resource_keys ?t now) \<subseteq> set (nr_resource_keys r) \<union> set (locked_resource_keys s now)"
  proof
    fix x assume "x \<in> set (locked_resource_keys ?t now)"
    then obtain k q where q: "dget (ps_node_runs ?t) k = Some q" "holds_lock ?t now q" "x \<in> set (nr_resource_keys q)"
      unfolding locked_keys_iff [OF wf'] by blast
    then show "x \<in> set (nr_resource_keys r) \<union> set (locked_resource_keys s now)"
      using old [OF q(1,2)] by (auto simp: locked_keys_iff [OF wf])
  qed
qed

text \<open>\<open>lock_free\<close>: the chosen nodes are ready, and each finds its resources free when its turn comes.\<close>

fun lock_free :: "plan_store \<Rightarrow> string list \<Rightarrow> string list \<Rightarrow> bool" where
  "lock_free s [] locked = True"
| "lock_free s (i # is) locked =
     (case dget (ps_nodes s) i of
        None \<Rightarrow> False
      | Some n \<Rightarrow> nd_state n = N_READY \<and> set (rc_resource_keys (nd_capability n)) \<inter> set locked = {}
          \<and> lock_free s is (rc_resource_keys (nd_capability n) @ locked))"

lemma lock_free_other:
  "(\<And>j. j \<in> set is \<Longrightarrow> dget (ps_nodes t) j = dget (ps_nodes s) j) \<Longrightarrow> lock_free t is L = lock_free s is L"
  by (induction s "is" L rule: lock_free.induct) (auto split: option.split)

lemma select_ready_lock_free:
  assumes "\<forall>n\<in>set ns. dget (ps_nodes s) (nd_id n) = Some n"
  shows "lock_free s (map nd_id (select_ready ns locked k)) locked"
  using assms by (induction ns locked k rule: select_ready.induct) auto

lemma start_claim_shape:
  assumes "dget (ps_nodes s) i = Some n"
  shows "snd (start_claim u w now lease deadline i s) = s
    \<or> (\<exists>ids r m. snd (start_claim u w now lease deadline i s) = append_claim ids r (put_node m s)
         \<and> nr_id r = u (ps_draws s) \<and> nr_resource_keys r = rc_resource_keys (nd_capability n))"
proof (cases "runs_of s i")
  case (Inl e)
  then show ?thesis using assms by (simp add: start_claim_def)
next
  case (Inr x)
  then obtain ids runs where x: "runs_of s i = Inr (ids, runs)" by (metis prod.exhaust)
  show ?thesis
    by (rule disjI2, unfold start_claim_def assms of_key_Some rbind_Inr x commit_Inr prod.case Let_def snd_conv,
        intro exI conjI, rule refl) (simp_all add: new_claim_def)
qed

lemma claim_each_exclusive:
  assumes "wf u {} s" and "inj u" and "distinct is" and "lock_free s is L"
    and "set (locked_resource_keys s now) \<subseteq> set L" and "locks_exclusive now s"
  shows "locks_exclusive now (snd (claim_each u w now lease deadline is s))"
  using assms
proof (induction "is" arbitrary: s L)
  case Nil
  then show ?case by simp
next
  case (Cons i "is")
  obtain n where n: "dget (ps_nodes s) i = Some n" "nd_state n = N_READY"
    "set (rc_resource_keys (nd_capability n)) \<inter> set L = {}"
    and rest: "lock_free s is (rc_resource_keys (nd_capability n) @ L)"
    using Cons.prems(4) by (auto split: option.splits)
  obtain x s1 where c: "start_claim u w now lease deadline i s = (x, s1)" by fastforce
  have wf1: "wf u {} s1" and other: "\<And>j. j \<noteq> i \<Longrightarrow> dget (ps_nodes s1) j = dget (ps_nodes s) j"
    using start_claim_good [OF Cons.prems(1,2) n(1,2), where w = w and now = now and lease = lease
      and deadline = deadline] unfolding c snd_conv good_def by blast+
  have "dget (ps_nodes s1) j = dget (ps_nodes s) j" if "j \<in> set is" for j
    using that Cons.prems(3) by (intro other) auto
  then have same: "lock_free s1 is M = lock_free s is M" for M by (rule lock_free_other)
  have "step": "s1 = s \<or> (\<exists>ids r m. s1 = append_claim ids r (put_node m s) \<and> nr_id r = u (ps_draws s)
      \<and> nr_resource_keys r = rc_resource_keys (nd_capability n))"
    using start_claim_shape [OF n(1), of u w now lease deadline] c by simp
  have ex: "locks_exclusive now s1
      \<and> set (locked_resource_keys s1 now) \<subseteq> set (rc_resource_keys (nd_capability n) @ L)"
    using "step"
  proof
    assume "s1 = s"
    then show ?thesis using Cons.prems(5,6) by auto
  next
    assume "\<exists>ids r m. s1 = append_claim ids r (put_node m s) \<and> nr_id r = u (ps_draws s)
      \<and> nr_resource_keys r = rc_resource_keys (nd_capability n)"
    then obtain ids r m where r: "s1 = append_claim ids r (put_node m s)" "nr_id r = u (ps_draws s)"
      "nr_resource_keys r = rc_resource_keys (nd_capability n)" by blast
    have fresh: "dget (ps_node_runs s) (nr_id r) = None"
      using fresh_run(1) [OF Cons.prems(1,2)] r(2) by simp
    have free: "set (nr_resource_keys r) \<inter> set (locked_resource_keys s now) = {}"
      unfolding r(3) using n(3) Cons.prems(5) by blast
    have "locks_exclusive now s1
        \<and> set (locked_resource_keys s1 now) \<subseteq> set (nr_resource_keys r) \<union> set (locked_resource_keys s now)"
      unfolding r(1)
      by (intro conjI exclusive_claim [OF Cons.prems(1) wf1 [unfolded r(1)] fresh free Cons.prems(6)])
    then show ?thesis using Cons.prems(5) r(3) by auto
  qed
  obtain y s2 where c2: "claim_each u w now lease deadline is s1 = (y, s2)" by fastforce
  have "locks_exclusive now (snd (claim_each u w now lease deadline is s1))"
  proof (rule Cons.IH [OF wf1 Cons.prems(2)])
    show "lock_free s1 is (rc_resource_keys (nd_capability n) @ L)"
      unfolding same using rest .
  qed (use ex Cons.prems(3) in auto)
  then show ?case using ex by (cases x; cases y) (simp_all add: c c2)
qed

lemma quiet_promote: "quiet now s (fold (promote_retry t) ns s)"
proof (induction ns arbitrary: s)
  case (Cons n ns)
  have "quiet now s (promote_retry t n s)" by (simp add: promote_retry_def)
  then show ?case using quiet_trans Cons.IH by simp
qed simp

lemma claim_chosen_exclusive:
  assumes wf: "wf u {} s" "wf u {} s1" and inj: "inj u" and q: "quiet now s s1" and e: "locks_exclusive now s"
    and read: "\<forall>n\<in>set ns. dget (ps_nodes s1) (nd_id n) = Some n" and d: "distinct (map nd_id ns)"
  shows "locks_exclusive now (snd (claim_each u w now lease deadline
      (map nd_id (select_ready ns (locked_resource_keys s1 now) k)) s1))"
  by (rule claim_each_exclusive [OF wf(2) inj select_ready_distinct [OF d]
      select_ready_lock_free [OF read] subset_refl exclusive_quiet [OF wf q e]])

lemma exclusive_commit:
  "locks_exclusive now s \<Longrightarrow>
     (\<And>v. c = Inr v \<Longrightarrow> commit c f s = f v \<Longrightarrow> locks_exclusive now (snd (f v))) \<Longrightarrow>
     locks_exclusive now (snd (commit c f s))"
  by (cases c) auto

lemma claim_ready_exclusive:
  assumes wf: "wf u {} s" and inj: "inj u" and e: "locks_exclusive now s" and t: "at_clock now t"
  shows "locks_exclusive now (snd (claim_ready_nodes u p w t lease limit deadline s))"
  unfolding claim_ready_nodes_def
proof (rule exclusive_commit [OF e], goal_cases)
  case (1 v)
  obtain now_us lease_s limit_n d active where v: "v = ((now_us, lease_s, limit_n, d), active)"
    by (metis prod.exhaust)
  have now: "now_us = now"
    using 1(1) t by (auto simp: v claim_arguments_def at_clock_def outcome split: if_splits)
  show ?case
  proof (cases active)
    case None
    then show ?thesis using e by (simp add: v)
  next
    case (Some ns)
    then obtain run :: plan_run_rec and ids where "dget (ps_node_ids s) (p, pl_current_version run) = Some ids"
      "rmap (\<lambda>i. of_key (dget (ps_nodes s) i)) ids = Inr ns"
      using 1(1) by (auto simp: v outcome split: if_splits)
    note ns = published_nodes [OF wf this]
    define s1 where "s1 = fold (promote_retry now) ns s"
    define current where "current = map (\<lambda>n. the (dget (ps_nodes s1) (nd_id n))) ns"
    have g: "good u s s1" unfolding s1_def using ns wf by (intro promote_all_good) auto
    have cur: "\<exists>m. dget (ps_nodes s1) (nd_id n) = Some m \<and> nd_id m = nd_id n" if "n \<in> set ns" for n
      using g ns(3) that unfolding good_def evolves_def dict_rel_def same_node_def by metis
    have ids: "map nd_id current = map nd_id ns"
      unfolding current_def using cur by fastforce
    have read: "\<forall>m\<in>set current. dget (ps_nodes s1) (nd_id m) = Some m"
      using cur unfolding current_def by fastforce
    have "quiet now s s1" unfolding s1_def by (rule quiet_promote)
    moreover have "distinct (map nd_id current)" unfolding ids by (rule ns(2))
    ultimately show ?thesis
      using claim_chosen_exclusive [OF wf good_wf [OF g] inj _ e read]
      by (simp add: v Some now Let_def s1_def current_def)
  qed
qed

text \<open>The nodes \<open>claim_next_ready_nodes\<close> considers, in the order it considers them.\<close>

definition ordered_candidates :: "plan_store \<Rightarrow> (int \<times> int \<times> string) list \<Rightarrow> node_rec list" where
  "ordered_candidates s cs = map (\<lambda>(_, _, i). the (dget (ps_nodes s) i)) (sort cs)"

lemma ordered_candidates:
  assumes wf: "wf u {} s" and cs: "claim_candidates s (dvalues (ps_nodes s)) = Inr cs"
  shows "\<forall>n\<in>set (ordered_candidates s cs). dget (ps_nodes s) (nd_id n) = Some n"
    and "map nd_id (ordered_candidates s cs) = map (\<lambda>(_, _, i). i) (sort cs)"
    and "distinct (map nd_id (ordered_candidates s cs))"
proof -
  have cand: "dget (ps_nodes s) i \<noteq> None \<and> nd_id (the (dget (ps_nodes s) i)) = i"
    if "(a, b, i) \<in> set cs" for a b i
  proof -
    note found = claim_candidates_in [OF cs that]
    obtain n where "n \<in> set (dvalues (ps_nodes s))" "nd_id n = i" using found by blast
    then have "dget (ps_nodes s) i = Some n" using node_values(2) [OF wf] by blast
    then show ?thesis using \<open>nd_id n = i\<close> by simp
  qed
  then show "\<forall>n\<in>set (ordered_candidates s cs). dget (ps_nodes s) (nd_id n) = Some n"
    unfolding ordered_candidates_def by fastforce
  show ids: "map nd_id (ordered_candidates s cs) = map (\<lambda>(_, _, i). i) (sort cs)"
    unfolding ordered_candidates_def using cand by auto
  show "distinct (map nd_id (ordered_candidates s cs))"
    using claim_candidates_distinct [OF cs node_values(1) [OF wf]] by (simp add: ids distinct_map)
qed

lemma claim_next_exclusive:
  assumes wf: "wf u {} s" and inj: "inj u" and e: "locks_exclusive now s" and t: "at_clock now t"
  shows "locks_exclusive now (snd (claim_next_ready_nodes u w t lease limit deadline s))"
  unfolding claim_next_ready_nodes_def
proof (rule exclusive_commit [OF e], goal_cases)
  case (1 v)
  obtain now_us lease_s limit_n d where v: "v = (now_us, lease_s, limit_n, d)" by (metis prod.exhaust)
  have now: "now_us = now"
    using 1(1) t by (auto simp: v claim_arguments_def at_clock_def outcome split: if_splits)
  define s1 where "s1 = fold (promote_retry now)
      (filter (\<lambda>n. schedulable s n \<noteq> None) (dvalues (ps_nodes s))) s"
  have g: "good u s s1"
    unfolding s1_def using node_values [OF wf] wf
    by (intro promote_all_good) (auto simp: distinct_map_filter)
  have q: "quiet now s s1" unfolding s1_def by (rule quiet_promote)
  show ?case
  proof (cases "claim_candidates s1 (dvalues (ps_nodes s1))")
    case (Inl err)
    then show ?thesis using exclusive_quiet [OF wf good_wf [OF g] q e] by (simp add: v now Let_def s1_def)
  next
    case (Inr cs)
    note o = ordered_candidates [OF good_wf [OF g] Inr]
    show ?thesis
      using claim_chosen_exclusive [OF wf good_wf [OF g] inj q e o(1,3)] Inr
      by (simp add: v now Let_def s1_def ordered_candidates_def)
  qed
qed

lemma reclaim_exclusive:
  assumes wf: "wf u {} s" and inj: "inj u" and e: "locks_exclusive now s" and t: "at_clock now t"
  shows "locks_exclusive now (snd (reclaim_expired_node u i w t lease s))"
  unfolding reclaim_expired_node_def
proof (rule exclusive_commit [OF e], goal_cases)
  case (1 v)
  note wf' = good_wf [OF reclaim_good [OF wf inj, of i w t lease], unfolded reclaim_expired_node_def 1(2)]
  obtain now_us lease_s r ids runs where v: "v = (now_us, lease_s, r, ids, runs)"
    and n: "dget (ps_node_runs s) i = Some r" "current_node_run_id s (nr_node_id r) = Some i"
    and free: "set (nr_resource_keys r) \<inter> set (locked_resource_keys s now_us) = {}" and now: "now_us = now"
    using 1(1) t by (auto simp: outcome at_clock_def)
  obtain m where m: "dget (ps_nodes s) (nr_node_id r) = Some m" "nd_id m = nr_node_id r"
    using fenced_runD [OF wf n] by metis
  then have same: "put_node m s = s" by (simp add: put_node_same)
  define q where "q = r\<lparr>nr_id := u (ps_draws s), nr_attempt := length ids + 1,
      nr_claim_version := next_claim_version runs, nr_state := N_RUNNING,
      nr_worker := w, nr_lease_until := now + seconds lease_s, nr_output := JNull,
      nr_superseded := False, nr_superseded_by := None, nr_superseded_at := None\<rparr>"
  have "wf u {} (append_claim ids q (put_node m s))"
    using wf' by (simp add: v Let_def q_def now same)
  moreover have "dget (ps_node_runs s) (nr_id q) = None" using fresh_run(1) [OF wf inj] by (simp add: q_def)
  ultimately have "locks_exclusive now (append_claim ids q (put_node m s))"
    using free now by (intro exclusive_claim(1) [OF wf _ _ _ e]) (simp_all add: q_def)
  then show ?case by (simp add: v Let_def q_def now same)
qed

subsection \<open>The clocked invariant\<close>

definition clocked_inv :: "(nat \<Rightarrow> string) \<Rightarrow> int \<times> plan_store \<Rightarrow> bool" where
  "clocked_inv u x \<longleftrightarrow> store_inv u (snd x) \<and> locks_exclusive (fst x) (snd x)"

lemma store_step_exclusive:
  assumes "store_step u now s t" and inj: "inj u" and wf: "wf u {} s" and e: "locks_exclusive now s"
  shows "locks_exclusive now t"
proof -
  have q: "quiet now s t \<Longrightarrow> locks_exclusive now t"
    using exclusive_quiet [OF wf good_wf [OF store_step_good [OF assms(1-3)]] _ e] .
  show ?thesis
    using assms(1)
  proof cases
    case step_claim
    then show ?thesis using claim_ready_exclusive [OF wf inj e] by simp
  next
    case step_claim_next
    then show ?thesis using claim_next_exclusive [OF wf inj e] by simp
  next
    case step_reclaim
    then show ?thesis using reclaim_exclusive [OF wf inj e] by simp
  qed (rule q; simp add: quiet_create quiet_replan quiet_input [OF wf] quiet_retry [OF wf]
      quiet_heartbeat [OF wf] quiet_result [OF wf] quiet_reconcile_reference [OF wf] quiet_submit [OF wf]
      quiet_freeze_plan quiet_impact [OF wf] quiet_record_failure quiet_clear_failure)+
qed

lemma clocked_steps_inv: "steps (clocked_step u) x y \<Longrightarrow> clocked_inv u x \<Longrightarrow> clocked_inv u y"
proof (erule steps_invariant, assumption)
  fix x y
  assume inv: "clocked_inv u x" and st: "clocked_step u x y"
  then have "store_inv u (snd y)"
    using some_step_inv [of u "snd x" "snd y"] by (auto simp: clocked_inv_def clocked_step_def some_step_def)
  moreover have "locks_exclusive (fst y) (snd y)"
    using store_step_exclusive inv st exclusive_later
    by (auto simp: clocked_inv_def clocked_step_def store_inv_def)
  ultimately show "clocked_inv u y" by (simp add: clocked_inv_def)
qed

lemma clocked_inv_empty: "inj u \<Longrightarrow> clocked_inv u (now, empty_store)"
  by (simp add: clocked_inv_def store_inv_empty locks_exclusive_def) (simp add: empty_store_def)

end
