(* ===== verification/ClaimOrder.thy ===== *)
theory ClaimOrder
  imports StoreLocks
begin

section \<open>What a successful claim returns\<close>

text \<open>
  The runs \<open>claim_ready_nodes\<close> and \<open>claim_next_ready_nodes\<close> return are the new current claims of
  the chosen nodes, one each and in the order of choice.
\<close>

lemma start_claim_result:
  assumes "start_claim u w now lease deadline i s = (Inr r, t)"
  shows "\<exists>n ids runs m. dget (ps_nodes s) i = Some n \<and> runs_of s i = Inr (ids, runs)
     \<and> t = append_claim ids r (put_node m s) \<and> nd_id m = nd_id n \<and> nd_state m = N_RUNNING
     \<and> nd_ready_at m = nd_ready_at n \<and> nr_id r = u (ps_draws s) \<and> nr_node_id r = nd_id n
     \<and> nr_plan_run_id r = nd_plan_run_id n \<and> nr_state r = N_RUNNING \<and> nr_worker r = w
     \<and> nr_lease_until r = now + seconds lease \<and> nr_claim_version r = next_claim_version runs"
  using assms
  by (auto simp: start_claim_def commit_def outcome Let_def new_claim_def node_run_view_def
      split: sum.splits prod.splits)

definition claimed_for ::
  "plan_store \<Rightarrow> plan_store \<Rightarrow> string \<Rightarrow> int \<Rightarrow> string \<Rightarrow> node_run_rec \<Rightarrow> bool" where
  "claimed_for s t w until i r \<longleftrightarrow> nr_node_id r = i \<and> nr_state r = N_RUNNING \<and> nr_worker r = w
     \<and> nr_lease_until r = until \<and> nr_claim_version r = length (history s i) + 1
     \<and> dget (ps_node_runs t) (nr_id r) = Some r \<and> current_node_run_id t i = Some (nr_id r)
     \<and> (\<exists>n n'. dget (ps_nodes s) i = Some n \<and> dget (ps_nodes t) i = Some n' \<and> nd_state n' = N_RUNNING
          \<and> nd_ready_at n' = nd_ready_at n \<and> nr_plan_run_id r = nd_plan_run_id n)"

lemma history_append_claim:
  "history (append_claim ids r s) i = (if i = nr_node_id r then ids @ [nr_id r] else history s i)"
  by (simp add: append_claim_def history_def)

lemma history_put_node [simp]: "history (put_node n s) i = history s i"
  by (simp add: history_def)

lemma current_put_node [simp]: "current_node_run_id (put_node n s) i = current_node_run_id s i"
  by (simp add: current_node_run_id_def)

lemma claimed_for_later:
  assumes "claimed_for s s1 w until i r"
    and "dget (ps_nodes t) i = dget (ps_nodes s1) i" and "current_node_run_id t i = current_node_run_id s1 i"
    and "keeps (ps_node_runs s1) (ps_node_runs t)"
  shows "claimed_for s t w until i r"
  using assms unfolding claimed_for_def keeps_def by simp

lemma claimed_for_earlier:
  assumes "claimed_for s1 t w until i r"
    and "dget (ps_nodes s1) i = dget (ps_nodes s) i" and "history s1 i = history s i"
  shows "claimed_for s t w until i r"
  using assms unfolding claimed_for_def by simp

lemma start_claim_claimed:
  assumes wf: "wf u {} s" and inj: "inj u" and c: "start_claim u w now lease deadline i s = (Inr r, t)"
  shows "claimed_for s t w (now + seconds lease) i r"
    and "keeps (ps_node_runs s) (ps_node_runs t)"
    and "j \<noteq> i \<Longrightarrow> dget (ps_nodes t) j = dget (ps_nodes s) j \<and> history t j = history s j"
    and "ps_plan_runs t = ps_plan_runs s"
proof -
  obtain n ids runs m where n: "dget (ps_nodes s) i = Some n" and runs: "runs_of s i = Inr (ids, runs)"
    and t: "t = append_claim ids r (put_node m s)" and m: "nd_id m = nd_id n" "nd_state m = N_RUNNING"
      "nd_ready_at m = nd_ready_at n"
    and r: "nr_id r = u (ps_draws s)" "nr_node_id r = nd_id n" "nr_plan_run_id r = nd_plan_run_id n"
      "nr_state r = N_RUNNING" "nr_worker r = w" "nr_lease_until r = now + seconds lease"
      "nr_claim_version r = next_claim_version runs"
    using start_claim_result [OF c] by blast
  have id: "nd_id n = i" using wf_nodesD [OF wf n] by simp
  have ids: "history s i = ids" "nr_claim_version r = length ids + 1"
    using runs_of_wf [OF wf n runs] r(7) by (auto simp: history_def)
  show "claimed_for s t w (now + seconds lease) i r"
    using n m r id ids by (auto simp: claimed_for_def t current_append_claim)
  show "keeps (ps_node_runs s) (ps_node_runs t)"
    using fresh_run(1) [OF wf inj] r(1) by (simp add: t keeps_fresh)
  show "j \<noteq> i \<Longrightarrow> dget (ps_nodes t) j = dget (ps_nodes s) j \<and> history t j = history s j"
    using m(1) r(2) id by (simp add: t history_append_claim)
  show "ps_plan_runs t = ps_plan_runs s" by (simp add: t)
qed

lemma claim_each_claimed:
  assumes "wf u {} s" and "inj u" and "distinct is"
    and "\<forall>i\<in>set is. \<exists>n. dget (ps_nodes s) i = Some n \<and> nd_state n = N_READY"
    and "claim_each u w now lease deadline is s = (Inr rs, t)"
  shows "list_all2 (claimed_for s t w (now + seconds lease)) is rs \<and> ps_plan_runs t = ps_plan_runs s
     \<and> keeps (ps_node_runs s) (ps_node_runs t)
     \<and> (\<forall>j. j \<notin> set is \<longrightarrow> dget (ps_nodes t) j = dget (ps_nodes s) j \<and> history t j = history s j)"
  using assms
proof (induction "is" arbitrary: s rs)
  case Nil
  then show ?case by simp
next
  case (Cons i "is")
  obtain r s1 rs' where c: "start_claim u w now lease deadline i s = (Inr r, s1)"
    and rest: "claim_each u w now lease deadline is s1 = (Inr rs', t)" and rs: "rs = r # rs'"
    using Cons.prems(5) by (auto split: sum.splits prod.splits)
  note one = start_claim_claimed [OF Cons.prems(1,2) c]
  obtain n where n: "dget (ps_nodes s) i = Some n" "nd_state n = N_READY" using Cons.prems(4) by auto
  have wf1: "wf u {} s1"
    using start_claim_good(1) [OF Cons.prems(1,2) n, of w now lease deadline] c by (simp add: good_def)
  have ready: "\<forall>j\<in>set is. \<exists>n. dget (ps_nodes s1) j = Some n \<and> nd_state n = N_READY"
    using Cons.prems(3,4) one(3) by (metis distinct.simps(2) list.set_intros(2))
  note IH = Cons.IH [OF wf1 Cons.prems(2) _ ready rest]
  have d: "distinct is" "i \<notin> set is" using Cons.prems(3) by auto
  have "claimed_for s t w (now + seconds lease) i r"
    using IH [OF d(1)] d(2) by (intro claimed_for_later [OF one(1)]) (auto simp: current_node_run_id_def)
  moreover have "list_all2 (claimed_for s t w (now + seconds lease)) is rs'"
  proof (rule list.rel_mono_strong [of "claimed_for s1 t w (now + seconds lease)"])
    show "list_all2 (claimed_for s1 t w (now + seconds lease)) is rs'" by (rule conjunct1 [OF IH [OF d(1)]])
    fix j q
    assume j: "j \<in> set is" and q: "claimed_for s1 t w (now + seconds lease) j q"
    have "j \<noteq> i" using j d(2) by blast
    from one(3) [OF this] show "claimed_for s t w (now + seconds lease) j q"
      by (intro claimed_for_earlier [OF q]) (rule conjunct1 conjunct2, assumption)+
  qed
  ultimately show ?case
    using IH [OF d(1)] one(2-4) keeps_trans [OF one(2)] by (simp add: rs)
qed

lemma select_ready_subseq: "subseq (select_ready ns locked k) ns"
  by (induction ns locked k rule: select_ready.induct) auto

lemma select_ready_length: "0 < k \<Longrightarrow> length (select_ready ns locked k) \<le> k"
  by (induction ns locked k rule: select_ready.induct) auto

lemma sorted_subseq: "subseq xs ys \<Longrightarrow> sorted ys \<Longrightarrow> sorted xs"
  by (induction rule: list_emb.induct) (auto dest: list_emb_set)

text \<open>What the scheduler compares: priority, age, identity.\<close>

definition urgency :: "plan_store \<Rightarrow> node_rec \<Rightarrow> int \<times> int \<times> string" where
  "urgency s n = (- pl_priority (the (dget (ps_plan_runs s) (nd_plan_run_id n))), the (nd_ready_at n), nd_id n)"

lemma claim_candidates_urgency:
  assumes wf: "wf u {} s" and cs: "claim_candidates s (dvalues (ps_nodes s)) = Inr cs"
  shows "map (urgency s) (ordered_candidates s cs) = sort cs"
proof -
  have "urgency s (the (dget (ps_nodes s) i)) = (a, b, i)" if "(a, b, i) \<in> set cs" for a b i
  proof -
    note found = claim_candidates_in [OF cs that]
    then obtain n r where n: "n \<in> set (dvalues (ps_nodes s))" "nd_id n = i" "nd_ready_at n = Some b"
      "schedulable s n = Some r" "a = - pl_priority r" by blast
    then have "dget (ps_nodes s) i = Some n" using node_values(2) [OF wf] by blast
    then show ?thesis
      using n by (auto simp: urgency_def schedulable_def split: option.splits if_splits)
  qed
  then show ?thesis
    unfolding ordered_candidates_def by (auto intro!: map_idI simp: comp_def)
qed

lemma promote_history: "history (fold (promote_retry t) ns s) i = history s i"
  by (induction ns arbitrary: s) (auto simp: promote_retry_def)

text \<open>The parts of a successful \<open>claim_next_ready_nodes\<close>.\<close>

lemma claim_next_parts:
  assumes wf: "wf u {} s" and c: "claim_next_ready_nodes u w now lease limit deadline s = (Inr rs, t)"
  obtains now_us lease_s limit_n d s1 cs where "now = Aware now_us" "lease = PyInt lease_s" "limit = PyInt limit_n"
    "0 < limit_n" "good u s s1" "\<And>i. history s1 i = history s i"
    "claim_candidates s1 (dvalues (ps_nodes s1)) = Inr cs"
    "claim_each u w now_us lease_s d (map nd_id (select_ready (ordered_candidates s1 cs)
       (locked_resource_keys s1 now_us) (nat limit_n))) s1 = (Inr rs, t)"
proof -
  obtain now_us lease_s limit_n d where a: "claim_arguments w now lease limit deadline = Inr (now_us, lease_s, limit_n, d)"
    using c by (auto simp: claim_next_ready_nodes_def commit_def outcome split: sum.splits)
  define s1 where "s1 = fold (promote_retry now_us)
      (filter (\<lambda>n. schedulable s n \<noteq> None) (dvalues (ps_nodes s))) s"
  have g: "good u s s1"
    unfolding s1_def using node_values [OF wf] wf
    by (intro promote_all_good) (auto simp: distinct_map_filter)
  obtain cs where cs: "claim_candidates s1 (dvalues (ps_nodes s1)) = Inr cs"
    and each: "claim_each u w now_us lease_s d (map nd_id (select_ready (ordered_candidates s1 cs)
       (locked_resource_keys s1 now_us) (nat limit_n))) s1 = (Inr rs, t)"
    using c a
    by (auto simp: claim_next_ready_nodes_def commit_def Let_def s1_def ordered_candidates_def outcome
        split: sum.splits)
  have "now = Aware now_us" "lease = PyInt lease_s" "limit = PyInt limit_n" "0 < limit_n"
    using a by (auto simp: claim_arguments_def outcome)
  then show ?thesis
    using that g cs each promote_history unfolding s1_def by blast
qed

lemma claimed_for_urgency:
  assumes wf: "wf u {} s" "wf u {} t" and c: "claimed_for s t w until i r" and p: "ps_plan_runs t = ps_plan_runs s"
    and same: "dict_rel same_node (ps_nodes s) (ps_nodes t)"
  shows "urgency t (the (dget (ps_nodes t) (nr_node_id r))) = urgency s (the (dget (ps_nodes s) i))"
proof -
  obtain n n' where n: "dget (ps_nodes s) i = Some n" "dget (ps_nodes t) i = Some n'" "nd_ready_at n' = nd_ready_at n"
    and i: "nr_node_id r = i"
    using c unfolding claimed_for_def by blast
  have "same_node n n'" using same n unfolding dict_rel_def by fastforce
  then show ?thesis using n i p by (simp add: urgency_def same_node_def)
qed

lemma claim_each_urgency:
  assumes wf: "wf u {} s" and inj: "inj u" and d: "distinct (map nd_id ns)"
    and read: "\<forall>n\<in>set ns. dget (ps_nodes s) (nd_id n) = Some n \<and> nd_state n = N_READY"
    and c: "claim_each u w now lease deadline (map nd_id ns) s = (Inr rs, t)"
  shows "map (\<lambda>r. urgency t (the (dget (ps_nodes t) (nr_node_id r)))) rs = map (urgency s) ns"
    and "list_all2 (claimed_for s t w (now + seconds lease)) (map nd_id ns) rs"
proof -
  have ready: "\<forall>i\<in>set (map nd_id ns). \<exists>n. dget (ps_nodes s) i = Some n \<and> nd_state n = N_READY"
    using read by auto
  have "good u s t" using claim_each_good [OF wf inj d ready, of w now lease deadline] c by simp
  then have t: "wf u {} t" "dict_rel same_node (ps_nodes s) (ps_nodes t)"
    by (simp_all add: good_def evolves_def)
  note cl = claim_each_claimed [OF wf inj d ready c]
  then show l: "list_all2 (claimed_for s t w (now + seconds lease)) (map nd_id ns) rs" by blast
  have p: "ps_plan_runs t = ps_plan_runs s" using cl by blast
  have "list_all2 (\<lambda>n r. urgency t (the (dget (ps_nodes t) (nr_node_id r))) = urgency s n) ns rs"
    using l [unfolded list_all2_map1]
  proof (rule list.rel_mono_strong)
    fix n r assume n: "n \<in> set ns" and "claimed_for s t w (now + seconds lease) (nd_id n) r"
    then show "urgency t (the (dget (ps_nodes t) (nr_node_id r))) = urgency s n"
      using claimed_for_urgency [OF wf t(1) _ p t(2)] read by fastforce
  qed
  then show "map (\<lambda>r. urgency t (the (dget (ps_nodes t) (nr_node_id r)))) rs = map (urgency s) ns"
    by (induction rule: list_all2_induct) auto
qed

end
