(* ===== verification/Example.thy ===== *)
theory Example
  imports StoreReach
begin

section \<open>A concrete batch, for the witnesses\<close>

text \<open>
  One room, one product, one card: the plan the card-batch provider proposes for it, the store
  after the plan is created, after its first node is claimed, and after that node has succeeded.
  The properties of the store are instantiated here. The run key and the digest of the plan stay
  unevaluated: no witness depends on their value.
\<close>

definition demo_ids :: "nat \<Rightarrow> string" where
  "demo_ids n = replicate (Suc n) (CHR ''i'')"

lemma demo_ids_inj: "inj demo_ids"
  by (auto simp: inj_def demo_ids_def dest: arg_cong [of _ _ size])

definition demo_product :: "string \<Rightarrow> catalog_product" where
  "demo_product i = \<lparr>pr_product_id = i, pr_name = ''n'', pr_category = ''c'', pr_price = Dec 1 ''1'',
     pr_inventory = 5, pr_conversion_rate = Dec 0 ''0'', pr_commission_rate = Dec 0 ''0'',
     pr_tags = [], pr_selling_points = [], pr_is_active = True\<rparr>"

definition demo_item :: "int \<Rightarrow> string \<Rightarrow> live_plan_item" where
  "demo_item k i = \<lparr>li_rank = k, li_product_id = i, li_product_name = ''n'', li_role = ''x'', li_reason = ''y''\<rparr>"

definition demo_live_plan :: live_plan_draft where
  "demo_live_plan = \<lparr>lp_room_id = ''r'', lp_trace_id = ''t'',
     lp_items = [demo_item 1 ''p'', demo_item 2 ''q'']\<rparr>"

definition demo_products :: "(string, catalog_product) dict" where
  "demo_products = [(''p'', demo_product ''p''), (''q'', demo_product ''q'')]"

definition demo_batch :: card_batch_input where
  "demo_batch = \<lparr>cb_room_id = ''r'', cb_trace_id = ''t'', cb_live_plan = demo_live_plan,
     cb_products_by_id = demo_products,
     cb_run_key = canonical_sha256 (card_batch_snapshot ''r'' ''t'' demo_live_plan demo_products)\<rparr>"

definition demo_proposal :: candidate_proposal where
  "demo_proposal = \<lparr>cp_provider_id = ''canonical-card-batch'', cp_provider_version = ''1.0.0'',
     cp_nodes = card_batch_nodes demo_batch\<rparr>"

definition demo_card_capability :: "string \<Rightarrow> plan_capability" where
  "demo_card_capability i = \<lparr>rc_node_type = ''SKILL'', rc_skill_id = Some generate_product_card,
     rc_skill_version = Some ''1'', rc_lifecycle = [], rc_risk_level = Some ''low'',
     rc_max_attempt_seconds = Some 30, rc_resource_keys = [product_resource_key ''r'' i],
     rc_max_concurrency = 1\<rparr>"

definition demo_plan :: materialized_plan where
  "demo_plan = \<lparr>mp_planning_input = CardBatch demo_batch, mp_proposal = demo_proposal,
     mp_capabilities =
       [(''prepare-card-batch'', control_capability ''PREPARE_CARD_BATCH''),
        (''card:p'', demo_card_capability ''p''), (''card:q'', demo_card_capability ''q''),
        (''collect-card-results'', control_capability ''COLLECT_CARD_RESULTS'')]\<rparr>"

lemma demo_revalidated:
  "card_batch_planning_input ''r'' ''t'' demo_live_plan demo_products (Some (cb_run_key demo_batch)) = Inr demo_batch"
proof -
  have "is_sha256 (cb_run_key demo_batch)" by (simp add: demo_batch_def canonical_sha256_def)
  then show ?thesis
    by (simp add: card_batch_planning_input_def py_len_sha256 demo_batch_def Let_def demo_live_plan_def
        demo_item_def demo_products_def demo_product_def freeze_live_plan_def live_plan_ok_def live_item_ok_def
        freeze_product_def catalog_product_ok_def)
qed

lemma demo_batch_wf: "card_batch_wf demo_batch"
  by (simp add: card_batch_wf_def demo_batch_def demo_live_plan_def demo_products_def demo_product_def
      demo_item_def live_plan_ok_def live_item_ok_def catalog_product_ok_def)

lemma demo_nodes:
  "card_batch_nodes demo_batch = [control_node ''prepare-card-batch'' [], card_node ''p'', card_node ''q'',
     control_node ''collect-card-results'' [''card:p'', ''card:q'']]"
  by (simp add: card_batch_nodes_def demo_batch_def demo_live_plan_def demo_item_def card_key_def)

lemma demo_proposal_accepted: "candidate_plan_proposal demo_proposal = Inr demo_proposal"
  using propose_card_batch_valid [OF demo_batch_wf]
  by (auto simp: propose_card_batch_def demo_proposal_def dest: candidate_plan_proposal_id)

lemma demo_plan_wf: "plan_wf demo_plan"
  unfolding plan_wf_def
  using demo_batch_wf demo_proposal_accepted
  by (auto simp: demo_plan_def planning_input_wf_def demo_proposal_def demo_nodes card_key_def
      capability_matches_def expected_control_types_def control_capability_def control_node_def
      card_node_def skill_node_def demo_card_capability_def)

text \<open>
  The plan created; its first node claimed by \<open>w\<close> at time 0 for ten seconds; its result recorded;
  both cards claimed at the same time. In the other story the first claim expires and \<open>v\<close> reclaims
  the node.
\<close>

definition demo_created :: plan_store where
  "demo_created = snd (create_or_resume demo_ids 0 demo_plan empty_store)"

definition demo_claimed :: plan_store where
  "demo_claimed = snd (claim_next_ready_nodes demo_ids ''w'' (Aware 0) (PyInt 10) (PyInt 1) None demo_created)"

definition demo_done :: plan_store where
  "demo_done = snd (record_node_result (demo_ids 5) ''w'' 1 (PyStr ''SUCCEEDED'') PyNone (Aware 1) demo_claimed)"

definition demo_cards :: plan_store where
  "demo_cards = snd (claim_next_ready_nodes demo_ids ''w'' (Aware 2) (PyInt 10) (PyInt 4) None demo_done)"

definition demo_reclaimed :: plan_store where
  "demo_reclaimed = snd (reclaim_expired_node demo_ids (demo_ids 5) ''v'' (Aware 10000000) (PyInt 10) demo_claimed)"

lemma demo_created_step: "store_step demo_ids 0 empty_store demo_created"
  unfolding demo_created_def by (intro step_create demo_plan_wf)

lemma demo_claimed_step: "store_step demo_ids 0 demo_created demo_claimed"
  unfolding demo_claimed_def by (rule step_claim_next) (simp add: at_clock_def)

lemma demo_done_step: "store_step demo_ids 1 demo_claimed demo_done"
  unfolding demo_done_def by (rule step_result) (simp add: at_clock_def)

lemma demo_cards_step: "store_step demo_ids 2 demo_done demo_cards"
  unfolding demo_cards_def by (rule step_claim_next) (simp add: at_clock_def)

lemma demo_reclaimed_step: "store_step demo_ids 10000000 demo_claimed demo_reclaimed"
  unfolding demo_reclaimed_def by (rule step_reclaim) (simp add: at_clock_def)

lemmas demo_steps = demo_created_step demo_claimed_step demo_done_step demo_cards_step demo_reclaimed_step

lemma demo_some_steps:
  "some_step demo_ids empty_store demo_created" "some_step demo_ids demo_created demo_claimed"
  "some_step demo_ids demo_claimed demo_done" "some_step demo_ids demo_done demo_cards"
  "some_step demo_ids demo_claimed demo_reclaimed"
  using demo_steps unfolding some_step_def by blast+

lemma demo_reachable_created: "steps (some_step demo_ids) empty_store demo_created"
  by (rule steps_step) (rule steps_refl, rule demo_some_steps)

lemma demo_reachable_claimed: "steps (some_step demo_ids) empty_store demo_claimed"
  by (rule steps_step) (rule demo_reachable_created, rule demo_some_steps)

lemma demo_reachable_done: "steps (some_step demo_ids) empty_store demo_done"
  by (rule steps_step) (rule demo_reachable_claimed, rule demo_some_steps)

lemma demo_claimed_later: "steps (some_step demo_ids) demo_created demo_claimed"
  by (rule steps_step) (rule steps_refl, rule demo_some_steps)

lemma demo_reachable_reclaimed: "steps (some_step demo_ids) empty_store demo_reclaimed"
  by (rule steps_step) (rule demo_reachable_claimed, rule demo_some_steps)

lemma demo_clocked: "steps (clocked_step demo_ids) (0, empty_store) (2, demo_cards)"
proof -
  have "clocked_step demo_ids (0, empty_store) (0, demo_created)"
    "clocked_step demo_ids (0, demo_created) (0, demo_claimed)"
    "clocked_step demo_ids (0, demo_claimed) (1, demo_done)"
    "clocked_step demo_ids (1, demo_done) (2, demo_cards)"
    by (simp_all add: clocked_step_def demo_steps)
  then show ?thesis by (rule steps_step [OF steps_step [OF steps_step [OF steps_step [OF steps_refl]]]])
qed

text \<open>The stores written out.\<close>

definition demo_prepare :: node_rec where
  "demo_prepare = new_node (demo_ids 1) (demo_ids 0) 1 (control_node ''prepare-card-batch'' [])
     (control_capability ''PREPARE_CARD_BATCH'') N_READY 0 None None"

definition demo_card :: "nat \<Rightarrow> string \<Rightarrow> node_rec" where
  "demo_card k i = new_node (demo_ids k) (demo_ids 0) 1 (card_node i) (demo_card_capability i) N_PENDING 0 None None"

definition demo_collect :: node_rec where
  "demo_collect = new_node (demo_ids 4) (demo_ids 0) 1
     (control_node ''collect-card-results'' [''card:p'', ''card:q''])
     (control_capability ''COLLECT_CARD_RESULTS'') N_PENDING 0 None None"

definition demo_claim :: node_run_rec where
  "demo_claim = new_claim (demo_ids 5) ''w'' 10000000 None demo_prepare 1 1"

definition demo_key :: string where
  "demo_key = cb_run_key demo_batch"

definition demo_run :: plan_run_rec where
  "demo_run = new_plan_run (demo_ids 0) demo_plan"

lemma demo_ids_eq [simp]: "demo_ids k = demo_ids l \<longleftrightarrow> k = l"
  using demo_ids_inj by (simp add: inj_eq)

lemma demo_ids_nonempty [simp]: "demo_ids k \<noteq> ''''"
  by (simp add: demo_ids_def)

lemma demo_plan_sel:
  "planning_run_key (mp_planning_input demo_plan) = demo_key"
  "cp_nodes (mp_proposal demo_plan) = [control_node ''prepare-card-batch'' [], card_node ''p'', card_node ''q'',
     control_node ''collect-card-results'' [''card:p'', ''card:q'']]"
  "dget (mp_capabilities demo_plan) ''prepare-card-batch'' = Some (control_capability ''PREPARE_CARD_BATCH'')"
  "dget (mp_capabilities demo_plan) ''card:p'' = Some (demo_card_capability ''p'')"
  "dget (mp_capabilities demo_plan) ''card:q'' = Some (demo_card_capability ''q'')"
  "dget (mp_capabilities demo_plan) ''collect-card-results'' = Some (control_capability ''COLLECT_CARD_RESULTS'')"
  by (simp_all add: demo_plan_def demo_proposal_def demo_nodes planning_run_key_def demo_key_def)

lemma demo_run_sel [simp]:
  "pl_id demo_run = demo_ids 0" "pl_current_version demo_run = 1" "pl_run_key demo_run = demo_key"
  "pl_state demo_run = R_ACTIVE" "pl_plan_kind demo_run = CARD_BATCH" "pl_priority demo_run = 0"
  "pl_rec_required demo_run = False"
  by (simp_all add: demo_run_def demo_plan_sel) (simp_all add: new_plan_run_def demo_plan_def Let_def)

lemma demo_node_sel [simp]:
  "nd_id demo_prepare = demo_ids 1" "nd_plan_run_id demo_prepare = demo_ids 0" "nd_version demo_prepare = 1"
  "nd_state demo_prepare = N_READY" "nd_ready_at demo_prepare = Some 0" "nd_retry_at demo_prepare = None"
  "nd_deadline_at demo_prepare = None" "nd_logical_key demo_prepare = ''prepare-card-batch''"
  "rc_resource_keys (nd_capability demo_prepare) = []" "nd_depends_on demo_prepare = []"
  "rc_node_type (nd_capability demo_prepare) = ''PREPARE_CARD_BATCH''"
  "nd_id demo_collect = demo_ids 4" "nd_plan_run_id demo_collect = demo_ids 0" "nd_version demo_collect = 1"
  "nd_state demo_collect = N_PENDING" "nd_logical_key demo_collect = ''collect-card-results''"
  "nd_depends_on demo_collect = [''card:p'', ''card:q'']" "nd_retry_at demo_collect = None"
  "nd_reused_from demo_prepare = None"
  by (simp_all add: demo_prepare_def demo_collect_def new_node_def control_node_def
      control_capability_def)

lemma demo_card_sel [simp]:
  "nd_id (demo_card k i) = demo_ids k" "nd_plan_run_id (demo_card k i) = demo_ids 0"
  "nd_version (demo_card k i) = 1" "nd_state (demo_card k i) = N_PENDING"
  "nd_logical_key (demo_card k i) = ''card:'' @ i" "nd_depends_on (demo_card k i) = [''prepare-card-batch'']"
  "nd_retry_at (demo_card k i) = None" "nd_deadline_at (demo_card k i) = None"
  "rc_resource_keys (nd_capability (demo_card k i)) = [product_resource_key ''r'' i]"
  "rc_node_type (nd_capability (demo_card k i)) = ''SKILL''" "nd_reused_from (demo_card k i) = None"
  by (simp_all add: demo_card_def new_node_def card_node_def skill_node_def card_key_def
      demo_card_capability_def)

lemma demo_claim_sel [simp]:
  "nr_id demo_claim = demo_ids 5" "nr_node_id demo_claim = demo_ids 1" "nr_plan_run_id demo_claim = demo_ids 0"
  "nr_worker demo_claim = ''w''" "nr_claim_version demo_claim = 1" "nr_attempt demo_claim = 1"
  "nr_state demo_claim = N_RUNNING" "nr_lease_until demo_claim = 10000000"
  "nr_superseded demo_claim = False" "nr_resource_keys demo_claim = []" "nr_fingerprint demo_claim = None"
  "nr_node_type demo_claim = ''PREPARE_CARD_BATCH''"
  by (simp_all add: demo_claim_def new_claim_def)

lemma demo_created_eq: "demo_created =
   \<lparr>ps_run_id_by_key = [(demo_key, demo_ids 0)], ps_digest_by_key = [(demo_key, plan_digest demo_plan)],
    ps_plan_runs = [(demo_ids 0, demo_run)],
    ps_versions = [((demo_ids 0, 1), initial_version (demo_ids 0) demo_plan)],
    ps_nodes = [(demo_ids 1, demo_prepare), (demo_ids 2, demo_card 2 ''p''), (demo_ids 3, demo_card 3 ''q''),
      (demo_ids 4, demo_collect)],
    ps_node_ids = [((demo_ids 0, 1), [demo_ids 1, demo_ids 2, demo_ids 3, demo_ids 4])],
    ps_run_ids = [(demo_ids 1, []), (demo_ids 2, []), (demo_ids 3, []), (demo_ids 4, [])],
    ps_node_runs = [], ps_commands = [], ps_draws = 5\<rparr>"
  by (simp add: demo_created_def create_or_resume_def empty_store_def demo_plan_sel Let_def add_node_def
      store_writes card_key_def initial_node_state_def demo_prepare_def demo_card_def
      demo_collect_def demo_run_def publish_key_def publish_version_def initial_version_def
      demo_card_capability_def control_capability_def numeral_eq_Suc)

lemmas demo_claim_simps =
  claim_next_ready_nodes_def claim_arguments_def utc_option_def promote_retry_def retry_due_def
  schedulable_def start_claim_def runs_of_def next_claim_version_def append_claim_def store_writes
  new_claim_def locked_resource_keys_def seconds_def claim_snapshot_def Let_def
  node_run_view_def node_run_view_ok_def sha_option_ok_def min_length_1_def

lemma demo_claimed_eq:
  "claim_next_ready_nodes demo_ids ''w'' (Aware 0) (PyInt 10) (PyInt 1) None demo_created =
     (Inr [demo_claim], demo_created
        \<lparr>ps_nodes := [(demo_ids 1, demo_prepare\<lparr>nd_state := N_RUNNING, nd_deadline_at := None\<rparr>),
           (demo_ids 2, demo_card 2 ''p''), (demo_ids 3, demo_card 3 ''q''), (demo_ids 4, demo_collect)],
         ps_run_ids := [(demo_ids 1, [demo_ids 5]), (demo_ids 2, []), (demo_ids 3, []), (demo_ids 4, [])],
         ps_node_runs := [(demo_ids 5, demo_claim)], ps_draws := 6\<rparr>)"
  by (simp add: demo_created_eq demo_claim_simps demo_claim_def)

lemma demo_claimed_store: "demo_claimed =
   \<lparr>ps_run_id_by_key = [(demo_key, demo_ids 0)], ps_digest_by_key = [(demo_key, plan_digest demo_plan)],
    ps_plan_runs = [(demo_ids 0, demo_run)],
    ps_versions = [((demo_ids 0, 1), initial_version (demo_ids 0) demo_plan)],
    ps_nodes = [(demo_ids 1, demo_prepare\<lparr>nd_state := N_RUNNING, nd_deadline_at := None\<rparr>),
      (demo_ids 2, demo_card 2 ''p''), (demo_ids 3, demo_card 3 ''q''), (demo_ids 4, demo_collect)],
    ps_node_ids = [((demo_ids 0, 1), [demo_ids 1, demo_ids 2, demo_ids 3, demo_ids 4])],
    ps_run_ids = [(demo_ids 1, [demo_ids 5]), (demo_ids 2, []), (demo_ids 3, []), (demo_ids 4, [])],
    ps_node_runs = [(demo_ids 5, demo_claim)], ps_commands = [], ps_draws = 6\<rparr>"
  unfolding demo_claimed_def demo_claimed_eq by (simp add: demo_created_eq)

lemma coerce_succeeded: "coerce_node_state (PyStr ''SUCCEEDED'') = Inr N_SUCCEEDED"
  by (simp add: coerce_node_state_def enum_call_def node_state_members_def)

definition demo_ready_card :: "nat \<Rightarrow> string \<Rightarrow> node_rec" where
  "demo_ready_card k i = demo_card k i\<lparr>nd_state := N_READY, nd_ready_at := Some 1\<rparr>"

lemma demo_done_eq: "demo_done = demo_claimed
   \<lparr>ps_nodes := [(demo_ids 1, demo_prepare\<lparr>nd_state := N_SUCCEEDED, nd_deadline_at := None\<rparr>),
      (demo_ids 2, demo_ready_card 2 ''p''), (demo_ids 3, demo_ready_card 3 ''q''), (demo_ids 4, demo_collect)],
    ps_node_runs := [(demo_ids 5, demo_claim\<lparr>nr_state := N_SUCCEEDED, nr_output := JNull\<rparr>)]\<rparr>"
  by (simp add: demo_done_def demo_claimed_store record_node_result_def json_safe_copy_def fenced_run_def
     current_node_run_id_def history_def transition_node_def coerce_succeeded ready_satisfied_dependents_def
     states_by_logical_key_def all_succeeded_def Let_def store_writes demo_ready_card_def)

lemma demo_keys_differ [simp]:
  "product_resource_key ''r'' ''p'' \<noteq> product_resource_key ''r'' ''q''"
  by (simp add: product_resource_key_inj)

lemma demo_reclaimed_eq: "demo_reclaimed = demo_claimed
   \<lparr>ps_run_ids := [(demo_ids 1, [demo_ids 5, demo_ids 6]), (demo_ids 2, []), (demo_ids 3, []), (demo_ids 4, [])],
    ps_node_runs := [(demo_ids 5, demo_claim), (demo_ids 6, demo_claim\<lparr>nr_id := demo_ids 6,
      nr_attempt := 2, nr_claim_version := 2, nr_state := N_RUNNING, nr_worker := ''v'', nr_lease_until := 20000000,
      nr_output := JNull, nr_superseded := False, nr_superseded_by := None, nr_superseded_at := None\<rparr>)],
    ps_draws := 7\<rparr>"
  by (simp add: demo_reclaimed_def demo_claimed_store reclaim_expired_node_def demo_claim_simps
      current_node_run_id_def history_def holds_lock_def)

lemma demo_done_store: "demo_done =
   \<lparr>ps_run_id_by_key = [(demo_key, demo_ids 0)], ps_digest_by_key = [(demo_key, plan_digest demo_plan)],
    ps_plan_runs = [(demo_ids 0, demo_run)],
    ps_versions = [((demo_ids 0, 1), initial_version (demo_ids 0) demo_plan)],
    ps_nodes = [(demo_ids 1, demo_prepare\<lparr>nd_state := N_SUCCEEDED, nd_deadline_at := None\<rparr>),
      (demo_ids 2, demo_ready_card 2 ''p''), (demo_ids 3, demo_ready_card 3 ''q''), (demo_ids 4, demo_collect)],
    ps_node_ids = [((demo_ids 0, 1), [demo_ids 1, demo_ids 2, demo_ids 3, demo_ids 4])],
    ps_run_ids = [(demo_ids 1, [demo_ids 5]), (demo_ids 2, []), (demo_ids 3, []), (demo_ids 4, [])],
    ps_node_runs = [(demo_ids 5, demo_claim\<lparr>nr_state := N_SUCCEEDED, nr_output := JNull\<rparr>)],
    ps_commands = [], ps_draws = 6\<rparr>"
  unfolding demo_done_eq by (simp add: demo_claimed_store)

lemma demo_ids_ordered: "demo_ids 2 \<le> demo_ids 3" "demo_ids 2 < demo_ids 3" "\<not> demo_ids 3 \<le> demo_ids 2"
  by (simp_all add: demo_ids_def numeral_eq_Suc)

lemma demo_ready_card_sel [simp]:
  "nd_id (demo_ready_card k i) = demo_ids k" "nd_plan_run_id (demo_ready_card k i) = demo_ids 0"
  "nd_version (demo_ready_card k i) = 1" "nd_state (demo_ready_card k i) = N_READY"
  "nd_ready_at (demo_ready_card k i) = Some 1" "nd_deadline_at (demo_ready_card k i) = None"
  "nd_logical_key (demo_ready_card k i) = ''card:'' @ i"
  "nd_depends_on (demo_ready_card k i) = [''prepare-card-batch'']"
  "rc_resource_keys (nd_capability (demo_ready_card k i)) = [product_resource_key ''r'' i]"
  "rc_node_type (nd_capability (demo_ready_card k i)) = ''SKILL''"
  by (simp_all add: demo_ready_card_def)

definition demo_card_claim :: "nat \<Rightarrow> nat \<Rightarrow> string \<Rightarrow> node_run_rec" where
  "demo_card_claim k j i = new_claim (demo_ids k) ''w'' 10000002 None (demo_ready_card j i) 1 1"

lemma demo_cards_eq:
  "claim_next_ready_nodes demo_ids ''w'' (Aware 2) (PyInt 10) (PyInt 4) None demo_done =
     (Inr [demo_card_claim 6 2 ''p'', demo_card_claim 7 3 ''q''], demo_done
        \<lparr>ps_nodes := [(demo_ids 1, demo_prepare\<lparr>nd_state := N_SUCCEEDED, nd_deadline_at := None\<rparr>),
           (demo_ids 2, demo_ready_card 2 ''p''\<lparr>nd_state := N_RUNNING, nd_deadline_at := None\<rparr>),
           (demo_ids 3, demo_ready_card 3 ''q''\<lparr>nd_state := N_RUNNING, nd_deadline_at := None\<rparr>),
           (demo_ids 4, demo_collect)],
         ps_run_ids := [(demo_ids 1, [demo_ids 5]), (demo_ids 2, [demo_ids 6]), (demo_ids 3, [demo_ids 7]), (demo_ids 4, [])],
         ps_node_runs := [(demo_ids 5, demo_claim\<lparr>nr_state := N_SUCCEEDED, nr_output := JNull\<rparr>),
           (demo_ids 6, demo_card_claim 6 2 ''p''), (demo_ids 7, demo_card_claim 7 3 ''q'')],
         ps_draws := 8\<rparr>)"
  by (simp add: demo_done_store demo_claim_simps demo_card_claim_def demo_ids_ordered holds_lock_def)

text \<open>A command to resume the plan, on the plan while active and after it was frozen.\<close>

definition demo_command :: plan_command where
  "demo_command = \<lparr>pc_id = ''c'', pc_type = RESUME, pc_plan_run_id = demo_ids 0, pc_expected_version = 1,
     pc_node_id = None, pc_expected_status = None, pc_payload = JObj [], pc_issued_at = 0\<rparr>"

definition demo_frozen :: plan_store where
  "demo_frozen = snd (freeze_plan (demo_ids 0) demo_created)"

lemma demo_reachable_frozen: "steps (some_step demo_ids) empty_store demo_frozen"
proof (rule steps_step [OF demo_reachable_created])
  show "some_step demo_ids demo_created demo_frozen"
    unfolding some_step_def demo_frozen_def by (rule exI) (rule step_freeze)
qed

lemma demo_frozen_eq: "demo_frozen = demo_created\<lparr>ps_plan_runs := [(demo_ids 0, demo_run\<lparr>pl_state := R_FROZEN\<rparr>)]\<rparr>"
  by (simp add: demo_frozen_def freeze_plan_def demo_created_eq store_writes Let_def)

lemma demo_command_sel [simp]:
  "pc_id demo_command = ''c''" "pc_type demo_command = RESUME" "pc_plan_run_id demo_command = demo_ids 0"
  "pc_expected_version demo_command = 1" "pc_node_id demo_command = None"
  "pc_expected_status demo_command = None" "pc_issued_at demo_command = 0"
  by (simp_all add: demo_command_def)

lemma demo_command_refused:
  "submit_command demo_command (Aware 0) demo_created =
     (Inr (command_result demo_command demo_run 0 COMMAND_STATE_NOT_APPLICABLE None None),
      put_command \<lparr>lg_command = demo_command, lg_result =
        command_result demo_command demo_run 0 COMMAND_STATE_NOT_APPLICABLE None None\<rparr> demo_created)"
  by (simp add: submit_command_def demo_created_eq command_gate_def apply_first_command_def command_ttl_def
      approval_command_ttl_def minutes_def Let_def)

lemma demo_command_accepted:
  "submit_command demo_command (Aware 0) demo_frozen =
     (Inr (command_result demo_command (demo_run\<lparr>pl_state := R_FROZEN\<rparr>) 0 ACCEPTED None None),
      put_command \<lparr>lg_command = demo_command, lg_result =
        command_result demo_command (demo_run\<lparr>pl_state := R_FROZEN\<rparr>) 0 ACCEPTED None None\<rparr>
        (put_plan_run (demo_run\<lparr>pl_state := R_ACTIVE\<rparr>) demo_frozen))"
  by (simp add: submit_command_def demo_frozen_eq demo_created_eq command_gate_def apply_first_command_def
      command_ttl_def approval_command_ttl_def minutes_def Let_def)

lemma demo_create_result:
  "create_or_resume demo_ids 0 demo_plan empty_store = (Inr demo_run, demo_created)"
proof -
  have canonical_key_nonempty: "canonical_sha256 j \<noteq> ''''" for j
    using length_sha256_hex [of "dumps False j"] unfolding canonical_sha256_def by (metis list.size(3) zero_neq_numeral)
  have "plan_run_view_ok demo_run"
    by (simp add: plan_run_view_ok_def demo_run_def new_plan_run_def demo_plan_def demo_batch_def Let_def
        planning_room_def planning_trace_def emergency_field_def min_length_1_def sha_option_ok_def
        lineage_ok_def planning_run_key_def canonical_key_nonempty)
  then have "fst (create_or_resume demo_ids 0 demo_plan empty_store) = Inr demo_run"
    by (simp add: create_or_resume_def empty_store_def demo_plan_sel Let_def card_key_def
        demo_run_def [symmetric] plan_run_view_def)
  then show ?thesis by (simp add: demo_created_def prod_eq_iff)
qed

end
