(* ===== verification/StoreProperties.thy ===== *)
theory StoreProperties
  imports ClaimOrder Example
begin

section \<open>Properties of the plan store\<close>

text \<open>
  What the operations of \<open>InMemoryPlanStore\<close> promise together. A reachable store is one that any
  sequence of calls, successful or not, makes of the empty store.
\<close>

lemma reachable_inv: "inj u \<Longrightarrow> steps (some_step u) empty_store s \<Longrightarrow> store_inv u s"
  using steps_evolves store_inv_empty by blast

lemma reachable_wfD: "inj u \<Longrightarrow> steps (some_step u) empty_store s \<Longrightarrow> wf u {} s"
  using reachable_inv unfolding store_inv_def by blast

text \<open>C1: in every store reachable by calls of its operations the dictionaries agree: wf.\<close>

theorem store_reachable_wf:
  assumes "inj u" and "steps (some_step u) empty_store s"
  shows "wf u {} s"
  using assms by (rule reachable_wfD)

theorem store_reachable_wf_witness: "wf demo_ids {} demo_done"
  by (rule store_reachable_wf [OF demo_ids_inj demo_reachable_done])

text \<open>
  C2: whatever is called, a node keeps its identity, dependencies, capability and bindings, its
  state follows the edges of the state machine, and its claims are only ever appended to.
\<close>

theorem node_history_is_lawful:
  assumes "inj u" and "steps (some_step u) empty_store s" and "steps (some_step u) s t"
    and "dget (ps_nodes s) i = Some n"
  shows "\<exists>n'. dget (ps_nodes t) i = Some n' \<and> same_node n n' \<and> prefix (history s i) (history t i)"
  using steps_evolves [OF assms(3) reachable_inv [OF assms(1,2)]] evolves_history assms(4)
  unfolding evolves_def dict_rel_def by blast

theorem node_history_is_lawful_witness:
  "\<exists>n'. dget (ps_nodes demo_claimed) (demo_ids 1) = Some n' \<and> same_node demo_prepare n'
     \<and> prefix (history demo_created (demo_ids 1)) (history demo_claimed (demo_ids 1))"
proof (rule node_history_is_lawful [OF demo_ids_inj demo_reachable_created])
  show "steps (some_step demo_ids) demo_created demo_claimed" by (rule demo_claimed_later)
  show "dget (ps_nodes demo_created) (demo_ids 1) = Some demo_prepare" by (simp add: demo_created_eq)
qed

text \<open>
  C3: a node of a published version that has left \<open>PENDING\<close> towards running has seen every one of
  its dependencies succeed, unless it is an entry node (no dependency is consulted) or a reused success.
\<close>

theorem dependencies_succeed_first:
  assumes "inj u" and "steps (some_step u) empty_store s"
    and "dget (ps_node_ids s) (p, v) = Some ids" and "i \<in> set ids" and "dget (ps_nodes s) i = Some n"
    and "started (nd_state n)" and "\<not> entry_node n" and "d \<in> set (nd_depends_on n)"
  shows "\<exists>j\<in>set ids. \<exists>m. dget (ps_nodes s) j = Some m \<and> nd_logical_key m = d \<and> nd_state m = N_SUCCEEDED"
proof -
  have "wf_published s" using reachable_wfD [OF assms(1,2)] by (simp add: wf_def)
  then have "deps_done s ids n" using published_node assms(3-5) by fastforce
  then show ?thesis using assms(6-8) unfolding deps_done_def dep_node_def by blast
qed

theorem dependencies_succeed_first_witness:
  "\<exists>j\<in>set [demo_ids 1, demo_ids 2, demo_ids 3, demo_ids 4]. \<exists>m. dget (ps_nodes demo_done) j = Some m
     \<and> nd_logical_key m = ''prepare-card-batch'' \<and> nd_state m = N_SUCCEEDED"
  by (rule dependencies_succeed_first [OF demo_ids_inj demo_reachable_done, where p = "demo_ids 0" and v = 1
        and i = "demo_ids 2" and n = "demo_ready_card 2 ''p''"])
    (simp_all add: demo_done_store started_def entry_node_def demo_ready_card_def)

text \<open>
  C4: while the clock never runs backwards, two different claims that hold their locks at the same
  time have no resource key in common, whichever plan runs they belong to.
\<close>

theorem resource_locks_exclude:
  assumes "inj u" and "steps (clocked_step u) (start, empty_store) (now, s)"
    and "dget (ps_node_runs s) k = Some r" and "dget (ps_node_runs s) l = Some q" and "k \<noteq> l"
    and "holds_lock s now r" and "holds_lock s now q"
  shows "set (nr_resource_keys r) \<inter> set (nr_resource_keys q) = {}"
  using clocked_steps_inv [OF assms(2) clocked_inv_empty [OF assms(1)]] locks_exclusiveD assms(3-7)
  unfolding clocked_inv_def fst_conv snd_conv by blast

theorem resource_locks_exclude_witness:
  "set (nr_resource_keys (demo_card_claim 6 2 ''p'')) \<inter> set (nr_resource_keys (demo_card_claim 7 3 ''q'')) = {}
     \<and> nr_resource_keys (demo_card_claim 6 2 ''p'') \<noteq> []"
proof
  have cards: "demo_cards = snd (claim_next_ready_nodes demo_ids ''w'' (Aware 2) (PyInt 10) (PyInt 4) None demo_done)"
    by (rule demo_cards_def)
  show "set (nr_resource_keys (demo_card_claim 6 2 ''p'')) \<inter> set (nr_resource_keys (demo_card_claim 7 3 ''q'')) = {}"
    by (rule resource_locks_exclude [OF demo_ids_inj demo_clocked, where k = "demo_ids 6" and l = "demo_ids 7"])
      (simp_all add: cards demo_cards_eq holds_lock_def demo_card_claim_def new_claim_def
        current_node_run_id_def history_def)
qed (simp add: demo_card_claim_def new_claim_def)

lemma unfenced:
  assumes "\<And>r. fenced_run s k w c \<noteq> Inr r"
  shows "(\<exists>e. heartbeat_node_run k w c now lease s = (Inl e, s))"
    and "(\<exists>e. record_node_input k w c input now s = (Inl e, s))"
    and "(\<exists>e. schedule_retry k w c now retry_at s = (Inl e, s))"
    and "(\<exists>e. record_node_result k w c target out now s = (Inl e, s))"
proof -
  obtain e where e: "fenced_run s k w c = Inl e" using assms by (cases "fenced_run s k w c") auto
  have *: "\<exists>e. commit (rbind x g) f s = (Inl e, s)" if "\<And>v. \<exists>e. g v = Inl e"
    for x :: "store_error + 'x" and g :: "'x \<Rightarrow> store_error + 'y" and f :: "'y \<Rightarrow> 'z outcome"
    using that by (cases x) (simp, metis commit_Inl rbind_Inr)
  have **: "\<exists>e. rbind x g = Inl e" if "\<And>v. \<exists>e. g v = Inl e"
    for x :: "store_error + 'x" and g :: "'x \<Rightarrow> store_error + 'y"
    using that by (cases x) simp_all
  show "\<exists>e. heartbeat_node_run k w c now lease s = (Inl e, s)"
    unfolding heartbeat_node_run_def e rbind_Inl by (intro * **) blast
  show "\<exists>e. record_node_input k w c input now s = (Inl e, s)"
    unfolding record_node_input_def e rbind_Inl by (intro * **) blast
  show "\<exists>e. schedule_retry k w c now retry_at s = (Inl e, s)"
    unfolding schedule_retry_def e rbind_Inl by (intro * **) blast
  show "\<exists>e. record_node_result k w c target out now s = (Inl e, s)"
    unfolding record_node_result_def e rbind_Inl by (intro * **) blast
qed

text \<open>
  C24: once a node has been claimed again, the older claim is dead: in every later store a
  heartbeat, a recorded input, a scheduled retry or a result that presents it raises and writes nothing.
\<close>

theorem stale_claim_is_dead:
  assumes "inj u" and "steps (some_step u) empty_store s" and "dget (ps_node_runs s) k = Some r"
    and "nr_claim_version r < length (history s (nr_node_id r))" and "steps (some_step u) s t"
  shows "(\<exists>e. heartbeat_node_run k w (nr_claim_version r) now lease t = (Inl e, t))
       \<and> (\<exists>e. record_node_input k w (nr_claim_version r) input now t = (Inl e, t))
       \<and> (\<exists>e. schedule_retry k w (nr_claim_version r) now retry_at t = (Inl e, t))
       \<and> (\<exists>e. record_node_result k w (nr_claim_version r) target out now t = (Inl e, t))"
proof -
  have inv: "store_inv u s" by (rule reachable_inv [OF assms(1,2)])
  have "evolves s t" using steps_evolves [OF assms(5) inv] by simp
  then obtain r' where r': "dget (ps_node_runs t) k = Some r'" "nr_node_id r' = nr_node_id r"
    using assms(3) unfolding evolves_def dict_rel_def same_run_def by metis
  have "\<not> token_accepted t (nr_node_id r) (nr_claim_version r)"
    using lease.stale_token_rejected [OF inv assms(5)] assms(4) by (simp add: claim_token_def)
  then have "fenced_run t k w (nr_claim_version r) \<noteq> Inr q" for q
    using r' unfolding token_accepted_def by (metis fenced_run_eq_Inr option.inject)
  from unfenced [OF this] show ?thesis by blast
qed

theorem stale_claim_is_dead_witness:
  "\<exists>e. record_node_result (demo_ids 5) ''w'' 1 (PyStr ''SUCCEEDED'') PyNone (Aware 1) demo_reclaimed
     = (Inl e, demo_reclaimed)"
  using stale_claim_is_dead [OF demo_ids_inj demo_reachable_reclaimed, of "demo_ids 5" demo_claim demo_reclaimed
      "''w''" "Aware 1" PyNone undefined undefined "PyStr ''SUCCEEDED''" PyNone]
  by (simp add: demo_reclaimed_eq history_def steps_refl)

text \<open>
  C25: a command is decided once. Whatever happens afterwards, submitting any command with the same
  identity, at any time, returns the first result and writes nothing.
\<close>

theorem command_replay:
  assumes "inj u" and "steps (some_step u) empty_store s" and "submit_command c now s = (Inr res, s')"
    and "steps (some_step u) s' t" and "pc_id c' = pc_id c"
  shows "submit_command c' later t = (Inr res, t)"
proof -
  have wf: "wf u {} s" and inv: "store_inv u s" using reachable_wfD reachable_inv assms(1,2) by auto
  have inv': "store_inv u s'"
    using good_wf [OF submit_good [OF wf, of c now]] assms(1,3) by (simp add: store_inv_def)
  have "\<exists>l. dget (ps_commands s') (pc_id c) = Some l \<and> lg_result l = res"
    using assms(3) by (auto simp: submit_command_def commit_def split: option.splits sum.splits prod.splits)
  then obtain l where l: "dget (ps_commands s') (pc_id c) = Some l" "lg_result l = res" by blast
  have "dget (ps_commands t) (pc_id c) = Some l"
    by (rule commands.recorded_forever [OF assms(4) inv' l(1)])
  then show ?thesis using l(2) assms(5) by (simp add: submit_command_def)
qed

theorem command_replay_witness:
  "submit_command demo_command (Aware 99) (put_command \<lparr>lg_command = demo_command, lg_result =
      command_result demo_command demo_run 0 COMMAND_STATE_NOT_APPLICABLE None None\<rparr> demo_created)
   = (Inr (command_result demo_command demo_run 0 COMMAND_STATE_NOT_APPLICABLE None None),
      put_command \<lparr>lg_command = demo_command, lg_result =
        command_result demo_command demo_run 0 COMMAND_STATE_NOT_APPLICABLE None None\<rparr> demo_created)"
  by (rule command_replay [OF demo_ids_inj demo_reachable_created demo_command_refused steps_refl refl])

text \<open>A run key is bound once. After a plan was created under it, a call with the same key and the
  same plan digest answers with the stored run of that first plan, a call with another digest is
  refused as \<open>DigestConflict\<close>, and neither writes anything.
\<close>

lemma create_or_resume_idempotent:
  assumes "inj u" and "steps (some_step u) empty_store s" and "plan_wf p"
    and "create_or_resume u wall p s = (Inr r, s')" and "steps (some_step u) s' t"
    and "planning_run_key (mp_planning_input q) = planning_run_key (mp_planning_input p)"
    and "dget (ps_run_id_by_key s) (planning_run_key (mp_planning_input p)) = None"
  shows "\<exists>run. dget (ps_plan_runs t) (pl_id r) = Some run
       \<and> create_or_resume u later q t =
           (if plan_digest q = plan_digest p then plan_run_view run else Inl (Invariant DigestConflict), t)"
proof -
  have wf: "wf u {} s" using reachable_wfD assms(1,2) by auto
  let ?k = "planning_run_key (mp_planning_input p)"
  have inv': "store_inv u s'"
    using good_wf [OF create_good [OF wf assms(1,3), of wall]] assms(1,4) by (simp add: store_inv_def)
  have s': "dget (ps_run_id_by_key s') ?k = Some (pl_id r)" "dget (ps_digest_by_key s') ?k = Some (plan_digest p)"
    using assms(4,7)
    by (auto simp: create_or_resume_def Let_def publish_key_def plan_run_view_def outcome
        split: option.splits sum.splits prod.splits)
  have t: "dget (ps_run_id_by_key t) ?k = Some (pl_id r)" "dget (ps_digest_by_key t) ?k = Some (plan_digest p)"
    using run_keys.recorded_forever [OF assms(5) inv' s'(1)]
      key_digests.recorded_forever [OF assms(5) inv' s'(2)] by auto
  have "wf u {} t" using steps_evolves [OF assms(5) inv'] by (simp add: store_inv_def)
  then obtain run where "dget (ps_plan_runs t) (pl_id r) = Some run"
    using t(1) unfolding wf_def wf_ledgers_def by blast
  then show ?thesis using t assms(6) by (auto simp: create_or_resume_def Let_def)
qed

lemma apply_first_rejected:
  "apply_first_command c run now s = (Inr res, t) \<Longrightarrow> \<not> cr_accepted res \<Longrightarrow> t = s"
  by (auto simp: apply_first_command_def apply_reconciliation_command_def Let_def command_result_def
      split: if_splits option.splits sum.splits prod.splits)

text \<open>
  C26: a command that is not accepted changes nothing but the ledger, and an accepted one was
  submitted within its validity window, against the current plan version, and, while a
  reconciliation incident is open, as a reconciliation.
\<close>

theorem command_effects:
  assumes "submit_command c now s = (Inr res, t)" and "dget (ps_commands s) (pc_id c) = None"
  shows "if cr_accepted res
       then \<exists>us run. now = Aware us \<and> dget (ps_plan_runs s) (pc_plan_run_id c) = Some run
          \<and> pc_issued_at c \<le> us \<and> us < pc_issued_at c + command_ttl c
          \<and> pc_expected_version c = pl_current_version run
          \<and> (pl_rec_required run \<longrightarrow> pc_type c = RECONCILE)
       else t = put_command \<lparr>lg_command = c, lg_result = res\<rparr> s"
proof -
  obtain us run where us: "now = Aware us" "dget (ps_plan_runs s) (pc_plan_run_id c) = Some run"
    using assms by (auto simp: submit_command_def commit_def outcome split: sum.splits)
  show ?thesis
  proof (cases "command_gate c run us")
    case (Some reason)
    then have "reason \<noteq> ACCEPTED" by (auto simp: command_gate_def split: if_splits)
    then show ?thesis using assms us Some by (auto simp: submit_command_def command_result_def)
  next
    case None
    then obtain s1 where s1: "apply_first_command c run us s = (Inr res, s1)"
      "t = put_command \<lparr>lg_command = c, lg_result = res\<rparr> s1"
      using assms us by (auto simp: submit_command_def split: sum.splits prod.splits)
    show ?thesis
      using apply_first_rejected [OF s1(1)] s1(2) None us
      by (auto simp: command_gate_def not_less split: if_splits)
  qed
qed

theorem command_effects_witness:
  "\<exists>us run. Aware 0 = Aware us \<and> dget (ps_plan_runs demo_frozen) (demo_ids 0) = Some run
     \<and> 0 \<le> us \<and> us < command_ttl demo_command \<and> 1 = pl_current_version run"
  using command_effects [OF demo_command_accepted]
  by (simp add: demo_frozen_eq demo_created_eq command_result_def)



end
