(* ===== verification/ModelProperties.thy ===== *)
theory ModelProperties
  imports Example
begin

section \<open>Properties of the value objects, the providers and the resolver\<close>

text \<open>
  What holds of plans before they reach the store: canonical JSON and its digests, the state
  tables, the DAG validator, the event authorization, the two providers, the binding resolver, the
  materialised plan and the failure policy.
\<close>

text \<open>A digest does not depend on the order of the keys, at any depth: two documents that differ
  only in it have the same canonical and the same resolver SHA-256.
\<close>

lemma digest_ignores_key_order:
  assumes "json_same i j"
  shows "canonical_sha256 i = canonical_sha256 j \<and> resolver_sha256 i = resolver_sha256 j"
  using dumps_same(1) [OF assms] by (simp add: canonical_sha256_def resolver_sha256_def)

text \<open>The four JSON validators accept nested sets of Python values and agree where they accept: what
  the resolver's copy accepts, the event copy and the command freezer accept with the same result,
  and what either of these accepts, the model freezer accepts with the same result.
\<close>

lemma json_validators_nest:
  "(copy_strict_json v = Inr j \<longrightarrow> strict_json_copy v = Inr j \<and> freeze_command_json v = Inr j)
   \<and> (strict_json_copy v = Inr j \<longrightarrow> freeze_json v = Inr j)
   \<and> (freeze_command_json v = Inr j \<longrightarrow> freeze_json v = Inr j)"
  using copy_strict_strict_copy(1) strict_copy_freeze(1) copy_strict_freeze_command(1)
    freeze_command_freeze(1) by blast

text \<open>C28: validating the Python object of a frozen JSON value gives the value back, whichever validator reads it.\<close>

theorem json_round_trip:
  "freeze_json (py_of_json j) = Inr j \<and> strict_json_copy (py_of_json j) = Inr j
   \<and> copy_strict_json (py_of_json j) = Inr j \<and> freeze_command_json (py_of_json j) = Inr j"
  by simp

text \<open>
  A node that starts anywhere but in \<open>RUNNING\<close>, \<open>WAITING_RECONCILIATION\<close> or \<open>SUCCEEDED\<close> reaches
  these states only through a claim, and between claims it moves at most three times.
\<close>

lemma node_lifecycle:
  assumes "node_path (s # ss)"
  shows "(s \<notin> {N_RUNNING, N_WAITING_RECONCILIATION, N_SUCCEEDED} \<and>
            last (s # ss) \<in> {N_RUNNING, N_WAITING_RECONCILIATION, N_SUCCEEDED} \<longrightarrow> N_RUNNING \<in> set (s # ss))
       \<and> (N_RUNNING \<notin> set (butlast (s # ss)) \<longrightarrow> length ss \<le> 3)"
proof
  show "s \<notin> {N_RUNNING, N_WAITING_RECONCILIATION, N_SUCCEEDED} \<and>
            last (s # ss) \<in> {N_RUNNING, N_WAITING_RECONCILIATION, N_SUCCEEDED} \<longrightarrow> N_RUNNING \<in> set (s # ss)"
    using node_path_needs_claim [OF assms] by simp
  show "N_RUNNING \<notin> set (butlast (s # ss)) \<longrightarrow> length ss \<le> 3"
    using node_path_unclaimed_bound [OF assms] node_rank_le [of s] by fastforce
qed

text \<open>A node whose bindings read only from its own dependencies, condition by condition.\<close>

lemma binding_accepted_iff:
  assumes "'''' \<notin> set ds"
  shows "list_all (\<lambda>x. case x of Key k \<Rightarrow> k \<noteq> '''' | Index i \<Rightarrow> 0 \<le> i) (ib_path b)
       \<and> (case ib_kind b of
                    B_PLAN_INPUT \<Rightarrow> ib_upstream b = None \<and> ib_literal b = JNull
                  | B_NODE_OUTPUT \<Rightarrow> ib_upstream b \<in> Some ` set ds \<and> ib_literal b = JNull
                  | B_LITERAL \<Rightarrow> ib_upstream b = None \<and> ib_path b = [])
     \<longleftrightarrow> binding_wf b \<and> (ib_kind b = B_NODE_OUTPUT \<longrightarrow>
          (case ib_upstream b of None \<Rightarrow> False | Some u \<Rightarrow> u \<in> set ds))"
  using assms unfolding binding_wf_def path_part_ok_def
  by (cases "ib_kind b"; cases "ib_upstream b") auto

lemma node_accepted_iff:
  "candidate_plan_node n = Inr n \<and> known_upstreams n \<longleftrightarrow> cn_logical_key n \<noteq> ''''
     \<and> (case cn_node_kind n of
          K_CONTROL \<Rightarrow> cn_skill_id n = None
        | K_SKILL \<Rightarrow> (\<exists>k. cn_skill_id n = Some k \<and> k \<noteq> ''''))
     \<and> '''' \<notin> set (cn_depends_on n) \<and> distinct (cn_depends_on n) \<and> '''' \<notin> set (dkeys (cn_input_bindings n))
     \<and> list_all (\<lambda>b. list_all (\<lambda>x. case x of Key k \<Rightarrow> k \<noteq> '''' | Index i \<Rightarrow> 0 \<le> i) (ib_path b)
          \<and> (case ib_kind b of
                    B_PLAN_INPUT \<Rightarrow> ib_upstream b = None \<and> ib_literal b = JNull
                  | B_NODE_OUTPUT \<Rightarrow> ib_upstream b \<in> Some ` set (cn_depends_on n) \<and> ib_literal b = JNull
                  | B_LITERAL \<Rightarrow> ib_upstream b = None \<and> ib_path b = []))
        (dvalues (cn_input_bindings n))"
proof (cases "'''' \<in> set (cn_depends_on n)")
  case False
  have all_bound: "list_all (\<lambda>(k, b). binding_wf b) bs \<longleftrightarrow> list_all binding_wf (dvalues bs)"
    for bs :: "(string, input_binding) dict"
    by (induction bs) auto
  show ?thesis
    unfolding candidate_plan_node_eq_Inr known_upstreams_def binding_accepted_iff [OF False] all_bound
    unfolding list_all_iff by blast
qed (simp add: candidate_plan_node_eq_Inr)

text \<open>
  C29: the proposal validator accepts exactly the following proposals, and returns them unchanged: a
  provider and a semantic version; a non-empty, acyclic set of nodes with distinct keys; each node
  with a key, a Skill exactly when it is a Skill node, named and distinct dependencies that are all
  nodes of the proposal, and named parameters; each parameter bound by well-formed path parts, to
  the planning input or to the output of a declared dependency, then without a literal, or to a
  literal, then without a path.
\<close>

theorem proposal_accepted_iff:
  "candidate_plan_proposal p = Inr q \<longleftrightarrow>
     q = p \<and> cp_provider_id p \<noteq> '''' \<and> semantic_version (cp_provider_version p) \<and> cp_nodes p \<noteq> []
     \<and> distinct (map cn_logical_key (cp_nodes p))
     \<and> list_all (\<lambda>n. cn_logical_key n \<noteq> ''''
          \<and> (case cn_node_kind n of
               K_CONTROL \<Rightarrow> cn_skill_id n = None
             | K_SKILL \<Rightarrow> (\<exists>k. cn_skill_id n = Some k \<and> k \<noteq> ''''))
          \<and> '''' \<notin> set (cn_depends_on n) \<and> distinct (cn_depends_on n)
          \<and> set (cn_depends_on n) \<subseteq> set (map cn_logical_key (cp_nodes p))
          \<and> '''' \<notin> set (dkeys (cn_input_bindings n))
          \<and> list_all (\<lambda>b. list_all (\<lambda>x. case x of Key k \<Rightarrow> k \<noteq> '''' | Index i \<Rightarrow> 0 \<le> i) (ib_path b)
               \<and> (case ib_kind b of
                    B_PLAN_INPUT \<Rightarrow> ib_upstream b = None \<and> ib_literal b = JNull
                  | B_NODE_OUTPUT \<Rightarrow> ib_upstream b \<in> Some ` set (cn_depends_on n) \<and> ib_literal b = JNull
                  | B_LITERAL \<Rightarrow> ib_upstream b = None \<and> ib_path b = []))
             (dvalues (cn_input_bindings n))) (cp_nodes p)
     \<and> acyclic (depends (cp_nodes p))"
proof -
  have "candidate_plan_proposal p = Inr q \<longleftrightarrow>
     q = p \<and> cp_provider_id p \<noteq> '''' \<and> semantic_version (cp_provider_version p) \<and> cp_nodes p \<noteq> []
     \<and> distinct (map cn_logical_key (cp_nodes p))
     \<and> (\<forall>n\<in>set (cp_nodes p). (candidate_plan_node n = Inr n \<and> known_upstreams n)
          \<and> set (cn_depends_on n) \<subseteq> set (map cn_logical_key (cp_nodes p)))
     \<and> acyclic (depends (cp_nodes p))"
    unfolding candidate_plan_proposal_def by (auto simp: outcome validate_dag_eq_Inr)
  then show ?thesis unfolding node_accepted_iff list_all_iff [of _ "cp_nodes p"] by blast
qed

text \<open>
  C30: on a dependency table closed under its keys the depth-first search with its two sets ends, and
  reports a cycle exactly when there is one; it never runs into a missing key.
\<close>

theorem cycle_search_exact:
  assumes "closed_deps D"
  shows "(visit_all D [] [] (dkeys D) = Inl Cycle \<longleftrightarrow> (\<exists>k. (k, k) \<in> (dep_rel D)\<^sup>+))
       \<and> (\<forall>k. visit_all D [] [] (dkeys D) \<noteq> Inl (MissingNode k))"
  using assms by (rule search_refuses_exactly_cycles)

theorem cycle_search_exact_witness:
  "(''a'', ''a'') \<in> (dep_rel [(''a'', [''b'']), (''b'', [''a''])])\<^sup>+
   \<and> visit_all [(''a'', [''b'']), (''b'', [''a''])] [] [] [''a'', ''b''] = Inl Cycle"
proof -
  have edges: "(''a'', ''b'') \<in> dep_rel [(''a'', [''b'']), (''b'', [''a''])]"
    "(''b'', ''a'') \<in> dep_rel [(''a'', [''b'']), (''b'', [''a''])]"
    by (simp_all add: dep_rel_def)
  then have "(''a'', ''a'') \<in> (dep_rel [(''a'', [''b'']), (''b'', [''a''])])\<^sup>+" by (meson trancl.simps)
  then show ?thesis
    using cycle_search_exact [of "[(''a'', [''b'']), (''b'', [''a''])]"]
    by (auto simp: closed_deps_def)
qed

text \<open>An accepted input binding has the shape its kind requires, with non-empty keys and non-negative indexes.\<close>

lemma binding_shape:
  assumes "input_binding_create kind path upstream literal = Inr b"
  shows "binding_wf b"
  using assms by (rule input_binding_create_wf)

text \<open>An event authorization built from an event and its provenance is verified, names exactly that
  event, and exists only when the payload digest of the event is the one recomputed from its fields
  and the provenance carries the same digest and source.
\<close>

lemma event_authorization_sound:
  assumes "build_event_authorization_context e p = Inr a"
  shows "ev_payload_digest e = calculate_payload_digest e \<and> pv_payload_digest p = ev_payload_digest e
       \<and> pv_source p = ev_source e \<and> provenance_verified a
       \<and> ea_identity a = (ev_event_id e, pv_provenance_id p, calculate_payload_digest e, ev_observed_version e)"
  using build_event_authorization_sound [OF assms] by simp

definition demo_event :: inventory_event where
  "demo_event =
     (let e = \<lparr>ev_event_id = ''e'', ev_room_id = ''r'', ev_product_id = ''p'', ev_observed_version = 1,
              ev_occurred_at = 0, ev_source = ''s'', ev_payload_digest = ''''\<rparr>
      in e\<lparr>ev_payload_digest := calculate_payload_digest e\<rparr>)"

definition demo_provenance :: ingress_provenance where
  "demo_provenance = \<lparr>pv_provenance_id = ''v'', pv_profile_id = ''f'', pv_transport = ''m'', pv_topic = ''t'',
     pv_source = ''s'', pv_received_at = 0, pv_payload_digest = ev_payload_digest demo_event\<rparr>"

lemma demo_event_digest: "calculate_payload_digest demo_event = ev_payload_digest demo_event"
  by (simp add: demo_event_def Let_def calculate_payload_digest_def canonical_payload_def)

lemma demo_event_sel [simp]:
  "ev_event_id demo_event = ''e''" "ev_room_id demo_event = ''r''" "ev_product_id demo_event = ''p''"
  "ev_observed_version demo_event = 1" "ev_source demo_event = ''s''"
  "is_sha256 (ev_payload_digest demo_event)"
  by (simp_all add: demo_event_def Let_def calculate_payload_digest_def canonical_sha256_def)

text \<open>Without the factory's token, validation accepts only an authorization that is already verified, unchanged.\<close>

lemma authorization_not_forged:
  assumes "event_authorization_validate False a = Inr b"
  shows "provenance_verified a \<and> b = a"
  using assms by (rule no_forged_authorization)

text \<open>Two (room, product) pairs have the same resource key only if they are the same pair: encoding never merges two locks.\<close>

lemma resource_key_injective:
  "product_resource_key r p = product_resource_key r' p' \<longleftrightarrow> r = r' \<and> p = p'"
  by (rule product_resource_key_inj)

text \<open>For every valid card batch the provider's proposal passes the validator: one node per product,
  at most three, between the preparing and the collecting node.
\<close>

lemma card_batch_proposal_valid:
  assumes "card_batch_wf c"
  shows "\<exists>p. propose_card_batch c = Inr p \<and> cp_nodes p = card_batch_nodes c
     \<and> length (cp_nodes p) = min 3 (length (lp_items (cb_live_plan c))) + 2"
  using propose_card_batch_valid [OF assms] by (force simp: card_batch_nodes_def Let_def)

text \<open>The resolver reads only what a binding may read. A node output comes from a declared
  dependency, recorded for the very plan version being executed; a plan input is a part of the JSON
  of the planning input.
\<close>

lemma resolver_reads_only_declared:
  assumes "resolve_binding b input outputs declared v = Inr j"
  shows "(binding_kind_of b = Inr B_NODE_OUTPUT \<longrightarrow>
            (\<exists>u n out. rb_upstream b = Some u \<and> u \<in> set declared \<and> v = PyInt n \<and> 1 \<le> n
               \<and> dget outputs u = Some (Versioned (PyInt n) out)))
       \<and> (binding_kind_of b = Inr B_PLAN_INPUT \<longrightarrow> j \<in> json_parts (dump_planning_input input))"
  using resolve_node_output_sound [OF assms] resolve_plan_input_sound [OF assms] by blast

definition demo_binding :: raw_binding where
  "demo_binding = \<lparr>rb_kind = PyStr ''NODE_OUTPUT'', rb_path = PyTuple [PyStr ''k'', PyInt 0],
     rb_upstream = Some ''u'', rb_literal = PyNone\<rparr>"

definition demo_outputs :: "(string, dependency_output) dict" where
  "demo_outputs = [(''u'', Versioned (PyInt 2) (PyDict [(PyStr ''k'', PyList [PyInt 7])]))]"

lemma demo_binding_resolves:
  "resolve_binding demo_binding (CardBatch demo_batch) demo_outputs [''u''] (PyInt 2) = Inr (JInt 7)"
  by (simp add: resolve_binding_def demo_binding_def demo_outputs_def validate_runtime_path_def is_str_def
      binding_kind_of_def enum_call_def binding_kind_members_def node_output_source_def
      validate_plan_version_def traverse_part_def copy_json_def)

text \<open>The fingerprint of a materialised input is the digest of its parameters, so the value object's
  own check accepts it, whatever the bindings were.
\<close>

lemma materialized_input_round_trip:
  assumes "materialize bindings input outputs declared v = Inr m"
  shows "mi_fingerprint m = resolver_sha256 (mi_parameters m)
       \<and> materialized_node_input (py_of_json (mi_parameters m)) (mi_fingerprint m) = Inr m"
proof -
  obtain ps where "m = \<lparr>mi_parameters = JObj ps, mi_fingerprint = resolver_sha256 (JObj ps)\<rparr>"
    using assms by (auto simp: materialize_eq outcome)
  then show ?thesis by (simp add: materialized_node_input_def del: py_of_json.simps)
qed

lemma demo_plan_materializes:
  "materialized_plan_init (CardBatch demo_batch) demo_proposal (mp_capabilities demo_plan) = Inr demo_plan"
proof -
  have "revalidate_planning_input (CardBatch demo_batch) = Inr (CardBatch demo_batch)"
    using demo_revalidated by (simp add: revalidate_planning_input_def demo_batch_def)
  then show ?thesis
    by (simp add: materialized_plan_init_def model_checked_def demo_proposal_accepted check_fixed_proposal_def)
      (simp add: demo_plan_def demo_proposal_def demo_nodes node_by_key_def card_key_def capability_matches_def
        expected_control_types_def control_capability_def control_node_def card_node_def skill_node_def
        demo_card_capability_def insert_commute)
qed

text \<open>A plan that claims the emergency priority is the fixed one: the emergency provider's identity and
  its five nodes in their order, with the same kinds, skills and dependencies.
\<close>

lemma emergency_plan_is_canonical:
  assumes "materialized_plan_init i p caps = Inr m" and "mp_planning_input m = Emergency e"
  shows "cp_provider_id (mp_proposal m) = ''canonical-sold-out-emergency''
       \<and> map node_shape (cp_nodes (mp_proposal m)) = map node_shape emergency_nodes"
  using assms by (rule emergency_proposal_fixed)

definition demo_emergency :: emergency_input where
  "demo_emergency = \<lparr>em_room_id = ''r'', em_trace_id = ''t'', em_root_plan_run_id = ''a'',
     em_parent_plan_run_id = ''a'', em_trigger_event_id = ''e'', em_event = demo_event,
     em_provenance = demo_provenance, em_product_id = ''p'', em_expected_version = 1, em_run_key = ''''\<rparr>"

definition demo_emergency_proposal :: candidate_proposal where
  "demo_emergency_proposal = \<lparr>cp_provider_id = ''canonical-sold-out-emergency'', cp_provider_version = ''1.0.0'',
     cp_nodes = emergency_nodes\<rparr>"

definition demo_emergency_capabilities :: "(string, plan_capability) dict" where
  "demo_emergency_capabilities =
     (let skill = (\<lambda>s. \<lparr>rc_node_type = ''SKILL'', rc_skill_id = Some s, rc_skill_version = Some ''1'',
        rc_lifecycle = [], rc_risk_level = Some ''low'', rc_max_attempt_seconds = Some 30,
        rc_resource_keys = [], rc_max_concurrency = 1\<rparr>) in
      [(''validate-sold-out-event'', control_capability ''VALIDATE_SOLD_OUT_EVENT''),
       (''mark-sold-out'', skill ''handle_sold_out_event''),
       (''recommend-backup-product'', skill ''recommend_backup_product''),
       (''generate-sold-out-prompt'', skill ''generate_on_live_prompt''),
       (''collect-sold-out-response'', control_capability ''COLLECT_SOLD_OUT_RESPONSE'')])"

lemma json_eq_self_emergency: "json_eq (dump_proposal demo_emergency_proposal) (dump_proposal demo_emergency_proposal)"
  by (simp add: dump_proposal_def dump_node_def dump_binding_def demo_emergency_proposal_def emergency_nodes_def
      control_node_def skill_node_def plan_input_binding_def)

lemma demo_emergency_materializes:
  "\<exists>m e. materialized_plan_init (Emergency demo_emergency) demo_emergency_proposal demo_emergency_capabilities = Inr m
     \<and> mp_planning_input m = Emergency e"
proof -
  have p: "propose_sold_out m = Inr demo_emergency_proposal" for m
    using propose_sold_out_valid [of m]
    by (auto simp: propose_sold_out_def demo_emergency_proposal_def dest: candidate_plan_proposal_id)
  then have accepted: "candidate_plan_proposal demo_emergency_proposal = Inr demo_emergency_proposal"
    by (simp add: propose_sold_out_def demo_emergency_proposal_def)
  have auth: "event_authentic demo_event"
    by (simp add: event_authentic_def event_fields_ok_def demo_event_digest)
  have "\<exists>e. close_emergency_facts demo_emergency = Inr e"
    using auth
    by (simp add: close_emergency_facts_def demo_emergency_def py_len_def revalidate_event_eq_Inr [THEN iffD2]
        revalidate_provenance_def provenance_fields_ok_def demo_provenance_def Let_def)
  then obtain e where "revalidate_planning_input (Emergency demo_emergency) = Inr (Emergency e)"
    by (auto simp: revalidate_planning_input_def)
  then show ?thesis
    by (simp add: materialized_plan_init_def model_checked_def accepted check_fixed_proposal_def p
        json_eq_self_emergency)
      (simp add: demo_emergency_capabilities_def Let_def demo_emergency_proposal_def emergency_nodes_def
        node_by_key_def capability_matches_def expected_control_types_def control_capability_def control_node_def
        skill_node_def insert_commute)
qed

text \<open>
  C32: what the failure policy decides. It needs an attempt number from 1 and aware times. It sends an
  unknown side effect, and nothing else, to a human, and never skips a node. It retries exactly a
  transient or rate-limited failure of the card Skill in its first or second attempt when the retry
  and the time it may take end before the deadline; everything else fails the plan. The retry
  waits as long as a rate-limiting server asks; otherwise the delay doubles per attempt, plus a jitter under
  one second.
\<close>

theorem failure_policy_bounds:
  assumes "decide_failure f c attempt deadline now = Inr r"
  shows "(r = WaitHuman \<longleftrightarrow> ff_category f = SIDE_EFFECT_UNKNOWN) \<and> r \<noteq> SkipNode
     \<and> (\<exists>n d s. attempt = PyInt n \<and> 1 \<le> n \<and> deadline = Aware d \<and> now = Aware s
          \<and> (\<forall>t. r = Retry t \<longleftrightarrow>
               rc_node_type c = ''SKILL'' \<and> rc_skill_id c = Some ''generate_product_card''
               \<and> ff_category f \<in> {TRANSIENT_INFRA, RATE_LIMITED} \<and> n \<in> {1, 2} \<and> t = s + retry_delay f n
               \<and> t + seconds (case rc_max_attempt_seconds c of None \<Rightarrow> 0 | Some m \<Rightarrow> m) < d)
          \<and> (if ff_category f = RATE_LIMITED \<and> ff_retry_after_seconds f \<noteq> None
             then Some (retry_delay f n) = map_option seconds (ff_retry_after_seconds f)
             else seconds (2 ^ nat (n - 1)) \<le> retry_delay f n
               \<and> retry_delay f n < seconds (2 ^ nat (n - 1)) + seconds 1))"
proof -
  obtain n d s where n: "attempt = PyInt n" "1 \<le> n" and time: "deadline = Aware d" "now = Aware s"
    using assms by (cases attempt) (auto simp: decide_failure_def outcome split: if_splits)
  let ?retry = "rc_node_type c = ''SKILL'' \<and> rc_skill_id c = Some generate_product_card
    \<and> ff_category f \<in> {TRANSIENT_INFRA, RATE_LIMITED} \<and> n < 3
    \<and> s + retry_delay f n + seconds (case rc_max_attempt_seconds c of None \<Rightarrow> 0 | Some m \<Rightarrow> m) < d"
  have r: "r = (if ff_category f = SIDE_EFFECT_UNKNOWN then WaitHuman
      else if ?retry then Retry (s + retry_delay f n) else FailPlan)"
    using assms n time by (auto simp: decide_failure_def max_read_attempts_def Let_def split: if_splits)
  have small: "n < 3 \<longleftrightarrow> n \<in> {1, 2}" using n(2) by auto
  have delay: "if ff_category f = RATE_LIMITED \<and> ff_retry_after_seconds f \<noteq> None
      then Some (retry_delay f n) = map_option seconds (ff_retry_after_seconds f)
      else seconds (2 ^ nat (n - 1)) \<le> retry_delay f n \<and> retry_delay f n < seconds (2 ^ nat (n - 1)) + seconds 1"
    using retry_delay_backoff [of f n] by (auto simp: retry_delay_def)
  have kinds: "r = WaitHuman \<longleftrightarrow> ff_category f = SIDE_EFFECT_UNKNOWN" "r \<noteq> SkipNode" by (simp_all add: r)
  have retry: "r = Retry t \<longleftrightarrow> rc_node_type c = ''SKILL'' \<and> rc_skill_id c = Some ''generate_product_card''
      \<and> ff_category f \<in> {TRANSIENT_INFRA, RATE_LIMITED} \<and> n \<in> {1, 2} \<and> t = s + retry_delay f n
      \<and> t + seconds (case rc_max_attempt_seconds c of None \<Rightarrow> 0 | Some m \<Rightarrow> m) < d" for t
    unfolding small [symmetric] generate_product_card_def [symmetric] by (cases "ff_category f = SIDE_EFFECT_UNKNOWN") (auto simp: r)
  show ?thesis
    by (rule conjI [OF kinds(1) conjI [OF kinds(2)]], rule exI [of _ n], rule exI [of _ d], rule exI [of _ s])
      (rule conjI [OF n(1) conjI [OF n(2) conjI [OF time(1) conjI [OF time(2) conjI [OF allI [OF retry] delay]]]]])
qed

definition demo_failure :: "failure_category \<Rightarrow> failure_fact" where
  "demo_failure g = \<lparr>ff_category = g, ff_external_code = ''429'', ff_side_effect_state = NOT_SENT,
     ff_attempt_id = ''a'', ff_retry_after_seconds = Some 5\<rparr>"

theorem failure_policy_bounds_witness:
  "decide_failure (demo_failure RATE_LIMITED) (demo_card_capability ''p'') (PyInt 2) (Aware 60000000) (Aware 7)
     = Inr (Retry 5000007) \<and> retry_delay (demo_failure RATE_LIMITED) 2 = seconds 5
   \<and> decide_failure (demo_failure SIDE_EFFECT_UNKNOWN) (demo_card_capability ''p'') (PyInt 1) (Aware 60000000) (Aware 7)
     = Inr WaitHuman"
proof -
  have a: "decide_failure (demo_failure RATE_LIMITED) (demo_card_capability ''p'') (PyInt 2)
      (Aware 60000000) (Aware 7) = Inr (Retry 5000007)"
    by (simp add: decide_failure_def demo_card_capability_def max_read_attempts_def retry_delay_def
        seconds_def Let_def demo_failure_def)
  obtain r where b: "decide_failure (demo_failure SIDE_EFFECT_UNKNOWN) (demo_card_capability ''p'') (PyInt 1)
      (Aware 60000000) (Aware 7) = Inr r"
    by (simp add: decide_failure_def demo_failure_def)
  have "r = WaitHuman" using failure_policy_bounds [OF b] by (simp add: demo_failure_def)
  moreover have "retry_delay (demo_failure RATE_LIMITED) 2 = seconds 5"
    using failure_policy_bounds [OF a] by (auto simp: demo_failure_def)
  ultimately show ?thesis using a b by simp
qed

end
