(* ===== verification/EventStore.thy ===== *)
theory EventStore
  imports Materialize
begin

section \<open>The event store: inbox, occurrences and applications\<close>

text \<open>
  \<open>InMemoryEventStore\<close> of \<open>src/plan_engine/event_store.py\<close>. Its five dictionaries are the fields of
  \<open>event_store\<close>, its lock makes each method one step, \<open>uuid4()\<close> is the argument \<open>u\<close> as in the plan
  store. Deliveries and failure facts are values of their models. An event or a provenance may have
  been altered with \<open>model_copy\<close>, so it is any record, and a copied snapshot validates it again;
  \<open>EventRejected\<close> is the \<open>ValidationError\<close> of a record that is refused.
\<close>

subsection \<open>Errors\<close>

datatype event_reason =
    EventDigest | ProvenanceDigest | ProvenanceSource | DeliveryTransport | OccurrenceTaken
  | CoordinateTaken | InboxStateMismatch | ClaimOnly | FailureMissing | FailureNotAllowed
  | SourceVersionConflict | ApplicationStateMismatch | AppliedVersionMissing | WriteOnce

datatype event_error =
    EventNotFound | EventInvariant event_reason | EventLease | EventArgument | EventTransition
  | EventRejected | EventKeyError

subsection \<open>Records\<close>

type_synonym transport_key = "string \<times> string \<times> int option \<times> int option"

record event_delivery =
  dl_occurrence_id :: string
  dl_transport :: string
  dl_topic :: string
  dl_partition :: "int option"
  dl_offset :: "int option"
  dl_received_at :: int

definition non_negative :: "int option \<Rightarrow> bool" where
  "non_negative x = (case x of None \<Rightarrow> True | Some n \<Rightarrow> 0 \<le> n)"

definition event_delivery_create ::
  "string \<Rightarrow> string \<Rightarrow> string \<Rightarrow> int option \<Rightarrow> int option \<Rightarrow> pytime \<Rightarrow> event_error + event_delivery" where
  "event_delivery_create i transport topic part offset received_at =
     rbind (guard (i \<noteq> '''' \<and> transport \<noteq> '''' \<and> topic \<noteq> '''' \<and> non_negative part
       \<and> non_negative offset) EventRejected) (\<lambda>_.
     rbind (aware_utc EventRejected received_at) (\<lambda>us.
     Inr \<lparr>dl_occurrence_id = i, dl_transport = transport, dl_topic = topic,
          dl_partition = part, dl_offset = offset, dl_received_at = us\<rparr>))"

definition delivery_key :: "event_delivery \<Rightarrow> transport_key" where
  "delivery_key d = (dl_transport d, dl_topic d, dl_partition d, dl_offset d)"

record inbox_record =
  ir_event :: inventory_event
  ir_provenance :: ingress_provenance
  ir_state :: inbox_state
  ir_owner :: "string option"
  ir_expires_at :: "int option"
  ir_token :: nat
  ir_failure :: "failure_fact option"
  ir_created_at :: int
  ir_updated_at :: int

definition lease_shape_ok :: "inbox_record \<Rightarrow> bool" where
  "lease_shape_ok r \<longleftrightarrow> ir_created_at r \<le> ir_updated_at r
     \<and> (if ir_state r = I_PROCESSING then ir_owner r \<noteq> None \<and> ir_expires_at r \<noteq> None
        else ir_owner r = None \<and> ir_expires_at r = None)"

definition inbox_record_init :: "inbox_record \<Rightarrow> event_error + inbox_record" where
  "inbox_record_init r =
     rbind (guard (min_length_1 (ir_owner r) \<and> lease_shape_ok r) EventRejected) (\<lambda>_. Inr r)"

record occurrence_record =
  oc_id :: string
  oc_event_id :: string
  oc_payload_digest :: string
  oc_transport :: string
  oc_topic :: string
  oc_partition :: "int option"
  oc_offset :: "int option"
  oc_kind :: occurrence_kind
  oc_received_at :: int

definition occurrence_key :: "occurrence_record \<Rightarrow> transport_key" where
  "occurrence_key r = (oc_transport r, oc_topic r, oc_partition r, oc_offset r)"

definition occurrence_record_init :: "occurrence_record \<Rightarrow> event_error + occurrence_record" where
  "occurrence_record_init r =
     rbind (guard (oc_id r \<noteq> '''' \<and> oc_event_id r \<noteq> '''' \<and> is_sha256 (oc_payload_digest r)
       \<and> oc_transport r \<noteq> '''' \<and> oc_topic r \<noteq> '''' \<and> non_negative (oc_partition r)
       \<and> non_negative (oc_offset r)) EventRejected) (\<lambda>_. Inr r)"

record application_record =
  ap_id :: string
  ap_event_id :: string
  ap_root :: string
  ap_source_version :: int
  ap_state :: app_state
  ap_emergency :: "string option"
  ap_applied_version :: "int option"
  ap_impact :: "json option"
  ap_failure :: "failure_fact option"
  ap_created_at :: int
  ap_updated_at :: int

definition application_fields_ok :: "application_record \<Rightarrow> bool" where
  "application_fields_ok r \<longleftrightarrow> ap_id r \<noteq> '''' \<and> ap_event_id r \<noteq> '''' \<and> ap_root r \<noteq> ''''
     \<and> 1 \<le> ap_source_version r \<and> min_length_1 (ap_emergency r)
     \<and> (case ap_applied_version r of None \<Rightarrow> True | Some n \<Rightarrow> 1 \<le> n)
     \<and> ap_created_at r \<le> ap_updated_at r"

definition application_record_init :: "application_record \<Rightarrow> event_error + application_record" where
  "application_record_init r = rbind (guard (application_fields_ok r) EventRejected) (\<lambda>_. Inr r)"

definition nested_ok :: "inbox_record \<Rightarrow> bool" where
  "nested_ok r \<longleftrightarrow> event_authentic (ir_event r) \<and> provenance_fields_ok (ir_provenance r)"

text \<open>\<open>_copy_inbox\<close>: the old snapshot is dumped, updated and validated as a whole.\<close>

definition copy_inbox :: "inbox_record \<Rightarrow> (inbox_record \<Rightarrow> inbox_record) \<Rightarrow> event_error + inbox_record" where
  "copy_inbox r f = rbind (guard (nested_ok r) EventRejected) (\<lambda>_. inbox_record_init (f r))"

subsection \<open>The store\<close>

record event_store =
  es_inbox :: "(string, inbox_record) dict"
  es_occurrences :: "(string, occurrence_record list) dict"
  es_by_id :: "(string, occurrence_record) dict"
  es_by_key :: "(transport_key, string) dict"
  es_applications :: "(string \<times> string, application_record) dict"
  es_draws :: nat

definition empty_event_store :: event_store where
  "empty_event_store = \<lparr>es_inbox = [], es_occurrences = [], es_by_id = [], es_by_key = [],
     es_applications = [], es_draws = 0\<rparr>"

type_synonym 'a ev_outcome = "(event_error + 'a) \<times> event_store"

definition put_inbox :: "inbox_record \<Rightarrow> event_store \<Rightarrow> event_store" where
  "put_inbox r s = s\<lparr>es_inbox := dset (ev_event_id (ir_event r)) r (es_inbox s)\<rparr>"

definition put_application :: "application_record \<Rightarrow> event_store \<Rightarrow> event_store" where
  "put_application a s =
     s\<lparr>es_applications := dset (ap_event_id a, ap_root a) a (es_applications s)\<rparr>"

definition put_occurrence :: "occurrence_record \<Rightarrow> event_store \<Rightarrow> event_store" where
  "put_occurrence r s = s\<lparr>
     es_occurrences := dset (oc_event_id r)
       ((case dget (es_occurrences s) (oc_event_id r) of None \<Rightarrow> [] | Some rs \<Rightarrow> rs) @ [r])
       (es_occurrences s),
     es_by_id := dset (oc_id r) r (es_by_id s),
     es_by_key := dset (occurrence_key r) (oc_id r) (es_by_key s)\<rparr>"

definition ev_guard :: "bool \<Rightarrow> event_reason \<Rightarrow> event_error + unit" where
  "ev_guard ok r = guard ok (EventInvariant r)"

definition ev_utc :: "pytime \<Rightarrow> event_error + int" where
  "ev_utc t = aware_utc EventArgument t"

subsection \<open>Registration\<close>

definition validate_registration ::
  "inventory_event \<Rightarrow> ingress_provenance \<Rightarrow> event_delivery \<Rightarrow> event_error + unit" where
  "validate_registration e p d =
     rbind (ev_guard (calculate_payload_digest e = ev_payload_digest e) EventDigest) (\<lambda>_.
     rbind (ev_guard (pv_payload_digest p = ev_payload_digest e) ProvenanceDigest) (\<lambda>_.
     rbind (ev_guard (pv_source p = ev_source e) ProvenanceSource) (\<lambda>_.
     ev_guard (dl_transport d = pv_transport p \<and> dl_topic d = pv_topic p) DeliveryTransport)))"

text \<open>The result of a registration: whether the event is new, its inbox record, this occurrence.\<close>

type_synonym registration = "bool \<times> inbox_record \<times> occurrence_record"

definition same_delivery :: "occurrence_record \<Rightarrow> inventory_event \<Rightarrow> event_delivery \<Rightarrow> bool" where
  "same_delivery r e d \<longleftrightarrow> oc_event_id r = ev_event_id e \<and> oc_payload_digest r = ev_payload_digest e
     \<and> occurrence_key r = delivery_key d \<and> oc_received_at r = dl_received_at d"

definition replay_delivery_if_present ::
  "inventory_event \<Rightarrow> event_delivery \<Rightarrow> event_store \<Rightarrow> event_error + registration option" where
  "replay_delivery_if_present e d s =
     (case dget (es_by_id s) (dl_occurrence_id d) of
        None \<Rightarrow> Inr None
      | Some r \<Rightarrow>
          rbind (ev_guard (same_delivery r e d) OccurrenceTaken) (\<lambda>_.
          rbind (of_option EventKeyError (dget (es_inbox s) (ev_event_id e))) (\<lambda>inbox.
          Inr (Some (False, inbox, r)))))"

definition assert_delivery_identity_available :: "event_delivery \<Rightarrow> event_store \<Rightarrow> event_error + unit" where
  "assert_delivery_identity_available d s =
     ev_guard (dget (es_by_key s) (delivery_key d) \<in> {None, Some (dl_occurrence_id d)}) CoordinateTaken"

definition new_inbox :: "inventory_event \<Rightarrow> ingress_provenance \<Rightarrow> event_delivery \<Rightarrow> inbox_record" where
  "new_inbox e p d = \<lparr>ir_event = e, ir_provenance = p, ir_state = I_VERIFIED, ir_owner = None,
     ir_expires_at = None, ir_token = 0, ir_failure = None, ir_created_at = dl_received_at d,
     ir_updated_at = dl_received_at d\<rparr>"

definition conflicting :: "event_delivery \<Rightarrow> inbox_record \<Rightarrow> inbox_record" where
  "conflicting d r = r\<lparr>ir_state := I_CONFLICT, ir_owner := None, ir_expires_at := None,
     ir_token := ir_token r + (if ir_owner r \<noteq> None then 1 else 0),
     ir_updated_at := max (ir_updated_at r) (dl_received_at d)\<rparr>"

definition classify ::
  "inventory_event \<Rightarrow> ingress_provenance \<Rightarrow> event_delivery \<Rightarrow> event_store
     \<Rightarrow> event_error + bool \<times> inbox_record \<times> occurrence_kind" where
  "classify e p d s =
     (case dget (es_inbox s) (ev_event_id e) of
        None \<Rightarrow> rbind (inbox_record_init (new_inbox e p d)) (\<lambda>r. Inr (True, r, O_ACCEPTED))
      | Some old \<Rightarrow>
          if ev_payload_digest (ir_event old) = ev_payload_digest e then Inr (False, old, O_DUPLICATE)
          else rbind (copy_inbox old (conflicting d)) (\<lambda>r. Inr (False, r, O_CONFLICT)))"

definition new_occurrence ::
  "inventory_event \<Rightarrow> event_delivery \<Rightarrow> occurrence_kind \<Rightarrow> occurrence_record" where
  "new_occurrence e d k = \<lparr>oc_id = dl_occurrence_id d, oc_event_id = ev_event_id e,
     oc_payload_digest = ev_payload_digest e, oc_transport = dl_transport d, oc_topic = dl_topic d,
     oc_partition = dl_partition d, oc_offset = dl_offset d, oc_kind = k,
     oc_received_at = dl_received_at d\<rparr>"

definition register_event ::
  "inventory_event \<Rightarrow> ingress_provenance \<Rightarrow> event_delivery \<Rightarrow> event_store \<Rightarrow> registration ev_outcome" where
  "register_event e p d s = commit
     (rbind (validate_registration e p d) (\<lambda>_.
      rbind (replay_delivery_if_present e d s) (\<lambda>replay.
      case replay of
        Some res \<Rightarrow> Inr (res, None)
      | None \<Rightarrow>
          rbind (assert_delivery_identity_available d s) (\<lambda>_.
          rbind (classify e p d s) (\<lambda>(created, inbox, kind).
          rbind (occurrence_record_init (new_occurrence e d kind)) (\<lambda>r.
          Inr ((created, inbox, r), Some (inbox, r))))))))
     (\<lambda>(res, writes).
        (Inr res, case writes of None \<Rightarrow> s | Some (inbox, r) \<Rightarrow> put_occurrence r (put_inbox inbox s)))
     s"

subsection \<open>Queries\<close>

definition get_inbox :: "string \<Rightarrow> event_store \<Rightarrow> event_error + inbox_record" where
  "get_inbox i s = of_option EventNotFound (dget (es_inbox s) i)"

definition inbox_order :: "inbox_record \<Rightarrow> int \<times> string" where
  "inbox_order r = (ir_created_at r, ev_event_id (ir_event r))"

definition list_inbox :: "event_store \<Rightarrow> inbox_record list" where
  "list_inbox s = sort_key inbox_order (dvalues (es_inbox s))"

definition list_occurrences :: "string \<Rightarrow> event_store \<Rightarrow> event_error + occurrence_record list" where
  "list_occurrences i s =
     rbind (get_inbox i s) (\<lambda>_.
     Inr (case dget (es_occurrences s) i of None \<Rightarrow> [] | Some rs \<Rightarrow> rs))"

definition get_application :: "string \<Rightarrow> string \<Rightarrow> event_store \<Rightarrow> event_error + application_record" where
  "get_application i root_id s = of_option EventNotFound (dget (es_applications s) (i, root_id))"

definition list_applications :: "string option \<Rightarrow> event_store \<Rightarrow> application_record list" where
  "list_applications root_id s =
     sort_key (\<lambda>a. (ap_created_at a, ap_event_id a, ap_root a))
       (filter (\<lambda>a. root_id = None \<or> Some (ap_root a) = root_id) (dvalues (es_applications s)))"

subsection \<open>Claims of the inbox\<close>

definition claimable :: "string option \<Rightarrow> int \<Rightarrow> inbox_record \<Rightarrow> bool" where
  "claimable room now r \<longleftrightarrow> ir_created_at r \<le> now
     \<and> (case room of None \<Rightarrow> True | Some i \<Rightarrow> ev_room_id (ir_event r) = i)
     \<and> (ir_state r = I_VERIFIED
        \<or> ir_state r = I_PROCESSING \<and> (case ir_expires_at r of None \<Rightarrow> False | Some t \<Rightarrow> t \<le> now))"

definition claimed_by :: "string \<Rightarrow> int \<Rightarrow> int \<Rightarrow> inbox_record \<Rightarrow> inbox_record" where
  "claimed_by worker now lease r = r\<lparr>ir_state := I_PROCESSING, ir_owner := Some worker,
     ir_expires_at := Some (now + seconds lease), ir_token := ir_token r + 1,
     ir_updated_at := max (ir_updated_at r) now\<rparr>"

text \<open>\<open>min\<close> with a key is the first smallest element, as \<open>arg_min_list\<close> is.\<close>

definition claim_event ::
  "string option \<Rightarrow> string \<Rightarrow> pytime \<Rightarrow> int \<Rightarrow> event_store \<Rightarrow> (inbox_record \<times> nat) option ev_outcome" where
  "claim_event room worker now lease s = commit
     (rbind (guard (worker \<noteq> '''') EventArgument) (\<lambda>_.
      rbind (guard (1 \<le> lease) EventArgument) (\<lambda>_.
      rbind (ev_utc now) (\<lambda>us.
      let eligible = filter (claimable room us) (dvalues (es_inbox s)) in
      if eligible = [] then Inr None
      else let r = arg_min_list inbox_order eligible in
           rbind (if ir_state r = I_VERIFIED \<and> assert_inbox_transition (ir_state r) I_PROCESSING \<noteq> Inr ()
                  then Inl EventTransition else Inr ()) (\<lambda>_.
           rbind (copy_inbox r (claimed_by worker us lease)) (\<lambda>r'. Inr (Some r')))))))
     (\<lambda>claimed. case claimed of
        None \<Rightarrow> (Inr None, s)
      | Some r \<Rightarrow> (Inr (Some (r, ir_token r)), put_inbox r s))
     s"

definition claim_next ::
  "string \<Rightarrow> pytime \<Rightarrow> int \<Rightarrow> event_store \<Rightarrow> (inbox_record \<times> nat) option ev_outcome" where
  "claim_next worker now lease s = claim_event None worker now lease s"

definition claim_next_for_room ::
  "string \<Rightarrow> string \<Rightarrow> pytime \<Rightarrow> int \<Rightarrow> event_store \<Rightarrow> (inbox_record \<times> nat) option ev_outcome" where
  "claim_next_for_room worker room now lease s =
     (if room = '''' then (Inl EventArgument, s) else claim_event (Some room) worker now lease s)"

definition assert_current_claim :: "inbox_record \<Rightarrow> string \<Rightarrow> nat \<Rightarrow> int \<Rightarrow> event_error + unit" where
  "assert_current_claim r worker token now =
     guard (ir_state r = I_PROCESSING \<and> ir_owner r = Some worker \<and> ir_token r = token
       \<and> (case ir_expires_at r of None \<Rightarrow> False | Some t \<Rightarrow> now < t)) EventLease"

definition heartbeat ::
  "string \<Rightarrow> string \<Rightarrow> nat \<Rightarrow> pytime \<Rightarrow> int \<Rightarrow> event_store \<Rightarrow> inbox_record ev_outcome" where
  "heartbeat i worker token now lease s = commit
     (rbind (guard (1 \<le> lease) EventArgument) (\<lambda>_.
      rbind (ev_utc now) (\<lambda>us.
      rbind (get_inbox i s) (\<lambda>r.
      rbind (assert_current_claim r worker token us) (\<lambda>_.
      copy_inbox r (\<lambda>r. r\<lparr>
        ir_expires_at := map_option (max (us + seconds lease)) (ir_expires_at r),
        ir_updated_at := max (ir_updated_at r) us\<rparr>))))))
     (\<lambda>r. (Inr r, put_inbox r s))
     s"

definition transition_inbox ::
  "string \<Rightarrow> inbox_state \<Rightarrow> inbox_state \<Rightarrow> pytime \<Rightarrow> string option \<Rightarrow> nat option \<Rightarrow> failure_fact option
     \<Rightarrow> event_store \<Rightarrow> inbox_record ev_outcome" where
  "transition_inbox i expected target now worker token failure s = commit
     (rbind (ev_utc now) (\<lambda>us.
      rbind (get_inbox i s) (\<lambda>r.
      rbind (ev_guard (ir_state r = expected) InboxStateMismatch) (\<lambda>_.
      rbind (if ir_state r = I_PROCESSING then
               (case (worker, token) of
                  (Some w, Some n) \<Rightarrow> assert_current_claim r w n us
                | _ \<Rightarrow> Inl EventLease)
             else Inr ()) (\<lambda>_.
      rbind (ev_guard (target \<noteq> I_PROCESSING) ClaimOnly) (\<lambda>_.
      rbind (if assert_inbox_transition (ir_state r) target = Inr () then Inr () else Inl EventTransition) (\<lambda>_.
      rbind (ev_guard (\<not> (target = I_FAILED \<and> failure = None)) FailureMissing) (\<lambda>_.
      rbind (ev_guard (\<not> (failure \<noteq> None \<and> target \<notin> {I_FAILED, I_WAITING_HUMAN, I_VERIFIED}))
        FailureNotAllowed) (\<lambda>_.
      copy_inbox r (\<lambda>r. r\<lparr>ir_state := target, ir_owner := None, ir_expires_at := None,
        ir_failure := (case failure of None \<Rightarrow> ir_failure r | Some f \<Rightarrow> Some f),
        ir_updated_at := max (ir_updated_at r) us\<rparr>))))))))))
     (\<lambda>r. (Inr r, put_inbox r s))
     s"

subsection \<open>Applications of an event to a root plan\<close>

definition new_application :: "string \<Rightarrow> string \<Rightarrow> string \<Rightarrow> int \<Rightarrow> int \<Rightarrow> application_record" where
  "new_application i event_id root_id version now = \<lparr>ap_id = i, ap_event_id = event_id, ap_root = root_id,
     ap_source_version = version, ap_state = A_PENDING, ap_emergency = None,
     ap_applied_version = None, ap_impact = None, ap_failure = None, ap_created_at = now,
     ap_updated_at = now\<rparr>"

definition create_application ::
  "(nat \<Rightarrow> string) \<Rightarrow> string \<Rightarrow> string \<Rightarrow> int \<Rightarrow> pytime \<Rightarrow> event_store
     \<Rightarrow> (bool \<times> application_record) ev_outcome" where
  "create_application u event_id root_id version now s =
     (case ev_utc now of
        Inl e \<Rightarrow> (Inl e, s)
      | Inr us \<Rightarrow>
          if dget (es_inbox s) event_id = None then (Inl EventNotFound, s)
          else case dget (es_applications s) (event_id, root_id) of
            Some a \<Rightarrow>
              (rbind (ev_guard (ap_source_version a = version) SourceVersionConflict) (\<lambda>_.
                 Inr (False, a)), s)
          | None \<Rightarrow>
              let s1 = s\<lparr>es_draws := Suc (es_draws s)\<rparr> in commit
                (application_record_init (new_application (u (es_draws s)) event_id root_id version us))
                (\<lambda>a. (Inr (True, a), put_application a s1))
                s1)"

definition write_once :: "'a option \<Rightarrow> 'a option \<Rightarrow> ('a \<Rightarrow> 'a \<Rightarrow> bool) \<Rightarrow> event_error + unit" where
  "write_once existing incoming same = ev_guard (case (existing, incoming) of
       (Some x, Some y) \<Rightarrow> same x y | _ \<Rightarrow> True) WriteOnce"

definition or_else :: "'a option \<Rightarrow> 'a option \<Rightarrow> 'a option" where
  "or_else incoming existing = (case incoming of None \<Rightarrow> existing | Some x \<Rightarrow> Some x)"

text \<open>
  What a transition brings along: emergency plan run, applied version, impact analysis and failure.
\<close>

definition transition_application ::
  "string \<Rightarrow> string \<Rightarrow> app_state \<Rightarrow> app_state \<Rightarrow> pytime \<Rightarrow> string option \<Rightarrow> int option \<Rightarrow> json option
     \<Rightarrow> failure_fact option \<Rightarrow> event_store \<Rightarrow> application_record ev_outcome" where
  "transition_application i root_id expected target now emergency applied impact failure s = commit
     (rbind (ev_utc now) (\<lambda>us.
      rbind (get_application i root_id s) (\<lambda>a.
      rbind (ev_guard (ap_state a = expected) ApplicationStateMismatch) (\<lambda>_.
      rbind (if assert_application_transition (ap_state a) target = Inr () then Inr ()
             else Inl EventTransition) (\<lambda>_.
      rbind (ev_guard (\<not> (target = A_FAILED \<and> failure = None)) FailureMissing) (\<lambda>_.
      rbind (ev_guard (\<not> (failure \<noteq> None \<and> target \<notin> {A_FAILED, A_WAITING_RECONCILIATION}))
        FailureNotAllowed) (\<lambda>_.
      rbind (ev_guard (\<not> (target = A_APPLIED \<and> applied = None)) AppliedVersionMissing) (\<lambda>_.
      rbind (write_once (ap_emergency a) emergency (=)) (\<lambda>_.
      rbind (write_once (ap_applied_version a) applied (=)) (\<lambda>_.
      rbind (write_once (ap_impact a) impact json_eq) (\<lambda>_.
      application_record_init (a\<lparr>ap_state := target, ap_updated_at := max (ap_updated_at a) us,
        ap_emergency := or_else emergency (ap_emergency a),
        ap_applied_version := or_else applied (ap_applied_version a),
        ap_impact := or_else impact (ap_impact a),
        ap_failure := or_else failure (ap_failure a)\<rparr>))))))))))))
     (\<lambda>a. (Inr a, put_application a s))
     s"

end
