(* ===== verification/EventInvariant.thy ===== *)
theory EventInvariant
  imports EventStore
begin

section \<open>The invariant of the event store\<close>

text \<open>
  \<open>ev_wf\<close> says that the five dictionaries agree: every inbox record and every application stands
  under its own identity, every occurrence is filed by id, by transport coordinate and under its
  event, the first occurrence of an event is the accepted one, and exactly the occurrences whose
  digest differs from the stored fact are conflicts. \<open>ev_evolves\<close> is what no call takes back.
\<close>

declare map_of_eq_Some_iff [simp del]

definition record_ok :: "inbox_record \<Rightarrow> bool" where
  "record_ok r \<longleftrightarrow> lease_shape_ok r \<and> calculate_payload_digest (ir_event r) = ev_payload_digest (ir_event r)
     \<and> (ir_state r = I_FAILED \<longrightarrow> ir_failure r \<noteq> None)"

definition wf_inbox :: "event_store \<Rightarrow> bool" where
  "wf_inbox s \<longleftrightarrow> distinct (dkeys (es_inbox s))
     \<and> (\<forall>k r. dget (es_inbox s) k = Some r \<longrightarrow> ev_event_id (ir_event r) = k \<and> record_ok r)"

definition occurrence_filed :: "event_store \<Rightarrow> string \<Rightarrow> occurrence_record \<Rightarrow> bool" where
  "occurrence_filed s i x \<longleftrightarrow> oc_id x = i
     \<and> (\<exists>rs. dget (es_occurrences s) (oc_event_id x) = Some rs \<and> x \<in> set rs)
     \<and> dget (es_by_key s) (occurrence_key x) = Some i \<and> oc_kind x \<noteq> O_REJECTED
     \<and> (\<exists>r. dget (es_inbox s) (oc_event_id x) = Some r
          \<and> (oc_kind x = O_CONFLICT \<longleftrightarrow> oc_payload_digest x \<noteq> ev_payload_digest (ir_event r)))"

definition wf_filed :: "event_store \<Rightarrow> bool" where
  "wf_filed s \<longleftrightarrow> (\<forall>i x. dget (es_by_id s) i = Some x \<longrightarrow> occurrence_filed s i x)
     \<and> (\<forall>k i. dget (es_by_key s) k = Some i \<longrightarrow> (\<exists>x. dget (es_by_id s) i = Some x \<and> occurrence_key x = k))"

definition deliveries_ok :: "event_store \<Rightarrow> string \<Rightarrow> occurrence_record list \<Rightarrow> bool" where
  "deliveries_ok s e rs \<longleftrightarrow> rs \<noteq> [] \<and> oc_kind (hd rs) = O_ACCEPTED
     \<and> (\<forall>x\<in>set (tl rs). oc_kind x \<noteq> O_ACCEPTED) \<and> distinct (map oc_id rs)
     \<and> (\<forall>x\<in>set rs. oc_event_id x = e \<and> dget (es_by_id s) (oc_id x) = Some x)"

definition wf_deliveries :: "event_store \<Rightarrow> bool" where
  "wf_deliveries s \<longleftrightarrow> (\<forall>e rs. dget (es_occurrences s) e = Some rs \<longrightarrow> deliveries_ok s e rs)
     \<and> (\<forall>e. dget (es_inbox s) e = None \<longleftrightarrow> dget (es_occurrences s) e = None)"

definition application_ok :: "event_store \<Rightarrow> string \<times> string \<Rightarrow> application_record \<Rightarrow> bool" where
  "application_ok s k a \<longleftrightarrow> (ap_event_id a, ap_root a) = k \<and> application_fields_ok a
     \<and> dget (es_inbox s) (ap_event_id a) \<noteq> None
     \<and> (ap_state a = A_APPLIED \<longrightarrow> ap_applied_version a \<noteq> None)
     \<and> (ap_state a = A_FAILED \<longrightarrow> ap_failure a \<noteq> None)"

definition wf_applications :: "event_store \<Rightarrow> bool" where
  "wf_applications s \<longleftrightarrow> distinct (dkeys (es_applications s))
     \<and> (\<forall>k a. dget (es_applications s) k = Some a \<longrightarrow> application_ok s k a)"

definition ev_wf :: "event_store \<Rightarrow> bool" where
  "ev_wf s \<longleftrightarrow> wf_inbox s \<and> wf_filed s \<and> wf_deliveries s \<and> wf_applications s"

lemma ev_wf_empty: "ev_wf empty_event_store"
  by (simp add: ev_wf_def wf_inbox_def wf_filed_def wf_deliveries_def wf_applications_def
      empty_event_store_def)

subsection \<open>What no call takes back\<close>

text \<open>A token names one claim: while it stays, so does the owner.\<close>

definition inbox_grows :: "inbox_record \<Rightarrow> inbox_record \<Rightarrow> bool" where
  "inbox_grows r r' \<longleftrightarrow> ir_event r' = ir_event r \<and> ir_provenance r' = ir_provenance r
     \<and> ir_created_at r' = ir_created_at r \<and> ir_token r \<le> ir_token r' \<and> ir_updated_at r \<le> ir_updated_at r'
     \<and> (ir_token r' = ir_token r \<and> ir_state r' = I_PROCESSING \<longrightarrow>
          ir_state r = I_PROCESSING \<and> ir_owner r' = ir_owner r)"

definition stays :: "'a option \<Rightarrow> 'a option \<Rightarrow> bool" where
  "stays x y \<longleftrightarrow> x \<noteq> None \<longrightarrow> y = x"

definition application_grows :: "application_record \<Rightarrow> application_record \<Rightarrow> bool" where
  "application_grows a b \<longleftrightarrow> ap_id b = ap_id a \<and> ap_event_id b = ap_event_id a \<and> ap_root b = ap_root a
     \<and> ap_source_version b = ap_source_version a \<and> ap_created_at b = ap_created_at a
     \<and> ap_updated_at a \<le> ap_updated_at b \<and> steps application_edge (ap_state a) (ap_state b)
     \<and> stays (ap_emergency a) (ap_emergency b) \<and> stays (ap_applied_version a) (ap_applied_version b)
     \<and> (ap_impact a \<noteq> None \<longrightarrow> ap_impact b \<noteq> None) \<and> (ap_failure a \<noteq> None \<longrightarrow> ap_failure b \<noteq> None)"

definition ev_evolves :: "event_store \<Rightarrow> event_store \<Rightarrow> bool" where
  "ev_evolves s t \<longleftrightarrow> dict_rel inbox_grows (es_inbox s) (es_inbox t)
     \<and> dict_rel prefix (es_occurrences s) (es_occurrences t) \<and> keeps (es_by_id s) (es_by_id t)
     \<and> keeps (es_by_key s) (es_by_key t)
     \<and> dict_rel application_grows (es_applications s) (es_applications t) \<and> es_draws s \<le> es_draws t"

definition ev_good :: "event_store \<Rightarrow> event_store \<Rightarrow> bool" where
  "ev_good s t \<longleftrightarrow> ev_wf t \<and> ev_evolves s t"

lemma inbox_grows_refl [simp]: "inbox_grows r r"
  by (simp add: inbox_grows_def)

lemma inbox_grows_trans: "inbox_grows a b \<Longrightarrow> inbox_grows b c \<Longrightarrow> inbox_grows a c"
  unfolding inbox_grows_def by (metis le_antisym order_trans)

lemma application_grows_refl [simp]: "application_grows a a"
  by (simp add: application_grows_def stays_def steps_refl)

lemma application_grows_trans: "application_grows a b \<Longrightarrow> application_grows b c \<Longrightarrow> application_grows a c"
  by (auto simp: application_grows_def stays_def intro: steps_trans)

lemma ev_evolves_refl [simp]: "ev_evolves s s"
  by (simp add: ev_evolves_def dict_rel_refl)

lemma ev_evolves_trans: "ev_evolves s t \<Longrightarrow> ev_evolves t v \<Longrightarrow> ev_evolves s v"
  unfolding ev_evolves_def
  by (auto intro: keeps_trans order_trans dict_rel_trans [OF _ _ inbox_grows_trans]
      dict_rel_trans [OF _ _ application_grows_trans] dict_rel_trans [OF _ _ prefix_order.trans])

lemma ev_good_refl: "ev_wf s \<Longrightarrow> ev_good s s"
  by (simp add: ev_good_def)

subsection \<open>The writes\<close>

lemmas ev_wf_defs = ev_wf_def wf_inbox_def wf_filed_def wf_deliveries_def wf_applications_def

lemma events_frame:
  assumes "es_inbox t = es_inbox s" "es_occurrences t = es_occurrences s" "es_by_id t = es_by_id s"
    "es_by_key t = es_by_key s"
  shows "wf_inbox t \<longleftrightarrow> wf_inbox s" "wf_filed t \<longleftrightarrow> wf_filed s" "wf_deliveries t \<longleftrightarrow> wf_deliveries s"
    "application_ok t k a \<longleftrightarrow> application_ok s k a"
  by (simp_all add: wf_inbox_def wf_filed_def wf_deliveries_def occurrence_filed_def deliveries_ok_def
      application_ok_def assms)

lemma put_inbox_good:
  assumes wf: "ev_wf s" and old: "dget (es_inbox s) k = Some old" and grows: "inbox_grows old r"
    and ok: "record_ok r"
  shows "ev_good s (put_inbox r s)"
proof -
  have "ev_event_id (ir_event old) = k" using wf old unfolding ev_wf_def wf_inbox_def by blast
  then have k: "ev_event_id (ir_event r) = k" using grows by (simp add: inbox_grows_def)
  let ?t = "put_inbox r s"
  have t: "es_inbox ?t = dset k r (es_inbox s)" "es_occurrences ?t = es_occurrences s" "es_by_id ?t = es_by_id s"
    "es_by_key ?t = es_by_key s" "es_applications ?t = es_applications s" "es_draws ?t = es_draws s"
    using k by (simp_all add: put_inbox_def)
  have none: "dget (es_inbox ?t) e = None \<longleftrightarrow> dget (es_inbox s) e = None" for e
    using old by (simp add: t)
  have "wf_inbox ?t" using wf ok k unfolding ev_wf_def wf_inbox_def t by simp
  moreover have "wf_filed ?t"
  proof -
    have "occurrence_filed ?t i x" if "occurrence_filed s i x" for i x
      using that old grows unfolding occurrence_filed_def t inbox_grows_def by (cases "oc_event_id x = k") auto
    then show ?thesis using wf unfolding ev_wf_def wf_filed_def t(3,4) by blast
  qed
  moreover have "wf_deliveries ?t"
    using wf unfolding ev_wf_def wf_deliveries_def none deliveries_ok_def t(2,3) by blast
  moreover have "wf_applications ?t"
    using wf unfolding ev_wf_def wf_applications_def application_ok_def none t(5) by blast
  moreover have "ev_evolves s ?t"
    using old grows by (auto simp: ev_evolves_def t intro!: dict_rel_refl dict_rel_update)
  ultimately show ?thesis by (simp add: ev_good_def ev_wf_def)
qed

lemma put_application_good:
  assumes wf: "ev_wf s" and ok: "application_ok s (ap_event_id a, ap_root a) a"
    and grows: "\<And>b. dget (es_applications s) (ap_event_id a, ap_root a) = Some b \<Longrightarrow> application_grows b a"
  shows "ev_good s (put_application a s)"
proof -
  let ?t = "put_application a s"
  have t: "es_inbox ?t = es_inbox s" "es_occurrences ?t = es_occurrences s" "es_by_id ?t = es_by_id s"
    "es_by_key ?t = es_by_key s" "es_applications ?t = dset (ap_event_id a, ap_root a) a (es_applications s)"
    "es_draws ?t = es_draws s"
    by (simp_all add: put_application_def)
  note fr = events_frame [OF t(1-4)]
  have "wf_applications ?t"
    using wf ok unfolding ev_wf_def wf_applications_def t(5) fr(4) by simp
  then have "ev_wf ?t" using wf unfolding ev_wf_def fr by blast
  moreover have "ev_evolves s ?t"
    using grows by (auto simp: ev_evolves_def t intro!: dict_rel_refl dict_rel_update)
  ultimately show ?thesis by (simp add: ev_good_def)
qed

lemma draw_good:
  assumes "ev_wf s"
  shows "ev_good s (s\<lparr>es_draws := Suc (es_draws s)\<rparr>)"
proof -
  let ?t = "s\<lparr>es_draws := Suc (es_draws s)\<rparr>"
  have fr: "wf_inbox ?t = wf_inbox s" "wf_filed ?t = wf_filed s" "wf_deliveries ?t = wf_deliveries s"
    "application_ok ?t k a = application_ok s k a" for k a
    by (rule events_frame; simp)+
  have "ev_wf ?t" using assms unfolding ev_wf_def wf_applications_def fr by simp
  moreover have "ev_evolves s ?t" by (simp add: ev_evolves_def dict_rel_refl)
  ultimately show ?thesis by (simp add: ev_good_def)
qed

lemma ev_good_trans: "ev_good s t \<Longrightarrow> ev_good t v \<Longrightarrow> ev_good s v"
  unfolding ev_good_def using ev_evolves_trans by blast

lemma deliveries_ok_snoc:
  assumes "deliveries_ok t e rs" and "oc_id r \<notin> oc_id ` set rs" and "oc_kind r \<noteq> O_ACCEPTED"
    and "oc_event_id r = e" and "dget (es_by_id t) (oc_id r) = Some r"
  shows "deliveries_ok t e (rs @ [r])"
proof (cases rs)
  case Nil
  then show ?thesis using assms(1) by (simp add: deliveries_ok_def)
next
  case (Cons x xs)
  then have "oc_id x \<noteq> oc_id r" using assms(2) by auto
  then show ?thesis using assms Cons unfolding deliveries_ok_def by simp
qed

text \<open>
  One registration: the inbox record of the event, new or grown, and a fresh occurrence filed under
  a free transport coordinate.
\<close>

lemma register_good:
  assumes wf: "ev_wf s" and e: "ev_event_id (ir_event inbox) = e" "record_ok inbox"
    and fresh: "dget (es_by_id s) (oc_id r) = None" "dget (es_by_key s) (occurrence_key r) = None"
    and r: "oc_event_id r = e" "oc_kind r \<noteq> O_REJECTED"
      "oc_kind r = O_CONFLICT \<longleftrightarrow> oc_payload_digest r \<noteq> ev_payload_digest (ir_event inbox)"
    and inbox: "case dget (es_inbox s) e of None \<Rightarrow> oc_kind r = O_ACCEPTED
      | Some old \<Rightarrow> inbox_grows old inbox \<and> oc_kind r \<noteq> O_ACCEPTED"
  shows "ev_good s (put_occurrence r (put_inbox inbox s))"
proof -
  let ?t = "put_occurrence r (put_inbox inbox s)"
  let ?rs = "(case dget (es_occurrences s) e of None \<Rightarrow> [] | Some rs \<Rightarrow> rs) @ [r]"
  have t: "es_inbox ?t = dset e inbox (es_inbox s)" "es_occurrences ?t = dset e ?rs (es_occurrences s)"
    "es_by_id ?t = dset (oc_id r) r (es_by_id s)" "es_by_key ?t = dset (occurrence_key r) (oc_id r) (es_by_key s)"
    "es_applications ?t = es_applications s" "es_draws ?t = es_draws s"
    by (simp_all add: put_occurrence_def put_inbox_def e r)
  have known: "dget (es_inbox s) e = None \<longleftrightarrow> dget (es_occurrences s) e = None"
    using wf unfolding ev_wf_def wf_deliveries_def by blast
  have grows: "inbox_grows old inbox" if "dget (es_inbox s) e = Some old" for old
    using inbox that by simp
  have "wf_inbox ?t" using wf e unfolding ev_wf_def wf_inbox_def t by simp
  moreover have "wf_filed ?t"
  proof -
    have keep: "occurrence_filed ?t i x" if f: "occurrence_filed s i x" "dget (es_by_id s) i = Some x" for i x
    proof -
      have "occurrence_key x \<noteq> occurrence_key r" using f(1) fresh(2) unfolding occurrence_filed_def by auto
      then show ?thesis
        using f(1) grows unfolding occurrence_filed_def t inbox_grows_def by (cases "oc_event_id x = e") auto
    qed
    have new: "occurrence_filed ?t (oc_id r) r" using r unfolding occurrence_filed_def t by simp
    have "occurrence_filed ?t i x" if "dget (es_by_id ?t) i = Some x" for i x
      using that new keep wf unfolding t ev_wf_def wf_filed_def by (cases "i = oc_id r") simp_all
    moreover have "\<exists>x. dget (es_by_id ?t) i = Some x \<and> occurrence_key x = k"
      if "dget (es_by_key ?t) k = Some i" for k i
    proof (cases "k = occurrence_key r")
      case False
      then have "\<exists>x. dget (es_by_id s) i = Some x \<and> occurrence_key x = k"
      proof -
        have "dget (es_by_key s) k = Some i" using that False unfolding t(4) by simp
        then show ?thesis using wf that unfolding ev_wf_def wf_filed_def by blast
      qed
      then show ?thesis using fresh(1) unfolding t(3) by (cases "i = oc_id r") simp_all
    qed (use that in \<open>simp add: t(3,4)\<close>)
    ultimately show ?thesis unfolding wf_filed_def by blast
  qed
  moreover have "wf_deliveries ?t"
  proof -
    have ids: "dget (es_by_id ?t) k = Some x" if "dget (es_by_id s) k = Some x" for k x
      using that fresh(1) unfolding t(3) by (cases "k = oc_id r") simp_all
    have old: "deliveries_ok ?t f rs" if "deliveries_ok s f rs" for f rs
      using that ids unfolding deliveries_ok_def by simp
    have new: "deliveries_ok ?t e ?rs"
    proof (cases "dget (es_occurrences s) e")
      case None
      then show ?thesis using inbox known r unfolding deliveries_ok_def t by (simp split: option.splits)
    next
      case (Some rs)
      then have ok: "deliveries_ok s e rs" using wf unfolding ev_wf_def wf_deliveries_def by blast
      have "oc_id r \<notin> oc_id ` set rs" using ok fresh(1) unfolding deliveries_ok_def by force
      moreover have "oc_kind r \<noteq> O_ACCEPTED" using inbox known Some by (auto split: option.splits)
      moreover have "dget (es_by_id ?t) (oc_id r) = Some r" by (simp add: t(3))
      ultimately have "deliveries_ok ?t e (rs @ [r])"
        using deliveries_ok_snoc [OF old [OF ok]] r(1) by blast
      then show ?thesis by (simp add: Some)
    qed
    have "deliveries_ok ?t f rs" if "dget (es_occurrences ?t) f = Some rs" for f rs
      using that new old wf unfolding t(2) ev_wf_def wf_deliveries_def by (cases "f = e") simp_all
    moreover have "dget (es_inbox ?t) f = None \<longleftrightarrow> dget (es_occurrences ?t) f = None" for f
      using wf unfolding t(1,2) ev_wf_def wf_deliveries_def by simp
    ultimately show ?thesis unfolding wf_deliveries_def by blast
  qed
  moreover have "wf_applications ?t"
  proof -
    have "application_ok ?t k a" if "application_ok s k a" for k a
      using that unfolding application_ok_def t by simp
    then show ?thesis using wf unfolding ev_wf_def wf_applications_def t(5) by blast
  qed
  moreover have "ev_evolves s ?t"
    using grows fresh by (auto simp: ev_evolves_def t intro!: dict_rel_refl dict_rel_update keeps_fresh)
  ultimately show ?thesis by (simp add: ev_good_def ev_wf_def)
qed

end
