(* ===== verification/EventSteps.thy ===== *)
theory EventSteps
  imports EventInvariant
begin

section \<open>Every operation of the event store preserves the invariant\<close>

lemma inbox_record_init_eq: "inbox_record_init r = Inr r' \<longleftrightarrow> r' = r \<and> min_length_1 (ir_owner r) \<and> lease_shape_ok r"
  by (auto simp: inbox_record_init_def outcome)

lemma copy_inbox_eq:
  "copy_inbox r f = Inr r' \<longleftrightarrow> r' = f r \<and> nested_ok r \<and> min_length_1 (ir_owner (f r)) \<and> lease_shape_ok (f r)"
  by (auto simp: copy_inbox_def inbox_record_init_eq outcome)

lemma occurrence_record_init_eq: "occurrence_record_init x = Inr y \<Longrightarrow> y = x"
  by (auto simp: occurrence_record_init_def outcome)

lemma application_record_init_eq: "application_record_init x = Inr y \<longleftrightarrow> y = x \<and> application_fields_ok x"
  by (auto simp: application_record_init_def outcome)

lemma ev_guard_eq [outcome]: "ev_guard ok r = Inr v \<longleftrightarrow> ok" "ev_guard ok r = Inl e \<longleftrightarrow> \<not> ok \<and> e = EventInvariant r"
  by (auto simp: ev_guard_def outcome)

lemma inboxD:
  assumes "ev_wf s" and "dget (es_inbox s) k = Some r"
  shows "ev_event_id (ir_event r) = k" "record_ok r"
  using assms unfolding ev_wf_def wf_inbox_def by blast+

lemma key_filed:
  "ev_wf s \<Longrightarrow> dget (es_by_key s) k = Some i \<Longrightarrow> dget (es_by_id s) i \<noteq> None"
  unfolding ev_wf_def wf_filed_def by blast

text \<open>A committed effect is good when it is good for every outcome of the checks.\<close>

lemma ev_commit_good:
  "ev_wf s \<Longrightarrow> (\<And>v. c = Inr v \<Longrightarrow> ev_good s (snd (f v))) \<Longrightarrow> ev_good s (snd (commit c f s))"
  by (cases c) (auto simp: ev_good_refl)

subsection \<open>Registration\<close>

lemma classify_good:
  assumes wf: "ev_wf s" and valid: "calculate_payload_digest e = ev_payload_digest e"
    and c: "classify e p d s = Inr (created, inbox, kind)"
  shows "ev_event_id (ir_event inbox) = ev_event_id e" "record_ok inbox" "kind \<noteq> O_REJECTED"
    "kind = O_CONFLICT \<longleftrightarrow> ev_payload_digest e \<noteq> ev_payload_digest (ir_event inbox)"
    "case dget (es_inbox s) (ev_event_id e) of None \<Rightarrow> kind = O_ACCEPTED
     | Some old \<Rightarrow> inbox_grows old inbox \<and> kind \<noteq> O_ACCEPTED"
    "created \<longleftrightarrow> kind = O_ACCEPTED"
proof -
  have "ev_event_id (ir_event inbox) = ev_event_id e \<and> record_ok inbox \<and> kind \<noteq> O_REJECTED
    \<and> (kind = O_CONFLICT \<longleftrightarrow> ev_payload_digest e \<noteq> ev_payload_digest (ir_event inbox))
    \<and> (case dget (es_inbox s) (ev_event_id e) of None \<Rightarrow> kind = O_ACCEPTED
       | Some old \<Rightarrow> inbox_grows old inbox \<and> kind \<noteq> O_ACCEPTED) \<and> (created \<longleftrightarrow> kind = O_ACCEPTED)"
  proof (cases "dget (es_inbox s) (ev_event_id e)")
    case None
    then show ?thesis
      using c valid by (auto simp: classify_def inbox_record_init_eq new_inbox_def record_ok_def outcome)
  next
    case (Some old)
    note old = inboxD [OF wf Some]
    show ?thesis
    proof (cases "ev_payload_digest (ir_event old) = ev_payload_digest e")
      case True
      then show ?thesis using c Some old by (auto simp: classify_def)
    next
      case False
      then have "inbox = conflicting d old" "kind = O_CONFLICT" "\<not> created" "lease_shape_ok inbox"
        using c Some by (auto simp: classify_def copy_inbox_eq outcome)
      then show ?thesis using False old Some by (auto simp: conflicting_def record_ok_def inbox_grows_def)
    qed
  qed
  then show "ev_event_id (ir_event inbox) = ev_event_id e" "record_ok inbox" "kind \<noteq> O_REJECTED"
    "kind = O_CONFLICT \<longleftrightarrow> ev_payload_digest e \<noteq> ev_payload_digest (ir_event inbox)"
    "case dget (es_inbox s) (ev_event_id e) of None \<Rightarrow> kind = O_ACCEPTED
     | Some old \<Rightarrow> inbox_grows old inbox \<and> kind \<noteq> O_ACCEPTED"
    "created \<longleftrightarrow> kind = O_ACCEPTED"
    by blast+
qed

text \<open>A registration either replays a delivery and writes nothing, or files a new occurrence.\<close>

lemma register_cases:
  assumes "register_event e p d s = (Inr (created, inbox, x), t)"
  obtains (replayed) "\<not> created" "t = s" "dget (es_by_id s) (dl_occurrence_id d) = Some x"
      "dget (es_inbox s) (ev_event_id e) = Some inbox" "same_delivery x e d"
    | (filed) kind where "validate_registration e p d = Inr ()" "dget (es_by_id s) (dl_occurrence_id d) = None"
      "dget (es_by_key s) (delivery_key d) \<in> {None, Some (dl_occurrence_id d)}"
      "classify e p d s = Inr (created, inbox, kind)" "x = new_occurrence e d kind"
      "t = put_occurrence x (put_inbox inbox s)"
proof -
  have v: "validate_registration e p d = Inr ()"
    using assms by (auto simp: register_event_def commit_def outcome split: sum.splits)
  show thesis
  proof (cases "dget (es_by_id s) (dl_occurrence_id d)")
    case None
    then obtain kind where "classify e p d s = Inr (created, inbox, kind)"
      "dget (es_by_key s) (delivery_key d) \<in> {None, Some (dl_occurrence_id d)}"
      "occurrence_record_init (new_occurrence e d kind) = Inr x" "t = put_occurrence x (put_inbox inbox s)"
      using assms v by (auto simp: register_event_def replay_delivery_if_present_def
          assert_delivery_identity_available_def commit_def outcome split: sum.splits)
    then show thesis using filed v None occurrence_record_init_eq by blast
  next
    case (Some y)
    then show thesis
      using assms v by (auto simp: register_event_def replay_delivery_if_present_def commit_def outcome
          split: sum.splits intro!: replayed)
  qed
qed

lemma register_event_good:
  assumes wf: "ev_wf s"
  shows "ev_good s (snd (register_event e p d s))"
proof (cases "register_event e p d s")
  case (Pair res t)
  show ?thesis
  proof (cases res)
    case (Inl err)
    then have "t = s" using Pair by (auto simp: register_event_def commit_def split: sum.splits)
    then show ?thesis using Pair ev_good_refl [OF wf] by simp
  next
    case (Inr a)
    obtain created inbox x where a: "a = (created, inbox, x)" by (cases a)
    have "register_event e p d s = (Inr (created, inbox, x), t)" using Pair Inr a by simp
    then show ?thesis
    proof (cases rule: register_cases)
      case replayed
      then show ?thesis using Pair ev_good_refl [OF wf] by simp
    next
      case (filed kind)
      have valid: "calculate_payload_digest e = ev_payload_digest e"
        using filed(1) by (auto simp: validate_registration_def outcome)
      note c = classify_good [OF wf valid filed(4)]
      have x: "oc_id x = dl_occurrence_id d" "occurrence_key x = delivery_key d" "oc_event_id x = ev_event_id e"
        "oc_kind x = kind" "oc_payload_digest x = ev_payload_digest e"
        using filed(5) by (simp_all add: new_occurrence_def occurrence_key_def delivery_key_def)
      have "dget (es_by_key s) (delivery_key d) = None"
        using filed(2,3) key_filed [OF wf, of "delivery_key d"] by (cases "dget (es_by_key s) (delivery_key d)") simp_all
      then have "ev_good s t"
        unfolding filed(6) using c filed(2) x by (intro register_good [OF wf, where e = "ev_event_id e"]) (simp_all split: option.splits)
      then show ?thesis using Pair by simp
    qed
  qed
qed

subsection \<open>Claims, heartbeats and transitions of the inbox\<close>

lemma claim_event_parts:
  assumes "claim_event room w now lease s = (Inr res, t)"
  obtains us where "now = Aware us" "filter (claimable room us) (dvalues (es_inbox s)) = []" "res = None" "t = s"
    | us r r' where "now = Aware us" "filter (claimable room us) (dvalues (es_inbox s)) \<noteq> []"
      "r = arg_min_list inbox_order (filter (claimable room us) (dvalues (es_inbox s)))"
      "r' = claimed_by w us lease r" "lease_shape_ok r'" "res = Some (r', ir_token r')" "t = put_inbox r' s"
proof -
  obtain us where us: "now = Aware us" "w \<noteq> ''''" "1 \<le> lease"
    using assms by (auto simp: claim_event_def commit_def ev_utc_def outcome split: sum.splits)
  let ?e = "filter (claimable room us) (dvalues (es_inbox s))"
  let ?r = "arg_min_list inbox_order ?e"
  show thesis
  proof (cases "?e = []")
    case True
    then show thesis using assms us by (intro that(1) [OF us(1)]) (simp_all add: claim_event_def ev_utc_def)
  next
    case False
    obtain r' where "copy_inbox ?r (claimed_by w us lease) = Inr r'" "res = Some (r', ir_token r')" "t = put_inbox r' s"
      using assms us False
      by (cases "copy_inbox ?r (claimed_by w us lease)")
        (simp_all add: claim_event_def ev_utc_def Let_def split: if_splits)
    then show thesis using that(2) [OF us(1) False refl] by (simp add: copy_inbox_eq)
  qed
qed

lemma claim_event_failed: "claim_event room w now lease s = (Inl e, t) \<Longrightarrow> t = s"
  by (auto simp: claim_event_def commit_def split: sum.splits option.splits)

lemma arg_min_list_stored:
  assumes "ev_wf s" and "filter P (dvalues (es_inbox s)) \<noteq> []"
    and "r = arg_min_list f (filter P (dvalues (es_inbox s)))"
  shows "P r" "dget (es_inbox s) (ev_event_id (ir_event r)) = Some r"
proof -
  have r: "r \<in> set (filter P (dvalues (es_inbox s)))" unfolding assms(3) by (rule arg_min_list_in [OF assms(2)])
  then show "P r" by simp
  have "distinct (dkeys (es_inbox s))" using assms(1) by (simp add: ev_wf_def wf_inbox_def)
  then obtain k where "dget (es_inbox s) k = Some r" using r in_dvalues_iff by fastforce
  then show "dget (es_inbox s) (ev_event_id (ir_event r)) = Some r" using inboxD(1) [OF assms(1)] by blast
qed

lemma claim_event_good:
  assumes wf: "ev_wf s"
  shows "ev_good s (snd (claim_event room w now lease s))"
proof (cases "claim_event room w now lease s")
  case (Pair res t)
  show ?thesis
  proof (cases res)
    case (Inl e)
    then show ?thesis using Pair claim_event_failed ev_good_refl [OF wf] by fastforce
  next
    case (Inr x)
    then have "claim_event room w now lease s = (Inr x, t)" using Pair by simp
    then show ?thesis
    proof (cases rule: claim_event_parts)
      case 1
      then show ?thesis using Pair ev_good_refl [OF wf] by simp
    next
      case (2 us r r')
      note stored = arg_min_list_stored(2) [OF wf 2(2,3)]
      have "inbox_grows r r'" "record_ok r'"
        using 2(4,5) inboxD(2) [OF wf stored] by (simp_all add: claimed_by_def inbox_grows_def record_ok_def)
      then show ?thesis using Pair 2(7) put_inbox_good [OF wf stored] by simp
    qed
  qed
qed

lemma inbox_heartbeat_good:
  assumes wf: "ev_wf s"
  shows "ev_good s (snd (heartbeat i w token now lease s))"
  unfolding heartbeat_def
proof (rule ev_commit_good [OF wf], goal_cases)
  case (1 r')
  then obtain us r where r: "dget (es_inbox s) i = Some r" "lease_shape_ok r'"
    "r' = r\<lparr>ir_expires_at := map_option (max (us + seconds lease)) (ir_expires_at r),
        ir_updated_at := max (ir_updated_at r) us\<rparr>"
    by (auto simp: get_inbox_def copy_inbox_eq outcome)
  then show ?case
    using inboxD(2) [OF wf r(1)] by (auto intro!: put_inbox_good [OF wf r(1)] simp: inbox_grows_def record_ok_def)
qed

lemma transition_inbox_parts:
  assumes "transition_inbox i expected target now w token failure s = (Inr r', t)"
  obtains us r where "now = Aware us" "dget (es_inbox s) i = Some r" "ir_state r = expected" "target \<noteq> I_PROCESSING"
    "inbox_edge expected target" "lease_shape_ok r'" "target = I_FAILED \<longrightarrow> failure \<noteq> None"
    "expected = I_PROCESSING \<longrightarrow> (\<exists>v n. w = Some v \<and> token = Some n \<and> assert_current_claim r v n us = Inr ())"
    "r' = r\<lparr>ir_state := target, ir_owner := None, ir_expires_at := None,
        ir_failure := (case failure of None \<Rightarrow> ir_failure r | Some f \<Rightarrow> Some f),
        ir_updated_at := max (ir_updated_at r) us\<rparr>"
    "t = put_inbox r' s"
  using assms
  by (auto simp: transition_inbox_def get_inbox_def copy_inbox_eq commit_def ev_utc_def outcome inbox_edge_def
      split: sum.splits if_splits option.splits)

lemma transition_inbox_good:
  assumes wf: "ev_wf s"
  shows "ev_good s (snd (transition_inbox i expected target now w token failure s))"
proof (cases "transition_inbox i expected target now w token failure s")
  case (Pair res t)
  show ?thesis
  proof (cases res)
    case (Inl e)
    then have "t = s" using Pair by (auto simp: transition_inbox_def commit_def split: sum.splits)
    then show ?thesis using Pair ev_good_refl [OF wf] by simp
  next
    case (Inr r')
    then have "transition_inbox i expected target now w token failure s = (Inr r', t)" using Pair by simp
    then obtain us r where r: "dget (es_inbox s) i = Some r" "target \<noteq> I_PROCESSING" "lease_shape_ok r'"
      "target = I_FAILED \<longrightarrow> failure \<noteq> None"
      "r' = r\<lparr>ir_state := target, ir_owner := None, ir_expires_at := None,
        ir_failure := (case failure of None \<Rightarrow> ir_failure r | Some f \<Rightarrow> Some f),
        ir_updated_at := max (ir_updated_at r) us\<rparr>" "t = put_inbox r' s"
      by (rule transition_inbox_parts)
    have "inbox_grows r r'" using r(2,5) by (auto simp: inbox_grows_def)
    moreover have "record_ok r'"
      using r(3-5) inboxD(2) [OF wf r(1)] by (auto simp: record_ok_def split: option.split)
    ultimately show ?thesis using Pair r(6) put_inbox_good [OF wf r(1)] by simp
  qed
qed

subsection \<open>Applications\<close>

lemma applicationD: "ev_wf s \<Longrightarrow> dget (es_applications s) k = Some a \<Longrightarrow> application_ok s k a"
  unfolding ev_wf_def wf_applications_def by blast

lemma create_application_good:
  assumes wf: "ev_wf s"
  shows "ev_good s (snd (create_application u i root_id v now s))"
proof (cases "ev_utc now")
  case (Inl e)
  then show ?thesis using ev_good_refl [OF wf] by (simp add: create_application_def)
next
  case (Inr us)
  let ?s1 = "s\<lparr>es_draws := Suc (es_draws s)\<rparr>"
  note d = draw_good [OF wf]
  show ?thesis
  proof (cases "dget (es_inbox s) i = None \<or> dget (es_applications s) (i, root_id) \<noteq> None")
    case True
    then show ?thesis using Inr ev_good_refl [OF wf] by (auto simp: create_application_def)
  next
    case False
    have "ev_good ?s1 (snd (commit
        (application_record_init (new_application (u (es_draws s)) i root_id v us))
        (\<lambda>a. (Inr (True, a), put_application a ?s1)) ?s1))"
    proof (rule ev_commit_good, goal_cases)
      case 1
      then show ?case using d by (simp add: ev_good_def)
    next
      case (2 a)
      then have "a = new_application (u (es_draws s)) i root_id v us" "application_fields_ok a"
        by (auto simp: application_record_init_eq)
      then have "ev_good ?s1 (put_application a ?s1)"
        using False d by (intro put_application_good) (auto simp: ev_good_def application_ok_def new_application_def)
      then show ?case by simp
    qed
    moreover have "create_application u i root_id v now s = commit
        (application_record_init (new_application (u (es_draws s)) i root_id v us))
        (\<lambda>a. (Inr (True, a), put_application a ?s1)) ?s1"
      using Inr False by (auto simp: create_application_def Let_def)
    ultimately show ?thesis using ev_good_trans [OF d] by simp
  qed
qed

lemma write_once_stays: "write_once x y (=) = Inr () \<Longrightarrow> stays x (or_else y x)"
  by (auto simp: write_once_def stays_def or_else_def outcome split: option.splits)

lemma transition_application_parts:
  assumes "transition_application i root_id expected target now emergency applied impact failure s = (Inr b, t)"
  obtains us a where "now = Aware us" "dget (es_applications s) (i, root_id) = Some a" "ap_state a = expected"
    "application_edge expected target" "target = A_FAILED \<longrightarrow> failure \<noteq> None"
    "target = A_APPLIED \<longrightarrow> applied \<noteq> None" "write_once (ap_emergency a) emergency (=) = Inr ()"
    "write_once (ap_applied_version a) applied (=) = Inr ()" "write_once (ap_impact a) impact json_eq = Inr ()"
    "b = a\<lparr>ap_state := target, ap_updated_at := max (ap_updated_at a) us,
        ap_emergency := or_else emergency (ap_emergency a),
        ap_applied_version := or_else applied (ap_applied_version a),
        ap_impact := or_else impact (ap_impact a),
        ap_failure := or_else failure (ap_failure a)\<rparr>" "application_fields_ok b" "t = put_application b s"
proof -
  obtain us where us: "now = Aware us"
    using assms by (cases now) (simp_all add: transition_application_def ev_utc_def)
  obtain a where a: "dget (es_applications s) (i, root_id) = Some a"
    using assms us
    by (cases "dget (es_applications s) (i, root_id)")
      (simp_all add: transition_application_def ev_utc_def get_application_def)
  show thesis
    using assms us a that [OF us a]
    by (auto simp: transition_application_def ev_utc_def get_application_def application_record_init_eq
        commit_def application_edge_def outcome split: sum.splits if_splits)
qed

lemma transition_application_good:
  assumes wf: "ev_wf s"
  shows "ev_good s (snd (transition_application i root_id expected target now emergency applied impact failure s))"
proof (cases "transition_application i root_id expected target now emergency applied impact failure s")
  case (Pair res t)
  show ?thesis
  proof (cases res)
    case (Inl e)
    then have "t = s" using Pair by (auto simp: transition_application_def commit_def split: sum.splits)
    then show ?thesis using Pair ev_good_refl [OF wf] by simp
  next
    case (Inr b)
    then have "transition_application i root_id expected target now emergency applied impact failure s = (Inr b, t)"
      using Pair by simp
    then show ?thesis
    proof (cases rule: transition_application_parts)
      case (1 us a)
      have ok: "application_ok s (i, root_id) a" by (rule applicationD [OF wf 1(2)])
      have key: "(ap_event_id b, ap_root b) = (i, root_id)" using ok 1(10) by (simp add: application_ok_def)
      have "application_edge (ap_state a) (ap_state b)" using 1(3,4,10) by simp
      then have "steps application_edge (ap_state a) (ap_state b)" using steps_refl steps_step by metis
      then have "application_grows a b"
        using write_once_stays [OF 1(7)] write_once_stays [OF 1(8)] 1(10)
        by (auto simp: application_grows_def or_else_def split: option.split)
      moreover have "application_ok s (i, root_id) b"
        using ok 1(5,6,10,11) by (auto simp: application_ok_def or_else_def split: option.split)
      ultimately have "ev_good s (put_application b s)"
        using key 1(2) by (intro put_application_good [OF wf]) simp_all
      then show ?thesis using Pair 1(12) by simp
    qed
  qed
qed

subsection \<open>The store as a step relation\<close>

inductive event_step :: "(nat \<Rightarrow> string) \<Rightarrow> event_store \<Rightarrow> event_store \<Rightarrow> bool" for u where
  event_register: "event_step u s (snd (register_event e p d s))"
| event_claim: "event_step u s (snd (claim_next w now lease s))"
| event_claim_room: "event_step u s (snd (claim_next_for_room w room now lease s))"
| event_heartbeat: "event_step u s (snd (heartbeat i w token now lease s))"
| event_transition: "event_step u s (snd (transition_inbox i expected target now w' token' failure s))"
| event_application: "event_step u s (snd (create_application u i root_id v now s))"
| event_apply:
    "event_step u s (snd (transition_application i root_id from target now emergency applied impact failure s))"

lemma event_step_good: "event_step u s t \<Longrightarrow> ev_wf s \<Longrightarrow> ev_good s t"
  by (induction rule: event_step.induct)
    (simp_all add: register_event_good claim_next_def claim_next_for_room_def claim_event_good inbox_heartbeat_good
      transition_inbox_good create_application_good transition_application_good ev_good_refl)

lemma event_steps_good: "steps (event_step u) s t \<Longrightarrow> ev_wf s \<Longrightarrow> ev_good s t"
proof (induction rule: steps.induct)
  case (steps_step s t v)
  then show ?case using event_step_good ev_good_trans unfolding ev_good_def by blast
qed (simp add: ev_good_refl)

subsection \<open>The event store provides the contracts\<close>

text \<open>The token of an event is the one of its inbox record; it is accepted while some holder may write.\<close>

definition inbox_token :: "event_store \<Rightarrow> string \<Rightarrow> nat" where
  "inbox_token s i = (case dget (es_inbox s) i of None \<Rightarrow> 0 | Some r \<Rightarrow> ir_token r)"

definition inbox_accepts :: "event_store \<Rightarrow> string \<Rightarrow> nat \<Rightarrow> bool" where
  "inbox_accepts s i n \<longleftrightarrow>
     (\<exists>r w now. dget (es_inbox s) i = Some r \<and> assert_current_claim r w n now = Inr ())"

interpretation inbox_lease: fenced_lease ev_wf "event_step u" inbox_token inbox_accepts
  for u :: "nat \<Rightarrow> string"
proof unfold_locales
  show "ev_wf s \<Longrightarrow> event_step u s t \<Longrightarrow> inbox_token s k \<le> inbox_token t k" for s t k
    using event_step_good [of u s t]
    by (fastforce simp: ev_good_def ev_evolves_def dict_rel_def inbox_grows_def inbox_token_def split: option.split)
  show "ev_wf s \<Longrightarrow> inbox_accepts s k n \<Longrightarrow> n = inbox_token s k" for s k n
    by (auto simp: inbox_accepts_def inbox_token_def assert_current_claim_def outcome)
qed (use event_step_good in \<open>auto simp: ev_good_def\<close>)

interpretation occurrences: first_write_wins ev_wf "event_step u" "\<lambda>s. dget (es_by_id s)"
  for u :: "nat \<Rightarrow> string"
  by unfold_locales (use event_step_good in \<open>auto simp: ev_good_def ev_evolves_def keeps_def\<close>)

interpretation coordinates: first_write_wins ev_wf "event_step u" "\<lambda>s. dget (es_by_key s)"
  for u :: "nat \<Rightarrow> string"
  by unfold_locales (use event_step_good in \<open>auto simp: ev_good_def ev_evolves_def keeps_def\<close>)

interpretation facts: first_write_wins ev_wf "event_step u"
  "\<lambda>s i. map_option (\<lambda>r. (ir_event r, ir_provenance r, ir_created_at r)) (dget (es_inbox s) i)"
  for u :: "nat \<Rightarrow> string"
proof unfold_locales
  show "map_option (\<lambda>r. (ir_event r, ir_provenance r, ir_created_at r)) (dget (es_inbox t) k) = Some v"
    if wf: "ev_wf s" and st: "event_step u s t"
      and v: "map_option (\<lambda>r. (ir_event r, ir_provenance r, ir_created_at r)) (dget (es_inbox s) k) = Some v" for s t k v
  proof -
    obtain r where r: "dget (es_inbox s) k = Some r" "v = (ir_event r, ir_provenance r, ir_created_at r)"
      using v by auto
    then obtain r' where "dget (es_inbox t) k = Some r'" "inbox_grows r r'"
      using event_step_good [OF st wf] unfolding ev_good_def ev_evolves_def dict_rel_def by blast
    then show ?thesis using r(2) by (simp add: inbox_grows_def)
  qed
qed (use event_step_good in \<open>auto simp: ev_good_def\<close>)

end
