(* ===== verification/Impact.thy ===== *)
theory Impact
  imports StorePlans EventStore
begin

section \<open>Impact analysis\<close>

text \<open>
  \<open>src/plan_engine/impact.py\<close>: from the inbox record of an event, the plan run and the nodes of its
  current version to the scope of the impact and the affected nodes. A set of the code is a list
  here, and \<open>tuple(sorted(set(xs)))\<close> is \<open>sort (remdups xs)\<close>.
\<close>

subsection \<open>The analysis record\<close>

definition sorted_unique :: "string list \<Rightarrow> bool" where
  "sorted_unique xs \<longleftrightarrow> '''' \<notin> set xs \<and> xs = sort (remdups xs)"

fun scope_value :: "impact_scope \<Rightarrow> string" where
  "scope_value SCOPE_PRODUCT = ''PRODUCT''"
| "scope_value SCOPE_ROOM = ''ROOM''"
| "scope_value SCOPE_PLATFORM = ''PLATFORM''"

definition digest_payload :: "impact_analysis \<Rightarrow> json" where
  "digest_payload a = JObj
     [(''event_id'', JStr (ia_event_id a)),
      (''event_payload_digest'', JStr (ia_event_payload_digest a)),
      (''plan_run_id'', JStr (ia_plan_run_id a)),
      (''plan_version'', JInt (ia_plan_version a)),
      (''scope'', JStr (scope_value (ia_scope a))),
      (''affected_logical_keys'', JList (map JStr (ia_affected_logical_keys a))),
      (''affected_node_ids'', JList (map JStr (ia_affected_node_ids a))),
      (''resource_keys'', JList (map JStr (ia_resource_keys a))),
      (''reason_codes'', JList (map JStr (ia_reason_codes a))),
      (''platform_failure_code'', opt_json JStr (ia_platform_failure_code a))]"

definition impact_fields_ok :: "impact_analysis \<Rightarrow> bool" where
  "impact_fields_ok a \<longleftrightarrow> ia_event_id a \<noteq> '''' \<and> is_sha256 (ia_event_payload_digest a)
     \<and> ia_plan_run_id a \<noteq> '''' \<and> 1 \<le> ia_plan_version a \<and> sorted_unique (ia_affected_logical_keys a)
     \<and> sorted_unique (ia_affected_node_ids a) \<and> sorted_unique (ia_resource_keys a)
     \<and> sorted_unique (ia_reason_codes a) \<and> min_length_1 (ia_platform_failure_code a)
     \<and> is_sha256 (ia_analysis_digest a)"

datatype impact_error = ImpactRejected | DigestMismatch | ImpactAnalysisError

definition impact_analysis_create :: "impact_analysis \<Rightarrow> impact_error + impact_analysis" where
  "impact_analysis_create a =
     rbind (guard (impact_fields_ok a) ImpactRejected) (\<lambda>_.
     rbind (guard (ia_analysis_digest a = canonical_sha256 (digest_payload a)) DigestMismatch) (\<lambda>_.
     Inr a))"

subsection \<open>The checks\<close>

definition starts_with :: "string \<Rightarrow> string \<Rightarrow> bool" where
  "starts_with p s \<longleftrightarrow> take (length p) s = p"

definition validate_inputs ::
  "inbox_record \<Rightarrow> plan_run_rec \<Rightarrow> node_view_rec list \<Rightarrow> failure_fact option \<Rightarrow> impact_error + unit" where
  "validate_inputs inbox run nodes failure =
     rbind (guard (pl_state run \<in> {R_ACTIVE, R_FROZEN}) ImpactAnalysisError) (\<lambda>_.
     rbind (guard (ev_room_id (ir_event inbox) = pl_room_id run) ImpactAnalysisError) (\<lambda>_.
     rbind (guard (ir_state inbox \<in> {I_VERIFIED, I_PROCESSING, I_CONFLICT}) ImpactAnalysisError) (\<lambda>_.
     rbind (guard (nodes \<noteq> []) ImpactAnalysisError) (\<lambda>_.
     rbind (guard (distinct (map nv_id nodes) \<and> distinct (map nv_logical_key nodes)) ImpactAnalysisError) (\<lambda>_.
     rbind (guard (list_all (\<lambda>n. nv_plan_run_id n = pl_id run \<and> nv_version n = pl_current_version run
         \<and> list_all (\<lambda>d. d \<in> set (map nv_logical_key nodes)) (nv_depends_on n)) nodes)
       ImpactAnalysisError) (\<lambda>_.
     guard (case failure of None \<Rightarrow> True
            | Some f \<Rightarrow> ff_category f \<in> {TRANSIENT_INFRA, INTERNAL_INVARIANT}
                \<and> ff_side_effect_state f = NOT_SENT \<and> starts_with ''platform.'' (ff_external_code f))
       ImpactAnalysisError))))))"

subsection \<open>The dependency closure\<close>

text \<open>
  One round over the nodes adds every node with a dependency already in the closure, at once; the
  rounds go on until one changes nothing.
\<close>

fun closure_round :: "node_view_rec list \<Rightarrow> string list \<Rightarrow> bool \<Rightarrow> string list \<times> bool" where
  "closure_round [] c changed = (c, changed)"
| "closure_round (n # ns) c changed =
     (if nv_logical_key n \<in> set c then closure_round ns c changed
      else if list_ex (\<lambda>d. d \<in> set c) (nv_depends_on n)
      then closure_round ns (nv_logical_key n # c) True
      else closure_round ns c changed)"

definition missing_keys :: "node_view_rec list \<Rightarrow> string list \<Rightarrow> nat" where
  "missing_keys nodes c = card (nv_logical_key ` set nodes - set c)"

lemma closure_round_grows:
  "set c \<subseteq> set (fst (closure_round ns c changed))
   \<and> (snd (closure_round ns c changed) \<longrightarrow> changed \<or>
        (\<exists>n\<in>set ns. nv_logical_key n \<notin> set c \<and> nv_logical_key n \<in> set (fst (closure_round ns c changed))))"
proof (induction ns c changed rule: closure_round.induct)
  case (2 n ns c changed)
  then show ?case by (auto split: if_splits)
qed simp

lemma closure_round_decreases:
  assumes "closure_round nodes c False = (c', True)"
  shows "missing_keys nodes c' < missing_keys nodes c"
proof -
  have "nv_logical_key ` set nodes - set c' \<subset> nv_logical_key ` set nodes - set c"
    using closure_round_grows [of c nodes False] assms by auto
  then show ?thesis by (simp add: missing_keys_def psubset_card_mono)
qed

function dependency_closure :: "node_view_rec list \<Rightarrow> string list \<Rightarrow> string list" where
  "dependency_closure nodes c =
     (case closure_round nodes c False of
        (c', True) \<Rightarrow> dependency_closure nodes c'
      | (c', False) \<Rightarrow> c')"
  by pat_completeness auto
termination
  by (relation "measure (\<lambda>(nodes, c). missing_keys nodes c)")
    (auto dest: closure_round_decreases [OF sym])

declare dependency_closure.simps [simp del]

subsection \<open>The analyzer\<close>

definition event_product_resource :: "string \<Rightarrow> string \<Rightarrow> string" where
  "event_product_resource room product = ''room:'' @ room @ '':product:'' @ product"

text \<open>Scope, affected logical keys, reasons and the code of a platform failure.\<close>

definition impact_scope_of ::
  "inbox_record \<Rightarrow> plan_run_rec \<Rightarrow> node_view_rec list \<Rightarrow> failure_fact option
     \<Rightarrow> impact_scope \<times> string list \<times> string list \<times> string option" where
  "impact_scope_of inbox run nodes failure =
     (let all_keys = map nv_logical_key nodes in
      case failure of
        Some f \<Rightarrow> (SCOPE_PLATFORM, all_keys, [''PLATFORM_FAILURE_FACT''], Some (ff_external_code f))
      | None \<Rightarrow>
          if ir_state inbox = I_CONFLICT then (SCOPE_ROOM, all_keys, [''EVENT_IDENTITY_CONFLICT''], None)
          else
            let resource = event_product_resource (pl_room_id run) (ev_product_id (ir_event inbox));
                direct = map nv_logical_key (filter (\<lambda>n. resource \<in> set (nv_resource_keys n)) nodes)
            in if direct = [] then (SCOPE_ROOM, all_keys, [''PRODUCT_RESOURCE_UNRESOLVED''], None)
               else
                 let affected = dependency_closure nodes direct in
                 (SCOPE_PRODUCT, affected,
                  if set affected \<noteq> set direct then [''SOLD_OUT_PRODUCT_MATCH'', ''DEPENDENCY_CLOSURE'']
                  else [''SOLD_OUT_PRODUCT_MATCH''], None))"

definition analyze ::
  "inbox_record \<Rightarrow> plan_run_rec \<Rightarrow> node_view_rec list \<Rightarrow> failure_fact option \<Rightarrow> impact_error + impact_analysis" where
  "analyze inbox run nodes failure =
     rbind (validate_inputs inbox run nodes failure) (\<lambda>_.
     case impact_scope_of inbox run nodes failure of (scope, keys, reasons, code) \<Rightarrow>
     let affected = filter (\<lambda>n. nv_logical_key n \<in> set keys) nodes;
         a = \<lparr>ia_event_id = ev_event_id (ir_event inbox),
              ia_event_payload_digest = ev_payload_digest (ir_event inbox), ia_plan_run_id = pl_id run,
              ia_plan_version = pl_current_version run, ia_scope = scope,
              ia_affected_logical_keys = sort (remdups keys),
              ia_affected_node_ids = sort (map nv_id affected),
              ia_resource_keys = sort (remdups (concat (map nv_resource_keys affected))),
              ia_reason_codes = sort reasons, ia_platform_failure_code = code,
              ia_analysis_digest = ''''\<rparr>
     in impact_analysis_create (a\<lparr>ia_analysis_digest := canonical_sha256 (digest_payload a)\<rparr>))"

subsection \<open>The closure is reachability along dependencies\<close>

definition downstream :: "node_view_rec list \<Rightarrow> (string \<times> string) set" where
  "downstream nodes = {(d, nv_logical_key n) |d n. n \<in> set nodes \<and> d \<in> set (nv_depends_on n)}"

lemma closure_round_sound:
  assumes "downstream nodes `` R \<subseteq> R"
  shows "set ns \<subseteq> set nodes \<Longrightarrow> set c \<subseteq> R \<Longrightarrow> set (fst (closure_round ns c changed)) \<subseteq> R"
proof (induction ns c changed rule: closure_round.induct)
  case (2 n ns c changed)
  let ?deps = "list_ex (\<lambda>d. d \<in> set c) (nv_depends_on n)"
  show ?case
  proof (cases "nv_logical_key n \<notin> set c \<and> ?deps")
    case True
    then obtain d where "d \<in> set c" "d \<in> set (nv_depends_on n)" by (auto simp: list_ex_iff)
    then have "(d, nv_logical_key n) \<in> downstream nodes" "d \<in> R"
      using 2(4,5) unfolding downstream_def by auto
    then have "nv_logical_key n \<in> R" using assms by blast
    then show ?thesis using 2(2) 2(4,5) True by simp
  next
    case False
    then have same: "closure_round (n # ns) c changed = closure_round ns c changed" by (simp, blast)
    show ?thesis unfolding same using 2(1,3) 2(4,5) False by (cases "nv_logical_key n \<in> set c") simp_all
  qed
qed simp

lemma closure_round_changed: "snd (closure_round ns c True)"
  by (induction ns c True rule: closure_round.induct) simp_all

lemma closure_round_stable:
  "\<not> snd (closure_round ns c b) \<Longrightarrow>
     fst (closure_round ns c b) = c
     \<and> (\<forall>n\<in>set ns. nv_logical_key n \<in> set c \<or> (\<forall>d\<in>set (nv_depends_on n). d \<notin> set c))"
proof (induction ns c b rule: closure_round.induct)
  case (2 n ns c b)
  let ?deps = "list_ex (\<lambda>d. d \<in> set c) (nv_depends_on n)"
  show ?case
  proof (cases "nv_logical_key n \<notin> set c \<and> ?deps")
    case True
    then have "closure_round (n # ns) c b = closure_round ns (nv_logical_key n # c) True" by simp
    then show ?thesis using 2(4) closure_round_changed [of ns "nv_logical_key n # c"] by metis
  next
    case False
    then have same: "closure_round (n # ns) c b = closure_round ns c b" by (simp, blast)
    have "\<not> snd (closure_round ns c b)" using 2(4) unfolding same .
    then have "fst (closure_round ns c b) = c
       \<and> (\<forall>n\<in>set ns. nv_logical_key n \<in> set c \<or> (\<forall>d\<in>set (nv_depends_on n). d \<notin> set c))"
      using 2(1,3) False by blast
    then show ?thesis unfolding same using False by (simp add: list_ex_iff)
  qed
qed simp

lemma dependency_closure_least:
  "set c \<subseteq> set (dependency_closure nodes c)
   \<and> downstream nodes `` set (dependency_closure nodes c) \<subseteq> set (dependency_closure nodes c)
   \<and> (\<forall>R. set c \<subseteq> R \<longrightarrow> downstream nodes `` R \<subseteq> R \<longrightarrow> set (dependency_closure nodes c) \<subseteq> R)"
proof (induction nodes c rule: dependency_closure.induct)
  case (1 nodes c)
  obtain c' changed where r: "closure_round nodes c False = (c', changed)" by fastforce
  have grow: "set c \<subseteq> set c'" using closure_round_grows [of c nodes False] r by simp
  have sound: "set c' \<subseteq> R" if "set c \<subseteq> R" "downstream nodes `` R \<subseteq> R" for R
    using closure_round_sound [of nodes R nodes c False] that r by simp
  show ?case
  proof (cases changed)
    case True
    then have eq: "dependency_closure nodes c = dependency_closure nodes c'"
      using r by (simp add: dependency_closure.simps [of nodes c])
    have IH: "set c' \<subseteq> set (dependency_closure nodes c')"
      "downstream nodes `` set (dependency_closure nodes c') \<subseteq> set (dependency_closure nodes c')"
      "\<forall>R. set c' \<subseteq> R \<longrightarrow> downstream nodes `` R \<subseteq> R \<longrightarrow> set (dependency_closure nodes c') \<subseteq> R"
      using 1 r True by simp_all
    show ?thesis unfolding eq
    proof (intro conjI allI impI)
      show "set c \<subseteq> set (dependency_closure nodes c')" using grow IH(1) by simp
      show "downstream nodes `` set (dependency_closure nodes c') \<subseteq> set (dependency_closure nodes c')" by (rule IH(2))
      show "set (dependency_closure nodes c') \<subseteq> R" if "set c \<subseteq> R" "downstream nodes `` R \<subseteq> R" for R
        using IH(3) sound [OF that] that(2) by simp
    qed
  next
    case False
    then have eq: "dependency_closure nodes c = c'"
      using r by (simp add: dependency_closure.simps [of nodes c])
    have "downstream nodes `` set c' \<subseteq> set c'"
      using closure_round_stable [of nodes c False] r False by (auto simp: downstream_def)
    then show ?thesis unfolding eq using grow sound by simp
  qed
qed

lemma dependency_closure_reachable:
  "set (dependency_closure nodes c) = (downstream nodes)\<^sup>* `` set c"
proof
  have "set c \<subseteq> (downstream nodes)\<^sup>* `` set c" by blast
  moreover have "downstream nodes `` ((downstream nodes)\<^sup>* `` set c) \<subseteq> (downstream nodes)\<^sup>* `` set c"
    by (auto intro: rtrancl_into_rtrancl)
  ultimately show "set (dependency_closure nodes c) \<subseteq> (downstream nodes)\<^sup>* `` set c"
    using dependency_closure_least by blast
next
  have "k \<in> set (dependency_closure nodes c)" if "(j, k) \<in> (downstream nodes)\<^sup>*" "j \<in> set c" for j k
    using that dependency_closure_least [of c nodes] by (induction rule: rtrancl_induct) blast+
  then show "(downstream nodes)\<^sup>* `` set c \<subseteq> set (dependency_closure nodes c)" by blast
qed

subsection \<open>What the analyzer returns\<close>

lemma sorted_unique_sort [simp]: "sorted_unique (sort (remdups xs)) \<longleftrightarrow> '''' \<notin> set xs"
  by (auto simp: sorted_unique_def distinct_remdups_id sorted_sort_id)

lemma sorted_unique_distinct: "distinct xs \<Longrightarrow> sorted_unique (sort xs) \<longleftrightarrow> '''' \<notin> set xs"
  by (auto simp: sorted_unique_def distinct_remdups_id sorted_sort_id)

lemma closure_keys:
  assumes "set c \<subseteq> nv_logical_key ` set nodes"
  shows "set (dependency_closure nodes c) \<subseteq> nv_logical_key ` set nodes"
proof -
  have "downstream nodes `` (nv_logical_key ` set nodes) \<subseteq> nv_logical_key ` set nodes"
    by (auto simp: downstream_def)
  then show ?thesis using dependency_closure_least [of c nodes] assms by blast
qed

text \<open>Whatever the scope, the affected keys are keys of the plan and not all of them are foreign.\<close>

lemma impact_scope_of_keys:
  assumes "impact_scope_of inbox run nodes failure = (scope, keys, reasons, code)"
  shows "set keys \<subseteq> nv_logical_key ` set nodes" "nodes \<noteq> [] \<Longrightarrow> keys \<noteq> []"
    "'''' \<notin> set reasons \<and> distinct reasons"
    "scope \<noteq> SCOPE_PRODUCT \<Longrightarrow> set keys = nv_logical_key ` set nodes"
    "scope = SCOPE_PRODUCT \<Longrightarrow> failure = None \<and> ir_state inbox \<noteq> I_CONFLICT
       \<and> set keys = (downstream nodes)\<^sup>* `` nv_logical_key ` {n \<in> set nodes.
            event_product_resource (pl_room_id run) (ev_product_id (ir_event inbox)) \<in> set (nv_resource_keys n)}"
    "code = map_option ff_external_code failure"
proof -
  let ?direct = "map nv_logical_key (filter (\<lambda>n. event_product_resource (pl_room_id run)
      (ev_product_id (ir_event inbox)) \<in> set (nv_resource_keys n)) nodes)"
  have sub: "set ?direct \<subseteq> nv_logical_key ` set nodes" by auto
  have ne: "?direct \<noteq> [] \<Longrightarrow> dependency_closure nodes ?direct \<noteq> []"
    using dependency_closure_least [of ?direct nodes] by (metis list.set(1) set_empty subset_empty)
  have "set keys \<subseteq> nv_logical_key ` set nodes \<and> (nodes \<noteq> [] \<longrightarrow> keys \<noteq> [])
    \<and> ('''' \<notin> set reasons \<and> distinct reasons) \<and> (scope \<noteq> SCOPE_PRODUCT \<longrightarrow> set keys = nv_logical_key ` set nodes)
    \<and> (scope = SCOPE_PRODUCT \<longrightarrow> failure = None \<and> ir_state inbox \<noteq> I_CONFLICT
        \<and> set keys = (downstream nodes)\<^sup>* `` set ?direct) \<and> code = map_option ff_external_code failure"
  proof (cases "failure = None \<and> ir_state inbox \<noteq> I_CONFLICT \<and> ?direct \<noteq> []")
    case True
    then have "scope = SCOPE_PRODUCT" "keys = dependency_closure nodes ?direct" "code = None"
      "reasons \<in> {[''SOLD_OUT_PRODUCT_MATCH'', ''DEPENDENCY_CLOSURE''], [''SOLD_OUT_PRODUCT_MATCH'']}"
      using assms by (auto simp: impact_scope_of_def Let_def split: if_splits)
    then show ?thesis using True closure_keys [OF sub] ne dependency_closure_reachable by auto
  next
    case False
    then show ?thesis
      using assms by (cases failure) (auto simp: impact_scope_of_def Let_def split: if_splits)
  qed
  then show "set keys \<subseteq> nv_logical_key ` set nodes" "nodes \<noteq> [] \<Longrightarrow> keys \<noteq> []"
    "'''' \<notin> set reasons \<and> distinct reasons"
    "scope \<noteq> SCOPE_PRODUCT \<Longrightarrow> set keys = nv_logical_key ` set nodes"
    "scope = SCOPE_PRODUCT \<Longrightarrow> failure = None \<and> ir_state inbox \<noteq> I_CONFLICT
       \<and> set keys = (downstream nodes)\<^sup>* `` nv_logical_key ` {n \<in> set nodes.
            event_product_resource (pl_room_id run) (ev_product_id (ir_event inbox)) \<in> set (nv_resource_keys n)}"
    "code = map_option ff_external_code failure"
    by auto
qed

lemma analyze_accepts:
  assumes ok: "validate_inputs inbox run nodes failure = Inr ()"
    and event: "ev_event_id (ir_event inbox) \<noteq> ''''" "is_sha256 (ev_payload_digest (ir_event inbox))"
    and run: "pl_id run \<noteq> ''''" "1 \<le> pl_current_version run"
    and nodes: "\<forall>n\<in>set nodes. nv_id n \<noteq> '''' \<and> nv_logical_key n \<noteq> '''' \<and> '''' \<notin> set (nv_resource_keys n)"
    and scope: "impact_scope_of inbox run nodes failure = (scope, keys, reasons, code)"
  shows "\<exists>a. analyze inbox run nodes failure = Inr a \<and> ia_event_id a = ev_event_id (ir_event inbox)
     \<and> ia_plan_run_id a = pl_id run \<and> ia_plan_version a = pl_current_version run \<and> ia_scope a = scope
     \<and> set (ia_affected_logical_keys a) = set keys
     \<and> set (ia_affected_node_ids a) = nv_id ` {n \<in> set nodes. nv_logical_key n \<in> set keys}
     \<and> ia_affected_node_ids a \<noteq> []"
proof -
  note k = impact_scope_of_keys [OF scope]
  let ?affected = "filter (\<lambda>n. nv_logical_key n \<in> set keys) nodes"
  have d: "distinct (map nv_id nodes)" "nodes \<noteq> []" using ok by (auto simp: validate_inputs_def outcome)
  have "distinct (map nv_id ?affected)" using d(1) by (simp add: distinct_map_filter)
  moreover have "'''' \<notin> set keys" using nodes k(1) by fastforce
  moreover have "'''' \<notin> set (map nv_id ?affected)" "'''' \<notin> set (concat (map nv_resource_keys ?affected))"
    using nodes by auto
  moreover have "min_length_1 code"
    using ok unfolding k(6) by (cases failure) (auto simp: validate_inputs_def min_length_1_def starts_with_def outcome)
  moreover have "?affected \<noteq> []" using k(1) k(2) [OF d(2)] by (fastforce simp: filter_empty_conv neq_Nil_conv)
  moreover have "sort xs = [] \<longleftrightarrow> xs = []" for xs :: "string list"
    by (metis set_empty set_sort)
  ultimately show ?thesis
    using ok event run k(3) scope
    by (simp add: analyze_def Let_def impact_analysis_create_def impact_fields_ok_def sorted_unique_distinct
        canonical_sha256_def digest_payload_def)
qed

text \<open>
  The raw resource key of the analyzer is the encoded key of a capability exactly when the raw ids are
  the encoded ids. So the key of a product is found for ids without reserved characters; with a
  reserved character in the room no key is found at all; and a product id that looks encoded, such
  as \<open>x%3Ay\<close>, finds the nodes of the product it encodes, \<open>x:y\<close>.
\<close>

lemma encoded_length: "length s \<le> length (encode_resource_key_segment s)"
  "length (encode_resource_key_segment s) = length s \<longleftrightarrow> list_all unreserved s"
proof -
  have "length s \<le> length (encode_resource_key_segment s)
    \<and> (length (encode_resource_key_segment s) = length s \<longleftrightarrow> list_all unreserved s)"
    by (induction s) (auto simp: encode_resource_key_segment_def quote_byte_def)
  then show "length s \<le> length (encode_resource_key_segment s)"
    "length (encode_resource_key_segment s) = length s \<longleftrightarrow> list_all unreserved s" by blast+
qed

lemma encoded_plain: "list_all unreserved s \<Longrightarrow> encode_resource_key_segment s = s"
  by (induction s) (auto simp: encode_resource_key_segment_def quote_byte_def)

lemma event_product_resource_iff:
  "event_product_resource r p = product_resource_key r' p' \<longleftrightarrow>
     r = encode_resource_key_segment r' \<and> p = encode_resource_key_segment p'"
proof
  assume "event_product_resource r p = product_resource_key r' p'"
  then have eq: "r @ CHR '':'' # (''product:'' @ p)
      = encode_resource_key_segment r' @ CHR '':'' # (''product:'' @ encode_resource_key_segment p')"
    by (simp add: event_product_resource_def product_resource_key_def)
  have "count_list (r @ CHR '':'' # (''product:'' @ p)) (CHR '':'')
      = count_list (encode_resource_key_segment r' @ CHR '':'' # (''product:'' @ encode_resource_key_segment p')) (CHR '':'')"
    by (simp only: eq)
  then have "CHR '':'' \<notin> set r"
    using encode_segment_no_colon [of r'] encode_segment_no_colon [of p'] by (simp add: count_list_0_iff)
  from colon_free_split [OF this encode_segment_no_colon eq]
  show "r = encode_resource_key_segment r' \<and> p = encode_resource_key_segment p'" by simp
qed (simp add: event_product_resource_def product_resource_key_def)

lemma encoded_itself: "s = encode_resource_key_segment s \<longleftrightarrow> list_all unreserved s"
  using encoded_length(2) [of s] encoded_plain [of s] by metis

lemma event_product_resource_matches:
  "event_product_resource r p = product_resource_key r p \<longleftrightarrow> list_all unreserved r \<and> list_all unreserved p"
  by (simp only: event_product_resource_iff encoded_itself)

end
