(* ===== verification/ImpactFreeze.thy ===== *)
theory ImpactFreeze
  imports Impact StoreReach
begin

section \<open>An analysed impact can be applied\<close>

text \<open>
  The analyzer and the store meet here: an analysis made from the views of a store is accepted by
  \<open>apply_impact_freeze\<close> on the same store, freezes exactly the affected nodes that have not
  started, and marks the latest run of every affected node as superseded.
\<close>

definition frozen :: "node_rec \<Rightarrow> node_rec" where
  "frozen n = (if freezable (nd_state n) then n\<lparr>nd_state := N_FROZEN\<rparr> else n)"

text \<open>What the loop over the affected nodes leaves alone.\<close>

definition freeze_frame :: "plan_store \<Rightarrow> plan_store \<Rightarrow> bool" where
  "freeze_frame s t \<longleftrightarrow> ps_run_ids t = ps_run_ids s \<and> ps_plan_runs t = ps_plan_runs s
     \<and> ps_node_ids t = ps_node_ids s
     \<and> dict_rel (\<lambda>r r'. nr_superseded r \<longrightarrow> r' = r) (ps_node_runs s) (ps_node_runs t)"

definition latest_superseded :: "plan_store \<Rightarrow> string \<Rightarrow> bool" where
  "latest_superseded s i \<longleftrightarrow> (case current_node_run_id s i of None \<Rightarrow> True
     | Some k \<Rightarrow> \<exists>r. dget (ps_node_runs s) k = Some r \<and> nr_superseded r)"

lemma freeze_frame_refl [simp]: "freeze_frame s s"
  by (simp add: freeze_frame_def dict_rel_refl)

lemma freeze_frame_trans: "freeze_frame s t \<Longrightarrow> freeze_frame t v \<Longrightarrow> freeze_frame s v"
  unfolding freeze_frame_def by (auto elim!: dict_rel_trans)

lemma freeze_frame_latest: "freeze_frame s t \<Longrightarrow> latest_superseded s i \<Longrightarrow> latest_superseded t i"
  unfolding freeze_frame_def latest_superseded_def dict_rel_def current_node_run_id_def history_def
  by (fastforce split: option.splits if_splits)

lemma freeze_node_effect:
  assumes wf: "wf u P s" and n: "dget (ps_nodes s) i = Some n"
  shows "\<exists>t. freeze_node e now i s = (Inr (), t) \<and> freeze_frame s t \<and> latest_superseded t i
     \<and> ps_nodes t = (if freezable (nd_state n) then dset i (frozen n) (ps_nodes s) else ps_nodes s)"
proof -
  have id: "nd_id n = i" using wf_nodesD [OF wf n] by simp
  obtain ids where ids: "dget (ps_run_ids s) i = Some ids" "wf_history s n ids"
    using wf_nodesD [OF wf n] by blast
  show ?thesis
  proof (cases "ids = []")
    case True
    then show ?thesis using n ids id
      by (auto simp: freeze_node_def frozen_def latest_superseded_def current_node_run_id_def history_def
          freeze_frame_def dict_rel_refl)
  next
    case False
    then obtain r where r: "dget (ps_node_runs s) (last ids) = Some r" by (rule run_entry_last [OF ids(2)])
    have rid: "nr_id r = last ids" using wf_node_runsD [OF wf r] by simp
    show ?thesis using n ids id r rid False
      by (auto simp: freeze_node_def frozen_def latest_superseded_def current_node_run_id_def history_def
          freeze_frame_def supersede_def intro!: dict_rel_refl dict_rel_update)
  qed
qed

lemma freeze_nodes_effect:
  "wf u {} s \<Longrightarrow> distinct is \<Longrightarrow> (\<And>i. i \<in> set is \<Longrightarrow> dget (ps_nodes s) i \<noteq> None) \<Longrightarrow>
     \<exists>t. freeze_nodes e now is s = (Inr (), t) \<and> freeze_frame s t
       \<and> (\<forall>i\<in>set is. latest_superseded t i)
       \<and> (\<forall>i. dget (ps_nodes t) i = (if i \<in> set is then map_option frozen (dget (ps_nodes s) i) else dget (ps_nodes s) i))"
proof (induction "is" arbitrary: s)
  case (Cons i "is")
  obtain n where n: "dget (ps_nodes s) i = Some n" using Cons.prems(3) [of i] by auto
  obtain t where t: "freeze_node e now i s = (Inr (), t)" "freeze_frame s t" "latest_superseded t i"
    "ps_nodes t = (if freezable (nd_state n) then dset i (frozen n) (ps_nodes s) else ps_nodes s)"
    using freeze_node_effect [OF Cons.prems(1) n] by blast
  have nodes: "dget (ps_nodes t) j = (if j = i then Some (frozen n) else dget (ps_nodes s) j)" for j
    using n t(4) by (simp add: frozen_def)
  have "wf u {} t" using freeze_node_good [OF Cons.prems(1), of e now i] t(1) by (simp add: good_def)
  moreover have "dget (ps_nodes t) j \<noteq> None" if "j \<in> set is" for j
    using Cons.prems(3) that nodes by simp
  ultimately obtain v where v: "freeze_nodes e now is t = (Inr (), v)" "freeze_frame t v"
    "\<forall>j\<in>set is. latest_superseded v j"
    "\<forall>j. dget (ps_nodes v) j = (if j \<in> set is then map_option frozen (dget (ps_nodes t) j) else dget (ps_nodes t) j)"
    using Cons.IH [of t] Cons.prems(2) by auto
  have "dget (ps_nodes v) j = (if j \<in> set (i # is) then map_option frozen (dget (ps_nodes s) j) else dget (ps_nodes s) j)" for j
    using v(4) nodes n Cons.prems(2) by simp
  then show ?case
    using t(1,2) v(1-3) freeze_frame_trans freeze_frame_latest [OF v(2) t(3)] by auto
qed simp

lemma frozen_view_ok: "node_view_ok (frozen n) = node_view_ok n"
  by (simp add: frozen_def node_view_ok_def)

lemma analyzeD:
  assumes "analyze inbox run nodes failure = Inr a"
  shows "validate_inputs inbox run nodes failure = Inr ()" "impact_fields_ok a" "ia_plan_run_id a = pl_id run"
    "ia_plan_version a = pl_current_version run" "ia_affected_node_ids a \<noteq> []"
    "set (ia_affected_node_ids a) \<subseteq> nv_id ` set nodes"
    "ia_analysis_digest a = canonical_sha256 (digest_payload a)"
proof -
  obtain scope keys reasons code where k: "impact_scope_of inbox run nodes failure = (scope, keys, reasons, code)"
    by (metis prod_cases4)
  let ?affected = "filter (\<lambda>n. nv_logical_key n \<in> set keys) nodes"
  have *: "validate_inputs inbox run nodes failure = Inr ()" "impact_fields_ok a" "ia_plan_run_id a = pl_id run"
    "ia_plan_version a = pl_current_version run" "ia_affected_node_ids a = sort (map nv_id ?affected)"
    "ia_analysis_digest a = canonical_sha256 (digest_payload a)"
    using assms k by (auto simp: analyze_def impact_analysis_create_def Let_def outcome)
  show "validate_inputs inbox run nodes failure = Inr ()" "impact_fields_ok a" "ia_plan_run_id a = pl_id run"
    "ia_plan_version a = pl_current_version run" "ia_analysis_digest a = canonical_sha256 (digest_payload a)"
    by (fact *)+
  have "nodes \<noteq> []" using *(1) by (auto simp: validate_inputs_def outcome)
  then have "?affected \<noteq> []"
    using impact_scope_of_keys(1,2) [OF k] by (fastforce simp: filter_empty_conv neq_Nil_conv)
  moreover have set: "set (ia_affected_node_ids a) = nv_id ` set ?affected" unfolding *(5) by simp
  ultimately show "ia_affected_node_ids a \<noteq> []" by (metis image_is_empty set_empty)
  show "set (ia_affected_node_ids a) \<subseteq> nv_id ` set nodes" unfolding set by auto
qed

lemma analyze_parts:
  assumes "analyze inbox run nodes failure = Inr a"
    and "impact_scope_of inbox run nodes failure = (scope, keys, reasons, code)"
  shows "ia_scope a = scope" "set (ia_affected_node_ids a) = nv_id ` {n \<in> set nodes. nv_logical_key n \<in> set keys}"
  using assms by (auto simp: analyze_def impact_analysis_create_def Let_def outcome)

lemma list_nodes_current:
  assumes wf: "wf u {} s" and run: "dget (ps_plan_runs s) p = Some run" and views: "list_nodes p None s = Inr views"
  shows "\<exists>ids. dget (ps_node_ids s) (p, pl_current_version run) = Some ids \<and> map nv_id views = ids
     \<and> (\<forall>i\<in>set ids. \<exists>n. dget (ps_nodes s) i = Some n \<and> node_view_ok n)"
proof -
  obtain ids where ids: "dget (ps_node_ids s) (p, pl_current_version run) = Some ids"
    "rmap (\<lambda>j. rbind (of_key (dget (ps_nodes s) j)) node_view) ids = Inr views"
    using views run by (auto simp: list_nodes_def outcome)
  have all: "list_all2 (\<lambda>i v. \<exists>n. dget (ps_nodes s) i = Some n \<and> node_view_ok n \<and> nv_id v = i) ids views"
    using ids(2) wf_nodesD [OF wf] unfolding rmap_eq_Inr
    by (auto elim!: list_all2_mono simp: outcome of_key_def node_view_def)
  then have "map nv_id views = ids"
    by (induction rule: list_all2_induct) auto
  moreover have "\<forall>i\<in>set ids. \<exists>n. dget (ps_nodes s) i = Some n \<and> node_view_ok n"
    using all by (induction rule: list_all2_induct) auto
  ultimately show ?thesis using ids(1) by blast
qed

lemma rmap_views:
  "(\<And>i. i \<in> set is \<Longrightarrow> \<exists>n. dget (ps_nodes t) i = Some n \<and> node_view_ok n \<and> nd_id n = i) \<Longrightarrow>
     \<exists>vs. rmap (\<lambda>i. rbind (of_key (dget (ps_nodes t) i)) node_view) is = Inr vs \<and> map nv_id vs = is"
proof (induction "is")
  case (Cons i "is")
  obtain n where n: "dget (ps_nodes t) i = Some n" "node_view_ok n" "nd_id n = i" using Cons.prems by auto
  then obtain v where "rbind (of_key (dget (ps_nodes t) i)) node_view = Inr v" "nv_id v = i"
    by (simp add: node_view_def of_key_def)
  then show ?case using Cons by fastforce
qed simp

lemma sorted_uniqueD: "sorted_unique xs \<Longrightarrow> sort (remdups xs) = xs" "sorted_unique xs \<Longrightarrow> distinct xs"
  unfolding sorted_unique_def by (metis, metis distinct_remdups distinct_sort)

lemma freeze_state_good:
  assumes "wf u {} s" "dget (ps_plan_runs s) (pl_id run) = Some run"
  shows "wf u {} (if b then put_plan_run (run\<lparr>pl_state := x\<rparr>) s else s)"
proof -
  have "good u s (put_plan_run (run\<lparr>pl_state := x\<rparr>) s)"
    by (rule good_put_plan_run [OF assms(1)]) (use assms(2) in \<open>simp_all add: same_plan_def\<close>)
  then show ?thesis using assms(1) by (simp add: good_def)
qed

lemma impact_freeze_applies:
  assumes wf: "wf u {} s" and got: "get_plan_run p s = Inr run" and views: "list_nodes p None s = Inr views"
    and a: "analyze inbox run views failure = Inr a"
  shows "\<exists>vs t. apply_impact_freeze p (PyInt (pl_current_version run)) (ia_event_id a) a (Aware now) s = (Inr vs, t)
     \<and> map nv_id vs = ia_affected_node_ids a
     \<and> (\<forall>i\<in>set (ia_affected_node_ids a). latest_superseded t i)
     \<and> (\<forall>i. dget (ps_nodes t) i = (if i \<in> set (ia_affected_node_ids a)
            then map_option frozen (dget (ps_nodes s) i) else dget (ps_nodes s) i))
     \<and> (\<exists>run'. dget (ps_plan_runs t) p = Some run'
          \<and> pl_state run' = (if ia_scope a = SCOPE_PRODUCT then pl_state run else R_FROZEN))"
proof -
  have run: "dget (ps_plan_runs s) p = Some run" "pl_id run = p" "1 \<le> pl_current_version run"
  proof -
    show run: "dget (ps_plan_runs s) p = Some run"
      using got by (auto simp: get_plan_run_def plan_run_view_def outcome)
    show "pl_id run = p" "1 \<le> pl_current_version run" using wf_plan_runsD [OF wf run] by simp_all
  qed
  obtain ids where ids: "dget (ps_node_ids s) (p, pl_current_version run) = Some ids" "map nv_id views = ids"
    "\<forall>i\<in>set ids. \<exists>n. dget (ps_nodes s) i = Some n \<and> node_view_ok n"
    using list_nodes_current [OF wf run(1) views] by blast
  note A = analyzeD [OF a]
  let ?affected = "ia_affected_node_ids a"
  have sorted: "sort (remdups ?affected) = ?affected" "distinct ?affected"
    using A(2) unfolding impact_fields_ok_def by (blast intro: sorted_uniqueD)+
  have sub: "set ?affected \<subseteq> set ids" using A(6) ids(2) by auto
  have st: "pl_state run \<in> {R_ACTIVE, R_FROZEN}" using A(1) unfolding validate_inputs_def by (simp add: outcome)
  let ?s1 = "if ia_scope a \<in> {SCOPE_ROOM, SCOPE_PLATFORM} \<and> pl_state run = R_ACTIVE
    then put_plan_run (run\<lparr>pl_state := R_FROZEN\<rparr>) s else s"
  have good1: "wf u {} ?s1"
    by (rule freeze_state_good [OF wf]) (use run in simp)
  have nodes1: "ps_nodes ?s1 = ps_nodes s" by simp
  have some: "dget (ps_nodes ?s1) i \<noteq> None" if "i \<in> set ?affected" for i
    using ids(3) sub that unfolding nodes1 by (metis option.distinct(1) subsetD)
  obtain t where t: "freeze_nodes (ia_event_id a) now ?affected ?s1 = (Inr (), t)" "freeze_frame ?s1 t"
    "\<forall>i\<in>set ?affected. latest_superseded t i"
    "\<forall>i. dget (ps_nodes t) i = (if i \<in> set ?affected then map_option frozen (dget (ps_nodes s) i)
       else dget (ps_nodes s) i)"
    using freeze_nodes_effect [OF good1 sorted(2) some, of "ia_event_id a" now] unfolding nodes1 by blast
  have "\<exists>n. dget (ps_nodes t) i = Some n \<and> node_view_ok n \<and> nd_id n = i" if i: "i \<in> set ?affected" for i
  proof -
    obtain n where n: "dget (ps_nodes s) i = Some n" "node_view_ok n" using ids(3) subsetD [OF sub i] by blast
    have "nd_id (frozen n) = i" using wf_nodesD [OF wf n(1)] by (simp add: frozen_def)
    moreover have "dget (ps_nodes t) i = Some (frozen n)" using spec [OF t(4), of i] i n(1) by simp
    ultimately show ?thesis using n(2) by (simp add: frozen_view_ok)
  qed
  then obtain vs where vs: "rmap (\<lambda>i. rbind (of_key (dget (ps_nodes t) i)) node_view) ?affected = Inr vs"
    "map nv_id vs = ?affected" using rmap_views by blast
  have "ia_event_id a \<noteq> ''''" using A(2) by (simp add: impact_fields_ok_def)
  then have eq: "apply_impact_freeze p (PyInt (pl_current_version run)) (ia_event_id a) a (Aware now) s = (Inr vs, t)"
    using run ids(1) sub st A(3-5) t(1) vs(1) sorted(1)
    by (simp add: apply_impact_freeze_def validate_version_number_def positive_int_def validate_impact_identity_def
        inv_guard_def utc_def Let_def)
  have "\<exists>run'. dget (ps_plan_runs t) p = Some run'
      \<and> pl_state run' = (if ia_scope a = SCOPE_PRODUCT then pl_state run else R_FROZEN)"
    using t(2) run st by (cases "ia_scope a") (auto simp: freeze_frame_def split: if_splits)
  then show ?thesis using eq vs(2) t(3,4) by blast
qed

end
