(* ===== verification/EventProperties.thy ===== *)
theory EventProperties
  imports EventSteps ImpactFreeze Example
begin

section \<open>Properties of the event store and of impact analysis\<close>

subsection \<open>A concrete event\<close>

definition demo_digestless :: inventory_event where
  "demo_digestless = \<lparr>ev_event_id = ''e'', ev_room_id = ''r'', ev_product_id = ''p'', ev_observed_version = 1,
     ev_occurred_at = 0, ev_source = ''s'', ev_payload_digest = ''''\<rparr>"

definition demo_sold :: inventory_event where
  "demo_sold = demo_digestless\<lparr>ev_payload_digest := calculate_payload_digest demo_digestless\<rparr>"

definition demo_ingress :: ingress_provenance where
  "demo_ingress = \<lparr>pv_provenance_id = ''v'', pv_profile_id = ''f'', pv_transport = ''kafka'', pv_topic = ''t'',
     pv_source = ''s'', pv_received_at = 0, pv_payload_digest = calculate_payload_digest demo_digestless\<rparr>"

definition demo_delivery :: event_delivery where
  "demo_delivery = \<lparr>dl_occurrence_id = ''o'', dl_transport = ''kafka'', dl_topic = ''t'', dl_partition = Some 0,
     dl_offset = Some 7, dl_received_at = 0\<rparr>"

definition demo_inbox :: inbox_record where
  "demo_inbox = new_inbox demo_sold demo_ingress demo_delivery"

definition demo_occurrence :: occurrence_record where
  "demo_occurrence = new_occurrence demo_sold demo_delivery O_ACCEPTED"

definition demo_registered :: event_store where
  "demo_registered = put_occurrence demo_occurrence (put_inbox demo_inbox empty_event_store)"

lemma demo_sold_sel [simp]:
  "ev_event_id demo_sold = ''e''" "ev_room_id demo_sold = ''r''" "ev_product_id demo_sold = ''p''"
  "ev_source demo_sold = ''s''" "ev_payload_digest demo_sold = calculate_payload_digest demo_digestless"
  "calculate_payload_digest demo_sold = calculate_payload_digest demo_digestless"
  "is_sha256 (calculate_payload_digest demo_digestless)"
  by (simp_all add: demo_sold_def demo_digestless_def calculate_payload_digest_def canonical_payload_def
      canonical_sha256_def)

lemma demo_authentic: "event_authentic demo_sold" "provenance_fields_ok demo_ingress"
  by (simp_all add: event_authentic_def event_fields_ok_def provenance_fields_ok_def demo_ingress_def)
    (simp add: demo_sold_def demo_digestless_def)

lemma demo_inbox_sel [simp]:
  "ir_event demo_inbox = demo_sold" "ir_provenance demo_inbox = demo_ingress" "ir_state demo_inbox = I_VERIFIED"
  "ir_owner demo_inbox = None" "ir_expires_at demo_inbox = None" "ir_token demo_inbox = 0"
  "ir_created_at demo_inbox = 0" "ir_updated_at demo_inbox = 0" "ir_failure demo_inbox = None"
  by (simp_all add: demo_inbox_def new_inbox_def demo_delivery_def)

lemma demo_register:
  "register_event demo_sold demo_ingress demo_delivery empty_event_store =
     (Inr (True, demo_inbox, demo_occurrence), demo_registered)"
  by (simp add: register_event_def validate_registration_def replay_delivery_if_present_def
      assert_delivery_identity_available_def classify_def inbox_record_init_def occurrence_record_init_def
      empty_event_store_def demo_registered_def demo_occurrence_def demo_inbox_def [symmetric] ev_guard_def
      lease_shape_ok_def min_length_1_def new_occurrence_def non_negative_def)
    (simp add: demo_ingress_def demo_delivery_def)

lemma demo_registered_reach: "steps (event_step u) empty_event_store demo_registered"
  by (rule steps_step [OF steps_refl])
    (metis demo_register event_register snd_conv)

lemma demo_registered_sel [simp]:
  "es_inbox demo_registered = [(''e'', demo_inbox)]" "es_by_id demo_registered = [(''o'', demo_occurrence)]"
  "es_applications demo_registered = []" "es_draws demo_registered = 0"
  "es_occurrences demo_registered = [(''e'', [demo_occurrence])]"
  by (simp_all add: demo_registered_def put_occurrence_def put_inbox_def empty_event_store_def
      demo_occurrence_def new_occurrence_def demo_delivery_def)

text \<open>Claimed by \<open>w\<close> for ten seconds, and by \<open>v\<close> once that lease is over.\<close>

definition demo_leased :: event_store where
  "demo_leased = put_inbox (claimed_by ''w'' 0 10 demo_inbox) demo_registered"

definition demo_released :: event_store where
  "demo_released = put_inbox (claimed_by ''v'' 10000000 10 (claimed_by ''w'' 0 10 demo_inbox)) demo_leased"

lemma demo_lease:
  "claim_next ''w'' (Aware 0) 10 demo_registered = (Inr (Some (claimed_by ''w'' 0 10 demo_inbox, 1)), demo_leased)"
  by (simp add: claim_next_def claim_event_def claimable_def ev_utc_def copy_inbox_def inbox_record_init_def
      nested_ok_def demo_authentic min_length_1_def lease_shape_ok_def claimed_by_def seconds_def demo_leased_def
      assert_inbox_transition_def)

lemma demo_release:
  "claim_next ''v'' (Aware 10000000) 10 demo_leased =
     (Inr (Some (claimed_by ''v'' 10000000 10 (claimed_by ''w'' 0 10 demo_inbox), 2)), demo_released)"
  by (simp add: claim_next_def claim_event_def claimable_def ev_utc_def copy_inbox_def inbox_record_init_def
      nested_ok_def demo_authentic min_length_1_def lease_shape_ok_def claimed_by_def seconds_def demo_leased_def
      demo_released_def put_inbox_def)

lemma demo_leased_reach: "steps (event_step u) empty_event_store demo_leased"
  by (rule steps_step [OF demo_registered_reach]) (metis demo_lease event_claim snd_conv)

lemma demo_released_reach: "steps (event_step u) empty_event_store demo_released"
  by (rule steps_step [OF demo_leased_reach]) (metis demo_release event_claim snd_conv)

subsection \<open>The store\<close>

lemma event_reachable: "steps (event_step u) empty_event_store s \<Longrightarrow> ev_wf s"
  using event_steps_good [OF _ ev_wf_empty] by (simp add: ev_good_def)

text \<open>
  C33: in every store the calls can reach, an inbox record has an owner and an expiry exactly while it
  is being processed and its fact matches its digest, every occurrence is filed under its id, its
  transport coordinate and its event, and every application belongs to a known event: \<open>ev_wf\<close>.
\<close>

theorem event_store_reachable_wf:
  assumes "steps (event_step u) empty_event_store s"
  shows "ev_wf s"
  using assms by (rule event_reachable)

theorem event_store_reachable_wf_witness: "ev_wf demo_leased"
  by (rule event_store_reachable_wf [OF demo_leased_reach])

text \<open>
  C34: a delivery counts once. Whatever happens after a successful registration, registering the same
  delivery again returns the occurrence first written, creates nothing, writes nothing, and the fact
  of the event is the one first stored.
\<close>

theorem delivery_replay:
  assumes "steps (event_step u) empty_event_store s"
    and "register_event e p d s = (Inr (created, inbox, x), t)" and "steps (event_step u) t v"
  shows "\<exists>inbox'. get_inbox (ev_event_id e) v = Inr inbox' \<and> ir_event inbox' = ir_event inbox
     \<and> ir_provenance inbox' = ir_provenance inbox \<and> register_event e p d v = (Inr (False, inbox', x), v)"
proof -
  have wf: "ev_wf s" "ev_wf t"
    using event_reachable [OF assms(1)] register_event_good [of s e p d] assms(2) by (auto simp: ev_good_def)
  have valid: "validate_registration e p d = Inr ()"
    using assms(2) by (auto simp: register_event_def commit_def outcome split: sum.splits)
  have t: "dget (es_by_id t) (dl_occurrence_id d) = Some x \<and> same_delivery x e d
    \<and> dget (es_inbox t) (ev_event_id e) = Some inbox"
    using assms(2)
  proof (cases rule: register_cases)
    case (filed kind)
    have "calculate_payload_digest e = ev_payload_digest e"
      using valid by (auto simp: validate_registration_def outcome)
    from classify_good(1) [OF wf(1) this filed(4)]
    show ?thesis
      using filed(5,6) by (simp_all add: put_occurrence_def put_inbox_def new_occurrence_def same_delivery_def
          occurrence_key_def delivery_key_def)
  qed simp
  have x: "dget (es_by_id v) (dl_occurrence_id d) = Some x"
    using occurrences.recorded_forever [OF assms(3) wf(2)] t by blast
  have "map_option (\<lambda>r. (ir_event r, ir_provenance r, ir_created_at r)) (dget (es_inbox v) (ev_event_id e))
      = Some (ir_event inbox, ir_provenance inbox, ir_created_at inbox)"
    by (rule facts.recorded_forever [OF assms(3) wf(2)]) (simp add: t)
  then obtain inbox' where "dget (es_inbox v) (ev_event_id e) = Some inbox'" "ir_event inbox' = ir_event inbox"
    "ir_provenance inbox' = ir_provenance inbox"
    by auto
  then show ?thesis
    using x t valid
    by (simp add: get_inbox_def register_event_def replay_delivery_if_present_def ev_guard_def)
qed

theorem delivery_replay_witness:
  "\<exists>inbox. get_inbox ''e'' demo_leased = Inr inbox \<and> ir_event inbox = demo_sold
     \<and> register_event demo_sold demo_ingress demo_delivery demo_leased = (Inr (False, inbox, demo_occurrence), demo_leased)"
proof -
  have "steps (event_step demo_ids) demo_registered demo_leased"
    by (rule steps_step [OF steps_refl]) (metis demo_lease event_claim snd_conv)
  from delivery_replay [OF steps_refl demo_register this] show ?thesis by auto
qed

text \<open>A call that raises has written nothing.\<close>

lemma event_call_failed:
  "register_event e p d s = (Inl err, t) \<Longrightarrow> t = s"
  "heartbeat i w n now lease s = (Inl err, t) \<Longrightarrow> t = s"
  "transition_inbox i expected target now w' n' failure s = (Inl err, t) \<Longrightarrow> t = s"
  "transition_application i root_id expected' target' now emergency applied impact failure s = (Inl err, t) \<Longrightarrow> t = s"
  by (auto simp: register_event_def heartbeat_def transition_inbox_def transition_application_def commit_def
      split: sum.splits)

lemma raises: "(\<And>v t. c \<noteq> (Inr v, t)) \<Longrightarrow> (\<And>e t. c = (Inl e, t) \<Longrightarrow> t = s) \<Longrightarrow> \<exists>e. c = (Inl e, s)"
  by (metis surj_pair sumE)

text \<open>A worker that lost its event is fenced off for good. Once the claim token of an event has grown
  past \<open>n\<close>, in every later store a heartbeat or a transition out of \<open>PROCESSING\<close> that presents \<open>n\<close>
  raises and writes nothing, whoever calls it and whatever the clock says.
\<close>

lemma stale_inbox_claim_is_dead:
  assumes "steps (event_step u) empty_event_store s" and "dget (es_inbox s) i = Some r" and "n < ir_token r"
    and "steps (event_step u) s t"
  shows "(\<exists>e. heartbeat i w n now lease t = (Inl e, t))
       \<and> (\<exists>e. transition_inbox i I_PROCESSING target now (Some w) (Some n) failure t = (Inl e, t))"
proof -
  have "\<not> inbox_accepts t i n"
    using inbox_lease.stale_token_rejected [OF event_reachable [OF assms(1)] assms(4), of n i] assms(2,3)
    by (simp add: inbox_token_def)
  then have rejected: "assert_current_claim q w n us = Inl EventLease" if "dget (es_inbox t) i = Some q" for q us
    using that unfolding inbox_accepts_def assert_current_claim_def guard_def by (metis (full_types))
  have h: "heartbeat i w n now lease t \<noteq> (Inr q, v)" for q v
    using rejected by (auto simp: heartbeat_def get_inbox_def commit_def outcome split: sum.splits)
  have "transition_inbox i I_PROCESSING target now (Some w) (Some n) failure t \<noteq> (Inr q, v)" for q v
    using rejected by (fastforce elim!: transition_inbox_parts)
  then show ?thesis using h event_call_failed(2,3) by (intro conjI raises)
qed

lemma arg_min_list_least: "y \<in> set xs \<Longrightarrow> f (arg_min_list f xs) \<le> f y"
  using f_arg_min_list_f [of xs f] by (cases xs) auto

text \<open>\<open>claim_next\<close> and \<open>claim_next_for_room\<close> hand out the oldest event that may be claimed, ties broken
  by its id, under a token one larger than every earlier one of that event; an event under a live
  lease is never handed out, and nothing is returned only when no event may be claimed.
\<close>

lemma claim_takes_oldest:
  assumes "steps (event_step u) empty_event_store s" and "claim_event room w (Aware now) lease s = (Inr res, t)"
  shows "case res of
      None \<Rightarrow> t = s \<and> (\<forall>k q. dget (es_inbox s) k = Some q \<longrightarrow> \<not> claimable room now q)
    | Some (r', n) \<Rightarrow> \<exists>r. dget (es_inbox s) (ev_event_id (ir_event r')) = Some r \<and> claimable room now r
        \<and> \<not> (\<exists>t. ir_state r = I_PROCESSING \<and> ir_expires_at r = Some t \<and> now < t)
        \<and> (\<forall>k q. dget (es_inbox s) k = Some q \<longrightarrow> claimable room now q \<longrightarrow>
              (ir_created_at r, ev_event_id (ir_event r)) \<le> (ir_created_at q, ev_event_id (ir_event q)))
        \<and> n = ir_token r + 1 \<and> r' = claimed_by w now lease r \<and> t = put_inbox r' s"
proof -
  have wf: "ev_wf s" by (rule event_reachable [OF assms(1)])
  have stored: "q \<in> set (dvalues (es_inbox s))" if "dget (es_inbox s) k = Some q" for k q
    using that wf in_dvalues_iff unfolding ev_wf_def wf_inbox_def by metis
  show ?thesis
    using assms(2)
  proof (cases rule: claim_event_parts)
    case (1 us)
    then show ?thesis using stored by (auto simp: filter_empty_conv)
  next
    case (2 us r r')
    note r = arg_min_list_stored [OF wf 2(2,3)]
    have "inbox_order r \<le> inbox_order q" if "dget (es_inbox s) k = Some q" "claimable room us q" for k q
      unfolding 2(3) using stored [OF that(1)] that(2) by (intro arg_min_list_least) simp
    moreover have "\<not> (\<exists>t. ir_state r = I_PROCESSING \<and> ir_expires_at r = Some t \<and> us < t)"
      using r(1) by (auto simp: claimable_def)
    moreover have "ir_event r' = ir_event r" "ir_token r' = ir_token r + 1" using 2(4) by (simp_all add: claimed_by_def)
    ultimately show ?thesis using 2(1,4,6,7) r unfolding inbox_order_def by simp
  qed
qed

text \<open>
  C35: an application of an event to a plan keeps its identity and source version, moves along the
  edges of its state machine, and what it has learnt (emergency plan, applied version) is never
  replaced; an applied one names the version it was applied as, a failed one the failure.
\<close>

theorem application_lawful:
  assumes "steps (event_step u) empty_event_store s" and "steps (event_step u) s t"
    and "dget (es_applications s) k = Some a"
  shows "\<exists>b. dget (es_applications t) k = Some b \<and> application_grows a b
     \<and> (ap_state b = A_APPLIED \<longrightarrow> ap_applied_version b \<noteq> None) \<and> (ap_state b = A_FAILED \<longrightarrow> ap_failure b \<noteq> None)"
proof -
  have g: "ev_good s t" by (rule event_steps_good [OF assms(2) event_reachable [OF assms(1)]])
  then obtain b where "dget (es_applications t) k = Some b" "application_grows a b"
    using assms(3) unfolding ev_good_def ev_evolves_def dict_rel_def by blast
  moreover have "ev_wf t" using g by (simp add: ev_good_def)
  ultimately show ?thesis using applicationD unfolding application_ok_def by blast
qed

definition demo_application :: application_record where
  "demo_application = new_application ''i'' ''e'' ''root'' 1 0"

definition demo_applying :: event_store where
  "demo_applying = snd (create_application demo_ids ''e'' ''root'' 1 (Aware 0) demo_registered)"

definition demo_freezing :: event_store where
  "demo_freezing = snd (transition_application ''e'' ''root'' A_PENDING A_FREEZING (Aware 1) None None None None demo_applying)"

lemma demo_applying_eq:
  "demo_applying = put_application demo_application (demo_registered\<lparr>es_draws := 1\<rparr>)"
  by (simp add: demo_applying_def create_application_def ev_utc_def demo_ids_def application_record_init_def
      application_fields_ok_def demo_application_def new_application_def min_length_1_def)

lemma demo_freezing_steps:
  "steps (event_step demo_ids) empty_event_store demo_applying" "steps (event_step demo_ids) demo_applying demo_freezing"
proof -
  have "event_step demo_ids demo_registered demo_applying" unfolding demo_applying_def by (rule event_application)
  then show "steps (event_step demo_ids) empty_event_store demo_applying"
    by (rule steps_step [OF demo_registered_reach])
  have "event_step demo_ids demo_applying demo_freezing" unfolding demo_freezing_def by (rule event_apply)
  then show "steps (event_step demo_ids) demo_applying demo_freezing" by (rule steps_step [OF steps_refl])
qed

theorem application_lawful_witness:
  "\<exists>b. dget (es_applications demo_freezing) (''e'', ''root'') = Some b \<and> application_grows demo_application b"
  using application_lawful [OF demo_freezing_steps, of "(''e'', ''root'')" demo_application]
  by (auto simp: demo_applying_eq put_application_def demo_application_def new_application_def)

text \<open>Deliveries are classified exactly. The occurrences of an event start with the one that was
  accepted, no later one is accepted, and an occurrence is a conflict if and only if its payload
  digest differs from that of the stored fact.
\<close>

lemma occurrences_classified:
  assumes "steps (event_step u) empty_event_store s" and "list_occurrences i s = Inr xs"
  shows "\<exists>r. get_inbox i s = Inr r \<and> xs \<noteq> [] \<and> oc_kind (hd xs) = O_ACCEPTED
     \<and> list_all (\<lambda>x. oc_kind x \<in> {O_DUPLICATE, O_CONFLICT}) (tl xs) \<and> distinct (map oc_id xs)
     \<and> list_all (\<lambda>x. oc_event_id x = i
          \<and> (oc_kind x = O_CONFLICT \<longleftrightarrow> oc_payload_digest x \<noteq> ev_payload_digest (ir_event r))) xs"
proof -
  have wf: "ev_wf s" by (rule event_reachable [OF assms(1)])
  obtain r where r: "dget (es_inbox s) i = Some r"
    using assms(2) by (auto simp: list_occurrences_def get_inbox_def outcome)
  have "dget (es_occurrences s) i \<noteq> None" using wf r unfolding ev_wf_def wf_deliveries_def by force
  then have "dget (es_occurrences s) i = Some xs"
    using assms(2) r by (auto simp: list_occurrences_def get_inbox_def)
  then have d: "deliveries_ok s i xs" using wf unfolding ev_wf_def wf_deliveries_def by blast
  have filed: "oc_event_id x = i \<and> oc_kind x \<noteq> O_REJECTED
      \<and> (oc_kind x = O_CONFLICT \<longleftrightarrow> oc_payload_digest x \<noteq> ev_payload_digest (ir_event r))" if "x \<in> set xs" for x
  proof -
    have "oc_event_id x = i" "dget (es_by_id s) (oc_id x) = Some x" using d that unfolding deliveries_ok_def by blast+
    moreover have "occurrence_filed s (oc_id x) x" using wf calculation(2) unfolding ev_wf_def wf_filed_def by blast
    ultimately show ?thesis using r unfolding occurrence_filed_def by auto
  qed
  moreover have "oc_kind x \<in> {O_DUPLICATE, O_CONFLICT}" if x: "x \<in> set (tl xs)" for x
  proof -
    have "oc_kind x \<noteq> O_ACCEPTED" "x \<in> set xs" using d x list.set_sel(2) unfolding deliveries_ok_def by fastforce+
    then show ?thesis using filed [of x] by (cases "oc_kind x") simp_all
  qed
  ultimately show ?thesis using r d by (simp add: get_inbox_def deliveries_ok_def list_all_iff)
qed

subsection \<open>The inbox refines a life cycle per event\<close>

text \<open>
  The specification forgets leases, deliveries and times: a partial map from event ids to the fact
  and its state. A fact appears verified and authentic under its own id, moves along the edges of
  the state machine, or is set to \<open>CONFLICT\<close>, which the registration does from any state.
\<close>

type_synonym inbox_view = "string \<Rightarrow> (inventory_event \<times> inbox_state) option"

inductive inbox_spec :: "inbox_view \<Rightarrow> inbox_view \<Rightarrow> bool" where
  spec_receive: "m i = None \<Longrightarrow> ev_event_id e = i \<Longrightarrow> calculate_payload_digest e = ev_payload_digest e \<Longrightarrow>
     inbox_spec m (m(i \<mapsto> (e, I_VERIFIED)))"
| spec_move: "m i = Some (e, st) \<Longrightarrow> inbox_edge st st' \<Longrightarrow> inbox_spec m (m(i \<mapsto> (e, st')))"
| spec_conflict: "m i = Some (e, st) \<Longrightarrow> inbox_spec m (m(i \<mapsto> (e, I_CONFLICT)))"

definition inbox_view :: "event_store \<Rightarrow> inbox_view" where
  "inbox_view s = (\<lambda>i. map_option (\<lambda>r. (ir_event r, ir_state r)) (dget (es_inbox s) i))"

definition simulated :: "event_store \<Rightarrow> event_store \<Rightarrow> bool" where
  "simulated s t \<longleftrightarrow> inbox_view t = inbox_view s \<or> inbox_spec (inbox_view s) (inbox_view t)"

lemma inbox_view_put:
  "inbox_view (put_inbox r s) = (inbox_view s)(ev_event_id (ir_event r) \<mapsto> (ir_event r, ir_state r))"
  "inbox_view (put_occurrence x s) = inbox_view s" "inbox_view (put_application a s) = inbox_view s"
  "inbox_view (s\<lparr>es_draws := n\<rparr>) = inbox_view s"
  by (auto simp: inbox_view_def put_inbox_def put_occurrence_def put_application_def fun_eq_iff)

lemma put_inbox_simulated:
  assumes wf: "ev_wf s" and r: "dget (es_inbox s) k = Some r" and same: "ir_event r' = ir_event r"
    and state: "ir_state r' = ir_state r \<or> inbox_edge (ir_state r) (ir_state r') \<or> ir_state r' = I_CONFLICT"
  shows "simulated s (put_inbox r' s)"
proof -
  let ?m = "inbox_view s"
  have k: "ev_event_id (ir_event r) = k" by (rule inboxD(1) [OF wf r])
  have at: "?m k = Some (ir_event r, ir_state r)" using r by (simp add: inbox_view_def)
  have view: "inbox_view (put_inbox r' s) = ?m(k \<mapsto> (ir_event r, ir_state r'))"
    using same k by (simp add: inbox_view_put)
  show ?thesis
    using state
  proof (elim disjE)
    assume "ir_state r' = ir_state r"
    then have "?m(k \<mapsto> (ir_event r, ir_state r')) = ?m" using at by (simp add: fun_upd_idem)
    then show ?thesis unfolding simulated_def view by blast
  next
    assume "inbox_edge (ir_state r) (ir_state r')"
    then show ?thesis unfolding simulated_def view using at by (blast intro: spec_move)
  next
    assume "ir_state r' = I_CONFLICT"
    then show ?thesis unfolding simulated_def view using at by (auto intro: spec_conflict)
  qed
qed

lemma register_simulated:
  assumes wf: "ev_wf s"
  shows "simulated s (snd (register_event e p d s))"
proof (cases "register_event e p d s")
  case (Pair res t)
  show ?thesis
  proof (cases res)
    case (Inl err)
    then show ?thesis using Pair event_call_failed(1) by (fastforce simp: simulated_def)
  next
    case (Inr a)
    obtain created inbox x where "a = (created, inbox, x)" by (cases a)
    then have "register_event e p d s = (Inr (created, inbox, x), t)" using Pair Inr by simp
    then show ?thesis
    proof (cases rule: register_cases)
      case replayed
      then show ?thesis using Pair by (simp add: simulated_def)
    next
      case (filed kind)
      have valid: "calculate_payload_digest e = ev_payload_digest e"
        using filed(1) by (auto simp: validate_registration_def outcome)
      have "simulated s (put_inbox inbox s)"
      proof (cases "dget (es_inbox s) (ev_event_id e)")
        case None
        then have inbox: "inbox = new_inbox e p d"
          using filed(4) by (auto simp: classify_def inbox_record_init_eq outcome)
        have "inbox_spec (inbox_view s) ((inbox_view s)(ev_event_id e \<mapsto> (e, I_VERIFIED)))"
          using None valid by (intro spec_receive) (simp_all add: inbox_view_def)
        then show ?thesis unfolding inbox by (simp add: simulated_def inbox_view_put new_inbox_def)
      next
        case (Some old)
        then have "inbox = old \<or> inbox = conflicting d old"
          using filed(4) by (auto simp: classify_def copy_inbox_eq outcome split: if_splits)
        then show ?thesis
          by (intro put_inbox_simulated [OF wf Some]) (auto simp: conflicting_def)
      qed
      then show ?thesis using Pair filed(6) by (simp add: simulated_def inbox_view_put)
    qed
  qed
qed

lemma claim_simulated:
  assumes wf: "ev_wf s"
  shows "simulated s (snd (claim_event room w now lease s))"
proof (cases "claim_event room w now lease s")
  case (Pair res t)
  show ?thesis
  proof (cases res)
    case (Inl e)
    then show ?thesis using Pair claim_event_failed by (fastforce simp: simulated_def)
  next
    case (Inr x)
    then have "claim_event room w now lease s = (Inr x, t)" using Pair by simp
    then show ?thesis
    proof (cases rule: claim_event_parts)
      case 1
      then show ?thesis using Pair by (simp add: simulated_def)
    next
      case (2 us r r')
      note r = arg_min_list_stored [OF wf 2(2,3)]
      have "simulated s (put_inbox r' s)"
        using r(1) 2(4) by (intro put_inbox_simulated [OF wf r(2)])
          (auto simp: claimed_by_def claimable_def inbox_edge_iff)
      then show ?thesis using Pair 2(7) by simp
    qed
  qed
qed

lemma update_simulated:
  assumes "ev_wf s"
  shows "simulated s (snd (heartbeat i w n now lease s))"
    and "simulated s (snd (transition_inbox i expected target now w' n' failure s))"
proof -
  show "simulated s (snd (heartbeat i w n now lease s))"
    using assms by (auto simp: heartbeat_def commit_def get_inbox_def copy_inbox_eq outcome simulated_def [of s s]
        split: sum.splits intro!: put_inbox_simulated)
  show "simulated s (snd (transition_inbox i expected target now w' n' failure s))"
  proof (cases "transition_inbox i expected target now w' n' failure s")
    case (Pair res t)
    show ?thesis
    proof (cases res)
      case (Inl e)
      then show ?thesis using Pair event_call_failed(3) by (fastforce simp: simulated_def)
    next
      case (Inr r')
      then have "transition_inbox i expected target now w' n' failure s = (Inr r', t)" using Pair by simp
      then show ?thesis
        using Pair assms by (auto elim!: transition_inbox_parts intro!: put_inbox_simulated)
    qed
  qed
qed

lemma applications_simulated:
  "simulated s (snd (create_application u i root_id v now s))"
  "simulated s (snd (transition_application i root_id expected target now emergency applied impact failure s))"
  by (simp_all add: simulated_def create_application_def transition_application_def snd_commit inbox_view_put Let_def
      split: sum.split option.split)

lemma event_step_simulated: "event_step u s t \<Longrightarrow> ev_wf s \<Longrightarrow> simulated s t"
  by (induction rule: event_step.induct)
    (simp_all add: register_simulated claim_next_def claim_next_for_room_def claim_simulated update_simulated
      applications_simulated simulated_def [of s s for s])

text \<open>
  C36: the inbox refines that specification: whatever sequence of calls is made, in order or not,
  succeeding or raising, the facts and states of the store follow a run of \<open>inbox_spec\<close>.
\<close>

theorem inbox_refines_spec:
  assumes "steps (event_step u) empty_event_store s"
  shows "steps inbox_spec Map.empty (inbox_view s)"
proof -
  have "ev_wf s \<and> steps inbox_spec (inbox_view empty_event_store) (inbox_view s)"
  proof (rule steps_invariant [OF assms, where I = "\<lambda>s. ev_wf s \<and> steps inbox_spec (inbox_view empty_event_store) (inbox_view s)"])
    show "ev_wf empty_event_store \<and> steps inbox_spec (inbox_view empty_event_store) (inbox_view empty_event_store)"
      by (simp add: ev_wf_empty steps_refl)
    show "ev_wf b \<and> steps inbox_spec (inbox_view empty_event_store) (inbox_view b)"
      if a: "ev_wf a \<and> steps inbox_spec (inbox_view empty_event_store) (inbox_view a)" and b: "event_step u a b" for a b
      using a event_step_simulated [OF b] event_step_good [OF b]
      unfolding simulated_def ev_good_def by (metis steps_step)
  qed
  then show ?thesis by (simp add: inbox_view_def empty_event_store_def)
qed

theorem inbox_refines_spec_witness: "steps inbox_spec Map.empty [''e'' \<mapsto> (demo_sold, I_PROCESSING)]"
proof -
  have "inbox_view demo_leased = [''e'' \<mapsto> (demo_sold, I_PROCESSING)]"
    by (auto simp: inbox_view_def demo_leased_def put_inbox_def claimed_by_def fun_eq_iff)
  then show ?thesis using inbox_refines_spec [OF demo_leased_reach] by simp
qed

text \<open>Every call of the event store is all or nothing: one that raises leaves the store as it was
  (\<open>create_application\<close> may have drawn an identifier), so no half-written occurrence takes a
  coordinate and no claim is lost.
\<close>

lemma event_calls_atomic:
  "(fst (register_event e p d s) = Inl err1 \<longrightarrow> snd (register_event e p d s) = s)
   \<and> (fst (claim_next w now lease s) = Inl err2 \<longrightarrow> snd (claim_next w now lease s) = s)
   \<and> (fst (claim_next_for_room w room now lease s) = Inl err3 \<longrightarrow> snd (claim_next_for_room w room now lease s) = s)
   \<and> (fst (heartbeat i w n now lease s) = Inl err4 \<longrightarrow> snd (heartbeat i w n now lease s) = s)
   \<and> (fst (transition_inbox i expected target now w' n' failure s) = Inl err5 \<longrightarrow>
        snd (transition_inbox i expected target now w' n' failure s) = s)
   \<and> (fst (create_application u i root_id v now s) = Inl err6 \<longrightarrow>
        (\<exists>k. snd (create_application u i root_id v now s) = s\<lparr>es_draws := k\<rparr>))
   \<and> (fst (transition_application i root_id from_state to_state now emergency applied impact failure s) = Inl err7 \<longrightarrow>
        snd (transition_application i root_id from_state to_state now emergency applied impact failure s) = s)"
proof (intro conjI impI)
  show "\<exists>k. snd (create_application u i root_id v now s) = s\<lparr>es_draws := k\<rparr>"
    if "fst (create_application u i root_id v now s) = Inl err6"
    using that exI [of "\<lambda>k. s = s\<lparr>es_draws := k\<rparr>" "es_draws s"]
    by (auto simp: create_application_def Let_def commit_def split: sum.splits option.splits)
qed (metis event_call_failed claim_event_failed claim_next_def claim_next_for_room_def prod.collapse snd_conv)+

subsection \<open>Impact analysis\<close>

text \<open>The affected keys of a product event are exactly the keys reachable, along the dependencies
  of the plan, from the nodes that use the product; the rounds of the search always end.
\<close>

lemma closure_is_reachability:
  "set (dependency_closure nodes direct) = (downstream nodes)\<^sup>* `` set direct"
  by (rule dependency_closure_reachable)

text \<open>
  C37: on inputs its checks accept, the analyzer returns an analysis whose digest verifies, whose
  scope is the platform exactly for a platform failure and the whole plan for a conflict or an
  unknown product, and whose affected nodes are, for a product, those downstream of its users.
\<close>

theorem analysis_exact:
  assumes "validate_inputs inbox run nodes failure = Inr ()"
    and "event_authentic (ir_event inbox)" and "pl_id run \<noteq> ''''" and "1 \<le> pl_current_version run"
    and "\<forall>n\<in>set nodes. nv_id n \<noteq> '''' \<and> nv_logical_key n \<noteq> '''' \<and> '''' \<notin> set (nv_resource_keys n)"
  shows "\<exists>a. analyze inbox run nodes failure = Inr a
     \<and> ia_analysis_digest a = canonical_sha256 (digest_payload a) \<and> ia_plan_version a = pl_current_version run
     \<and> (ia_scope a = SCOPE_PLATFORM \<longleftrightarrow> failure \<noteq> None)
     \<and> (ia_scope a = SCOPE_PRODUCT \<longleftrightarrow> failure = None \<and> ir_state inbox \<noteq> I_CONFLICT \<and> (\<exists>m\<in>set nodes.
          event_product_resource (pl_room_id run) (ev_product_id (ir_event inbox)) \<in> set (nv_resource_keys m)))
     \<and> set (ia_affected_node_ids a) = nv_id ` {n \<in> set nodes. ia_scope a = SCOPE_PRODUCT \<longrightarrow>
          nv_logical_key n \<in> (downstream nodes)\<^sup>* `` nv_logical_key ` {m \<in> set nodes.
            event_product_resource (pl_room_id run) (ev_product_id (ir_event inbox)) \<in> set (nv_resource_keys m)}}"
proof -
  obtain scope keys reasons code where k: "impact_scope_of inbox run nodes failure = (scope, keys, reasons, code)"
    by (metis prod_cases4)
  have event: "ev_event_id (ir_event inbox) \<noteq> ''''" "is_sha256 (ev_payload_digest (ir_event inbox))"
    using assms(2) by (auto simp: event_authentic_def event_fields_ok_def)
  obtain a where a: "analyze inbox run nodes failure = Inr a" "ia_scope a = scope"
    "set (ia_affected_node_ids a) = nv_id ` {n \<in> set nodes. nv_logical_key n \<in> set keys}"
    using analyze_accepts [OF assms(1) event assms(3-5) k] by blast
  have "scope = SCOPE_PLATFORM \<longleftrightarrow> failure \<noteq> None"
    using k by (cases failure) (auto simp: impact_scope_of_def Let_def split: if_splits)
  moreover have "scope = SCOPE_PRODUCT \<longleftrightarrow> failure = None \<and> ir_state inbox \<noteq> I_CONFLICT \<and> (\<exists>m\<in>set nodes.
      event_product_resource (pl_room_id run) (ev_product_id (ir_event inbox)) \<in> set (nv_resource_keys m))"
    using k by (cases failure) (auto simp: impact_scope_of_def Let_def filter_empty_conv split: if_splits)
  moreover have "nv_logical_key n \<in> set keys \<longleftrightarrow> (scope = SCOPE_PRODUCT \<longrightarrow>
      nv_logical_key n \<in> (downstream nodes)\<^sup>* `` nv_logical_key ` {m \<in> set nodes.
        event_product_resource (pl_room_id run) (ev_product_id (ir_event inbox)) \<in> set (nv_resource_keys m)})"
    if "n \<in> set nodes" for n
    using impact_scope_of_keys(4,5) [OF k] that by (cases "scope = SCOPE_PRODUCT") auto
  ultimately show ?thesis using a analyzeD(4,7) [OF a(1)] by auto
qed

text \<open>The prepared plan of the example, seen by the analyzer.\<close>

definition demo_view :: "node_rec \<Rightarrow> node_view_rec" where
  "demo_view n = \<lparr>nv_id = nd_id n, nv_plan_run_id = nd_plan_run_id n, nv_version = nd_version n,
     nv_logical_key = nd_logical_key n, nv_kind = nd_kind n, nv_state = nd_state n, nv_skill_id = nd_skill_id n,
     nv_input_bindings = nd_input_bindings n, nv_depends_on = nd_depends_on n,
     nv_resource_keys = rc_resource_keys (nd_capability n), nv_ready_at = nd_ready_at n,
     nv_reused_from = nd_reused_from n, nv_invalidated_from = nd_invalidated_from n\<rparr>"

definition demo_views :: "node_view_rec list" where
  "demo_views = map demo_view [demo_prepare, demo_card 2 ''p'', demo_card 3 ''q'', demo_collect]"

lemma demo_view_sel [simp]:
  "nd_invalidated_from demo_prepare = None" "nd_invalidated_from (demo_card k i) = None"
  "nd_invalidated_from demo_collect = None" "nd_reused_from demo_collect = None"
  "rc_resource_keys (nd_capability demo_collect) = []"
  "'''' \<noteq> product_resource_key r p" "product_resource_key r p \<noteq> ''''"
  by (simp_all add: demo_prepare_def demo_card_def demo_collect_def new_node_def control_capability_def
      product_resource_key_def)

lemma demo_views_listed: "list_nodes (demo_ids 0) None demo_created = Inr demo_views"
  by (simp add: demo_views_def demo_view_def list_nodes_def demo_created_eq node_view_def node_view_ok_def
      min_length_1_def)

lemma demo_run_room: "pl_room_id demo_run = ''r''"
  by (simp add: demo_run_def new_plan_run_def demo_plan_def demo_batch_def Let_def planning_room_def)

lemma demo_resource: "event_product_resource ''r'' ''p'' = product_resource_key ''r'' ''p''"
  by (simp add: event_product_resource_matches unreserved_def)

lemma demo_validates: "validate_inputs demo_inbox demo_run demo_views None = Inr ()"
  by (simp add: validate_inputs_def demo_run_room demo_views_def demo_view_def)

lemma demo_reachable: "(downstream demo_views)\<^sup>* `` {''card:p''} = {''card:p'', ''collect-card-results''}"
proof -
  let ?c = "[''collect-card-results'', ''card:p'']"
  have r: "closure_round demo_views [''card:p''] False = (?c, True)" "closure_round demo_views ?c False = (?c, False)"
    by (simp_all add: demo_views_def demo_view_def)
  have "dependency_closure demo_views [''card:p''] = dependency_closure demo_views ?c"
    by (subst dependency_closure.simps) (simp only: r prod.case bool.case)
  also have "\<dots> = ?c" by (subst dependency_closure.simps) (simp only: r prod.case bool.case)
  finally have "dependency_closure demo_views [''card:p''] = ?c" .
  then show ?thesis using dependency_closure_reachable [of demo_views "[''card:p'']"] by (simp add: insert_commute)
qed

lemma demo_nodes_nonempty:
  "\<forall>n\<in>set demo_views. nv_id n \<noteq> '''' \<and> nv_logical_key n \<noteq> '''' \<and> '''' \<notin> set (nv_resource_keys n)"
  by (simp add: demo_views_def demo_view_def)

lemma demo_users:
  "{m \<in> set demo_views. product_resource_key ''r'' ''p'' \<in> set (nv_resource_keys m)} = {demo_view (demo_card 2 ''p'')}"
  "{n \<in> set demo_views. nv_logical_key n \<in> {''card:p'', ''collect-card-results''}}
     = {demo_view (demo_card 2 ''p''), demo_view demo_collect}"
  "\<exists>m\<in>set demo_views. product_resource_key ''r'' ''p'' \<in> set (nv_resource_keys m)"
  "nv_logical_key (demo_view (demo_card 2 ''p'')) = ''card:p''"
  "nv_id (demo_view (demo_card 2 ''p'')) = demo_ids 2" "nv_id (demo_view demo_collect) = demo_ids 4"
proof -
  have "filter (\<lambda>m. product_resource_key ''r'' ''p'' \<in> set (nv_resource_keys m)) demo_views = [demo_view (demo_card 2 ''p'')]"
    "filter (\<lambda>n. nv_logical_key n \<in> {''card:p'', ''collect-card-results''}) demo_views
      = [demo_view (demo_card 2 ''p''), demo_view demo_collect]"
    by (simp_all add: demo_views_def demo_view_def)
  from this [THEN arg_cong, of set] show "{m \<in> set demo_views. product_resource_key ''r'' ''p'' \<in> set (nv_resource_keys m)}
      = {demo_view (demo_card 2 ''p'')}"
    "{n \<in> set demo_views. nv_logical_key n \<in> {''card:p'', ''collect-card-results''}}
      = {demo_view (demo_card 2 ''p''), demo_view demo_collect}"
    unfolding set_filter by simp_all
qed (simp_all add: demo_views_def demo_view_def)

theorem analysis_exact_witness:
  "\<exists>a. analyze demo_inbox demo_run demo_views None = Inr a \<and> ia_scope a = SCOPE_PRODUCT
     \<and> set (ia_affected_node_ids a) = {demo_ids 2, demo_ids 4}"
proof -
  obtain a where a: "analyze demo_inbox demo_run demo_views None = Inr a" "ia_scope a = SCOPE_PRODUCT"
    "set (ia_affected_node_ids a) = nv_id ` {n \<in> set demo_views. ia_scope a = SCOPE_PRODUCT \<longrightarrow>
        nv_logical_key n \<in> (downstream demo_views)\<^sup>* `` nv_logical_key ` {m \<in> set demo_views.
          product_resource_key ''r'' ''p'' \<in> set (nv_resource_keys m)}}"
    using analysis_exact [OF demo_validates _ _ _ demo_nodes_nonempty,
        unfolded demo_run_room demo_inbox_sel demo_sold_sel demo_resource] demo_authentic(1) demo_users(3)
    by simp blast
  have "set (ia_affected_node_ids a) = {demo_ids 2, demo_ids 4}"
    unfolding a(3) a(2) using demo_users(1,2,4-6) demo_reachable by simp
  then show ?thesis using a(1,2) by blast
qed

text \<open>
  C38: an analysis of the current nodes of a plan is always accepted by the store it was made from. It
  freezes every affected node that has not started, leaves all other nodes as they are, supersedes
  the latest run of each affected node, and freezes the plan itself unless one product is affected.
\<close>

theorem analysis_then_freeze:
  assumes "inj u" and "steps (some_step u) empty_store s" and "get_plan_run p s = Inr run"
    and "list_nodes p None s = Inr views" and "analyze inbox run views failure = Inr a"
  shows "\<exists>vs t. apply_impact_freeze p (PyInt (pl_current_version run)) (ia_event_id a) a (Aware now) s = (Inr vs, t)
     \<and> map nv_id vs = ia_affected_node_ids a
     \<and> (\<forall>i\<in>set (ia_affected_node_ids a). latest_superseded t i)
     \<and> (\<forall>i. dget (ps_nodes t) i = (if i \<in> set (ia_affected_node_ids a)
            then map_option frozen (dget (ps_nodes s) i) else dget (ps_nodes s) i))
     \<and> (\<exists>run'. dget (ps_plan_runs t) p = Some run'
          \<and> pl_state run' = (if ia_scope a = SCOPE_PRODUCT then pl_state run else R_FROZEN))"
proof -
  have "wf u {} s" using steps_evolves [OF assms(2) store_inv_empty [OF assms(1)]] by (simp add: store_inv_def)
  then show ?thesis by (rule impact_freeze_applies) (rule assms)+
qed

lemma demo_analysis: "\<exists>a. analyze demo_inbox demo_run demo_views None = Inr a"
proof -
  obtain scope keys reasons code where k: "impact_scope_of demo_inbox demo_run demo_views None = (scope, keys, reasons, code)"
    by (metis prod_cases4)
  have "ev_event_id (ir_event demo_inbox) \<noteq> ''''" "is_sha256 (ev_payload_digest (ir_event demo_inbox))"
    "pl_id demo_run \<noteq> ''''" "1 \<le> pl_current_version demo_run"
    by simp_all
  from analyze_accepts [OF demo_validates this demo_nodes_nonempty k] show ?thesis by blast
qed

lemma demo_get_run: "get_plan_run (demo_ids 0) demo_created = Inr demo_run"
proof -
  have "plan_run_view demo_run = Inr demo_run"
    using demo_create_result by (auto simp: create_or_resume_def empty_store_def demo_plan_sel Let_def
        demo_run_def [symmetric] card_key_def)
  then show ?thesis by (simp add: get_plan_run_def demo_created_eq)
qed

theorem analysis_then_freeze_witness:
  "\<exists>a vs t. analyze demo_inbox demo_run demo_views None = Inr a
     \<and> apply_impact_freeze (demo_ids 0) (PyInt 1) (ia_event_id a) a (Aware 0) demo_created = (Inr vs, t)
     \<and> map nv_id vs = ia_affected_node_ids a"
proof -
  obtain a where a: "analyze demo_inbox demo_run demo_views None = Inr a" using demo_analysis by blast
  show ?thesis
    using analysis_then_freeze [OF demo_ids_inj demo_reachable_created demo_get_run demo_views_listed a, of 0] a
    by auto
qed

text \<open>
  C39: which nodes a product event finds. In a plan whose nodes lock products of its own room, the
  analysis of an event that is not in conflict, and without a platform failure, is one of a product
  exactly when the room id has no reserved character and some node locks a product whose
  percent-encoded id is the raw id of the event; it then affects what is downstream of those nodes,
  and otherwise the whole plan. If room and product id have no reserved character these are the nodes
  of the product. Every node that a product id with a reserved character finds locks another product.
\<close>

theorem event_resource_matches:
  assumes "analyze inbox run nodes None = Inr a" and "ir_state inbox \<noteq> I_CONFLICT"
    and "\<forall>n\<in>set nodes. \<forall>k\<in>set (nv_resource_keys n). \<exists>q. k = product_resource_key (pl_room_id run) q"
    and "found = {n \<in> set nodes. list_all unreserved (pl_room_id run) \<and> (\<exists>q.
       product_resource_key (pl_room_id run) q \<in> set (nv_resource_keys n)
       \<and> encode_resource_key_segment q = ev_product_id (ir_event inbox))}"
  shows "(ia_scope a = SCOPE_PRODUCT \<longleftrightarrow> found \<noteq> {})
     \<and> set (ia_affected_node_ids a) = nv_id ` {n \<in> set nodes. found \<noteq> {} \<longrightarrow>
          nv_logical_key n \<in> (downstream nodes)\<^sup>* `` nv_logical_key ` found}
     \<and> (list_all unreserved (pl_room_id run) \<and> list_all unreserved (ev_product_id (ir_event inbox)) \<longrightarrow>
          found = {n \<in> set nodes. product_resource_key (pl_room_id run) (ev_product_id (ir_event inbox)) \<in> set (nv_resource_keys n)})
     \<and> (\<not> list_all unreserved (ev_product_id (ir_event inbox)) \<longrightarrow> (\<forall>n\<in>found. \<exists>q. q \<noteq> ev_product_id (ir_event inbox)
          \<and> product_resource_key (pl_room_id run) q \<in> set (nv_resource_keys n)))"
proof -
  let ?p = "ev_product_id (ir_event inbox)"
  let ?raw = "{n \<in> set nodes. event_product_resource (pl_room_id run) ?p \<in> set (nv_resource_keys n)}"
  have found: "found = ?raw"
  proof -
    have "event_product_resource (pl_room_id run) ?p \<in> set (nv_resource_keys n) \<longleftrightarrow>
        list_all unreserved (pl_room_id run) \<and> (\<exists>q. product_resource_key (pl_room_id run) q \<in> set (nv_resource_keys n)
          \<and> encode_resource_key_segment q = ?p)" if n: "n \<in> set nodes" for n
    proof
      assume raw: "event_product_resource (pl_room_id run) ?p \<in> set (nv_resource_keys n)"
      then obtain q where q: "event_product_resource (pl_room_id run) ?p = product_resource_key (pl_room_id run) q"
        using assms(3) n by blast
      then show "list_all unreserved (pl_room_id run) \<and> (\<exists>q. product_resource_key (pl_room_id run) q \<in> set (nv_resource_keys n)
          \<and> encode_resource_key_segment q = ?p)"
        using raw event_product_resource_iff encoded_itself by metis
    next
      assume "list_all unreserved (pl_room_id run) \<and> (\<exists>q. product_resource_key (pl_room_id run) q \<in> set (nv_resource_keys n)
          \<and> encode_resource_key_segment q = ?p)"
      then show "event_product_resource (pl_room_id run) ?p \<in> set (nv_resource_keys n)"
        using event_product_resource_iff [of "pl_room_id run" ?p "pl_room_id run"] encoded_itself by metis
    qed
    then show ?thesis unfolding assms(4) by blast
  qed
  obtain scope keys reasons code where k: "impact_scope_of inbox run nodes None = (scope, keys, reasons, code)"
    by (metis prod_cases4)
  have kind: "scope = SCOPE_PRODUCT \<longleftrightarrow> ?raw \<noteq> {}"
    using k assms(2) by (auto simp: impact_scope_of_def Let_def filter_empty_conv split: if_splits)
  have a: "ia_scope a = scope"
    "set (ia_affected_node_ids a) = nv_id ` {n \<in> set nodes. nv_logical_key n \<in> set keys}"
    using analyze_parts [OF assms(1) k] by auto
  have "nv_logical_key n \<in> set keys \<longleftrightarrow> (?raw \<noteq> {} \<longrightarrow> nv_logical_key n \<in> (downstream nodes)\<^sup>* `` nv_logical_key ` ?raw)"
    if "n \<in> set nodes" for n
    using impact_scope_of_keys(4,5) [OF k] that kind by (cases "scope = SCOPE_PRODUCT") auto
  then have "set (ia_affected_node_ids a) = nv_id ` {n \<in> set nodes. ?raw \<noteq> {} \<longrightarrow>
      nv_logical_key n \<in> (downstream nodes)\<^sup>* `` nv_logical_key ` ?raw}"
    unfolding a(2) by auto
  moreover have "?raw = {n \<in> set nodes. product_resource_key (pl_room_id run) ?p \<in> set (nv_resource_keys n)}"
    if "list_all unreserved (pl_room_id run) \<and> list_all unreserved ?p"
    using that by (simp add: event_product_resource_matches [THEN iffD2])
  moreover have "\<forall>n\<in>found. \<exists>q. q \<noteq> ?p \<and> product_resource_key (pl_room_id run) q \<in> set (nv_resource_keys n)"
    if "\<not> list_all unreserved ?p"
    using that encoded_itself [of ?p] unfolding assms(4) by (smt (verit) mem_Collect_eq)
  ultimately show ?thesis using a(1) kind unfolding found [symmetric] by blast
qed

definition demo_encoded_inbox :: inbox_record where
  "demo_encoded_inbox = demo_inbox\<lparr>ir_event := demo_sold\<lparr>ev_product_id := ''x%3Ay''\<rparr>\<rparr>"

definition demo_colon_views :: "node_view_rec list" where
  "demo_colon_views = [demo_view demo_prepare, demo_view (demo_card 2 ''x:y'')]"

lemma demo_encoded: "encode_resource_key_segment ''x:y'' = ''x%3Ay''"
  by (simp add: quote_byte_def unreserved_def hex_upper_def)

lemma demo_colon_resources:
  "nv_resource_keys (demo_view demo_prepare) = []"
  "nv_resource_keys (demo_view (demo_card 2 ''x:y'')) = [product_resource_key ''r'' ''x:y'']"
  by (simp_all add: demo_view_def)

lemma demo_colon_analysis: "\<exists>a. analyze demo_encoded_inbox demo_run demo_colon_views None = Inr a"
proof -
  obtain scope keys reasons code where
    k: "impact_scope_of demo_encoded_inbox demo_run demo_colon_views None = (scope, keys, reasons, code)"
    by (metis prod_cases4)
  have ok: "validate_inputs demo_encoded_inbox demo_run demo_colon_views None = Inr ()"
    by (simp add: validate_inputs_def demo_run_room demo_colon_views_def demo_view_def demo_encoded_inbox_def)
  have nodes: "\<forall>n\<in>set demo_colon_views. nv_id n \<noteq> '''' \<and> nv_logical_key n \<noteq> '''' \<and> '''' \<notin> set (nv_resource_keys n)"
    by (simp add: demo_colon_views_def demo_view_def)
  have "ev_event_id (ir_event demo_encoded_inbox) \<noteq> ''''" "is_sha256 (ev_payload_digest (ir_event demo_encoded_inbox))"
    "pl_id demo_run \<noteq> ''''" "1 \<le> pl_current_version demo_run"
    by (simp_all add: demo_encoded_inbox_def)
  from analyze_accepts [OF ok this nodes k] show ?thesis by blast
qed

theorem event_resource_matches_witness:
  "\<exists>a. analyze demo_encoded_inbox demo_run demo_colon_views None = Inr a \<and> ia_scope a = SCOPE_PRODUCT
     \<and> demo_ids 2 \<in> set (ia_affected_node_ids a)"
proof -
  let ?n = "demo_view (demo_card 2 ''x:y'')"
  let ?found = "{n \<in> set demo_colon_views. list_all unreserved (pl_room_id demo_run) \<and> (\<exists>q.
       product_resource_key (pl_room_id demo_run) q \<in> set (nv_resource_keys n)
       \<and> encode_resource_key_segment q = ev_product_id (ir_event demo_encoded_inbox))}"
  obtain a where a: "analyze demo_encoded_inbox demo_run demo_colon_views None = Inr a"
    using demo_colon_analysis by blast
  have own: "\<forall>n\<in>set demo_colon_views. \<forall>k\<in>set (nv_resource_keys n). \<exists>q. k = product_resource_key (pl_room_id demo_run) q"
    by (auto simp: demo_colon_views_def demo_colon_resources demo_run_room)
  have room: "list_all unreserved (pl_room_id demo_run)" by (simp add: demo_run_room unreserved_def)
  have "ev_product_id (ir_event demo_encoded_inbox) = encode_resource_key_segment ''x:y''"
    by (simp only: demo_encoded) (simp add: demo_encoded_inbox_def)
  then have n: "?n \<in> ?found" using room by (auto simp: demo_colon_views_def demo_colon_resources demo_run_room)
  have id: "nv_id ?n = demo_ids 2" by (simp add: demo_view_def)
  have "ir_state demo_encoded_inbox \<noteq> I_CONFLICT" by (simp add: demo_encoded_inbox_def)
  note c = event_resource_matches [OF a this own refl]
  have "ia_scope a = SCOPE_PRODUCT" using c n by blast
  moreover have "nv_id ?n \<in> set (ia_affected_node_ids a)"
    unfolding conjunct1 [OF conjunct2 [OF c]] using n by blast
  ultimately show ?thesis using a id by metis
qed

end
