(* ===== verification/StoreStaffing.thy ===== *)
theory StoreStaffing
  imports StoreReach
begin

section \<open>Every stored node is staffed\<close>

text \<open>
  The plan store never checks a capability again after a materialised plan was validated. It need not:
  the capability of a node is written once, and this theory carries what the validation of
  \<open>MaterializedPlan\<close> established through every operation. A node is \<^emph>\<open>staffed\<close> when its capability is
  of its kind: a Skill node has the Skill it declares, at a version; a control node is one of the
  four fixed ones, under its fixed key and without Skill or resource.
\<close>

definition control_roles :: "(string \<times> string) set" where
  "control_roles = {(''prepare-card-batch'', ''PREPARE_CARD_BATCH''), (''collect-card-results'', ''COLLECT_CARD_RESULTS''),
     (''validate-sold-out-event'', ''VALIDATE_SOLD_OUT_EVENT''), (''collect-sold-out-response'', ''COLLECT_SOLD_OUT_RESPONSE'')}"

definition staffed :: "node_rec \<Rightarrow> bool" where
  "staffed n \<longleftrightarrow> (case nd_kind n of
       K_SKILL \<Rightarrow> rc_node_type (nd_capability n) = ''SKILL'' \<and> rc_skill_id (nd_capability n) = nd_skill_id n
         \<and> nd_skill_id n \<notin> {None, Some ''''} \<and> rc_skill_version (nd_capability n) \<notin> {None, Some ''''}
     | K_CONTROL \<Rightarrow> (nd_logical_key n, rc_node_type (nd_capability n)) \<in> control_roles \<and> nd_skill_id n = None
         \<and> rc_skill_id (nd_capability n) = None \<and> rc_skill_version (nd_capability n) = None
         \<and> rc_resource_keys (nd_capability n) = [])"

definition staff :: "plan_store \<Rightarrow> bool" where
  "staff s \<longleftrightarrow> (\<forall>i n. dget (ps_nodes s) i = Some n \<longrightarrow> staffed n)"

lemma staffed_update [simp]:
  "staffed (n\<lparr>nd_state := st\<rparr>) = staffed n" "staffed (n\<lparr>nd_retry_at := r\<rparr>) = staffed n"
  "staffed (n\<lparr>nd_ready_at := t\<rparr>) = staffed n" "staffed (n\<lparr>nd_deadline_at := d\<rparr>) = staffed n"
  by (cases "nd_kind n"; simp add: staffed_def)+

lemma staffed_node_type: "staffed n \<Longrightarrow> rc_node_type (nd_capability n) \<noteq> ''''"
  by (auto simp: staffed_def control_roles_def split: node_kind.splits)

lemma staffD: "staff s \<Longrightarrow> dget (ps_nodes s) i = Some n \<Longrightarrow> staffed n"
  by (simp add: staff_def)

lemma staff_frame [simp]:
  "staff (put_plan_run r s) = staff s" "staff (put_node_run q s) = staff s" "staff (put_history i h s) = staff s"
  "staff (put_command l s) = staff s" "staff (draw s) = staff s" "staff (publish_version v ids s) = staff s"
  "staff (publish_key k i d s) = staff s"
  by (simp_all add: staff_def publish_version_def publish_key_def)

lemma staff_put_node [intro!]: "staff s \<Longrightarrow> staffed n \<Longrightarrow> staff (put_node n s)"
  by (auto simp: staff_def)

lemma staff_commit:
  assumes "staff s" and "\<And>v. c = Inr v \<Longrightarrow> staff (snd (f v))"
  shows "staff (snd (commit c f s))"
  using assms by (cases c) auto

subsection \<open>New nodes\<close>

text \<open>Each node of a fit plan gets the capability its kind asks for.\<close>

lemma plan_wf_staffed:
  assumes p: "plan_wf p" and c: "c \<in> set (cp_nodes (mp_proposal p))"
    and cap: "dget (mp_capabilities p) (cn_logical_key c) = Some cap"
  shows "staffed (new_node i r v c cap st now re iv)"
proof -
  have "validate_dag (mp_proposal p) = Inr (mp_proposal p)"
    using p by (auto simp: plan_wf_def candidate_plan_proposal_def outcome)
  then have nodes: "distinct (map cn_logical_key (cp_nodes (mp_proposal p)))" "candidate_plan_node c = Inr c"
    using c by (auto simp: validate_dag_eq_Inr)
  obtain n where n: "n \<in> set (cp_nodes (mp_proposal p))" "cn_logical_key n = cn_logical_key c"
    "capability_matches (mp_planning_input p) n cap"
    using p map_of_SomeD [OF cap] unfolding plan_wf_def by blast
  then have "n = c" using nodes(1) c by (auto simp: distinct_map inj_on_def)
  then have "capability_matches (mp_planning_input p) c cap" using n(3) by simp
  then show ?thesis
    using nodes(2)
    by (cases "cn_node_kind c"; cases "mp_planning_input p")
      (auto simp: staffed_def new_node_def capability_matches_def expected_control_types_def control_roles_def
        candidate_plan_node_eq_Inr split: option.splits if_splits)
qed

lemma staff_create_nodes:
  assumes "staff s" and "\<And>c cap i st. c \<in> set cs \<Longrightarrow> dget caps (cn_logical_key c) = Some cap \<Longrightarrow>
     staffed (new_node i p 1 c cap st t None None)"
  shows "staff (snd (create_nodes u p t caps cs s))"
  using assms
proof (induction cs arbitrary: s)
  case (Cons c cs)
  show ?case
  proof (cases "dget caps (cn_logical_key c)")
    case (Some cap)
    let ?n = "new_node (u (ps_draws s)) p 1 c cap (initial_node_state cap) t None None"
    have "staff (add_node ?n s)"
      using Cons.prems(1) Cons.prems(2) [of c cap] Some by (auto simp: add_node_def)
    then show ?thesis using Some Cons.IH [of "add_node ?n s"] Cons.prems(2) by (simp add: Let_def snd_outcome)
  qed (use Cons.prems in simp)
qed simp

lemma staff_replan_nodes:
  assumes "staff s" and "\<And>c cap i st re iv. c \<in> set cs \<Longrightarrow> dget caps (cn_logical_key c) = Some cap \<Longrightarrow>
     staffed (new_node i p v c cap st t re iv)"
  shows "staff (snd (replan_nodes u p v t caps old reused cs s))"
  using assms
proof (induction cs arbitrary: s)
  case (Cons c cs)
  show ?case
  proof (cases "dget caps (cn_logical_key c)")
    case (Some cap)
    have "staff (put_history i [] (put_node (new_node j p v c cap st t re iv) (draw s)))" for i j st re iv
      using Cons.prems(1) Cons.prems(2) [of c cap] Some by auto
    then have "staff (snd (replan_nodes u p v t caps old reused cs
        (put_history i [] (put_node (new_node j p v c cap st t re iv) (draw s)))))" for i j st re iv
      using Cons.IH Cons.prems(2) by simp
    then show ?thesis using Some Cons.prems(1) by (simp add: Let_def snd_outcome)
  qed (use Cons.prems in simp)
qed simp

lemma staff_create:
  assumes "staff s" and "plan_wf p"
  shows "staff (snd (create_or_resume u wall p s))"
proof -
  have "staff (snd (create_nodes u i wall (mp_capabilities p) (cp_nodes (mp_proposal p)) (draw s)))" for i
    by (rule staff_create_nodes) (use assms plan_wf_staffed in auto)
  then have "staff t" if "create_nodes u i wall (mp_capabilities p) (cp_nodes (mp_proposal p)) (draw s) = (res, t)"
    for i res t using that by (metis snd_conv)
  then show ?thesis
    using assms(1) by (auto simp: create_or_resume_def Let_def split: option.split prod.split sum.split)
qed

lemma staff_replan:
  assumes "staff s" and "plan_wf p"
  shows "staff (snd (create_replan_version u i expected p sources sig fp reused t s))"
proof -
  have "staff (snd (replan_nodes u i v t (mp_capabilities p) old reused (cp_nodes (mp_proposal p)) s))" for v t old
    by (rule staff_replan_nodes) (use assms plan_wf_staffed in auto)
  then have "staff t'" if "replan_nodes u i v t (mp_capabilities p) old reused (cp_nodes (mp_proposal p)) s = (res, t')"
    for v t old res t' using that by (metis snd_conv)
  then have "staff (snd (case replan_nodes u i v t (mp_capabilities p) old reused (cp_nodes (mp_proposal p)) s of
      (Inl e, s1) \<Rightarrow> (Inl e, s1)
      | (Inr ids, s1) \<Rightarrow> (x, put_plan_run r (publish_version y ids s1))))" for v t old x r y
    by (auto split: prod.split sum.split)
  then show ?thesis
    using assms(1) unfolding create_replan_version_def Let_def
    by (intro staff_commit) (auto simp: freeze_and_raise_def intro!: staff_commit)
qed

subsection \<open>The operations of a worker\<close>

lemma staff_promote_all:
  assumes "staff s" and "\<forall>n\<in>set ns. staffed n"
  shows "staff (fold (promote_retry now) ns s)"
  using assms
proof (induction ns arbitrary: s)
  case (Cons n ns)
  then have "staff (promote_retry now n s)" by (auto simp: promote_retry_def)
  then show ?case using Cons by simp
qed simp

lemma staff_values: "wf u P s \<Longrightarrow> staff s \<Longrightarrow> n \<in> set (dvalues (ps_nodes s)) \<Longrightarrow> staffed n"
  using node_values(2) staffD by blast

lemma staff_start_claim:
  assumes s: "staff s"
  shows "staff (snd (start_claim u w now lease d i s))"
  unfolding start_claim_def
  by (rule staff_commit [OF s]) (use s in \<open>auto simp: outcome append_claim_def Let_def staffD [OF s]\<close>)

lemma staff_claim_each: "staff s \<Longrightarrow> staff (snd (claim_each u w now lease d is s))"
proof (induction "is" arbitrary: s)
  case (Cons i "is")
  obtain r t where r: "start_claim u w now lease d i s = (r, t)" by fastforce
  then have "staff t" using staff_start_claim [OF Cons.prems] by (metis snd_conv)
  then show ?case using r Cons.IH [of t] by (cases r) (auto split: prod.split sum.split)
qed simp

lemma staff_claim_ready:
  assumes s: "staff s"
  shows "staff (snd (claim_ready_nodes u p w now lease limit d s))"
  unfolding claim_ready_nodes_def
proof (rule staff_commit [OF s], goal_cases)
  case (1 v)
  then have "\<forall>n\<in>set ns. staffed n" if "snd v = Some ns" for ns
    using that s by (auto simp: outcome rmap_eq_Inr list_all2_conv_all_nth in_set_conv_nth of_key_def
        split: if_splits option.splits) (use staffD [OF s] in blast)
  then show ?case
    using s by (auto simp: Let_def intro!: staff_claim_each staff_promote_all split: option.split prod.split)
qed

lemma staff_claim_next:
  assumes s: "staff s" and wf: "wf u P s"
  shows "staff (snd (claim_next_ready_nodes u w now lease limit d s))"
  unfolding claim_next_ready_nodes_def
proof (rule staff_commit [OF s], goal_cases)
  case (1 v)
  have "staff (fold (promote_retry t) (filter (\<lambda>n. schedulable s n \<noteq> None) (dvalues (ps_nodes s))) s)" for t
    using s staff_values [OF wf s] by (intro staff_promote_all) auto
  then show ?case by (auto simp: Let_def intro!: staff_claim_each split: sum.split prod.split)
qed

lemma staff_ready_loop: "staff s \<Longrightarrow> staff (snd (ready_loop t is states s))"
proof (induction t "is" states s rule: ready_loop.induct)
  case (2 now i "is" states s)
  have "staff (put_node (n\<lparr>nd_state := N_READY, nd_ready_at := Some now\<rparr>) s)" if "dget (ps_nodes s) i = Some n" for n
    using staffD [OF "2.prems" that] "2.prems" by auto
  then show ?case using 2 by (auto split: option.split sum.split)
qed simp

lemma staff_ready_dependents: "staff s \<Longrightarrow> staff (snd (ready_satisfied_dependents p t s))"
  using staff_ready_loop
  by (auto simp: ready_satisfied_dependents_def split: sum.split prod.split) (metis snd_conv)+

lemma staff_set_plan_state: "staff s \<Longrightarrow> staff (snd (set_plan_state p st s))"
  by (simp add: set_plan_state_def split: option.split)

lemma staff_behind_fence:
  assumes s: "staff s"
  shows "staff (snd (record_node_input k w c input t s))" "staff (snd (schedule_retry k w c t retry_at s))"
    "staff (snd (heartbeat_node_run k w c t lease s))" "staff (snd (reclaim_expired_node u k w t lease s))"
proof -
  show "staff (snd (record_node_input k w c input t s))"
    unfolding record_node_input_def by (rule staff_commit [OF s]) (use s in \<open>auto simp: Let_def\<close>)
  show "staff (snd (schedule_retry k w c t retry_at s))"
    unfolding schedule_retry_def
    by (rule staff_commit [OF s]) (use s in \<open>auto simp: outcome Let_def staffD [OF s]\<close>)
  show "staff (snd (heartbeat_node_run k w c t lease s))"
    unfolding heartbeat_node_run_def by (rule staff_commit [OF s]) (use s in \<open>auto simp: Let_def\<close>)
  show "staff (snd (reclaim_expired_node u k w t lease s))"
    unfolding reclaim_expired_node_def
    by (rule staff_commit [OF s]) (use s in \<open>auto simp: append_claim_def Let_def\<close>)
qed

lemma staff_result:
  assumes s: "staff s"
  shows "staff (snd (record_node_result k w c target out t s))"
  unfolding record_node_result_def
proof (rule staff_commit [OF s], goal_cases)
  case (1 v)
  then obtain now_us j r n st where v: "v = (now_us, j, r, n, st)" "dget (ps_nodes s) (nr_node_id r) = Some n"
    by (auto simp: outcome)
  have "staff (put_node (n\<lparr>nd_state := st\<rparr>) (put_node_run (r\<lparr>nr_state := st, nr_output := j\<rparr>) s))"
    using s staffD [OF s v(2)] by auto
  then show ?case
    using staff_ready_dependents staff_set_plan_state by (auto simp: v Let_def case_prod_unfold)
qed

subsection \<open>The other operations\<close>

lemma staff_close_reconciliation:
  assumes "staff s" and "staffed n"
  shows "staff (snd (close_reconciliation run n r st t payload s))"
proof -
  have "staff (put_node (n\<lparr>nd_state := st\<rparr>) (put_node_run (r\<lparr>nr_state := st, nr_output := reconciled_output r payload\<rparr>) s))"
    using assms by auto
  then show ?thesis
    using staff_ready_dependents by (auto simp: close_reconciliation_def Let_def snd_outcome)
qed

lemma staff_reconcile_reference:
  assumes s: "staff s"
  shows "staff (snd (reconcile_plan_reference wall p i v ref s))"
  unfolding reconcile_plan_reference_def
proof (rule staff_commit [OF s], goal_cases)
  case (1 x)
  then obtain target j run n where x: "x = (target, j, run, n)" "dget (ps_nodes s) i = Some n"
    by (auto simp: outcome)
  have "staff (snd (reconcile_reference_locked run n target wall payload s))" for payload
    unfolding reconcile_reference_locked_def
    by (rule staff_commit [OF s]) (rule staff_close_reconciliation [OF s staffD [OF s x(2)]])
  then show ?case by (simp add: x snd_outcome)
qed

lemma staff_apply_first:
  assumes s: "staff s"
  shows "staff (snd (apply_first_command c run t s))"
proof -
  have "staff (snd (apply_reconciliation_command c run n t s))" if "staffed n" for n
    using s staff_close_reconciliation [OF s that]
    by (auto simp: apply_reconciliation_command_def Let_def snd_outcome split: sum.split option.split)
  then show ?thesis
    using s staffD [OF s]
    by (auto simp: apply_first_command_def Let_def bind_eq_Some_conv split: option.split)
qed

lemma staff_submit:
  assumes s: "staff s"
  shows "staff (snd (submit_command c t s))"
proof -
  have "staff (snd (case x of (Inl e, s') \<Rightarrow> (Inl e, s')
      | (Inr res, s') \<Rightarrow> (Inr res, put_command (l res) s')))"
    if "staff (snd x)" for x :: "command_outcome outcome" and l
    using that by (auto split: prod.split sum.split)
  then show ?thesis
    using s staff_apply_first [OF s]
    by (auto simp: submit_command_def commit_def split: option.split sum.split prod.split)
qed

lemma staff_plan_only:
  assumes s: "staff s"
  shows "staff (snd (freeze_plan p s))" "staff (snd (record_reconciliation_failure p failure sg t s))"
    "staff (snd (clear_reconciliation_failure p t s))"
  using s
  by (auto simp: freeze_plan_def record_reconciliation_failure_def clear_reconciliation_failure_def commit_def Let_def
      split: sum.split prod.split)

lemma staff_freeze_nodes: "staff s \<Longrightarrow> staff (snd (freeze_nodes e t is s))"
proof (induction "is" arbitrary: s)
  case (Cons i "is")
  have one: "staff (snd (freeze_node e t i s))"
    unfolding freeze_node_def
    by (rule staff_commit [OF Cons.prems])
      (use Cons.prems in \<open>auto simp: outcome Let_def staffD [OF Cons.prems] split: option.split if_splits\<close>)
  show ?case
    using one Cons.IH by (cases "freeze_node e t i s"; cases "fst (freeze_node e t i s)") auto
qed simp

lemma staff_impact:
  assumes s: "staff s"
  shows "staff (snd (apply_impact_freeze p v e a t s))"
  unfolding apply_impact_freeze_def
proof (rule staff_commit [OF s], goal_cases)
  case (1 x)
  have "staff (snd (freeze_nodes e now is (if b then put_plan_run r s else s)))" for now b r "is"
    using s by (intro staff_freeze_nodes) simp
  then show ?case by (auto simp: Let_def snd_outcome split: prod.split)
qed

lemma store_step_staff: "store_step u now s t \<Longrightarrow> wf u {} s \<Longrightarrow> staff s \<Longrightarrow> staff t"
  by (induction rule: store_step.induct)
    (simp_all add: staff_create staff_replan staff_claim_ready staff_claim_next staff_behind_fence
      staff_result staff_reconcile_reference staff_submit staff_impact staff_plan_only)

lemma staff_reachable:
  assumes inj: "inj u" and "steps (some_step u) empty_store s"
  shows "staff s"
proof -
  have "steps (some_step u) s0 s \<Longrightarrow> store_inv u s0 \<Longrightarrow> staff s0 \<Longrightarrow> staff s" for s0 s
  proof (induction rule: steps.induct)
    case (steps_step s t v)
    have "wf u {} t" using steps_evolves [OF steps_step.hyps(1) steps_step.prems(1)] by (simp add: store_inv_def)
    then show ?case using steps_step store_step_staff unfolding some_step_def by blast
  qed simp
  then show ?thesis
    using assms(2) store_inv_empty [OF inj] by (simp add: staff_def empty_store_def)
qed

end
