(* ===== verification/StoreProgress.thy ===== *)
theory StoreProgress
  imports ClaimOrder Example StoreStaffing
begin

section \<open>Replanning is bounded, scheduling makes progress\<close>

subsection \<open>What a replan can do\<close>

definition blocking :: "reason \<Rightarrow> bool" where
  "blocking r \<longleftrightarrow> r \<in> {LoopBlocked, BudgetExhausted}"

definition blocked :: "store_error + 'a \<Rightarrow> bool" where
  "blocked res \<longleftrightarrow> (\<exists>r. res = Inl (Invariant r) \<and> blocking r)"

lemma reuse_evidence_reason: "reuse_evidence fuel s p visited n = Inl (Invariant r) \<Longrightarrow> \<not> blocking r"
  by (induction fuel s p visited n rule: reuse_evidence.induct)
    (auto simp: outcome blocking_def inv_guard_def of_key_def split: if_splits)

lemma check_reuse_reason: "check_reuse s p old reused = Inl (Invariant r) \<Longrightarrow> \<not> blocking r"
  by (induction s p old reused rule: check_reuse.induct)
    (auto simp: outcome inv_guard_def of_key_def blocking_def [of BadReuse] simp del: reuse_evidence.simps
      dest: reuse_evidence_reason)

lemma replan_nodes_reason: "replan_nodes u p v now caps old reused cs s \<noteq> (Inl (Invariant r), t)"
proof (induction cs arbitrary: s)
  case (Cons c cs)
  then show ?case by (auto simp: Let_def split: option.split sum.split prod.split)
qed simp

lemma rmap_error: "rmap f xs = Inl e \<Longrightarrow> \<exists>x\<in>set xs. f x = Inl e"
  by (induction xs) (auto simp: outcome)

definition pair_used :: "plan_store \<Rightarrow> string \<Rightarrow> string \<Rightarrow> string \<Rightarrow> bool" where
  "pair_used s p sig fp \<longleftrightarrow> (\<exists>v x. dget (ps_versions s) (p, v) = Some x
     \<and> ver_failure_signature x = Some sig \<and> ver_fingerprint x = Some fp)"

lemma replan_version_pair:
  "ver_failure_signature (replan_version p v mp sources sig fp) = Some sig"
  "ver_fingerprint (replan_version p v mp sources sig fp) = Some fp"
  by (simp_all add: replan_version_def)

text \<open>Either nothing is published, and the plan freezes exactly when it is blocked, or the next version is.\<close>

lemma replan_cases:
  assumes wf: "wf u {} s" and inj: "inj u" and run: "dget (ps_plan_runs s) p = Some run"
    and c: "create_replan_version u p expected mp sources sig fp reused now s = (res, t)"
  obtains (kept) "ps_versions t = ps_versions s" "ps_node_ids t = ps_node_ids s"
      "dget (ps_plan_runs t) p = Some (if blocked res then run\<lparr>pl_state := R_FROZEN\<rparr> else run)"
    | (published) "pl_current_version run = expected" "expected < 3" "\<not> pair_used s p sig fp" "\<not> blocked res"
      "ps_versions t = dset (p, expected + 1) (replan_version p (expected + 1) mp sources sig fp) (ps_versions s)"
      "dget (ps_plan_runs t) p = Some (run\<lparr>pl_current_version := expected + 1, pl_state := R_ACTIVE\<rparr>)"
proof -
  have id: "pl_id run = p" using wf_plan_runsD [OF wf run] by simp
  let ?checks = "rbind (utc now) (\<lambda>now_us.
      rbind (inv_guard (case mp_planning_input mp of CardBatch _ \<Rightarrow> True | Emergency _ \<Rightarrow> False)
        NotCardBatch) (\<lambda>_.
      rbind (inv_guard (py_len sig = 64 \<and> py_len fp = 64) BadReplanSignature) (\<lambda>_.
      rbind (inv_guard (distinct sources) DuplicateSource) (\<lambda>_.
      rbind (of_option (Invariant BadReplanRoot) (dget (ps_plan_runs s) p)) (\<lambda>run.
      rbind (inv_guard (pl_plan_kind run = CARD_BATCH) BadReplanRoot) (\<lambda>_.
      rbind (of_key (dget (ps_versions s) (p, pl_current_version run))) (\<lambda>latest.
      Inr (now_us, run, latest))))))))"
  show thesis
  proof (cases ?checks)
    case (Inl e)
    then have "\<not> blocked (Inl e :: store_error + version_rec \<times> bool)" 
      by (auto simp: blocked_def blocking_def inv_guard_def of_key_def utc_def outcome aware_utc_def split: pytime.splits)
    then show thesis using c Inl run by (intro kept) (simp_all add: create_replan_version_def)
  next
    case (Inr y)
    then obtain now_us latest where y: "y = (now_us, run, latest)" using run by (auto simp: outcome)
    let ?frozen = "\<lambda>r. freeze_and_raise run r s"
    let ?next = "pl_current_version run + 1"
    let ?v = "replan_version p ?next mp sources sig fp"
    have freeze: thesis if "(res, t) = ?frozen r" "blocking r" for r
      using that run id by (intro kept) (auto simp: freeze_and_raise_def blocked_def)
    have same: thesis if "t = s" "\<not> blocked res"
      using that run by (intro kept) simp_all
    let ?twice = "\<exists>((run_id, _), v) \<in> set (ps_versions s). run_id = p
         \<and> ver_failure_signature v = Some sig \<and> ver_fingerprint v = Some fp"
    define lookup where "lookup = rbind (of_key (dget (ps_node_ids s) (p, pl_current_version run))) (\<lambda>old_ids.
           rbind (rmap (\<lambda>i. of_key (dget (ps_nodes s) i)) old_ids) (\<lambda>old_nodes.
           let old = fold (\<lambda>n. dset (nd_logical_key n) n) old_nodes [] in
           rbind (check_reuse s p old reused) (\<lambda>_. Inr old)))"
    define publish where "publish = (\<lambda>old. case replan_nodes u p ?next now_us (mp_capabilities mp) old reused
                       (cp_nodes (mp_proposal mp)) s of
                  (Inl e, s1) \<Rightarrow> (Inl e, s1)
                | (Inr ids, s1) \<Rightarrow> (rbind (version_view ?v) (\<lambda>w. Inr (w, True)),
                     put_plan_run (run\<lparr>pl_current_version := ?next, pl_state := R_ACTIVE\<rparr>)
                       (publish_version ?v ids s1)))"
    have body: "(res, t) =
       (if ver_failure_signature latest = Some sig \<and> ver_fingerprint latest = Some fp
        then if sources = [] \<or> set sources \<subseteq> set (ver_source_events latest)
             then (rbind (version_view latest) (\<lambda>v. Inr (v, False)), s) else ?frozen LoopBlocked
        else if pl_current_version run \<noteq> expected then (Inl (Invariant StaleVersion), s)
        else if 3 \<le> pl_current_version run then ?frozen BudgetExhausted
        else if ?twice then ?frozen LoopBlocked
        else commit lookup publish s)"
      using c unfolding create_replan_version_def Inr commit_Inr y prod.case Let_def lookup_def publish_def by (rule sym)
    have view: "\<not> blocked (rbind (version_view x) (\<lambda>v. Inr (v, b)))" for x and b :: bool
      by (auto simp: blocked_def version_view_def outcome)
    show thesis
    proof (cases "ver_failure_signature latest = Some sig \<and> ver_fingerprint latest = Some fp
        \<or> pl_current_version run \<noteq> expected \<or> 3 \<le> pl_current_version run \<or> ?twice")
      case True
      then show thesis
        using body freeze [of LoopBlocked] freeze [of BudgetExhausted] same view [of latest False]
        by (auto simp: blocking_def blocked_def [of "Inl (Invariant StaleVersion)"] split: if_splits)
    next
      case False
      then have small: "pl_current_version run = expected" "expected < 3" and once: "\<not> ?twice"
        and b: "(res, t) = commit lookup publish s"
        using body by auto
      have unused: "\<not> pair_used s p sig fp"
        using once unfolding pair_used_def by (auto dest!: map_of_SomeD)
      show thesis
      proof (cases lookup)
        case (Inl e)
        then have "\<not> blocked (Inl e :: store_error + version_rec \<times> bool)"
          using check_reuse_reason
          by (auto simp: lookup_def blocked_def outcome of_key_def Let_def dest!: rmap_error)
        then show thesis using b Inl same by simp
      next
        case (Inr old)
        obtain x s1 where r: "replan_nodes u p ?next now_us (mp_capabilities mp) old reused
            (cp_nodes (mp_proposal mp)) s = (x, s1)" by fastforce
        have frame: "same_plans s s1" using replan_nodes_result [OF wf inj r] run by simp
        show thesis
        proof (cases x)
          case (Inl e)
          then have "\<not> blocked (Inl e :: store_error + version_rec \<times> bool)"
            using r replan_nodes_reason by (auto simp: blocked_def)
          then show thesis
            using b Inr r Inl frame run by (intro kept) (simp_all add: publish_def same_plans_def)
        next
          case (Inr ids)
          then show thesis
            using b \<open>lookup = Inr old\<close> r frame id small unused view [of ?v True]
            by (intro published) (simp_all add: publish_def same_plans_def publish_version_def replan_version_def)
        qed
      qed
    qed
  qed
qed

text \<open>Replanning is bounded. A call of \<open>create_replan_version\<close> either publishes nothing, and then the
  plan is frozen exactly when the call was refused as a loop or for its budget, or it publishes
  the next version of the expected one, at most the third, under a pair of failure signature and
  input fingerprint no version of the plan had; other versions stay as they are.
\<close>

lemma replan_bounded:
  assumes "inj u" and "steps (some_step u) empty_store s" and "dget (ps_plan_runs s) p = Some run"
    and "create_replan_version u p expected mp sources sig fp reused now s = (res, t)"
  shows "if ps_versions t = ps_versions s
       then dget (ps_plan_runs t) p = Some (if blocked res then run\<lparr>pl_state := R_FROZEN\<rparr> else run)
       else pl_current_version run = expected \<and> expected < 3 \<and> \<not> pair_used s p sig fp \<and> \<not> blocked res
          \<and> ps_versions t = dset (p, expected + 1) (replan_version p (expected + 1) mp sources sig fp) (ps_versions s)
          \<and> dget (ps_plan_runs t) p = Some (run\<lparr>pl_current_version := expected + 1, pl_state := R_ACTIVE\<rparr>)"
proof -
  have wf: "wf u {} s" using steps_evolves [OF assms(2) store_inv_empty [OF assms(1)]] by (simp add: store_inv_def)
  show ?thesis
    using wf assms(1,3,4)
  proof (cases rule: replan_cases)
    case published
    let ?x = "replan_version p (expected + 1) mp sources sig fp"
    have "dget (ps_versions s) (p, expected + 1) \<noteq> Some ?x"
      using published(3) replan_version_pair unfolding pair_used_def by blast
    moreover have "dget (ps_versions t) (p, expected + 1) = Some ?x" using published(5) by simp
    ultimately have "ps_versions t \<noteq> ps_versions s" by metis
    then show ?thesis using published by simp
  qed simp
qed

definition demo_sig :: string where
  "demo_sig = replicate 64 (CHR ''a'')"

lemma demo_sig_ok: "py_len demo_sig = 64" "is_sha256 demo_sig"
  by (simp_all add: demo_sig_def py_len_def is_sha256_def is_hex_def list_all_iff)

lemma demo_replan:
  "\<exists>v t. create_replan_version demo_ids (demo_ids 0) 1 demo_plan [] demo_sig demo_sig [] (Aware 0) demo_created
     = (Inr (v, True), t)"
proof -
  have kind: "case mp_planning_input demo_plan of CardBatch _ \<Rightarrow> True | Emergency _ \<Rightarrow> False"
    by (simp add: demo_plan_def)
  have view: "version_view_ok (replan_version (demo_ids 0) 2 demo_plan [] demo_sig demo_sig)"
    by (simp add: version_view_ok_def replan_version_def demo_plan_def demo_proposal_def sha_option_ok_def demo_sig_ok)
  have old: "ver_failure_signature (initial_version (demo_ids 0) demo_plan) = None"
    by (simp add: initial_version_def)
  show ?thesis
    using kind view
    by (simp add: create_replan_version_def demo_created_eq utc_def demo_plan_sel demo_sig_ok old Let_def
      inv_guard_def of_key_def card_key_def version_view_def)
qed

subsection \<open>The scheduler makes progress\<close>

lemma claim_candidates_total:
  "(\<And>n. n \<in> set ns \<Longrightarrow> nd_state n = N_READY \<Longrightarrow> nd_ready_at n \<noteq> None) \<Longrightarrow>
     \<exists>cs. claim_candidates s ns = Inr cs \<and>
       (\<forall>n\<in>set ns. nd_state n = N_READY \<and> schedulable s n \<noteq> None \<longrightarrow> (\<exists>a b. (a, b, nd_id n) \<in> set cs))"
proof (induction ns)
  case (Cons n ns)
  then obtain cs where cs: "claim_candidates s ns = Inr cs"
    "\<forall>n\<in>set ns. nd_state n = N_READY \<and> schedulable s n \<noteq> None \<longrightarrow> (\<exists>a b. (a, b, nd_id n) \<in> set cs)"
    by auto
  show ?case
  proof (cases "nd_state n = N_READY \<and> schedulable s n \<noteq> None")
    case True
    then obtain r t where "schedulable s n = Some r" "nd_ready_at n = Some t" using Cons.prems [of n] by auto
    then show ?thesis using cs True by auto blast
  next
    case False
    then show ?thesis using cs by (cases "schedulable s n") auto
  qed
qed simp

lemma select_ready_some:
  "n \<in> set ns \<Longrightarrow> nd_state n = N_READY \<Longrightarrow> set (rc_resource_keys (nd_capability n)) \<inter> set locked = {} \<Longrightarrow>
     select_ready ns locked k \<noteq> []"
  by (induction ns locked k rule: select_ready.induct) auto

lemma rmap_total: "(\<And>x. x \<in> set xs \<Longrightarrow> \<exists>y. f x = Inr y) \<Longrightarrow> \<exists>ys. rmap f xs = Inr ys"
proof (induction xs)
  case (Cons x xs)
  then obtain y ys where "f x = Inr y" "rmap f xs = Inr ys" by (metis list.set_intros)
  then show ?case by simp
qed simp

lemma start_claim_succeeds:
  assumes wf: "wf u {} s" and ids: "\<And>k. u k \<noteq> ''''" and w: "w \<noteq> ''''"
    and n: "dget (ps_nodes s) i = Some n" "rc_node_type (nd_capability n) \<noteq> ''''"
  shows "\<exists>r t. start_claim u w now lease deadline i s = (Inr r, t)"
proof -
  obtain hist where hist: "dget (ps_run_ids s) i = Some hist" "wf_history s n hist"
    using wf_nodesD [OF wf n(1)] by blast
  have "\<exists>r. dget (ps_node_runs s) k = Some r" if "k \<in> set hist" for k
    using that hist(2) by (auto simp: in_set_conv_nth wf_history_def run_entry_def)
  then have "\<exists>runs. rmap (\<lambda>k. of_key (dget (ps_node_runs s) k)) hist = Inr runs"
    by (intro rmap_total) (fastforce simp: of_key_def)
  then obtain runs where runs: "runs_of s i = Inr (hist, runs)"
    using hist(1) by (auto simp: runs_of_def of_key_def)
  have "nd_id n \<noteq> ''''" "nd_plan_run_id n \<noteq> ''''"
  proof -
    have drawn: "drawn u s j \<Longrightarrow> j \<noteq> ''''" for j using ids by (auto simp: drawn_def)
    show "nd_id n \<noteq> ''''" using wf_nodesD [OF wf n(1)] drawn by blast
    obtain run where "dget (ps_plan_runs s) (nd_plan_run_id n) = Some run" using wf_nodesD [OF wf n(1)] by auto
    then show "nd_plan_run_id n \<noteq> ''''" using wf_plan_runsD [OF wf] drawn by blast
  qed
  then show ?thesis
    using n runs ids w
    by (simp add: start_claim_def of_key_def Let_def node_run_view_def node_run_view_ok_def new_claim_def
        next_claim_version_def sha_option_ok_def min_length_1_def)
qed

lemma claim_each_succeeds:
  assumes "wf u {} s" and "inj u" and "\<And>k. u k \<noteq> ''''" and "w \<noteq> ''''" and "distinct is"
    and "\<forall>i\<in>set is. \<exists>n. dget (ps_nodes s) i = Some n \<and> nd_state n = N_READY \<and> rc_node_type (nd_capability n) \<noteq> ''''"
  shows "\<exists>rs t. claim_each u w now lease deadline is s = (Inr rs, t) \<and> length rs = length is"
  using assms
proof (induction "is" arbitrary: s)
  case (Cons i "is")
  obtain n where n: "dget (ps_nodes s) i = Some n" "nd_state n = N_READY" "rc_node_type (nd_capability n) \<noteq> ''''"
    using Cons.prems(6) by auto
  obtain r t where r: "start_claim u w now lease deadline i s = (Inr r, t)"
    using start_claim_succeeds [OF Cons.prems(1,3,4) n(1,3)] by blast
  note g = start_claim_good [OF Cons.prems(1,2) n(1,2), where w = w and now = now and lease = lease and deadline = deadline]
  have "\<exists>rs v. claim_each u w now lease deadline is t = (Inr rs, v) \<and> length rs = length is"
  proof (rule Cons.IH [OF _ Cons.prems(2-4)])
    show "wf u {} t" using good_wf [OF g(1)] r by simp
    show "distinct is" using Cons.prems(5) by simp
    show "\<forall>j\<in>set is. \<exists>n. dget (ps_nodes t) j = Some n \<and> nd_state n = N_READY \<and> rc_node_type (nd_capability n) \<noteq> ''''"
      using Cons.prems(5,6) g(2) r by (metis distinct.simps(2) list.set_intros(2) snd_conv)
  qed
  then show ?case using r by auto
qed simp

lemma start_claim_worker:
  "start_claim u w now lease deadline i s = (Inr r, t) \<Longrightarrow> nr_worker r = w \<and> nr_state r = N_RUNNING"
  by (auto simp: start_claim_def commit_def Let_def node_run_view_def new_claim_def outcome split: sum.splits)

lemma claim_each_worker:
  "claim_each u w now lease deadline is s = (Inr rs, t) \<Longrightarrow> r \<in> set rs \<Longrightarrow> nr_worker r = w \<and> nr_state r = N_RUNNING"
proof (induction "is" arbitrary: s rs)
  case (Cons i "is")
  then show ?case by (auto split: prod.splits sum.splits dest: start_claim_worker)
qed simp

lemma promote_all_frame:
  assumes "\<forall>m\<in>set ns. dget (ps_nodes s) (nd_id m) = Some m"
  shows "ps_plan_runs (fold (promote_retry now) ns s) = ps_plan_runs s
     \<and> ps_node_runs (fold (promote_retry now) ns s) = ps_node_runs s
     \<and> ps_run_ids (fold (promote_retry now) ns s) = ps_run_ids s
     \<and> (\<forall>j m'. dget (ps_nodes (fold (promote_retry now) ns s)) j = Some m' \<longrightarrow>
          (\<exists>m. dget (ps_nodes s) j = Some m \<and> nd_capability m' = nd_capability m
             \<and> (nd_state m \<noteq> N_RETRY_WAIT \<longrightarrow> m' = m)))"
proof -
  let ?P = "\<lambda>t. ps_plan_runs t = ps_plan_runs s \<and> ps_node_runs t = ps_node_runs s \<and> ps_run_ids t = ps_run_ids s
     \<and> (\<forall>j m'. dget (ps_nodes t) j = Some m' \<longrightarrow>
          (\<exists>m. dget (ps_nodes s) j = Some m \<and> nd_capability m' = nd_capability m
             \<and> (nd_state m \<noteq> N_RETRY_WAIT \<longrightarrow> m' = m)))"
  have "?P (fold (promote_retry now) ms t)" if "?P t" "set ms \<subseteq> set ns" for ms t
    using that
  proof (induction ms arbitrary: t)
    case (Cons m ms)
    have "?P (promote_retry now m t)"
      using Cons.prems assms by (auto simp: promote_retry_def retry_due_def)
    then show ?case using Cons.IH Cons.prems(2) by simp
  qed simp
  from this [of s ns] show ?thesis by simp
qed

lemma ready_is_candidate:
  assumes wf: "wf u {} s" and n: "dget (ps_nodes s) i = Some n" "nd_state n = N_READY" "schedulable s n \<noteq> None"
  shows "\<exists>cs. claim_candidates s (dvalues (ps_nodes s)) = Inr cs \<and> n \<in> set (ordered_candidates s cs)"
proof -
  have id: "nd_id n = i" using wf_nodesD [OF wf n(1)] by simp
  have "nd_ready_at m \<noteq> None" if "m \<in> set (dvalues (ps_nodes s))" "nd_state m = N_READY" for m
    using that node_values(2) [OF wf] wf_nodesD [OF wf] by blast
  then obtain cs where cs: "claim_candidates s (dvalues (ps_nodes s)) = Inr cs"
    "\<forall>m\<in>set (dvalues (ps_nodes s)). nd_state m = N_READY \<and> schedulable s m \<noteq> None \<longrightarrow> (\<exists>a b. (a, b, nd_id m) \<in> set cs)"
    using claim_candidates_total [of "dvalues (ps_nodes s)" s] by blast
  have "n \<in> set (dvalues (ps_nodes s))" using node_values(2) [OF wf] n(1) id by simp
  then obtain a b where "(a, b, i) \<in> set cs" using cs(2) n(2,3) id by blast
  then have "n \<in> set (ordered_candidates s cs)"
    using n(1) unfolding ordered_candidates_def by force
  then show ?thesis using cs(1) by blast
qed

text \<open>
  C40: no ready work is left lying. In every reachable store, when some node of the current version of
  an active plan is ready and its resources are not locked, a call of \<open>claim_next_ready_nodes\<close> with
  a worker, a positive lease, a positive limit and no deadline or any aware one does not raise and
  hands out at least one claim, to that worker. The ids the store draws are distinct and not empty,
  as those of \<open>uuid4\<close> are.
\<close>

theorem scheduler_makes_progress:
  assumes "inj u" and "\<And>k. u k \<noteq> ''''" and "steps (some_step u) empty_store s"
    and "dget (ps_nodes s) i = Some n" and "nd_state n = N_READY" and "schedulable s n \<noteq> None"
    and "set (rc_resource_keys (nd_capability n)) \<inter> set (locked_resource_keys s now) = {}"
    and "w \<noteq> ''''" and "0 < lease" and "0 < limit" and "deadline \<in> {None, Some (Aware d)}"
  shows "\<exists>r rs t. claim_next_ready_nodes u w (Aware now) (PyInt lease) (PyInt limit) deadline s = (Inr (r # rs), t)
     \<and> nr_worker r = w \<and> nr_state r = N_RUNNING"
proof -
  have wf: "wf u {} s" using steps_evolves [OF assms(3) store_inv_empty [OF assms(1)]] by (simp add: store_inv_def)
  have typed: "rc_node_type (nd_capability m) \<noteq> ''''" if "dget (ps_nodes s) j = Some m" for j m
    using staffed_node_type staffD [OF staff_reachable [OF assms(1,3)] that] by blast
  define due where "due = (if deadline = None then None else Some d)"
  let ?ns = "filter (\<lambda>n. schedulable s n \<noteq> None) (dvalues (ps_nodes s))"
  define s1 where "s1 = fold (promote_retry now) ?ns s"
  have own: "\<forall>m\<in>set ?ns. dget (ps_nodes s) (nd_id m) = Some m" using node_values(2) [OF wf] by simp
  have g: "good u s s1"
    unfolding s1_def using own node_values(1) [OF wf] wf by (intro promote_all_good) (auto simp: distinct_map_filter)
  note wf1 = good_wf [OF g] and frame = promote_all_frame [OF own, of now, folded s1_def]
  obtain n' where n': "dget (ps_nodes s1) i = Some n'"
    using g assms(4) unfolding good_def evolves_def dict_rel_def by blast
  then have "n' = n" using frame assms(4,5) by fastforce
  then have n1: "dget (ps_nodes s1) i = Some n" using n' by simp
  have "schedulable s1 n \<noteq> None" using assms(6) frame by (simp add: schedulable_def)
  then obtain cs where cs: "claim_candidates s1 (dvalues (ps_nodes s1)) = Inr cs"
    and n_in: "n \<in> set (ordered_candidates s1 cs)"
    using ready_is_candidate [OF wf1 n1 assms(5)] by blast
  note o = ordered_candidates [OF wf1 cs]
  let ?L = "locked_resource_keys s1 now"
  let ?chosen = "select_ready (ordered_candidates s1 cs) ?L (nat limit)"
  have "holds_lock s1 now = holds_lock s now"
    using frame by (simp add: fun_eq_iff holds_lock_def current_node_run_id_def history_def)
  then have "?L = locked_resource_keys s now" using frame by (simp add: locked_resource_keys_def)
  then have "?chosen \<noteq> []" using n_in assms(5,7) by (intro select_ready_some) simp_all
  moreover have "\<exists>rs t. claim_each u w now lease due (map nd_id ?chosen) s1 = (Inr rs, t)
      \<and> length rs = length (map nd_id ?chosen)"
  proof (rule claim_each_succeeds [OF wf1 assms(1) assms(2) assms(8)])
    show "distinct (map nd_id ?chosen)" by (rule select_ready_distinct [OF o(3)])
    show "\<forall>j\<in>set (map nd_id ?chosen). \<exists>m. dget (ps_nodes s1) j = Some m \<and> nd_state m = N_READY
        \<and> rc_node_type (nd_capability m) \<noteq> ''''"
      using o(1) frame typed by (fastforce dest: select_ready_ready)
  qed
  moreover have "\<exists>ys. rmap (\<lambda>n. of_key (dget (ps_plan_runs s) (nd_plan_run_id n))) (dvalues (ps_nodes s)) = Inr ys"
    using node_values(2) [OF wf] wf_nodesD [OF wf] by (intro rmap_total) (fastforce simp: of_key_def)
  ultimately obtain ys rs t where ne: "?chosen \<noteq> []"
    and each: "claim_each u w now lease due (map nd_id ?chosen) s1 = (Inr rs, t)" "length rs = length ?chosen"
    and ys: "rmap (\<lambda>n. of_key (dget (ps_plan_runs s) (nd_plan_run_id n))) (dvalues (ps_nodes s)) = Inr ys"
    by (metis length_map)
  have args: "claim_arguments w (Aware now) (PyInt lease) (PyInt limit) deadline = Inr (now, lease, limit, due)"
    using assms(8-11) by (auto simp: claim_arguments_def utc_def utc_option_def inv_guard_def positive_int_def due_def)
  have "claim_next_ready_nodes u w (Aware now) (PyInt lease) (PyInt limit) deadline s
      = claim_each u w now lease due (map nd_id ?chosen) s1"
    unfolding claim_next_ready_nodes_def args ys rbind_Inr commit_Inr prod.case s1_def [symmetric] Let_def cs
      sum.case ordered_candidates_def by (rule refl)
  moreover obtain r rs' where "rs = r # rs'" using ne each(2) by (cases rs) auto
  moreover have "nr_worker q = w \<and> nr_state q = N_RUNNING" if "q \<in> set rs" for q
    using claim_each_worker [OF each(1) that] .
  ultimately show ?thesis using each(1) by simp
qed

theorem scheduler_makes_progress_witness:
  "\<exists>r rs t. claim_next_ready_nodes demo_ids ''w'' (Aware 2) (PyInt 10) (PyInt 1) (Some (Aware 60)) demo_done
     = (Inr (r # rs), t) \<and> nr_worker r = ''w'' \<and> nr_state r = N_RUNNING"
proof (rule scheduler_makes_progress [OF demo_ids_inj _ demo_reachable_done, where i = "demo_ids 2" and n = "demo_ready_card 2 ''p''"
      and d = 60])
qed (simp_all add: demo_done_store schedulable_def locked_resource_keys_def holds_lock_def)

subsection \<open>What the store holds of the capabilities\<close>

text \<open>
  C31: every stored node has a capability of its kind. In every reachable store a Skill node carries
  the Skill it declares, at a version; a control node is one of the four fixed ones under its fixed
  key, without Skill, version or resource, and none of its claims holds a resource. Plans enter
  the store as \<open>materialized_plan_init\<close> returns them.
\<close>

theorem stored_capabilities_fit:
  assumes "inj u" and "steps (some_step u) empty_store s" and "dget (ps_nodes s) i = Some n"
  shows "case nd_kind n of
       K_SKILL \<Rightarrow> rc_node_type (nd_capability n) = ''SKILL'' \<and> (\<exists>k v. nd_skill_id n = Some k \<and> k \<noteq> ''''
         \<and> rc_skill_id (nd_capability n) = Some k \<and> rc_skill_version (nd_capability n) = Some v \<and> v \<noteq> '''')
     | K_CONTROL \<Rightarrow> (nd_logical_key n, rc_node_type (nd_capability n)) \<in>
           {(''prepare-card-batch'', ''PREPARE_CARD_BATCH''), (''collect-card-results'', ''COLLECT_CARD_RESULTS''),
            (''validate-sold-out-event'', ''VALIDATE_SOLD_OUT_EVENT''),
            (''collect-sold-out-response'', ''COLLECT_SOLD_OUT_RESPONSE'')}
         \<and> nd_skill_id n = None \<and> rc_skill_id (nd_capability n) = None \<and> rc_skill_version (nd_capability n) = None
         \<and> rc_resource_keys (nd_capability n) = []
         \<and> (\<forall>k r. dget (ps_node_runs s) k = Some r \<longrightarrow> nr_node_id r = i \<longrightarrow> nr_resource_keys r = [])"
proof -
  have wf: "wf u {} s" using steps_evolves [OF assms(2) store_inv_empty [OF assms(1)]] by (simp add: store_inv_def)
  have keys: "nr_resource_keys r = rc_resource_keys (nd_capability n)"
    if r: "dget (ps_node_runs s) k = Some r" "nr_node_id r = i" for k r
  proof -
    obtain ids where "dget (ps_run_ids s) i = Some ids" "k \<in> set ids" using wf_node_runsD [OF wf r(1)] r(2) by auto
    moreover from this have "wf_history s n ids" using wf_historyD [OF wf assms(3)] by blast
    ultimately show ?thesis using r(1) by (auto simp: wf_history_def run_entry_def in_set_conv_nth)
  qed
  have "staffed n" by (rule staffD [OF staff_reachable [OF assms(1,2)] assms(3)])
  then show ?thesis
    using keys unfolding staffed_def control_roles_def by (cases "nd_kind n") auto
qed

theorem stored_capabilities_fit_witness:
  "\<exists>k v. nd_skill_id (demo_ready_card 2 ''p'') = Some k \<and> k \<noteq> ''''
     \<and> rc_skill_id (nd_capability (demo_ready_card 2 ''p'')) = Some k
     \<and> rc_skill_version (nd_capability (demo_ready_card 2 ''p'')) = Some v \<and> v \<noteq> ''''"
proof -
  have "nd_kind (demo_ready_card 2 ''p'') = K_SKILL"
    by (simp add: demo_ready_card_def demo_card_def new_node_def card_node_def skill_node_def)
  moreover have "dget (ps_nodes demo_done) (demo_ids 2) = Some (demo_ready_card 2 ''p'')"
    by (simp add: demo_done_store)
  ultimately show ?thesis
    using stored_capabilities_fit [OF demo_ids_inj demo_reachable_done, of "demo_ids 2" "demo_ready_card 2 ''p''"] by simp
qed

end
