(* ===== verification/Engine.thy ===== *)
theory Engine
  imports StoreReach EventSteps
begin

section \<open>Programs over both stores\<close>

text \<open>
  The coordinators of the plan engine own no state: they call the plan store and the event store
  one method at a time. A \<open>program\<close> is such a coordinator, a function from the two stores to a
  result and the stores after it; an exception of a call ends the program and leaves what the
  earlier calls have written. The two stores share no transaction, so between two calls of a
  program other workers may call as well. \<open>engine_step\<close> is one call, and a program is shown to make
  only such steps (\<open>obeys\<close>), so that what every step keeps holds at each point in between.
\<close>

subsection \<open>Sequencing\<close>

type_synonym ('e, 's, 'a) program = "'s \<Rightarrow> ('e + 'a) \<times> 's"

definition sbind :: "('e, 's, 'a) program \<Rightarrow> ('a \<Rightarrow> ('e, 's, 'b) program) \<Rightarrow> ('e, 's, 'b) program" where
  "sbind m f s = (case m s of (Inl e, t) \<Rightarrow> (Inl e, t) | (Inr x, t) \<Rightarrow> f x t)"

definition sread :: "('s \<Rightarrow> 'e + 'a) \<Rightarrow> ('e, 's, 'a) program" where
  "sread f s = (f s, s)"

definition sreturn :: "'a \<Rightarrow> ('e, 's, 'a) program" where
  "sreturn x s = (Inr x, s)"

definition sraise :: "'e \<Rightarrow> ('e, 's, 'a) program" where
  "sraise e s = (Inl e, s)"

fun sfor :: "('a \<Rightarrow> ('e, 's, unit) program) \<Rightarrow> 'a list \<Rightarrow> ('e, 's, unit) program" where
  "sfor f [] = sreturn ()"
| "sfor f (x # xs) = sbind (f x) (\<lambda>_. sfor f xs)"

lemma sread_simp [simp]: "sread f s = (f s, s)"
  by (simp add: sread_def)

lemma sreturn_simp [simp]: "sreturn x s = (Inr x, s)"
  by (simp add: sreturn_def)

lemma sraise_simp [simp]: "sraise e s = (Inl e, s)"
  by (simp add: sraise_def)

lemma sbind_Inr [simp]: "m s = (Inr x, t) \<Longrightarrow> sbind m f s = f x t"
  and sbind_Inl [simp]: "m s = (Inl e, t) \<Longrightarrow> sbind m f s = (Inl e, t)"
  by (simp_all add: sbind_def)

lemma sbind_eq_Inr [outcome]:
  "sbind m f s = (Inr y, t) \<longleftrightarrow> (\<exists>x s1. m s = (Inr x, s1) \<and> f x s1 = (Inr y, t))"
  by (auto simp: sbind_def split: prod.split sum.split)

text \<open>A program only makes steps of \<open>R\<close>; the continuation may use what the first part returned.\<close>

definition obeys :: "('s \<Rightarrow> 's \<Rightarrow> bool) \<Rightarrow> ('e, 's, 'a) program \<Rightarrow> 's \<Rightarrow> bool" where
  "obeys R m s \<longleftrightarrow> steps R s (snd (m s))"

lemma obeys_read: "obeys R (sread f) s"
  and obeys_return: "obeys R (sreturn x) s"
  and obeys_raise: "obeys R (sraise e) s"
  by (simp_all add: obeys_def steps_refl)

lemma obeys_bind:
  assumes "obeys R m s" and "\<And>x t. m s = (Inr x, t) \<Longrightarrow> obeys R (f x) t"
  shows "obeys R (sbind m f) s"
proof (cases "m s")
  case (Pair r t)
  then show ?thesis
    using assms by (cases r) (auto simp: obeys_def sbind_def intro: steps_trans)
qed

lemma obeys_bind_read:
  "(\<And>x. f s = Inr x \<Longrightarrow> obeys R (g x) s) \<Longrightarrow> obeys R (sbind (sread f) g) s"
  by (rule obeys_bind) (auto intro: obeys_read)

lemma obeys_if: "(c \<Longrightarrow> obeys R m s) \<Longrightarrow> (\<not> c \<Longrightarrow> obeys R n s) \<Longrightarrow> obeys R (if c then m else n) s"
  by simp

lemma obeys_step: "R s (snd (m s)) \<Longrightarrow> obeys R m s"
  unfolding obeys_def by (rule steps_step [OF steps_refl])

text \<open>A loop: its body keeps \<open>I\<close> and makes only steps of \<open>R\<close>.\<close>

lemma obeys_for:
  assumes "I s" and "\<And>x t. x \<in> set xs \<Longrightarrow> I t \<Longrightarrow> obeys R (f x) t \<and> I (snd (f x t))"
  shows "obeys R (sfor f xs) s \<and> I (snd (sfor f xs s))"
  using assms
proof (induction xs arbitrary: s)
  case Nil
  then show ?case by (simp add: obeys_def steps_refl)
next
  case (Cons x xs)
  have x: "obeys R (f x) s" "I (snd (f x s))" using Cons.prems by auto
  have rest: "obeys R (sfor f xs) t \<and> I (snd (sfor f xs t))" if "I t" for t
    using Cons.IH [OF that] Cons.prems(2) by auto
  show ?case
  proof (cases "f x s")
    case (Pair r t)
    then show ?thesis
      using x rest [of t] by (cases r) (auto intro!: obeys_bind)
  qed
qed

subsection \<open>The two stores\<close>

record engine =
  en_plans :: plan_store
  en_events :: event_store

datatype engine_reason =
    NothingToMerge | AppliedElsewhere | NotCompensable | BadBindingSnapshot | NoDependencyNode
  | DependencyLoop | NoDependencyOutput | UnknownControlNode | NoUniqueVersion | NoEventStore
  | EventClosed | EventFactsDiffer | NoSkillIdentity | SkillVersionDiffers | NoInputBinding
  | ForeignProduct | NotTerminal | NothingRunnable | TooManyCycles | NoCollectNode | NoCollectRun
  | NoCards | AmbiguousRoot | NoChildRun | NotWaitingReconciliation | NoUniqueSoldOutNode
  | NoFailureFact | NotRecoverable | NotClosedByReplan | TooManyChildCycles | NotApplied
  | NoReconciliationService | NaiveClock

datatype engine_error =
    PlanRaised store_error | EventRaised event_error | ModelRaised materialize_error
  | BindingRaised binding_error | ImpactRaised | CapabilityRaised | ArgumentRaised
  | EngineInvariant engine_reason | Unexpected

type_synonym 'a engine_program = "(engine_error, engine, 'a) program"

definition plan_call :: "(plan_store \<Rightarrow> 'a outcome) \<Rightarrow> 'a engine_program" where
  "plan_call f e = (case f (en_plans e) of (r, p) \<Rightarrow> (map_sum PlanRaised id r, e\<lparr>en_plans := p\<rparr>))"

definition event_call :: "(event_store \<Rightarrow> 'a ev_outcome) \<Rightarrow> 'a engine_program" where
  "event_call f e = (case f (en_events e) of (r, t) \<Rightarrow> (map_sum EventRaised id r, e\<lparr>en_events := t\<rparr>))"

definition plan_query :: "(plan_store \<Rightarrow> store_error + 'a) \<Rightarrow> 'a engine_program" where
  "plan_query f = sread (\<lambda>e. map_sum PlanRaised id (f (en_plans e)))"

definition event_query :: "(event_store \<Rightarrow> event_error + 'a) \<Rightarrow> 'a engine_program" where
  "event_query f = sread (\<lambda>e. map_sum EventRaised id (f (en_events e)))"

definition pure_step :: "('x \<Rightarrow> 'e) \<Rightarrow> 'x + 'a \<Rightarrow> ('e, 's, 'a) program" where
  "pure_step h r = sread (\<lambda>_. map_sum h id r)"

definition require :: "bool \<Rightarrow> 'e \<Rightarrow> ('e, 's, unit) program" where
  "require ok err = sread (\<lambda>_. guard ok err)"

lemma map_sum_eq_Inr [outcome]: "map_sum h id r = Inr x \<longleftrightarrow> r = Inr x"
  by (cases r) auto

lemma plan_call_eq_Inr [outcome]:
  "plan_call f e = (Inr x, e') \<longleftrightarrow> (\<exists>p. f (en_plans e) = (Inr x, p) \<and> e' = e\<lparr>en_plans := p\<rparr>)"
  by (auto simp: plan_call_def outcome split: prod.split)

lemma event_call_eq_Inr [outcome]:
  "event_call f e = (Inr x, e') \<longleftrightarrow> (\<exists>t. f (en_events e) = (Inr x, t) \<and> e' = e\<lparr>en_events := t\<rparr>)"
  by (auto simp: event_call_def outcome split: prod.split)

lemma plan_query_eq_Inr [outcome]: "plan_query f e = (Inr x, e') \<longleftrightarrow> f (en_plans e) = Inr x \<and> e' = e"
  by (auto simp: plan_query_def outcome)

lemma event_query_eq_Inr [outcome]: "event_query f e = (Inr x, e') \<longleftrightarrow> f (en_events e) = Inr x \<and> e' = e"
  by (auto simp: event_query_def outcome)

lemma pure_step_eq_Inr [outcome]: "pure_step h r e = (Inr x, e') \<longleftrightarrow> r = Inr x \<and> e' = e"
  by (auto simp: pure_step_def outcome)

lemma require_eq_Inr [outcome]: "require ok err e = (Inr x, e') \<longleftrightarrow> ok \<and> e' = e"
  by (auto simp: require_def outcome)

lemma snd_plan_call [simp]: "snd (plan_call f e) = e\<lparr>en_plans := snd (f (en_plans e))\<rparr>"
  by (simp add: plan_call_def split: prod.split)

lemma snd_event_call [simp]: "snd (event_call f e) = e\<lparr>en_events := snd (f (en_events e))\<rparr>"
  by (simp add: event_call_def split: prod.split)

lemma obeys_plan_query: "(\<And>x. f (en_plans e) = Inr x \<Longrightarrow> obeys R (g x) e) \<Longrightarrow> obeys R (sbind (plan_query f) g) e"
  unfolding plan_query_def by (rule obeys_bind_read) (auto simp: outcome)

lemma obeys_event_query: "(\<And>x. f (en_events e) = Inr x \<Longrightarrow> obeys R (g x) e) \<Longrightarrow> obeys R (sbind (event_query f) g) e"
  unfolding event_query_def by (rule obeys_bind_read) (auto simp: outcome)

lemma obeys_pure: "(\<And>x. r = Inr x \<Longrightarrow> obeys R (g x) e) \<Longrightarrow> obeys R (sbind (pure_step h r) g) e"
  unfolding pure_step_def by (rule obeys_bind_read) (auto simp: outcome)

lemma obeys_require: "(ok \<Longrightarrow> obeys R (g ()) e) \<Longrightarrow> obeys R (sbind (require ok err) g) e"
  unfolding require_def by (rule obeys_bind_read) (auto simp: outcome)

lemmas obeys_rules = obeys_plan_query obeys_event_query obeys_pure obeys_require
  obeys_read obeys_return obeys_raise obeys_if

subsection \<open>One call of either store\<close>

text \<open>
  An application that is applied names a published version of its plan, and that version names
  the event among its sources. A call of the event store may turn an application to \<open>A_APPLIED\<close> only
  then; every other call leaves the applied ones alone.
\<close>

definition names_version :: "plan_store \<Rightarrow> application_record \<Rightarrow> bool" where
  "names_version s a \<longleftrightarrow> (\<exists>n x. ap_applied_version a = Some n
     \<and> dget (ps_versions s) (ap_root a, n) = Some x \<and> ap_event_id a \<in> set (ver_source_events x))"

definition applies_lawfully :: "plan_store \<Rightarrow> event_store \<Rightarrow> event_store \<Rightarrow> bool" where
  "applies_lawfully s t t' \<longleftrightarrow> (\<forall>k b. dget (es_applications t') k = Some b \<longrightarrow> ap_state b = A_APPLIED \<longrightarrow>
     dget (es_applications t) k = Some b \<or> names_version s b)"

inductive engine_step :: "(nat \<Rightarrow> string) \<Rightarrow> (nat \<Rightarrow> string) \<Rightarrow> engine \<Rightarrow> engine \<Rightarrow> bool" for u v where
  engine_plan: "store_step u now (en_plans e) p \<Longrightarrow> engine_step u v e (e\<lparr>en_plans := p\<rparr>)"
| engine_event: "event_step v (en_events e) t \<Longrightarrow> applies_lawfully (en_plans e) (en_events e) t \<Longrightarrow>
    engine_step u v e (e\<lparr>en_events := t\<rparr>)"

definition engine_inv :: "(nat \<Rightarrow> string) \<Rightarrow> engine \<Rightarrow> bool" where
  "engine_inv u e \<longleftrightarrow> wf u {} (en_plans e) \<and> ev_wf (en_events e)
     \<and> (\<forall>k a. dget (es_applications (en_events e)) k = Some a \<longrightarrow> ap_state a = A_APPLIED \<longrightarrow>
          names_version (en_plans e) a)"

definition engine_evolves :: "engine \<Rightarrow> engine \<Rightarrow> bool" where
  "engine_evolves e e' \<longleftrightarrow> evolves (en_plans e) (en_plans e') \<and> ev_evolves (en_events e) (en_events e')"

lemma engine_evolves_refl [simp]: "engine_evolves e e"
  by (simp add: engine_evolves_def)

lemma engine_evolves_trans: "engine_evolves a b \<Longrightarrow> engine_evolves b c \<Longrightarrow> engine_evolves a c"
  unfolding engine_evolves_def by (blast intro: evolves_trans ev_evolves_trans)

lemma names_version_mono: "evolves s t \<Longrightarrow> names_version s a \<Longrightarrow> names_version t a"
  unfolding names_version_def evolves_def keeps_def by blast

lemma engine_step_good:
  assumes "engine_step u v e e'" and inv: "engine_inv u e" and inj: "inj u"
  shows "engine_inv u e' \<and> engine_evolves e e'"
  using assms(1)
proof cases
  case (engine_plan now p)
  then have "good u (en_plans e) p"
    using store_step_good inv inj unfolding engine_inv_def by blast
  then show ?thesis
    using inv engine_plan(1) names_version_mono
    by (auto simp: engine_inv_def engine_evolves_def good_def)
next
  case (engine_event t)
  then have "ev_good (en_events e) t" using event_step_good inv unfolding engine_inv_def by blast
  then show ?thesis
    using inv engine_event(1,3) unfolding engine_inv_def engine_evolves_def ev_good_def applies_lawfully_def
    by simp blast
qed

lemma engine_steps_good:
  "steps (engine_step u v) e e' \<Longrightarrow> engine_inv u e \<Longrightarrow> inj u \<Longrightarrow> engine_inv u e' \<and> engine_evolves e e'"
proof (induction rule: steps.induct)
  case (steps_step e t e')
  then show ?case using engine_step_good engine_evolves_trans by blast
qed simp

lemma obeys_plan_call: "store_step u now (en_plans e) (snd (f (en_plans e))) \<Longrightarrow> obeys (engine_step u v) (plan_call f) e"
  by (rule obeys_step) (simp add: engine_plan)

text \<open>No call but a transition to \<open>A_APPLIED\<close> changes which applications are applied.\<close>

lemma applies_lawfully_frame: "es_applications t' = es_applications t \<Longrightarrow> applies_lawfully s t t'"
  by (simp add: applies_lawfully_def)

lemma applies_lawfully_put:
  "ap_state a = A_APPLIED \<longrightarrow> names_version s a \<Longrightarrow> es_applications t1 = es_applications t \<Longrightarrow>
     applies_lawfully s t (put_application a t1)"
  by (auto simp: applies_lawfully_def put_application_def split: if_splits)

lemma transition_application_lawful:
  assumes "target = A_APPLIED \<Longrightarrow> \<forall>n. applied = Some n \<longrightarrow>
      (\<exists>x. dget (ps_versions s) (root_id, n) = Some x \<and> i \<in> set (ver_source_events x))"
    and "ev_wf t"
  shows "applies_lawfully s t
    (snd (transition_application i root_id expected target now emergency applied impact failure t))"
proof (cases "transition_application i root_id expected target now emergency applied impact failure t")
  case (Pair r t')
  show ?thesis
  proof (cases r)
    case (Inl err)
    then have "t' = t" using Pair by (auto simp: transition_application_def commit_def split: sum.splits)
    then show ?thesis using Pair by (simp add: applies_lawfully_frame)
  next
    case (Inr b)
    then have "transition_application i root_id expected target now emergency applied impact failure t = (Inr b, t')"
      using Pair by simp
    then show ?thesis
    proof (cases rule: transition_application_parts)
      case (1 us a)
      have "ap_event_id a = i" "ap_root a = root_id"
        using applicationD [OF assms(2) 1(2)] by (auto simp: application_ok_def)
      then have "ap_state b = A_APPLIED \<longrightarrow> names_version s b"
        using assms(1) 1(6,10) by (auto simp: names_version_def or_else_def)
      then show ?thesis using Pair 1(12) by (simp add: applies_lawfully_put)
    qed
  qed
qed

end
