(* ===== verification/Replan.thy ===== *)
theory Replan
  imports Engine
begin

section \<open>The replan coordinator\<close>

text \<open>
  \<open>ReplanCoordinator\<close> of \<open>src/plan_engine/replan.py\<close>. It merges the applications of a root plan
  that are ready for a replan, plans anew from a planning input, decides which finished cards may
  be reused, lets the plan store publish the next version and marks the merged applications as
  applied to it. \<open>pf\<close> is the capability profile of its constructor; \<open>repr\<close> is Python's \<open>repr\<close> of a
  container, which \<open>str\<close> applies to an affected key that is no string.
\<close>

subsection \<open>Capabilities and affected keys\<close>

definition remove_prefix :: "string \<Rightarrow> string \<Rightarrow> string" where
  "remove_prefix p s = (if prefix p s then drop (length p) s else s)"

definition replan_capability ::
  "capability_profile \<Rightarrow> string \<Rightarrow> candidate_node \<Rightarrow> capability_error + plan_capability" where
  "replan_capability pf room_id n =
     (if cn_logical_key n = ''prepare-card-batch'' then resolve_control_node ''PREPARE_CARD_BATCH''
      else if cn_logical_key n = ''collect-card-results'' then resolve_control_node ''COLLECT_CARD_RESULTS''
      else rbind (of_option PlanCapabilityError (cn_skill_id n)) (\<lambda>skill.
           resolve_skill_node pf skill (remove_prefix ''card:'' (cn_logical_key n)) room_id))"

fun replan_capabilities ::
  "capability_profile \<Rightarrow> string \<Rightarrow> candidate_node list \<Rightarrow> (string, plan_capability) dict
     \<Rightarrow> capability_error + (string, plan_capability) dict" where
  "replan_capabilities pf room_id [] caps = Inr caps"
| "replan_capabilities pf room_id (n # ns) caps =
     rbind (replan_capability pf room_id n) (\<lambda>c.
     replan_capabilities pf room_id ns (dset (cn_logical_key n) c caps))"

fun element_text :: "(json \<Rightarrow> string) \<Rightarrow> json \<Rightarrow> string" where
  "element_text repr (JStr s) = s"
| "element_text repr (JInt i) = int_text i"
| "element_text repr (JFloat v t) = t"
| "element_text repr (JBool b) = (if b then ''True'' else ''False'')"
| "element_text repr JNull = ''None''"
| "element_text repr j = repr j"

text \<open>The field holds an object or nothing; iterating a text gives its characters, an object its keys.\<close>

definition affected_keys :: "(json \<Rightarrow> string) \<Rightarrow> application_record \<Rightarrow> engine_error + string list" where
  "affected_keys repr a = (case ap_impact a of
       None \<Rightarrow> Inr []
     | Some (JObj kvs) \<Rightarrow> (case map_of kvs ''affected_logical_keys'' of
           None \<Rightarrow> Inr []
         | Some (JList xs) \<Rightarrow> Inr (map (element_text repr) xs)
         | Some (JStr s) \<Rightarrow> Inr (map (\<lambda>c. [c]) s)
         | Some (JObj ys) \<Rightarrow> Inr (map fst ys)
         | Some _ \<Rightarrow> Inl Unexpected)
     | Some _ \<Rightarrow> Inl Unexpected)"

subsection \<open>Reusable nodes\<close>

definition runtime_path_part :: "path_part \<Rightarrow> pyval" where
  "runtime_path_part p = (case p of Key s \<Rightarrow> PyStr s | Index i \<Rightarrow> PyInt i)"

definition runtime_binding :: "input_binding \<Rightarrow> raw_binding" where
  "runtime_binding b = \<lparr>rb_kind = PyStrSub (binding_kind_value (ib_kind b)),
     rb_path = PyTuple (map runtime_path_part (ib_path b)), rb_upstream = ib_upstream b,
     rb_literal = py_of_json (ib_literal b)\<rparr>"

definition runtime_bindings :: "(string, input_binding) dict \<Rightarrow> (pyval \<times> raw_binding) list" where
  "runtime_bindings bs = map (\<lambda>(k, b). (PyStr k, runtime_binding b)) bs"

text \<open>\<open>find_node p i k s\<close>: the first node with id \<open>i\<close>, in the versions \<open>k\<close>, \<open>k - 1\<close>, down to 1.\<close>

fun find_node :: "string \<Rightarrow> string \<Rightarrow> nat \<Rightarrow> plan_store \<Rightarrow> store_error + node_view_rec option" where
  "find_node p i 0 s = Inr None"
| "find_node p i (Suc k) s =
     rbind (list_nodes p (Some (PyInt (int (Suc k)))) s) (\<lambda>ns.
     case find (\<lambda>n. nv_id n = i) ns of
       Some n \<Rightarrow> Inr (Some n)
     | None \<Rightarrow> find_node p i k s)"

definition valid_run :: "node_run_rec \<Rightarrow> bool" where
  "valid_run r \<longleftrightarrow> nr_state r = N_SUCCEEDED \<and> \<not> nr_superseded r"

text \<open>
  \<open>_successful_source_runs\<close>: along the reuse chain to the first node with valid runs of its own. A
  node seen twice raises, so one more round than the store has nodes is enough.
\<close>

fun source_runs ::
  "nat \<Rightarrow> string \<Rightarrow> int \<Rightarrow> plan_store \<Rightarrow> string list \<Rightarrow> node_view_rec \<Rightarrow> store_error + node_run_rec list" where
  "source_runs 0 p current s visited n = Inl (Invariant ReuseLoop)"
| "source_runs (Suc fuel) p current s visited n =
     rbind (inv_guard (nv_id n \<notin> set visited) ReuseLoop) (\<lambda>_.
     rbind (list_node_runs p (Some (nv_id n)) s) (\<lambda>rs.
     if filter valid_run rs \<noteq> [] then Inr (filter valid_run rs)
     else case nv_reused_from n of
       None \<Rightarrow> Inr []
     | Some i \<Rightarrow>
         rbind (find_node p i (nat current) s) (\<lambda>found.
         case found of
           None \<Rightarrow> Inr []
         | Some m \<Rightarrow> source_runs fuel p current s (nv_id n # visited) m)))"

definition successful_source_runs ::
  "string \<Rightarrow> int \<Rightarrow> plan_store \<Rightarrow> node_view_rec \<Rightarrow> store_error + node_run_rec list" where
  "successful_source_runs p current s n = source_runs (length (ps_nodes s) + 1) p current s [] n"

text \<open>One candidate: the id of the old node to reuse, if any.\<close>

definition reusable_node ::
  "string \<Rightarrow> int \<Rightarrow> planning_input \<Rightarrow> string list \<Rightarrow> (string, node_view_rec) dict \<Rightarrow> plan_store
     \<Rightarrow> candidate_node \<Rightarrow> engine_error + string option" where
  "reusable_node p current input affected old s c =
     (if cn_skill_id c \<noteq> Some generate_product_card \<or> cn_logical_key c \<in> set affected then Inr None
      else case dget old (cn_logical_key c) of
        None \<Rightarrow> Inr None
      | Some n \<Rightarrow>
          if nv_state n \<noteq> N_SUCCEEDED then Inr None
          else rbind (map_sum PlanRaised id (successful_source_runs p current s n)) (\<lambda>rs.
               if rs = [] \<or> nr_fingerprint (last rs) = None then Inr None
               else rbind (map_sum BindingRaised id (materialize (runtime_bindings (cn_input_bindings c))
                      input [] (cn_depends_on c) (PyInt (current + 1)))) (\<lambda>m.
                    Inr (if nr_fingerprint (last rs) = Some (mi_fingerprint m) then Some (nv_id n)
                         else None))))"

fun reusable_nodes ::
  "string \<Rightarrow> int \<Rightarrow> planning_input \<Rightarrow> string list \<Rightarrow> (string, node_view_rec) dict \<Rightarrow> plan_store
     \<Rightarrow> candidate_node list \<Rightarrow> engine_error + (string, string) dict" where
  "reusable_nodes p current input affected old s [] = Inr []"
| "reusable_nodes p current input affected old s (c # cs) =
     rbind (reusable_node p current input affected old s c) (\<lambda>found.
     rbind (reusable_nodes p current input affected old s cs) (\<lambda>rest.
     Inr (case found of None \<Rightarrow> rest | Some i \<Rightarrow> (cn_logical_key c, i) # rest)))"

definition nodes_by_key :: "node_view_rec list \<Rightarrow> (string, node_view_rec) dict" where
  "nodes_by_key ns = fold (\<lambda>n. dset (nv_logical_key n) n) ns []"

definition select_reusable_nodes ::
  "string \<Rightarrow> int \<Rightarrow> planning_input \<Rightarrow> candidate_node list \<Rightarrow> string list \<Rightarrow> plan_store
     \<Rightarrow> engine_error + (string, string) dict" where
  "select_reusable_nodes p current input cs affected s =
     rbind (map_sum PlanRaised id (list_nodes p (Some (PyInt current)) s)) (\<lambda>ns.
     reusable_nodes p current input affected (nodes_by_key ns) s cs)"

subsection \<open>\<open>replan\<close>\<close>

datatype replan_status = REPLAN_CREATED | REPLAN_REPLAYED

record replan_result =
  rr_status :: replan_status
  rr_plan_run_id :: string
  rr_plan_version :: int
  rr_source_events :: "string list"

definition mergeable :: "int \<Rightarrow> version_rec \<Rightarrow> application_record \<Rightarrow> bool" where
  "mergeable current latest a \<longleftrightarrow> ap_state a = A_REPLAN_READY
     \<and> (ap_source_version a = current \<or> ap_event_id a \<in> set (ver_source_events latest))"

definition apply_to_version :: "string \<Rightarrow> int \<Rightarrow> pytime \<Rightarrow> application_record \<Rightarrow> unit engine_program" where
  "apply_to_version root_id n now a =
     sbind (event_query (get_application (ap_event_id a) root_id)) (\<lambda>current.
     if ap_state current = A_APPLIED
     then require (ap_applied_version current = Some n) (EngineInvariant AppliedElsewhere)
     else sbind (require (ap_state current = A_REPLAN_READY) (EngineInvariant NotCompensable)) (\<lambda>_.
          sbind (event_call (transition_application (ap_event_id a) root_id A_REPLAN_READY A_APPLIED now
                   None (Some n) None None)) (\<lambda>_.
          sreturn ())))"

definition replan ::
  "(nat \<Rightarrow> string) \<Rightarrow> capability_profile \<Rightarrow> (json \<Rightarrow> string) \<Rightarrow> string \<Rightarrow> card_batch_input \<Rightarrow> string
     \<Rightarrow> pytime \<Rightarrow> replan_result engine_program" where
  "replan u pf repr root_id batch signature now =
     sbind (require (root_id \<noteq> '''') ArgumentRaised) (\<lambda>_.
     sbind (require (py_len signature = 64 \<and> list_all is_hex signature) ArgumentRaised) (\<lambda>_.
     sbind (pure_step (ModelRaised \<circ> ModelRejected) (card_batch_planning_input (cb_room_id batch)
       (cb_trace_id batch) (cb_live_plan batch) (cb_products_by_id batch) (Some (cb_run_key batch)))) (\<lambda>frozen.
     sbind (plan_query (get_plan_run root_id)) (\<lambda>run.
     sbind (event_query (\<lambda>t. Inr (list_applications (Some root_id) t))) (\<lambda>listed.
     sbind (plan_query (get_plan_version root_id (PyInt (pl_current_version run)))) (\<lambda>latest.
     let apps = filter (mergeable (pl_current_version run) latest) listed;
         sources = map ap_event_id apps in
     sbind (require (apps \<noteq> [] \<or> ver_failure_signature latest = Some signature
         \<and> ver_fingerprint latest = Some (cb_run_key frozen)) (EngineInvariant NothingToMerge)) (\<lambda>_.
     sbind (pure_step id (rmap (affected_keys repr) apps)) (\<lambda>affected.
     sbind (pure_step (ModelRaised \<circ> ModelRejected) (propose_card_batch frozen)) (\<lambda>proposal.
     sbind (pure_step (\<lambda>_. CapabilityRaised)
       (replan_capabilities pf (cb_room_id frozen) (cp_nodes proposal) [])) (\<lambda>caps.
     sbind (pure_step ModelRaised (materialized_plan_init (CardBatch frozen) proposal caps)) (\<lambda>plan.
     sbind (sread (\<lambda>e. select_reusable_nodes root_id (pl_current_version run) (CardBatch frozen)
       (cp_nodes proposal) (concat affected) (en_plans e))) (\<lambda>reused.
     sbind (plan_call (create_replan_version u root_id (pl_current_version run) plan sources signature
       (cb_run_key frozen) reused now)) (\<lambda>(version, created).
     sbind (sfor (apply_to_version root_id (ver_number version) now) apps) (\<lambda>_.
     sreturn \<lparr>rr_status = (if created then REPLAN_CREATED else REPLAN_REPLAYED),
       rr_plan_run_id = root_id, rr_plan_version = ver_number version,
       rr_source_events = ver_source_events version\<rparr>))))))))))))))"

subsection \<open>What the plan store promises the coordinator\<close>

lemma version_view_id [outcome]: "version_view x = Inr v \<longleftrightarrow> v = x \<and> version_view_ok x"
  by (auto simp: version_view_def outcome)

lemma create_replan_published:
  assumes wf: "wf u {} s"
    and c: "create_replan_version u p expected mp sources sig fp reused now s = (Inr (v, created), t)"
  shows "dget (ps_versions t) (p, ver_number v) = Some v \<and> set sources \<subseteq> set (ver_source_events v)
    \<and> ver_failure_signature v = Some sig \<and> ver_fingerprint v = Some fp
    \<and> (\<exists>run. dget (ps_plan_runs t) p = Some run \<and> pl_current_version run = ver_number v)"
proof -
  obtain now_us run latest where run: "dget (ps_plan_runs s) p = Some run"
    and latest: "dget (ps_versions s) (p, pl_current_version run) = Some latest"
    and checks: "utc now = Inr now_us" "case mp_planning_input mp of CardBatch _ \<Rightarrow> True | Emergency _ \<Rightarrow> False"
      "py_len sig = 64 \<and> py_len fp = 64" "distinct sources" "pl_plan_kind run = CARD_BATCH"
    using c unfolding create_replan_version_def commit_def by (auto simp: outcome split: sum.splits)
  have id: "pl_id run = p" and number: "ver_number latest = pl_current_version run"
    using wf_plan_runsD [OF wf run] wf latest by (auto simp: wf_def wf_versions_def)
  let ?next = "pl_current_version run + 1"
  let ?v = "replan_version p ?next mp sources sig fp"
  let ?same = "ver_failure_signature latest = Some sig \<and> ver_fingerprint latest = Some fp"
  note body = c [unfolded create_replan_version_def checks(1) rbind_Inr run latest of_option_Some of_key_Some
      inv_guard_def, simplified checks, simplified, simplified freeze_and_raise_def]
  show ?thesis
  proof (cases ?same)
    case True
    then show ?thesis using body run latest number by (auto simp: outcome split: if_splits)
  next
    case False
    then show ?thesis
      using body id
      by (auto simp: commit_def outcome publish_version_def put_plan_run_def replan_version_def Let_def
          split: if_splits sum.splits prod.splits)
  qed
qed

subsection \<open>Every call of a replan is a lawful step\<close>

definition clock_of :: "pytime \<Rightarrow> int" where
  "clock_of t = (case t of Naive us \<Rightarrow> us | Aware us \<Rightarrow> us)"

lemma clock_of_at [simp]: "at_clock (clock_of t) t"
  by (cases t) (simp_all add: at_clock_def clock_of_def)

text \<open>\<open>publishes s p n i\<close>: version \<open>n\<close> of plan \<open>p\<close> names the event \<open>i\<close> among its sources.\<close>

definition publishes :: "plan_store \<Rightarrow> string \<Rightarrow> int \<Rightarrow> string \<Rightarrow> bool" where
  "publishes s p n i \<longleftrightarrow> (\<exists>x. dget (ps_versions s) (p, n) = Some x \<and> i \<in> set (ver_source_events x))"

lemma apply_to_version_obeys:
  assumes inv: "engine_inv u e" and pub: "publishes (en_plans e) p n (ap_event_id a)"
  shows "obeys (engine_step u v) (apply_to_version p n now a) e"
  unfolding apply_to_version_def
proof (intro obeys_event_query obeys_if)
  show "obeys (engine_step u v) (require ok err) e" for ok err
    by (simp add: require_def obeys_read)
  show "obeys (engine_step u v) (sbind (require (ap_state c = A_REPLAN_READY) (EngineInvariant NotCompensable))
      (\<lambda>_. sbind (event_call (transition_application (ap_event_id a) p A_REPLAN_READY A_APPLIED now None (Some n) None None))
        (\<lambda>_. sreturn ()))) e" for c
  proof (intro obeys_require obeys_bind obeys_return)
    have "applies_lawfully (en_plans e) (en_events e) (snd (transition_application (ap_event_id a) p A_REPLAN_READY
        A_APPLIED now None (Some n) None None (en_events e)))"
      using inv pub by (intro transition_application_lawful) (auto simp: publishes_def engine_inv_def)
    then show "obeys (engine_step u v) (event_call (transition_application (ap_event_id a) p A_REPLAN_READY
        A_APPLIED now None (Some n) None None)) e"
      by (intro obeys_step) (simp add: engine_event event_apply)
  qed
qed

lemma publishes_mono: "evolves s t \<Longrightarrow> publishes s p n i \<Longrightarrow> publishes t p n i"
  unfolding publishes_def evolves_def keeps_def by blast

lemma apply_all_obeys:
  assumes inv: "engine_inv u e" and inj: "inj u"
    and pub: "\<And>a. a \<in> set as \<Longrightarrow> publishes (en_plans e) p n (ap_event_id a)"
  shows "obeys (engine_step u v) (sfor (apply_to_version p n now) as) e"
proof -
  have "obeys (engine_step u v) (apply_to_version p n now a) t
      \<and> (engine_inv u (snd (apply_to_version p n now a t)) \<and> engine_evolves e (snd (apply_to_version p n now a t)))"
    if a: "a \<in> set as" and t: "engine_inv u t \<and> engine_evolves e t" for a t
  proof -
    have o: "obeys (engine_step u v) (apply_to_version p n now a) t"
      using t pub [OF a] publishes_mono by (intro apply_to_version_obeys) (auto simp: engine_evolves_def)
    then show ?thesis
      using engine_steps_good [of u v t] t inj engine_evolves_trans unfolding obeys_def by blast
  qed
  then have "obeys (engine_step u v) (sfor (apply_to_version p n now) as) e
      \<and> (engine_inv u (snd (sfor (apply_to_version p n now) as e)) \<and> engine_evolves e (snd (sfor (apply_to_version p n now) as e)))"
    using inv by (intro obeys_for) auto
  then show ?thesis by simp
qed

text \<open>The plan the coordinator hands to the store is fit for it.\<close>

lemma replan_obeys:
  assumes inv: "engine_inv u e" and inj: "inj u"
  shows "obeys (engine_step u v) (replan u pf repr root_id batch signature now) e"
  unfolding replan_def Let_def
proof (intro obeys_require obeys_pure obeys_plan_query obeys_event_query)
  fix frozen run listed latest affected proposal caps plan
  assume plan: "materialized_plan_init (CardBatch frozen) proposal caps = Inr plan"
  let ?apps = "filter (mergeable (pl_current_version run) latest) listed"
  let ?create = "\<lambda>reused. create_replan_version u root_id (pl_current_version run) plan (map ap_event_id ?apps)
      signature (cb_run_key frozen) reused now"
  have call: "obeys (engine_step u v) (plan_call (?create reused)) e" for reused
    by (rule obeys_plan_call, rule step_replan [where now = "clock_of now"])
      (simp_all add: materialized_plan_init_wf [OF plan])
  have rest: "obeys (engine_step u v) (sbind (sfor (apply_to_version root_id (ver_number x) now) ?apps)
      (\<lambda>_. sreturn (f x created))) t"
    if t: "plan_call (?create reused) e = (Inr (x, created), t)"
    for reused x created t and f :: "version_rec \<Rightarrow> bool \<Rightarrow> replan_result"
  proof -
    obtain p where p: "?create reused (en_plans e) = (Inr (x, created), p)" "t = e\<lparr>en_plans := p\<rparr>"
      using t by (auto simp: outcome)
    have wf: "wf u {} (en_plans e)" using inv by (simp add: engine_inv_def)
    have "publishes (en_plans t) root_id (ver_number x) (ap_event_id a)" if "a \<in> set ?apps" for a
      using create_replan_published [OF wf p(1)] that p(2) by (auto simp: publishes_def)
    moreover have "engine_inv u t"
      using engine_steps_good [OF call [of reused, unfolded obeys_def] inv inj] p by simp
    ultimately show ?thesis
      using inj by (intro obeys_bind obeys_return apply_all_obeys) auto
  qed
  show "obeys (engine_step u v) (sbind (sread (\<lambda>e. select_reusable_nodes root_id (pl_current_version run)
      (CardBatch frozen) (cp_nodes proposal) (concat affected) (en_plans e)))
      (\<lambda>reused. sbind (plan_call (?create reused)) (\<lambda>(version, created).
        sbind (sfor (apply_to_version root_id (ver_number version) now) ?apps)
          (\<lambda>_. sreturn \<lparr>rr_status = if created then REPLAN_CREATED else REPLAN_REPLAYED,
            rr_plan_run_id = root_id, rr_plan_version = ver_number version,
            rr_source_events = ver_source_events version\<rparr>)))) e"
    using call by (intro obeys_bind_read obeys_bind) (auto intro: rest)
qed

subsection \<open>Reuse\<close>

lemma replan_nodes_reused:
  assumes "wf u {} s" and "inj u" and "replan_nodes u p v now caps old reused cs s = (Inr ids, t)"
    and "dget (ps_plan_runs s) p \<noteq> None"
  shows "list_all2 (\<lambda>i c. \<exists>n. dget (ps_nodes t) i = Some n \<and> nd_logical_key n = cn_logical_key c
    \<and> nd_reused_from n = dget reused (cn_logical_key c)
    \<and> (nd_state n = N_SUCCEEDED \<longleftrightarrow> dget reused (cn_logical_key c) \<noteq> None)) ids cs"
  using assms
proof (induction cs arbitrary: s ids)
  case (Cons c cs)
  obtain cap where cap: "dget caps (cn_logical_key c) = Some cap"
    using Cons.prems(3) by (cases "dget caps (cn_logical_key c)") auto
  define re where "re = dget reused (cn_logical_key c)"
  define st where "st = (if re \<noteq> None then N_SUCCEEDED
      else if rc_node_type cap = ''PREPARE_CARD_BATCH'' then N_READY else N_PENDING)"
  define iv where "iv = (if re \<noteq> None then None else map_option nd_id (dget old (cn_logical_key c)))"
  define n where "n = new_node (u (ps_draws s)) p v c cap st now re iv"
  have known: "\<not> (re = None \<and> dget old (cn_logical_key c) = None)"
    using Cons.prems(3) cap by (auto simp: re_def Let_def split: if_splits)
  obtain js where js: "ids = u (ps_draws s) # js" "replan_nodes u p v now caps old reused cs (add_node n s) = (Inr js, t)"
    using Cons.prems(3) cap known unfolding n_def st_def iv_def re_def add_node_def
    by (auto simp: Let_def split: prod.splits sum.splits if_splits)
  have w: "wf u {} (add_node n s)"
    using wf_add_node [OF Cons.prems(1,2), of n] Cons.prems(4) by (simp_all add: n_def st_def)
  have plan: "dget (ps_plan_runs (add_node n s)) p \<noteq> None" using Cons.prems(4) by simp
  have "keeps (ps_nodes (add_node n s)) (ps_nodes t)"
    using replan_nodes_result [OF w Cons.prems(2) js(2) plan] by (simp add: added_def)
  then have "dget (ps_nodes t) (u (ps_draws s)) = Some n" by (simp add: keeps_def n_def)
  then show ?case
    using Cons.IH [OF w Cons.prems(2) js(2) plan] js(1)
    by (auto simp: n_def re_def st_def new_node_def)
qed simp

lemma create_replan_nodes:
  assumes wf: "wf u {} s" and inj: "inj u"
    and c: "create_replan_version u p expected mp sources sig fp reused now s = (Inr (v, True), t)"
  shows "(\<exists>run. dget (ps_plan_runs s) p = Some run \<and> ver_number v = pl_current_version run + 1)
    \<and> (\<exists>ids. dget (ps_node_ids t) (p, ver_number v) = Some ids \<and>
    list_all2 (\<lambda>i c. \<exists>n. dget (ps_nodes t) i = Some n \<and> nd_logical_key n = cn_logical_key c
      \<and> nd_reused_from n = dget reused (cn_logical_key c)
      \<and> (nd_state n = N_SUCCEEDED \<longleftrightarrow> dget reused (cn_logical_key c) \<noteq> None)) ids (cp_nodes (mp_proposal mp)))"
proof -
  obtain now_us run latest where run: "dget (ps_plan_runs s) p = Some run"
    and latest: "dget (ps_versions s) (p, pl_current_version run) = Some latest"
    and checks: "utc now = Inr now_us" "case mp_planning_input mp of CardBatch _ \<Rightarrow> True | Emergency _ \<Rightarrow> False"
      "py_len sig = 64 \<and> py_len fp = 64" "distinct sources" "pl_plan_kind run = CARD_BATCH"
    using c unfolding create_replan_version_def commit_def by (auto simp: outcome split: sum.splits)
  note body = c [unfolded create_replan_version_def checks(1) rbind_Inr run latest of_option_Some of_key_Some
      inv_guard_def, simplified checks, simplified, simplified freeze_and_raise_def]
  obtain old ids s1 where r: "replan_nodes u p (pl_current_version run + 1) now_us (mp_capabilities mp) old reused
      (cp_nodes (mp_proposal mp)) s = (Inr ids, s1)"
    and t: "ps_nodes t = ps_nodes s1" "dget (ps_node_ids t) (p, ver_number v) = Some ids"
      "ver_number v = pl_current_version run + 1"
    using body
    by (auto simp: commit_def outcome publish_version_def put_plan_run_def replan_version_def Let_def
        split: if_splits sum.splits prod.splits)
  show ?thesis using replan_nodes_reused [OF wf inj r] run t by auto
qed

text \<open>
  \<open>evidence p s n r\<close>: \<open>r\<close> is a valid run the plan store holds, of node \<open>n\<close> or of one its reuse
  chain leads to.
\<close>

definition reuses :: "plan_store \<Rightarrow> string \<Rightarrow> string \<Rightarrow> bool" where
  "reuses s i j \<longleftrightarrow> (\<exists>n. dget (ps_nodes s) i = Some n \<and> nd_reused_from n = Some j)"

definition evidence :: "plan_store \<Rightarrow> string \<Rightarrow> node_run_rec \<Rightarrow> bool" where
  "evidence s i r \<longleftrightarrow> valid_run r \<and> dget (ps_node_runs s) (nr_id r) = Some r \<and> steps (reuses s) i (nr_node_id r)"

lemma list_all2_left: "list_all2 P xs ys \<Longrightarrow> x \<in> set xs \<Longrightarrow> \<exists>y\<in>set ys. P x y"
  by (induction rule: list_all2_induct) auto

lemma rmap_source: "rmap f xs = Inr ys \<Longrightarrow> y \<in> set ys \<Longrightarrow> \<exists>x\<in>set xs. f x = Inr y"
  by (auto simp: rmap_eq_Inr dest: list_all2_right)

lemma node_viewD: "node_view n = Inr x \<Longrightarrow> nv_id x = nd_id n \<and> nv_logical_key x = nd_logical_key n
    \<and> nv_state x = nd_state n \<and> nv_reused_from x = nd_reused_from n \<and> nv_version x = nd_version n
    \<and> nv_plan_run_id x = nd_plan_run_id n"
  by (auto simp: node_view_def outcome)

lemma listed_nodes:
  assumes wf: "wf u {} s" and l: "list_nodes p (Some (PyInt v)) s = Inr ns" and n: "x \<in> set ns"
  obtains ids y where "dget (ps_node_ids s) (p, v) = Some ids" "nv_id x \<in> set ids"
    "dget (ps_nodes s) (nv_id x) = Some y" "node_view y = Inr x" "nd_plan_run_id y = p" "nd_version y = v"
proof -
  obtain ids where ids: "dget (ps_node_ids s) (p, v) = Some ids"
    and map: "rmap (\<lambda>j. rbind (of_key (dget (ps_nodes s) j)) node_view) ids = Inr ns"
    using l by (auto simp: list_nodes_def outcome validate_version_number_def)
  obtain j where j: "j \<in> set ids" "rbind (of_key (dget (ps_nodes s) j)) node_view = Inr x"
    using rmap_source [OF map n] by blast
  then obtain y where y: "dget (ps_nodes s) j = Some y" "node_view y = Inr x" by (auto simp: outcome)
  have "nd_id y = j" using wf_nodesD [OF wf y(1)] by simp
  moreover have "nd_plan_run_id y = p \<and> nd_version y = v"
    using published_node [of s p v ids j] wf ids j(1) y(1) by (auto simp: wf_def)
  ultimately show thesis using that ids j(1) y node_viewD [OF y(2)] by metis
qed

lemma list_node_runs_eq:
  assumes "list_node_runs p (Some i) s = Inr rs"
  obtains n ids where "dget (ps_nodes s) i = Some n" "nd_plan_run_id n = p" "dget (ps_run_ids s) i = Some ids"
    "rmap (\<lambda>k. rbind (of_key (dget (ps_node_runs s) k)) node_run_view) ids = Inr rs"
proof (cases "dget (ps_nodes s) i")
  case None
  then show thesis using assms by (simp add: list_node_runs_def outcome)
next
  case (Some n)
  then have "nd_plan_run_id n = p"
    using assms by (cases "nd_plan_run_id n = p") (simp_all add: list_node_runs_def outcome)
  moreover from this obtain ids where "dget (ps_run_ids s) i = Some ids"
    "rmap (\<lambda>k. rbind (of_key (dget (ps_node_runs s) k)) node_run_view) ids = Inr rs"
    using assms Some by (auto simp: list_node_runs_def outcome)
  ultimately show thesis using that Some by blast
qed

lemma listed_runs:
  assumes wf: "wf u {} s" and l: "list_node_runs p (Some i) s = Inr rs" and r: "r \<in> set rs"
  shows "dget (ps_node_runs s) (nr_id r) = Some r \<and> nr_node_id r = i"
proof -
  obtain n ids where n: "dget (ps_nodes s) i = Some n" "dget (ps_run_ids s) i = Some ids"
    and map: "rmap (\<lambda>k. rbind (of_key (dget (ps_node_runs s) k)) node_run_view) ids = Inr rs"
    using l by (rule list_node_runs_eq)
  obtain k where k: "k \<in> set ids" "rbind (of_key (dget (ps_node_runs s) k)) node_run_view = Inr r"
    using rmap_source [OF map r] by blast
  then have r: "dget (ps_node_runs s) k = Some r" by (auto simp: outcome node_run_view_def)
  obtain m where "m < length ids" "ids ! m = k" using k(1) by (auto simp: in_set_conv_nth)
  moreover have "wf_history s n ids" by (rule wf_historyD [OF wf n])
  ultimately have "run_entry s n ids m" by (simp add: wf_history_def)
  then have "nr_node_id r = nd_id n" using r \<open>ids ! m = k\<close> by (auto simp: run_entry_def)
  then show ?thesis using r wf_node_runsD [OF wf r] wf_nodesD [OF wf n(1)] by simp
qed

lemma find_node_listed:
  "find_node p i k s = Inr (Some x) \<Longrightarrow> nv_id x = i \<and> (\<exists>v ns. list_nodes p (Some (PyInt v)) s = Inr ns \<and> x \<in> set ns)"
proof (induction k)
  case (Suc k)
  then obtain ns where ns: "list_nodes p (Some (PyInt (int (Suc k)))) s = Inr ns"
    by (auto simp: outcome)
  show ?case
  proof (cases "find (\<lambda>n. nv_id n = i) ns")
    case None
    then show ?thesis using Suc ns by simp
  next
    case (Some m)
    then have "x = m" using Suc.prems ns by simp
    moreover have "nv_id m = i" "m \<in> set ns" using Some by (auto simp: find_Some_iff)
    ultimately show ?thesis using ns by blast
  qed
qed simp

lemma source_runs_evidence:
  assumes wf: "wf u {} s"
  shows "source_runs fuel p current s visited n = Inr rs \<Longrightarrow> r \<in> set rs \<Longrightarrow>
    dget (ps_nodes s) (nv_id n) = Some y \<Longrightarrow> nd_reused_from y = nv_reused_from n \<Longrightarrow> evidence s (nv_id n) r"
proof (induction fuel arbitrary: visited n y)
  case (Suc fuel)
  obtain rs1 where rs1: "list_node_runs p (Some (nv_id n)) s = Inr rs1" using Suc.prems(1) by (auto simp: outcome)
  show ?case
  proof (cases "filter valid_run rs1 = []")
    case False
    then have "rs = filter valid_run rs1" using Suc.prems(1) rs1 by (auto simp: outcome)
    then show ?thesis using Suc.prems(2) listed_runs [OF wf rs1] by (auto simp: evidence_def steps_refl)
  next
    case True
    then obtain i m where i: "nv_reused_from n = Some i" "find_node p i (nat current) s = Inr (Some m)"
      "source_runs fuel p current s (nv_id n # visited) m = Inr rs"
      using Suc.prems(1,2) rs1 by (auto simp: outcome split: option.splits)
    obtain v ns where m: "nv_id m = i" "list_nodes p (Some (PyInt v)) s = Inr ns" "m \<in> set ns"
      using find_node_listed [OF i(2)] by blast
    obtain ym where ym: "dget (ps_nodes s) (nv_id m) = Some ym" "node_view ym = Inr m"
      using listed_nodes [OF wf m(2,3)] by metis
    have "evidence s (nv_id m) r" using Suc.IH [OF i(3) Suc.prems(2) ym(1)] node_viewD [OF ym(2)] by simp
    moreover have "reuses s (nv_id n) (nv_id m)" using Suc.prems(3,4) i(1) m(1) by (simp add: reuses_def)
    then have "steps (reuses s) (nv_id n) (nv_id m)" using steps_refl steps_step by metis
    ultimately show ?thesis by (auto simp: evidence_def intro: steps_trans)
  qed
qed simp

text \<open>
  \<open>reusable s p current input c i\<close>: what is known of a node \<open>i\<close> the coordinator reuses for the
  candidate \<open>c\<close>: a succeeded card of the current version under the same key, and a valid run whose
  recorded input has the fingerprint of what \<open>c\<close> would read now.
\<close>

definition reusable :: "plan_store \<Rightarrow> string \<Rightarrow> int \<Rightarrow> planning_input \<Rightarrow> candidate_node \<Rightarrow> string \<Rightarrow> bool" where
  "reusable s p current input c i \<longleftrightarrow> cn_skill_id c = Some generate_product_card
     \<and> (\<exists>n. dget (ps_nodes s) i = Some n \<and> nd_plan_run_id n = p \<and> nd_version n = current
          \<and> nd_logical_key n = cn_logical_key c \<and> nd_state n = N_SUCCEEDED)
     \<and> (\<exists>r m. evidence s i r \<and> nr_fingerprint r = Some (mi_fingerprint m)
          \<and> materialize (runtime_bindings (cn_input_bindings c)) input [] (cn_depends_on c) (PyInt (current + 1)) = Inr m)"

lemma nodes_by_key_source: "dget (nodes_by_key ns) k = Some n \<Longrightarrow> n \<in> set ns \<and> nv_logical_key n = k"
  unfolding nodes_by_key_def
  by (induction ns rule: rev_induct) (auto split: if_splits)

lemma reusable_node_sound:
  assumes wf: "wf u {} s" and l: "list_nodes p (Some (PyInt current)) s = Inr ns"
    and r: "reusable_node p current input affected (nodes_by_key ns) s c = Inr (Some i)"
  shows "reusable s p current input c i \<and> cn_logical_key c \<notin> set affected"
proof -
  have skill: "cn_skill_id c = Some generate_product_card" "cn_logical_key c \<notin> set affected"
    using r by (auto simp: reusable_node_def split: if_splits)
  obtain n where n: "dget (nodes_by_key ns) (cn_logical_key c) = Some n"
    using r skill by (cases "dget (nodes_by_key ns) (cn_logical_key c)") (auto simp: reusable_node_def)
  have st: "nv_state n = N_SUCCEEDED" using r skill n by (auto simp: reusable_node_def split: if_splits)
  obtain rs m where rs: "successful_source_runs p current s n = Inr rs" "rs \<noteq> []" and i: "i = nv_id n"
    and m: "materialize (runtime_bindings (cn_input_bindings c)) input [] (cn_depends_on c) (PyInt (current + 1)) = Inr m"
      "nr_fingerprint (last rs) = Some (mi_fingerprint m)"
    using r skill n st by (auto simp: reusable_node_def outcome split: if_splits)
  have ns: "n \<in> set ns" "nv_logical_key n = cn_logical_key c" using nodes_by_key_source [OF n] by auto
  obtain ids y where y: "dget (ps_node_ids s) (p, current) = Some ids" "nv_id n \<in> set ids"
    "dget (ps_nodes s) (nv_id n) = Some y" "node_view y = Inr n" "nd_plan_run_id y = p" "nd_version y = current"
    by (rule listed_nodes [OF wf l ns(1)])
  note v = node_viewD [OF y(4)]
  have "evidence s (nv_id n) (last rs)"
    using v by (intro source_runs_evidence [OF wf rs(1) [unfolded successful_source_runs_def] last_in_set [OF rs(2)] y(3)]) simp
  then show ?thesis using skill m i y v st ns(2) unfolding reusable_def by auto
qed

lemma reusable_nodes_sound:
  "reusable_nodes p current input affected old s cs = Inr reused \<Longrightarrow> dget reused k = Some i \<Longrightarrow>
     \<exists>c\<in>set cs. cn_logical_key c = k \<and> reusable_node p current input affected old s c = Inr (Some i)"
proof (induction cs arbitrary: reused)
  case (Cons c cs)
  then obtain found rest where f: "reusable_node p current input affected old s c = Inr found"
    "reusable_nodes p current input affected old s cs = Inr rest"
    "reused = (case found of None \<Rightarrow> rest | Some i \<Rightarrow> (cn_logical_key c, i) # rest)"
    by (auto simp: outcome)
  then show ?case using Cons by (cases found) (auto split: if_splits)
qed simp

lemma select_reusable_sound:
  assumes wf: "wf u {} s" and r: "select_reusable_nodes p current input cs affected s = Inr reused"
    and k: "dget reused k = Some i"
  shows "\<exists>c\<in>set cs. cn_logical_key c = k \<and> k \<notin> set affected \<and> reusable s p current input c i"
proof -
  obtain ns where ns: "list_nodes p (Some (PyInt current)) s = Inr ns"
    "reusable_nodes p current input affected (nodes_by_key ns) s cs = Inr reused"
    using r by (auto simp: select_reusable_nodes_def outcome)
  then show ?thesis using reusable_nodes_sound [OF ns(2) k] reusable_node_sound [OF wf ns(1)] by blast
qed

text \<open>What a replan that returns has done, call by call.\<close>

lemma replan_parts:
  assumes "replan u pf repr p batch signature now e = (Inr res, e')"
  obtains frozen run latest affected proposal caps plan reused version created s1 apps where
    "card_batch_planning_input (cb_room_id batch) (cb_trace_id batch) (cb_live_plan batch)
       (cb_products_by_id batch) (Some (cb_run_key batch)) = Inr frozen"
    "get_plan_run p (en_plans e) = Inr run"
    "get_plan_version p (PyInt (pl_current_version run)) (en_plans e) = Inr latest"
    "apps = filter (mergeable (pl_current_version run) latest) (list_applications (Some p) (en_events e))"
    "rmap (affected_keys repr) apps = Inr affected" "propose_card_batch frozen = Inr proposal"
    "materialized_plan_init (CardBatch frozen) proposal caps = Inr plan"
    "select_reusable_nodes p (pl_current_version run) (CardBatch frozen) (cp_nodes proposal)
       (concat affected) (en_plans e) = Inr reused"
    "create_replan_version u p (pl_current_version run) plan (map ap_event_id apps) signature
       (cb_run_key frozen) reused now (en_plans e) = (Inr (version, created), s1)"
    "sfor (apply_to_version p (ver_number version) now) apps (e\<lparr>en_plans := s1\<rparr>) = (Inr (), e')"
    "res = \<lparr>rr_status = (if created then REPLAN_CREATED else REPLAN_REPLAYED), rr_plan_run_id = p,
       rr_plan_version = ver_number version, rr_source_events = ver_source_events version\<rparr>"
  using assms unfolding replan_def Let_def
  by (auto simp: outcome)

lemma apply_to_version_plans: "en_plans (snd (apply_to_version p n now a e)) = en_plans e"
  by (auto simp: apply_to_version_def sbind_def event_query_def require_def event_call_def
      split: prod.splits sum.splits)

lemma apply_all_plans: "en_plans (snd (sfor (apply_to_version p n now) as e)) = en_plans e"
proof (induction "as" arbitrary: e)
  case (Cons a "as")
  then show ?case using apply_to_version_plans [of p n now a e]
    by (auto simp: sbind_def split: prod.split sum.split)
qed simp

text \<open>
  The applications a replan of \<open>p\<close> from version \<open>n\<close> merges: ready ones that were filed against \<open>n\<close>, and
  ready ones of an event that \<open>n\<close> itself names among its sources.
\<close>

definition merges :: "engine \<Rightarrow> string \<Rightarrow> int \<Rightarrow> application_record \<Rightarrow> bool" where
  "merges e p n a \<longleftrightarrow> dget (es_applications (en_events e)) (ap_event_id a, p) = Some a
     \<and> ap_state a = A_REPLAN_READY
     \<and> (ap_source_version a = n \<or> publishes (en_plans e) p n (ap_event_id a))"

lemma merged_application:
  assumes ev: "ev_wf (en_events e)" and m: "merges e p (pl_current_version run) a"
    and latest: "get_plan_version p (PyInt (pl_current_version run)) (en_plans e) = Inr latest"
  shows "a \<in> set (filter (mergeable (pl_current_version run) latest) (list_applications (Some p) (en_events e)))"
proof -
  have key: "dget (es_applications (en_events e)) (ap_event_id a, p) = Some a" using m by (simp add: merges_def)
  have "dget (ps_versions (en_plans e)) (p, pl_current_version run) = Some latest"
    using latest by (auto simp: get_plan_version_def validate_version_number_def outcome split: if_splits)
  then have "mergeable (pl_current_version run) latest a"
    using m by (auto simp: merges_def mergeable_def publishes_def)
  moreover have "ap_root a = p" using applicationD [OF ev key] by (simp add: application_ok_def)
  moreover have "a \<in> set (dvalues (es_applications (en_events e)))" using key by (force dest: map_of_SomeD)
  ultimately show ?thesis by (simp add: list_applications_def)
qed

lemma replan_reuse:
  assumes inv: "engine_inv u e" and inj: "inj u"
    and r: "replan u pf repr p batch signature now e = (Inr res, e')" and created: "rr_status res = REPLAN_CREATED"
    and ids: "dget (ps_node_ids (en_plans e')) (p, rr_plan_version res) = Some ids" and i: "i \<in> set ids"
    and n: "dget (ps_nodes (en_plans e')) i = Some n" and st: "nd_state n = N_SUCCEEDED"
  shows "\<exists>j c frozen. nd_reused_from n = Some j \<and> nd_logical_key n = cn_logical_key c
    \<and> card_batch_planning_input (cb_room_id batch) (cb_trace_id batch) (cb_live_plan batch)
       (cb_products_by_id batch) (Some (cb_run_key batch)) = Inr frozen
    \<and> c \<in> set (card_batch_nodes frozen)
    \<and> reusable (en_plans e) p (rr_plan_version res - 1) (CardBatch frozen) c j
    \<and> (\<forall>a ks. merges e p (rr_plan_version res - 1) a \<longrightarrow>
         ap_event_id a \<in> set (rr_source_events res)
         \<and> (affected_keys repr a = Inr ks \<longrightarrow> nd_logical_key n \<notin> set ks))"
proof -
  have wf: "wf u {} (en_plans e)" and ev: "ev_wf (en_events e)" using inv by (simp_all add: engine_inv_def)
  from r show ?thesis
  proof (cases rule: replan_parts)
    case (1 frozen run latest affected proposal caps plan reused version cr s1 apps)
    have cr: "cr" using created 1(11) by (auto split: if_splits)
    have run: "dget (ps_plan_runs (en_plans e)) p = Some run"
      using 1(2) by (auto simp: get_plan_run_def plan_run_view_def outcome)
    have made: "create_replan_version u p (pl_current_version run) plan (map ap_event_id apps) signature
        (cb_run_key frozen) reused now (en_plans e) = (Inr (version, True), s1)" using 1(9) cr by simp
    note nodes = create_replan_nodes [OF wf inj made]
    have ver: "rr_plan_version res = ver_number version" "ver_number version = pl_current_version run + 1"
      using 1(11) nodes run by auto
    have s1: "en_plans e' = s1" using apply_all_plans [of p "ver_number version" now apps "e\<lparr>en_plans := s1\<rparr>"] 1(10) by simp
    have proposed: "cp_nodes proposal = card_batch_nodes frozen" "mp_proposal plan = proposal"
      using 1(6,7) unfolding propose_card_batch_def materialized_plan_init_def
      by (auto simp: outcome dest!: candidate_plan_proposal_id)
    have "list_all2 (\<lambda>i c. \<exists>n. dget (ps_nodes s1) i = Some n \<and> nd_logical_key n = cn_logical_key c
        \<and> nd_reused_from n = dget reused (cn_logical_key c)
        \<and> (nd_state n = N_SUCCEEDED \<longleftrightarrow> dget reused (cn_logical_key c) \<noteq> None)) ids (card_batch_nodes frozen)"
      using nodes ids ver(1) s1 by (simp add: proposed)
    from list_all2_left [OF this i] obtain c :: candidate_node and m where m: "dget (ps_nodes s1) i = Some m"
      "nd_logical_key m = cn_logical_key c" "nd_reused_from m = dget reused (cn_logical_key c)"
      "nd_state m = N_SUCCEEDED \<longleftrightarrow> dget reused (cn_logical_key c) \<noteq> None" by blast
    have "m = n" using m(1) n s1 by simp
    note c = m(2-4) [unfolded this]
    from c(3) st obtain j where j: "dget reused (cn_logical_key c) = Some j" by auto
    obtain c' where c': "c' \<in> set (card_batch_nodes frozen)" "cn_logical_key c' = cn_logical_key c"
      "cn_logical_key c \<notin> set (concat affected)" "reusable (en_plans e) p (pl_current_version run) (CardBatch frozen) c' j"
      using select_reusable_sound [OF wf 1(8) j] proposed by auto
    have free: "ap_event_id a \<in> set (rr_source_events res)
        \<and> (affected_keys repr a = Inr ks \<longrightarrow> nd_logical_key n \<notin> set ks)"
      if a: "merges e p (rr_plan_version res - 1) a" for a ks
    proof -
      have apps: "a \<in> set apps"
        using merged_application [OF ev _ 1(3), of a] a ver by (simp add: 1(4))
      then have "ap_event_id a \<in> set (rr_source_events res)"
        using create_replan_published [OF wf 1(9)] 1(11) by auto
      moreover have "nd_logical_key n \<notin> set ks" if "affected_keys repr a = Inr ks"
      proof -
        have "ks \<in> set affected"
          using 1(5) apps that unfolding rmap_eq_Inr by (auto simp: list_all2_conv_all_nth in_set_conv_nth)
        then show ?thesis using c'(3) c(1) by auto
      qed
      ultimately show ?thesis by blast
    qed
    show ?thesis
      using c' c j 1(1) free ver by (intro exI [of _ j] exI [of _ c'] exI [of _ frozen]) auto
  qed
qed

subsection \<open>What a replan leaves behind\<close>

definition applied_to :: "int \<Rightarrow> event_store \<Rightarrow> string \<times> string \<Rightarrow> bool" where
  "applied_to n t k \<longleftrightarrow> (\<exists>b. dget (es_applications t) k = Some b \<and> ap_state b = A_APPLIED \<and> ap_applied_version b = Some n)"

lemma apply_to_version_cases:
  assumes "apply_to_version p n now a e = (Inr (), e')"
  obtains (already) c where "dget (es_applications (en_events e)) (ap_event_id a, p) = Some c" "ap_state c = A_APPLIED"
      "ap_applied_version c = Some n" "e' = e"
  | (applies) c b t where "dget (es_applications (en_events e)) (ap_event_id a, p) = Some c"
      "transition_application (ap_event_id a) p A_REPLAN_READY A_APPLIED now None (Some n) None None (en_events e) = (Inr b, t)"
      "e' = e\<lparr>en_events := t\<rparr>"
proof -
  obtain c where c: "dget (es_applications (en_events e)) (ap_event_id a, p) = Some c"
    and rest: "(if ap_state c = A_APPLIED then require (ap_applied_version c = Some n) (EngineInvariant AppliedElsewhere)
      else sbind (require (ap_state c = A_REPLAN_READY) (EngineInvariant NotCompensable)) (\<lambda>_.
          sbind (event_call (transition_application (ap_event_id a) p A_REPLAN_READY A_APPLIED now
                   None (Some n) None None)) (\<lambda>_. sreturn ()))) e = (Inr (), e')"
    using assms unfolding apply_to_version_def sbind_eq_Inr event_query_eq_Inr get_application_def of_option_eq_Inr
    by blast
  show thesis
  proof (cases "ap_state c = A_APPLIED")
    case True
    then show thesis using rest already [OF c True] by (simp add: outcome)
  next
    case False
    then obtain b t where "transition_application (ap_event_id a) p A_REPLAN_READY A_APPLIED now None (Some n) None None
        (en_events e) = (Inr b, t)" "e' = e\<lparr>en_events := t\<rparr>"
      using rest unfolding if_not_P [OF False] sbind_eq_Inr require_eq_Inr event_call_eq_Inr by auto
    then show thesis by (rule applies [OF c])
  qed
qed

lemma apply_to_version_applied:
  assumes wf: "ev_wf (en_events e)" and a: "apply_to_version p n now a e = (Inr (), e')"
  shows "applied_to n (en_events e') (ap_event_id a, p)
    \<and> (\<forall>k. applied_to n (en_events e) k \<longrightarrow> applied_to n (en_events e') k) \<and> ev_wf (en_events e')"
  using a
proof (cases rule: apply_to_version_cases)
  case (already c)
  then show ?thesis using wf by (simp add: applied_to_def)
next
  case (applies c b t)
  have wf': "ev_wf t" using transition_application_good [OF wf, of "ap_event_id a" p A_REPLAN_READY A_APPLIED now None
      "Some n" None None] applies(2) by (simp add: ev_good_def)
  from applies(2) obtain us d where d: "dget (es_applications (en_events e)) (ap_event_id a, p) = Some d"
    and b: "b = d\<lparr>ap_state := A_APPLIED, ap_updated_at := max (ap_updated_at d) us,
      ap_emergency := or_else None (ap_emergency d), ap_applied_version := or_else (Some n) (ap_applied_version d),
      ap_impact := or_else None (ap_impact d), ap_failure := or_else None (ap_failure d)\<rparr>" "t = put_application b (en_events e)"
    by (rule transition_application_parts)
  have "(ap_event_id b, ap_root b) = (ap_event_id a, p)"
    using applicationD [OF wf d] b(1) by (simp add: application_ok_def)
  moreover have "ap_state b = A_APPLIED" "ap_applied_version b = Some n" by (simp_all add: b(1) or_else_def)
  ultimately show ?thesis
    using applies(3) wf' by (auto simp: applied_to_def b(2) put_application_def)
qed

lemma apply_all_applied:
  assumes "ev_wf (en_events e)" and "sfor (apply_to_version p n now) as e = (Inr (), e')"
  shows "(\<forall>a\<in>set as. applied_to n (en_events e') (ap_event_id a, p))
    \<and> (\<forall>k. applied_to n (en_events e) k \<longrightarrow> applied_to n (en_events e') k)"
  using assms
proof (induction "as" arbitrary: e)
  case (Cons a "as")
  then obtain t where t: "apply_to_version p n now a e = (Inr (), t)" "sfor (apply_to_version p n now) as t = (Inr (), e')"
    by (auto simp: outcome)
  from apply_to_version_applied [OF Cons.prems(1) t(1)] Cons.IH [OF _ t(2)] show ?case by auto
qed simp

lemma replan_effect:
  assumes inv: "engine_inv u e" and r: "replan u pf repr p batch signature now e = (Inr res, e')"
  shows "\<exists>run x. dget (ps_plan_runs (en_plans e')) p = Some run \<and> pl_current_version run = rr_plan_version res
    \<and> dget (ps_versions (en_plans e')) (p, rr_plan_version res) = Some x \<and> ver_source_events x = rr_source_events res
    \<and> ver_failure_signature x = Some signature \<and> ver_fingerprint x = Some (cb_run_key batch)"
    and "dget (es_applications (en_events e)) (i, p) = Some a \<Longrightarrow> ap_state a = A_REPLAN_READY \<Longrightarrow>
      dget (ps_plan_runs (en_plans e)) p = Some old \<Longrightarrow> ap_source_version a = pl_current_version old \<Longrightarrow>
      i \<in> set (rr_source_events res) \<and> applied_to (rr_plan_version res) (en_events e') (i, p)"
proof -
  have wf: "wf u {} (en_plans e)" and ev: "ev_wf (en_events e)" using inv by (simp_all add: engine_inv_def)
  from r obtain frozen run latest plan reused version created s1 apps where
    frozen: "card_batch_planning_input (cb_room_id batch) (cb_trace_id batch) (cb_live_plan batch)
       (cb_products_by_id batch) (Some (cb_run_key batch)) = Inr frozen"
    and run: "get_plan_run p (en_plans e) = Inr run"
    and apps: "apps = filter (mergeable (pl_current_version run) latest) (list_applications (Some p) (en_events e))"
    and made: "create_replan_version u p (pl_current_version run) plan (map ap_event_id apps) signature
       (cb_run_key frozen) reused now (en_plans e) = (Inr (version, created), s1)"
    and loop: "sfor (apply_to_version p (ver_number version) now) apps (e\<lparr>en_plans := s1\<rparr>) = (Inr (), e')"
    and res: "res = \<lparr>rr_status = (if created then REPLAN_CREATED else REPLAN_REPLAYED), rr_plan_run_id = p,
       rr_plan_version = ver_number version, rr_source_events = ver_source_events version\<rparr>"
    by (rule replan_parts)
  have s1: "en_plans e' = s1" using apply_all_plans [of p "ver_number version" now apps "e\<lparr>en_plans := s1\<rparr>"] loop by simp
  have key: "cb_run_key frozen = cb_run_key batch"
    using frozen by (auto simp: card_batch_planning_input_def Let_def outcome py_len_def)
  note published = create_replan_published [OF wf made]
  then show "\<exists>run x. dget (ps_plan_runs (en_plans e')) p = Some run \<and> pl_current_version run = rr_plan_version res
    \<and> dget (ps_versions (en_plans e')) (p, rr_plan_version res) = Some x \<and> ver_source_events x = rr_source_events res
    \<and> ver_failure_signature x = Some signature \<and> ver_fingerprint x = Some (cb_run_key batch)"
    using s1 key res by auto
  show "i \<in> set (rr_source_events res) \<and> applied_to (rr_plan_version res) (en_events e') (i, p)"
    if a: "dget (es_applications (en_events e)) (i, p) = Some a" "ap_state a = A_REPLAN_READY"
      "dget (ps_plan_runs (en_plans e)) p = Some old" "ap_source_version a = pl_current_version old"
  proof -
    have old: "old = run" using run a(3) by (auto simp: get_plan_run_def plan_run_view_def outcome)
    have id: "ap_event_id a = i" "ap_root a = p" using applicationD [OF ev a(1)] by (auto simp: application_ok_def)
    have "a \<in> set (dvalues (es_applications (en_events e)))" using a(1) by (force dest: map_of_SomeD)
    then have "a \<in> set apps" using a(2,4) id old by (simp add: apps list_applications_def mergeable_def)
    then show ?thesis
      using apply_all_applied [OF _ loop] ev published id by (auto simp: res)
  qed
qed

end
