(* ===== verification/ReplanProperties.thy ===== *)
theory ReplanProperties
  imports Replan EventProperties StoreProgress
begin

section \<open>Properties of replanning\<close>

subsection \<open>The two stores and the coordinator as one system\<close>

text \<open>
  Both stores are called by anyone at any time; an application turns to \<open>A_APPLIED\<close> only in
  \<open>replan\<close>, the one place of the code that asks for it.
\<close>

inductive system_step :: "(nat \<Rightarrow> string) \<Rightarrow> (nat \<Rightarrow> string) \<Rightarrow> engine \<Rightarrow> engine \<Rightarrow> bool" for u v where
  system_plan: "store_step u now (en_plans e) p \<Longrightarrow> system_step u v e (e\<lparr>en_plans := p\<rparr>)"
| system_event: "event_step v (en_events e) t \<Longrightarrow>
    (\<And>k b. dget (es_applications t) k = Some b \<Longrightarrow> ap_state b = A_APPLIED \<Longrightarrow>
       dget (es_applications (en_events e)) k = Some b) \<Longrightarrow>
    system_step u v e (e\<lparr>en_events := t\<rparr>)"
| system_replan: "system_step u v e (snd (replan u pf repr root_id batch signature now e))"

definition empty_engine :: engine where
  "empty_engine = \<lparr>en_plans = empty_store, en_events = empty_event_store\<rparr>"

lemma empty_engine_inv: "engine_inv u empty_engine"
  by (auto simp: engine_inv_def empty_engine_def wf_empty ev_wf_empty) (simp add: empty_event_store_def)

lemma system_step_inv:
  assumes "system_step u v e e'" and inv: "engine_inv u e" and inj: "inj u"
  shows "engine_inv u e'"
  using assms(1)
proof cases
  case (system_plan now p)
  then show ?thesis using engine_step_good [OF engine_plan [OF system_plan(2)] inv inj] by simp
next
  case (system_event t)
  then have "engine_step u v e (e\<lparr>en_events := t\<rparr>)"
    by (intro engine_event) (auto simp: applies_lawfully_def)
  then show ?thesis using system_event(1) engine_step_good [OF _ inv inj] by blast
next
  case (system_replan pf repr root_id batch signature now)
  then show ?thesis using engine_steps_good [OF replan_obeys [OF inv inj, unfolded obeys_def] inv inj] by simp
qed

lemma system_reachable: "steps (system_step u v) empty_engine e \<Longrightarrow> inj u \<Longrightarrow> engine_inv u e"
  by (erule steps_invariant [where I = "engine_inv u"]) (auto intro: empty_engine_inv system_step_inv)

subsection \<open>A replan on the concrete batch\<close>

text \<open>
  The card of \<open>q\<close> records its input and succeeds while that of \<open>p\<close> still runs; then \<open>p\<close> sells out.
\<close>

definition demo_input :: materialized_input where
  "demo_input = \<lparr>mi_parameters = JObj [(''product'', dump_product (demo_product ''q''))],
     mi_fingerprint = resolver_sha256 (JObj [(''product'', dump_product (demo_product ''q''))])\<rparr>"

lemma demo_materialize:
  "materialize (runtime_bindings (cn_input_bindings (card_node ''q''))) (CardBatch demo_batch) []
     [''prepare-card-batch''] (PyInt n) = Inr demo_input"
  by (simp add: materialize_eq runtime_bindings_def runtime_binding_def runtime_path_part_def card_node_def
      skill_node_def plan_input_binding_def resolve_binding_def validate_runtime_path_def binding_kind_of_def
      enum_call_def binding_kind_members_def is_str_def dump_planning_input_def dump_card_batch_def
      card_batch_snapshot_def demo_batch_def demo_products_def traverse_part_def demo_input_def)

definition demo_input_recorded :: plan_store where
  "demo_input_recorded = snd (record_node_input (demo_ids 7) ''w'' 1 demo_input (Aware 3) demo_cards)"

definition demo_card_done :: plan_store where
  "demo_card_done = snd (record_node_result (demo_ids 7) ''w'' 1 (PyStr ''SUCCEEDED'') PyNone (Aware 4) demo_input_recorded)"

lemma demo_card_claim_sel [simp]:
  "nr_id (demo_card_claim k j i) = demo_ids k" "nr_node_id (demo_card_claim k j i) = demo_ids j"
  "nr_plan_run_id (demo_card_claim k j i) = demo_ids 0" "nr_worker (demo_card_claim k j i) = ''w''"
  "nr_claim_version (demo_card_claim k j i) = 1" "nr_attempt (demo_card_claim k j i) = 1"
  "nr_state (demo_card_claim k j i) = N_RUNNING" "nr_lease_until (demo_card_claim k j i) = 10000002"
  "nr_superseded (demo_card_claim k j i) = False" "nr_fingerprint (demo_card_claim k j i) = None"
  "nr_superseded_by (demo_card_claim k j i) = None" "nr_superseded_at (demo_card_claim k j i) = None"
  "nr_node_type (demo_card_claim k j i) = ''SKILL''"
  by (simp_all add: demo_card_claim_def new_claim_def)

lemma demo_cards_store: "demo_cards =
   \<lparr>ps_run_id_by_key = [(demo_key, demo_ids 0)], ps_digest_by_key = [(demo_key, plan_digest demo_plan)],
    ps_plan_runs = [(demo_ids 0, demo_run)],
    ps_versions = [((demo_ids 0, 1), initial_version (demo_ids 0) demo_plan)],
    ps_nodes = [(demo_ids 1, demo_prepare\<lparr>nd_state := N_SUCCEEDED, nd_deadline_at := None\<rparr>),
      (demo_ids 2, demo_ready_card 2 ''p''\<lparr>nd_state := N_RUNNING, nd_deadline_at := None\<rparr>),
      (demo_ids 3, demo_ready_card 3 ''q''\<lparr>nd_state := N_RUNNING, nd_deadline_at := None\<rparr>),
      (demo_ids 4, demo_collect)],
    ps_node_ids = [((demo_ids 0, 1), [demo_ids 1, demo_ids 2, demo_ids 3, demo_ids 4])],
    ps_run_ids = [(demo_ids 1, [demo_ids 5]), (demo_ids 2, [demo_ids 6]), (demo_ids 3, [demo_ids 7]), (demo_ids 4, [])],
    ps_node_runs = [(demo_ids 5, demo_claim\<lparr>nr_state := N_SUCCEEDED, nr_output := JNull\<rparr>),
      (demo_ids 6, demo_card_claim 6 2 ''p''), (demo_ids 7, demo_card_claim 7 3 ''q'')],
    ps_commands = [], ps_draws = 8\<rparr>"
  unfolding demo_cards_def demo_cards_eq by (simp add: demo_done_store)

definition demo_recorded :: node_run_rec where
  "demo_recorded = demo_card_claim 7 3 ''q''\<lparr>nr_input_snapshot := mi_parameters demo_input,
     nr_fingerprint := Some (mi_fingerprint demo_input)\<rparr>"

lemma demo_input_recorded_store:
  "demo_input_recorded = put_node_run demo_recorded demo_cards"
  by (simp add: demo_input_recorded_def demo_cards_store record_node_input_def fenced_run_def
     current_node_run_id_def history_def demo_recorded_def Let_def)

definition demo_evidence :: node_run_rec where
  "demo_evidence = demo_recorded\<lparr>nr_state := N_SUCCEEDED, nr_output := JNull\<rparr>"

lemma demo_recorded_sel [simp]:
  "nr_id demo_recorded = demo_ids 7" "nr_node_id demo_recorded = demo_ids 3" "nr_plan_run_id demo_recorded = demo_ids 0"
  "nr_worker demo_recorded = ''w''" "nr_claim_version demo_recorded = 1" "nr_state demo_recorded = N_RUNNING"
  "nr_lease_until demo_recorded = 10000002" "nr_superseded demo_recorded = False"
  by (simp_all add: demo_recorded_def)

lemma demo_card_done_store: "demo_card_done =
   \<lparr>ps_run_id_by_key = [(demo_key, demo_ids 0)], ps_digest_by_key = [(demo_key, plan_digest demo_plan)],
    ps_plan_runs = [(demo_ids 0, demo_run)],
    ps_versions = [((demo_ids 0, 1), initial_version (demo_ids 0) demo_plan)],
    ps_nodes = [(demo_ids 1, demo_prepare\<lparr>nd_state := N_SUCCEEDED, nd_deadline_at := None\<rparr>),
      (demo_ids 2, demo_ready_card 2 ''p''\<lparr>nd_state := N_RUNNING, nd_deadline_at := None\<rparr>),
      (demo_ids 3, demo_ready_card 3 ''q''\<lparr>nd_state := N_SUCCEEDED, nd_deadline_at := None\<rparr>),
      (demo_ids 4, demo_collect)],
    ps_node_ids = [((demo_ids 0, 1), [demo_ids 1, demo_ids 2, demo_ids 3, demo_ids 4])],
    ps_run_ids = [(demo_ids 1, [demo_ids 5]), (demo_ids 2, [demo_ids 6]), (demo_ids 3, [demo_ids 7]), (demo_ids 4, [])],
    ps_node_runs = [(demo_ids 5, demo_claim\<lparr>nr_state := N_SUCCEEDED, nr_output := JNull\<rparr>),
      (demo_ids 6, demo_card_claim 6 2 ''p''), (demo_ids 7, demo_evidence)],
    ps_commands = [], ps_draws = 8\<rparr>"
  by (simp add: demo_card_done_def demo_input_recorded_store demo_cards_store
     record_node_result_def json_safe_copy_def fenced_run_def
     current_node_run_id_def history_def transition_node_def coerce_succeeded ready_satisfied_dependents_def
     states_by_logical_key_def all_succeeded_def Let_def store_writes demo_evidence_def)

definition demo_impact :: json where
  "demo_impact = JObj [(''affected_logical_keys'', JList [JStr ''card:p'', JStr ''collect-card-results''])]"

definition demo_app :: "app_state \<Rightarrow> string option \<Rightarrow> json option \<Rightarrow> application_record" where
  "demo_app st child impact = (new_application (demo_ids 0) ''e'' (demo_ids 0) 1 2)
     \<lparr>ap_state := st, ap_emergency := child, ap_impact := impact\<rparr>"

definition demo_events :: "application_record \<Rightarrow> event_store" where
  "demo_events a = put_application a (demo_registered\<lparr>es_draws := 1\<rparr>)"

lemma demo_app_sel [simp]:
  "ap_event_id (demo_app st child impact) = ''e''" "ap_root (demo_app st child impact) = demo_ids 0"
  "ap_state (demo_app st child impact) = st" "ap_source_version (demo_app st child impact) = 1"
  "ap_impact (demo_app st child impact) = impact" "ap_applied_version (demo_app st child impact) = None"
  "ap_emergency (demo_app st child impact) = child"
  by (simp_all add: demo_app_def new_application_def)

lemma demo_events_sel [simp]:
  "es_applications (demo_events a) = [((ap_event_id a, ap_root a), a)]"
  "es_inbox (demo_events a) = [(''e'', demo_inbox)]"
  by (simp_all add: demo_events_def put_application_def)

lemma put_demo_application [simp]:
  "(ap_event_id b, ap_root b) = (ap_event_id a, ap_root a) \<Longrightarrow> put_application b (demo_events a) = demo_events b"
  by (simp add: demo_events_def put_application_def)

lemma demo_transitions:
  "create_application demo_ids ''e'' (demo_ids 0) 1 (Aware 2) demo_registered
     = (Inr (True, demo_app A_PENDING None None), demo_events (demo_app A_PENDING None None))"
  "transition_application ''e'' (demo_ids 0) A_PENDING A_FREEZING (Aware 2) None None (Some demo_impact) None
     (demo_events (demo_app A_PENDING None None))
     = (Inr (demo_app A_FREEZING None (Some demo_impact)), demo_events (demo_app A_FREEZING None (Some demo_impact)))"
  "transition_application ''e'' (demo_ids 0) A_FREEZING A_EMERGENCY_RUNNING (Aware 2) (Some ''child'') None None None
     (demo_events (demo_app A_FREEZING None (Some demo_impact)))
     = (Inr (demo_app A_EMERGENCY_RUNNING (Some ''child'') (Some demo_impact)),
        demo_events (demo_app A_EMERGENCY_RUNNING (Some ''child'') (Some demo_impact)))"
  "transition_application ''e'' (demo_ids 0) A_EMERGENCY_RUNNING A_REPLAN_READY (Aware 2) None None None None
     (demo_events (demo_app A_EMERGENCY_RUNNING (Some ''child'') (Some demo_impact)))
     = (Inr (demo_app A_REPLAN_READY (Some ''child'') (Some demo_impact)),
        demo_events (demo_app A_REPLAN_READY (Some ''child'') (Some demo_impact)))"
  by (simp_all add: create_application_def transition_application_def ev_utc_def get_application_def ev_guard_def
      application_record_init_def application_fields_ok_def min_length_1_def write_once_def or_else_def
      assert_application_transition_def demo_app_def new_application_def demo_events_def put_application_def)

definition demo_engine :: engine where
  "demo_engine = \<lparr>en_plans = demo_card_done,
     en_events = demo_events (demo_app A_REPLAN_READY (Some ''child'') (Some demo_impact))\<rparr>"

lemma demo_engine_steps: "steps (system_step demo_ids demo_ids) empty_engine demo_engine"
proof -
  have plan: "system_step demo_ids demo_ids \<lparr>en_plans = s, en_events = x\<rparr> \<lparr>en_plans = t, en_events = x\<rparr>"
    if "store_step demo_ids now s t" for now s t x
    using system_plan [of demo_ids now "\<lparr>en_plans = s, en_events = x\<rparr>" t] that by simp
  have event: "system_step demo_ids demo_ids \<lparr>en_plans = s, en_events = x\<rparr> \<lparr>en_plans = s, en_events = y\<rparr>"
    if "event_step demo_ids x y" "\<forall>a\<in>set (dvalues (es_applications y)). ap_state a \<noteq> A_APPLIED" for s x y
    using system_event [of demo_ids "\<lparr>en_plans = s, en_events = x\<rparr>" y] that
    by (force dest: map_of_SomeD)
  have recorded: "store_step demo_ids 3 demo_cards demo_input_recorded"
    unfolding demo_input_recorded_def by (rule step_input) (simp add: at_clock_def)
  have finished: "store_step demo_ids 4 demo_input_recorded demo_card_done"
    unfolding demo_card_done_def by (rule step_result) (simp add: at_clock_def)
  have register: "event_step demo_ids empty_event_store demo_registered"
    using event_register [of demo_ids empty_event_store demo_sold demo_ingress demo_delivery] by (simp add: demo_register)
  have moves: "event_step demo_ids demo_registered (demo_events (demo_app A_PENDING None None))"
    "event_step demo_ids (demo_events (demo_app A_PENDING None None)) (demo_events (demo_app A_FREEZING None (Some demo_impact)))"
    "event_step demo_ids (demo_events (demo_app A_FREEZING None (Some demo_impact)))
      (demo_events (demo_app A_EMERGENCY_RUNNING (Some ''child'') (Some demo_impact)))"
    "event_step demo_ids (demo_events (demo_app A_EMERGENCY_RUNNING (Some ''child'') (Some demo_impact)))
      (demo_events (demo_app A_REPLAN_READY (Some ''child'') (Some demo_impact)))"
    by (metis demo_transitions event_application snd_conv, (metis demo_transitions event_apply snd_conv)+)
  let ?step = "system_step demo_ids demo_ids"
  let ?e = "\<lambda>s. \<lparr>en_plans = s, en_events = empty_event_store\<rparr>" and ?d = "\<lambda>x. \<lparr>en_plans = demo_card_done, en_events = x\<rparr>"
  have plans: "?step (?e empty_store) (?e demo_created)" "?step (?e demo_created) (?e demo_claimed)"
    "?step (?e demo_claimed) (?e demo_done)" "?step (?e demo_done) (?e demo_cards)"
    "?step (?e demo_cards) (?e demo_input_recorded)" "?step (?e demo_input_recorded) (?e demo_card_done)"
    using demo_steps recorded finished by (blast intro: plan)+
  have events: "?step (?e demo_card_done) (?d demo_registered)"
    "?step (?d demo_registered) (?d (demo_events (demo_app A_PENDING None None)))"
    "?step (?d (demo_events (demo_app A_PENDING None None))) (?d (demo_events (demo_app A_FREEZING None (Some demo_impact))))"
    "?step (?d (demo_events (demo_app A_FREEZING None (Some demo_impact))))
      (?d (demo_events (demo_app A_EMERGENCY_RUNNING (Some ''child'') (Some demo_impact))))"
    "?step (?d (demo_events (demo_app A_EMERGENCY_RUNNING (Some ''child'') (Some demo_impact)))) demo_engine"
    unfolding demo_engine_def using register moves by (intro event; simp)+
  note go = steps_step [where r = ?step]
  have "steps ?step (?e empty_store) (?e demo_card_done)"
    by (rule go [OF go [OF go [OF go [OF go [OF go [OF steps_refl plans(1)] plans(2)] plans(3)] plans(4)] plans(5)] plans(6)])
  then have "steps ?step (?e empty_store) demo_engine"
    by (rule go [OF go [OF go [OF go [OF go [OF _ events(1)] events(2)] events(3)] events(4)] events(5)])
  then show ?thesis unfolding empty_engine_def .
qed

subsection \<open>The replan itself\<close>

definition demo_manifest :: skill_manifest where
  "demo_manifest = \<lparr>sm_skill_id = generate_product_card, sm_version = ''1'', sm_lifecycle = [], sm_risk_level = ''low'',
     sm_max_attempt_seconds = 30\<rparr>"

definition demo_profile :: capability_profile where
  "demo_profile = \<lparr>pf_manifests = [(generate_product_card, demo_manifest)], pf_card_manifest = demo_manifest\<rparr>"

definition demo_capability :: "string \<Rightarrow> plan_capability" where
  "demo_capability i = skill_capability demo_manifest [product_resource_key ''r'' i] 4"

definition demo_caps :: "(string, plan_capability) dict" where
  "demo_caps = [(''prepare-card-batch'', control_capability ''PREPARE_CARD_BATCH''),
        (''card:p'', demo_capability ''p''), (''card:q'', demo_capability ''q''),
        (''collect-card-results'', control_capability ''COLLECT_CARD_RESULTS'')]"

definition demo_replanned :: materialized_plan where
  "demo_replanned = \<lparr>mp_planning_input = CardBatch demo_batch, mp_proposal = demo_proposal, mp_capabilities = demo_caps\<rparr>"

lemma demo_capabilities:
  "replan_capabilities demo_profile ''r'' (card_batch_nodes demo_batch) [] = Inr demo_caps"
  by (simp add: demo_nodes replan_capability_def control_node_def card_node_def skill_node_def card_key_def
      resolve_control_node_def resolve_skill_node_def remove_prefix_def demo_profile_def demo_caps_def
      demo_capability_def card_max_concurrency_def)

lemma demo_replanned_init:
  "materialized_plan_init (CardBatch demo_batch) demo_proposal demo_caps = Inr demo_replanned"
proof -
  have "revalidate_planning_input (CardBatch demo_batch) = Inr (CardBatch demo_batch)"
    using demo_revalidated by (simp add: revalidate_planning_input_def demo_batch_def)
  then show ?thesis
    by (simp add: materialized_plan_init_def model_checked_def demo_proposal_accepted check_fixed_proposal_def
        demo_replanned_def)
      (simp add: demo_proposal_def demo_caps_def demo_nodes card_key_def control_node_def card_node_def
        skill_node_def node_by_key_def capability_matches_def expected_control_types_def
        control_capability_def demo_capability_def skill_capability_def demo_manifest_def)
qed

definition demo_card_nodes :: "node_rec list" where
  "demo_card_nodes = [demo_prepare\<lparr>nd_state := N_SUCCEEDED, nd_deadline_at := None\<rparr>,
      demo_ready_card 2 ''p''\<lparr>nd_state := N_RUNNING, nd_deadline_at := None\<rparr>,
      demo_ready_card 3 ''q''\<lparr>nd_state := N_SUCCEEDED, nd_deadline_at := None\<rparr>, demo_collect]"

lemma demo_ready_card_view [simp]:
  "nd_invalidated_from (demo_ready_card k i) = None" "nd_reused_from (demo_ready_card k i) = None"
  by (simp_all add: demo_ready_card_def)

lemma demo_card_nodes_listed:
  "list_nodes (demo_ids 0) (Some (PyInt 1)) demo_card_done = Inr (map demo_view demo_card_nodes)"
  by (simp add: demo_view_def list_nodes_def demo_card_done_store node_view_def node_view_ok_def
      min_length_1_def validate_version_number_def demo_card_nodes_def)

lemma demo_evidence_sel [simp]:
  "nr_id demo_evidence = demo_ids 7" "nr_node_id demo_evidence = demo_ids 3" "nr_plan_run_id demo_evidence = demo_ids 0"
  "nr_worker demo_evidence = ''w''" "nr_claim_version demo_evidence = 1" "nr_state demo_evidence = N_SUCCEEDED"
  "nr_superseded demo_evidence = False" "nr_fingerprint demo_evidence = Some (mi_fingerprint demo_input)"
  "nr_attempt demo_evidence = 1" "nr_node_type demo_evidence = ''SKILL''"
  "nr_superseded_by demo_evidence = None" "nr_superseded_at demo_evidence = None"
  by (simp_all add: demo_evidence_def demo_recorded_def)

lemma demo_runs_listed: "list_node_runs (demo_ids 0) (Some (demo_ids 3)) demo_card_done = Inr [demo_evidence]"
proof -
  have "is_sha256 (mi_fingerprint demo_input)" by (simp add: demo_input_def resolver_sha256_def)
  then show ?thesis
    by (simp add: list_node_runs_def demo_card_done_store node_run_view_def node_run_view_ok_def sha_option_ok_def
        min_length_1_def)
qed

lemma demo_selected:
  "select_reusable_nodes (demo_ids 0) 1 (CardBatch demo_batch) (card_batch_nodes demo_batch)
     [''card:p'', ''collect-card-results''] demo_card_done = Inr [(''card:q'', demo_ids 3)]"
proof -
  have "successful_source_runs (demo_ids 0) 1 demo_card_done n = Inr [demo_evidence]" if "nv_id n = demo_ids 3" for n
    using that demo_runs_listed by (simp add: successful_source_runs_def demo_card_done_store valid_run_def)
  then show ?thesis
    using demo_materialize [of 2]
    by (simp add: select_reusable_nodes_def demo_card_nodes_listed demo_nodes)
     (simp add: demo_card_nodes_def nodes_by_key_def demo_view_def reusable_node_def control_node_def card_node_def
       skill_node_def card_key_def)
qed

lemma demo_batch_key: "is_sha256 (cb_run_key demo_batch)"
  by (simp add: demo_batch_def canonical_sha256_def)

lemma demo_sources_ok:
  "version_view_ok (replan_version (demo_ids 0) 2 demo_replanned [''e''] demo_sig (cb_run_key demo_batch))"
  by (simp add: version_view_ok_def replan_version_def demo_replanned_def demo_proposal_def sha_option_ok_def
      demo_sig_ok demo_batch_key)

lemma demo_replan_created:
  "\<exists>v t. create_replan_version demo_ids (demo_ids 0) 1 demo_replanned [''e''] demo_sig (cb_run_key demo_batch)
     [(''card:q'', demo_ids 3)] (Aware 5) demo_card_done = (Inr (v, True), t)
     \<and> ps_plan_runs t = [(demo_ids 0, demo_run\<lparr>pl_current_version := 2, pl_state := R_ACTIVE\<rparr>)]"
proof -
  have plan: "mp_planning_input demo_replanned = CardBatch demo_batch" "mp_capabilities demo_replanned = demo_caps"
    "cp_nodes (mp_proposal demo_replanned) = [control_node ''prepare-card-batch'' [], card_node ''p'', card_node ''q'',
       control_node ''collect-card-results'' [''card:p'', ''card:q'']]"
    by (simp_all add: demo_replanned_def demo_proposal_def demo_nodes)
  have old: "ver_failure_signature (initial_version (demo_ids 0) demo_plan) = None"
    by (simp add: initial_version_def)
  show ?thesis
    using demo_sources_ok demo_batch_key
    by (simp add: create_replan_version_def demo_card_done_store utc_def plan demo_caps_def demo_sig_ok
      py_len_sha256 old Let_def inv_guard_def of_key_def card_key_def version_view_def publish_version_def put_plan_run_def)
qed

definition demo_ready_app :: application_record where
  "demo_ready_app = demo_app A_REPLAN_READY (Some ''child'') (Some demo_impact)"

lemma demo_get_plan: "get_plan_run (demo_ids 0) demo_card_done = Inr demo_run"
  using demo_get_run by (simp add: get_plan_run_def demo_card_done_store demo_created_eq)

lemma demo_first_version: "get_plan_version (demo_ids 0) (PyInt 1) demo_card_done = Inr (initial_version (demo_ids 0) demo_plan)"
  by (simp add: get_plan_version_def validate_version_number_def demo_card_done_store version_view_def version_view_ok_def
      initial_version_def demo_plan_def demo_proposal_def sha_option_ok_def)

lemma demo_ready_app_sel [simp]:
  "ap_event_id demo_ready_app = ''e''" "ap_root demo_ready_app = demo_ids 0" "ap_state demo_ready_app = A_REPLAN_READY"
  "ap_source_version demo_ready_app = 1" "ap_applied_version demo_ready_app = None" "ap_impact demo_ready_app = Some demo_impact"
  by (simp_all add: demo_ready_app_def)

lemma demo_merged:
  "filter (mergeable 1 x) (list_applications (Some (demo_ids 0)) (demo_events demo_ready_app)) = [demo_ready_app]"
  by (simp add: list_applications_def mergeable_def)

lemma demo_affected: "affected_keys repr demo_ready_app = Inr [''card:p'', ''collect-card-results'']"
  by (simp add: affected_keys_def demo_impact_def)

lemma demo_applies:
  "\<exists>a t. transition_application ''e'' (demo_ids 0) A_REPLAN_READY A_APPLIED (Aware 5) None (Some n) None None
     (demo_events demo_ready_app) = (Inr a, t) \<and> t = demo_events a \<and> ap_event_id a = ''e'' \<and> ap_root a = demo_ids 0
     \<and> ap_state a = A_APPLIED \<and> ap_source_version a = 1"
  if "1 \<le> n"
  using that
  by (simp add: transition_application_def ev_utc_def get_application_def ev_guard_def demo_ready_app_def
      application_record_init_def application_fields_ok_def min_length_1_def write_once_def or_else_def
      assert_application_transition_def demo_app_def new_application_def demo_events_def put_application_def)

lemma demo_engine_wf: "engine_inv demo_ids demo_engine"
  by (rule system_reachable [OF demo_engine_steps demo_ids_inj])

lemma demo_engine_sel: "en_plans demo_engine = demo_card_done" "en_events demo_engine = demo_events demo_ready_app"
  by (simp_all add: demo_engine_def demo_ready_app_def)

lemma demo_replans_to:
  "\<exists>res e' a. replan demo_ids demo_profile repr (demo_ids 0) demo_batch demo_sig (Aware 5) demo_engine = (Inr res, e')
     \<and> res = \<lparr>rr_status = REPLAN_CREATED, rr_plan_run_id = demo_ids 0, rr_plan_version = 2, rr_source_events = rr_source_events res\<rparr>
     \<and> en_events e' = demo_events a \<and> ap_event_id a = ''e'' \<and> ap_root a = demo_ids 0 \<and> ap_state a = A_APPLIED
     \<and> ap_source_version a = 1
     \<and> ps_plan_runs (en_plans e') = [(demo_ids 0, demo_run\<lparr>pl_current_version := 2, pl_state := R_ACTIVE\<rparr>)]
     \<and> (\<exists>ids i n. dget (ps_node_ids (en_plans e')) (demo_ids 0, 2) = Some ids \<and> i \<in> set ids
          \<and> dget (ps_nodes (en_plans e')) i = Some n \<and> nd_state n = N_SUCCEEDED)"
proof -
  obtain v t where made: "create_replan_version demo_ids (demo_ids 0) 1 demo_replanned [''e''] demo_sig (cb_run_key demo_batch)
     [(''card:q'', demo_ids 3)] (Aware 5) demo_card_done = (Inr (v, True), t)"
    and runs: "ps_plan_runs t = [(demo_ids 0, demo_run\<lparr>pl_current_version := 2, pl_state := R_ACTIVE\<rparr>)]"
    using demo_replan_created by blast
  have wf: "wf demo_ids {} demo_card_done" using demo_engine_wf by (simp add: engine_inv_def demo_engine_sel)
  have two: "ver_number v = 2"
    using create_replan_nodes [OF wf demo_ids_inj made] by (simp add: demo_card_done_store)
  then obtain a x where applied: "transition_application ''e'' (demo_ids 0) A_REPLAN_READY A_APPLIED (Aware 5) None
      (Some (ver_number v)) None None (demo_events demo_ready_app) = (Inr a, x)"
      "x = demo_events a" "ap_event_id a = ''e''" "ap_root a = demo_ids 0" "ap_state a = A_APPLIED" "ap_source_version a = 1"
    using demo_applies [of 2] by auto
  have keys: "cp_nodes (mp_proposal demo_replanned) = [control_node ''prepare-card-batch'' [], card_node ''p'', card_node ''q'',
       control_node ''collect-card-results'' [''card:p'', ''card:q'']]"
    by (simp add: demo_replanned_def demo_proposal_def demo_nodes)
  obtain ids where ids: "dget (ps_node_ids t) (demo_ids 0, 2) = Some ids"
    "list_all2 (\<lambda>i c. \<exists>n. dget (ps_nodes t) i = Some n \<and> nd_logical_key n = cn_logical_key c
      \<and> nd_reused_from n = dget [(''card:q'', demo_ids 3)] (cn_logical_key c)
      \<and> (nd_state n = N_SUCCEEDED \<longleftrightarrow> dget [(''card:q'', demo_ids 3)] (cn_logical_key c) \<noteq> None)) ids
      (cp_nodes (mp_proposal demo_replanned))"
    using create_replan_nodes [OF wf demo_ids_inj made] unfolding two by blast
  from this(2) have "\<exists>i\<in>set ids. \<exists>n. dget (ps_nodes t) i = Some n \<and> nd_state n = N_SUCCEEDED"
    unfolding keys by (auto simp: list_all2_Cons2 card_node_def skill_node_def card_key_def)
  then obtain i n where reused: "i \<in> set ids" "dget (ps_nodes t) i = Some n" "nd_state n = N_SUCCEEDED" by blast
  have batch: "cb_room_id demo_batch = ''r''" "cb_trace_id demo_batch = ''t''" "cb_live_plan demo_batch = demo_live_plan"
    "cb_products_by_id demo_batch = demo_products" by (simp_all add: demo_batch_def)
  have proposal: "propose_card_batch demo_batch = Inr demo_proposal" "cp_nodes demo_proposal = card_batch_nodes demo_batch"
    using demo_proposal_accepted by (simp_all add: propose_card_batch_def demo_proposal_def)
  show ?thesis
    using made runs applied two demo_sig_ok ids(1) reused
    by (simp add: replan_def sbind_def require_def pure_step_def plan_query_def event_query_def plan_call_def event_call_def
       batch demo_revalidated demo_get_plan demo_first_version demo_merged demo_affected proposal demo_capabilities
       demo_replanned_init demo_selected apply_to_version_def demo_engine_sel Let_def is_sha256_def get_application_def)
      blast
qed

lemma demo_replans:
  "\<exists>res e'. replan demo_ids demo_profile repr (demo_ids 0) demo_batch demo_sig (Aware 5) demo_engine = (Inr res, e')
     \<and> res = \<lparr>rr_status = REPLAN_CREATED, rr_plan_run_id = demo_ids 0, rr_plan_version = 2, rr_source_events = rr_source_events res\<rparr>
     \<and> (\<exists>a. dget (es_applications (en_events e')) (''e'', demo_ids 0) = Some a \<and> ap_state a = A_APPLIED)
     \<and> (\<exists>ids i n. dget (ps_node_ids (en_plans e')) (demo_ids 0, 2) = Some ids \<and> i \<in> set ids
          \<and> dget (ps_nodes (en_plans e')) i = Some n \<and> nd_state n = N_SUCCEEDED)"
proof -
  have "\<exists>b. dget (es_applications (demo_events a)) (''e'', demo_ids 0) = Some b \<and> ap_state b = A_APPLIED"
    if "ap_event_id a = ''e''" "ap_root a = demo_ids 0" "ap_state a = A_APPLIED" for a using that by simp
  then show ?thesis using demo_replans_to [of repr] by metis
qed

subsection \<open>The properties\<close>

text \<open>
  C6: replan and the two stores agree. In every state the system can reach, however the calls of both
  stores and whole replans follow each other, an applied application names a published version of
  its plan, and that version lists the event among its sources.
\<close>

theorem applied_names_version:
  assumes "inj u" and "steps (system_step u v) empty_engine e"
    and "dget (es_applications (en_events e)) (i, p) = Some a" and "ap_state a = A_APPLIED"
  shows "\<exists>n x run. ap_applied_version a = Some n \<and> dget (ps_versions (en_plans e)) (p, n) = Some x
     \<and> i \<in> set (ver_source_events x) \<and> dget (ps_plan_runs (en_plans e)) p = Some run
     \<and> 1 \<le> n \<and> n \<le> pl_current_version run"
proof -
  have inv: "engine_inv u e" by (rule system_reachable [OF assms(2,1)])
  then have "names_version (en_plans e) a" "application_ok (en_events e) (i, p) a"
    using assms(3,4) applicationD unfolding engine_inv_def by blast+
  then obtain n x where x: "ap_applied_version a = Some n" "dget (ps_versions (en_plans e)) (p, n) = Some x"
    "i \<in> set (ver_source_events x)" by (auto simp: names_version_def application_ok_def)
  then show ?thesis using inv unfolding engine_inv_def wf_def wf_versions_def by blast
qed

theorem applied_names_version_witness:
  "\<exists>(e :: engine) (a :: application_record) n (x :: version_rec). dget (es_applications (en_events e)) (''e'', demo_ids 0) = Some a \<and> ap_applied_version a = Some n
     \<and> dget (ps_versions (en_plans e)) (demo_ids 0, n) = Some x \<and> ''e'' \<in> set (ver_source_events x)"
proof -
  obtain res e' a where r: "replan demo_ids demo_profile (dumps False) (demo_ids 0) demo_batch demo_sig (Aware 5) demo_engine
      = (Inr res, e')" and a: "dget (es_applications (en_events e')) (''e'', demo_ids 0) = Some a" "ap_state a = A_APPLIED"
    using demo_replans [of "dumps False"] by blast
  have "steps (system_step demo_ids demo_ids) empty_engine e'"
    using steps_step [OF demo_engine_steps system_replan] r by (metis snd_conv)
  from applied_names_version [OF demo_ids_inj this a] a(1) show ?thesis by blast
qed

text \<open>
  C7: a replan that returns has published. The version it names is the current one of the plan, with
  the given failure signature and the run key of the input; every application that was ready for
  a replan of the version before is among its sources and is now applied to it.
\<close>

theorem replan_publishes:
  assumes "inj u" and "steps (system_step u v) empty_engine e"
    and "replan u pf repr p batch signature now e = (Inr res, e')"
  shows "(\<exists>run x. dget (ps_plan_runs (en_plans e')) p = Some run \<and> pl_current_version run = rr_plan_version res
        \<and> dget (ps_versions (en_plans e')) (p, rr_plan_version res) = Some x \<and> ver_source_events x = rr_source_events res
        \<and> ver_failure_signature x = Some signature \<and> ver_fingerprint x = Some (cb_run_key batch))
     \<and> (\<forall>i a old. dget (es_applications (en_events e)) (i, p) = Some a \<and> ap_state a = A_REPLAN_READY
          \<and> dget (ps_plan_runs (en_plans e)) p = Some old \<and> ap_source_version a = pl_current_version old \<longrightarrow>
          i \<in> set (rr_source_events res) \<and> applied_to (rr_plan_version res) (en_events e') (i, p))"
  using replan_effect [OF system_reachable [OF assms(2,1)] assms(3)] by blast

theorem replan_publishes_witness:
  "\<exists>res e'. replan demo_ids demo_profile (dumps False) (demo_ids 0) demo_batch demo_sig (Aware 5) demo_engine = (Inr res, e')
     \<and> ''e'' \<in> set (rr_source_events res) \<and> applied_to 2 (en_events e') (''e'', demo_ids 0)"
proof -
  obtain res e' where r: "replan demo_ids demo_profile (dumps False) (demo_ids 0) demo_batch demo_sig (Aware 5) demo_engine
      = (Inr res, e')" and two: "rr_plan_version res = 2"
    using demo_replans [of "dumps False"] by (metis replan_result.select_convs(3))
  have "dget (es_applications (en_events demo_engine)) (''e'', demo_ids 0) = Some demo_ready_app"
    "dget (ps_plan_runs (en_plans demo_engine)) (demo_ids 0) = Some demo_run"
    by (simp_all add: demo_engine_sel demo_card_done_store)
  then show ?thesis
    using replan_publishes [OF demo_ids_inj demo_engine_steps r] r two by fastforce
qed

text \<open>
  C5: a replan reuses only what is still valid. A node of the version it creates that starts as
  succeeded points at a succeeded card of the version before with the same key, whose evidence, a run
  that succeeded and was not superseded, recorded an input with the fingerprint of what the node
  would read from the new planning input. No merged event affects the node: every ready application
  of the plan, filed against the version before or belonging to an event that version already names
  among its sources, is a source of the new version, and its affected keys leave the node out.
\<close>

theorem replan_reuses_unchanged:
  assumes "inj u" and "steps (system_step u v) empty_engine e"
    and "replan u pf repr p batch signature now e = (Inr res, e')" and "rr_status res = REPLAN_CREATED"
    and "dget (ps_node_ids (en_plans e')) (p, rr_plan_version res) = Some ids" and "i \<in> set ids"
    and "dget (ps_nodes (en_plans e')) i = Some n" and "nd_state n = N_SUCCEEDED"
  shows "\<exists>j c frozen. nd_reused_from n = Some j \<and> nd_logical_key n = cn_logical_key c
    \<and> card_batch_planning_input (cb_room_id batch) (cb_trace_id batch) (cb_live_plan batch)
       (cb_products_by_id batch) (Some (cb_run_key batch)) = Inr frozen
    \<and> c \<in> set (card_batch_nodes frozen)
    \<and> reusable (en_plans e) p (rr_plan_version res - 1) (CardBatch frozen) c j
    \<and> (\<forall>a ks. dget (es_applications (en_events e)) (ap_event_id a, p) = Some a \<longrightarrow> ap_state a = A_REPLAN_READY \<longrightarrow>
         ap_source_version a = rr_plan_version res - 1
           \<or> publishes (en_plans e) p (rr_plan_version res - 1) (ap_event_id a) \<longrightarrow>
         ap_event_id a \<in> set (rr_source_events res)
         \<and> (affected_keys repr a = Inr ks \<longrightarrow> nd_logical_key n \<notin> set ks))"
  using replan_reuse [OF system_reachable [OF assms(2,1)] assms(1) assms(3-8)] unfolding merges_def by blast

theorem replan_reuses_unchanged_witness:
  "\<exists>res e' i n j. replan demo_ids demo_profile (dumps False) (demo_ids 0) demo_batch demo_sig (Aware 5) demo_engine
       = (Inr res, e')
     \<and> dget (ps_nodes (en_plans e')) i = Some n \<and> nd_state n = N_SUCCEEDED \<and> nd_reused_from n = Some j
     \<and> nd_logical_key n \<notin> {''card:p'', ''collect-card-results''}"
proof -
  obtain res e' ids i n where r: "replan demo_ids demo_profile (dumps False) (demo_ids 0) demo_batch demo_sig (Aware 5)
      demo_engine = (Inr res, e')" and res: "rr_status res = REPLAN_CREATED" "rr_plan_version res = 2"
    and n: "dget (ps_node_ids (en_plans e')) (demo_ids 0, rr_plan_version res) = Some ids" "i \<in> set ids"
      "dget (ps_nodes (en_plans e')) i = Some n" "nd_state n = N_SUCCEEDED"
    using demo_replans [of "dumps False"] by (metis replan_result.select_convs(1,3))
  have "dget (es_applications (en_events demo_engine)) (ap_event_id demo_ready_app, demo_ids 0) = Some demo_ready_app"
    by (simp add: demo_engine_sel)
  moreover have "rr_plan_version res - 1 = 1" using res(2) by simp
  note use = replan_reuses_unchanged [OF demo_ids_inj demo_engine_steps r res(1) n, unfolded this]
  ultimately obtain j where "nd_reused_from n = Some j" "nd_logical_key n \<notin> set [''card:p'', ''collect-card-results'']"
    using use demo_affected [of "dumps False"] demo_ready_app_sel(3,4) by metis
  then show ?thesis using r n(3,4) by auto
qed

end
