(* ===== verification/World.thy ===== *)
theory World
  imports Replan
begin

section \<open>The world a driver runs in\<close>

text \<open>
  A worker, a service or a preemption driver reads a clock between the calls it makes. The \<open>world\<close>
  is both stores and the number of readings taken so far; reading \<open>k\<close> of a clock gives the time
  \<open>clock k\<close>, with no assumption on how the readings are ordered. Programs over the stores are lifted to
  it unchanged, and \<open>moves\<close> says that the stores changed only by lawful calls.
\<close>

record world =
  wd_engine :: engine
  wd_readings :: nat

type_synonym 'a world_program = "(engine_error, world, 'a) program"

definition on_engine :: "'a engine_program \<Rightarrow> 'a world_program" where
  "on_engine m w = (case m (wd_engine w) of (r, e) \<Rightarrow> (r, w\<lparr>wd_engine := e\<rparr>))"

definition read_clock :: "(nat \<Rightarrow> pytime) \<Rightarrow> pytime world_program" where
  "read_clock clock w = (Inr (clock (wd_readings w)), w\<lparr>wd_readings := wd_readings w + 1\<rparr>)"

text \<open>\<open>try: m except Exception: h\<close>.\<close>

definition catch :: "('e, 's, 'a) program \<Rightarrow> ('e, 's, 'a) program \<Rightarrow> ('e, 's, 'a) program" where
  "catch m h s = (case m s of (Inl _, t) \<Rightarrow> h t | (Inr x, t) \<Rightarrow> (Inr x, t))"

lemma catch_Inr [simp]: "m s = (Inr x, t) \<Longrightarrow> catch m h s = (Inr x, t)"
  and catch_Inl [simp]: "m s = (Inl e, t) \<Longrightarrow> catch m h s = h t"
  by (simp_all add: catch_def)

lemma catch_cases:
  obtains x t where "m s = (Inr x, t)" "catch m h s = (Inr x, t)"
  | e t where "m s = (Inl e, t)" "catch m h s = h t"
  by (cases "m s"; cases "fst (m s)") (auto simp: catch_def)

lemma on_engine_eq_Inr [outcome]:
  "on_engine m w = (Inr x, w') \<longleftrightarrow> (\<exists>e. m (wd_engine w) = (Inr x, e) \<and> w' = w\<lparr>wd_engine := e\<rparr>)"
  by (auto simp: on_engine_def split: prod.split)

lemma on_engine_eq_Inl:
  "on_engine m w = (Inl r, w') \<longleftrightarrow> (\<exists>e. m (wd_engine w) = (Inl r, e) \<and> w' = w\<lparr>wd_engine := e\<rparr>)"
  by (auto simp: on_engine_def split: prod.split)

lemma snd_on_engine [simp]: "snd (on_engine m w) = w\<lparr>wd_engine := snd (m (wd_engine w))\<rparr>"
  by (simp add: on_engine_def split: prod.split)

lemma read_clock_eq [outcome]:
  "read_clock clock w = (Inr t, w') \<longleftrightarrow> t = clock (wd_readings w) \<and> w' = w\<lparr>wd_readings := wd_readings w + 1\<rparr>"
  by (auto simp: read_clock_def)

lemma world_selectors [simp]:
  "wd_engine (w\<lparr>wd_readings := n\<rparr>) = wd_engine w" "wd_readings (w\<lparr>wd_engine := e\<rparr>) = wd_readings w"
  by simp_all

subsection \<open>Only lawful calls\<close>

definition moves :: "(nat \<Rightarrow> string) \<Rightarrow> (nat \<Rightarrow> string) \<Rightarrow> world \<Rightarrow> world \<Rightarrow> bool" where
  "moves u v w w' \<longleftrightarrow> steps (engine_step u v) (wd_engine w) (wd_engine w')"

lemma moves_refl [simp]: "wd_engine w' = wd_engine w \<Longrightarrow> moves u v w w'"
  by (simp add: moves_def steps_refl)

lemma moves_trans: "moves u v a b \<Longrightarrow> moves u v b c \<Longrightarrow> moves u v a c"
  unfolding moves_def by (rule steps_trans)

lemma steps_moves: "steps (moves u v) w w' \<Longrightarrow> moves u v w w'"
  by (induction rule: steps.induct) (auto intro: moves_trans)

lemma obeys_moves: "obeys (moves u v) m w \<longleftrightarrow> moves u v w (snd (m w))"
  unfolding obeys_def by (blast intro: steps_moves steps_step steps_refl)

lemma obeys_on_engine: "obeys (engine_step u v) m (wd_engine w) \<Longrightarrow> obeys (moves u v) (on_engine m) w"
  unfolding obeys_moves by (simp add: moves_def obeys_def)

lemma obeys_read_clock: "obeys (moves u v) (read_clock clock) w"
  by (simp add: obeys_moves read_clock_def)

lemma obeys_catch:
  assumes "obeys R m s" and "\<And>e t. m s = (Inl e, t) \<Longrightarrow> obeys R h t"
  shows "obeys R (catch m h) s"
proof (cases rule: catch_cases [of m s h])
  case (1 x t)
  then show ?thesis using assms(1) by (simp add: obeys_def)
next
  case (2 e t)
  then show ?thesis using assms(1) assms(2) [of e t] by (auto simp: obeys_def intro: steps_trans)
qed

lemma obeys_on_plan_query: "obeys (moves u v) (on_engine (plan_query f)) w"
  and obeys_on_event_query: "obeys (moves u v) (on_engine (event_query g)) w"
  and obeys_pure_alone: "obeys R (pure_step h r) x"
  and obeys_require_alone: "obeys R (require ok err) x"
  by (auto intro!: obeys_on_engine simp: plan_query_def event_query_def pure_step_def require_def obeys_read)

definition world_inv :: "(nat \<Rightarrow> string) \<Rightarrow> world \<Rightarrow> bool" where
  "world_inv u w \<longleftrightarrow> engine_inv u (wd_engine w)"

lemma moves_good:
  "moves u v w w' \<Longrightarrow> world_inv u w \<Longrightarrow> inj u \<Longrightarrow> world_inv u w' \<and> engine_evolves (wd_engine w) (wd_engine w')"
  unfolding moves_def world_inv_def by (rule engine_steps_good)

end
