(* ===== verification/Worker.thy ===== *)
theory Worker
  imports World
begin

section \<open>The worker\<close>

text \<open>
  \<open>worker.py\<close>: a worker claims up to four ready nodes, resolves the input of each from what the store
  has frozen, records it, executes the node and writes the result back before it returns. It keeps no
  state of its own. What it calls outside the repository is a parameter: pydantic's parsing of a
  stored planning input (\<open>wk_load_batch\<close>, \<open>wk_load_emergency\<close>), the JSON Schema validator
  (\<open>wk_accepts\<close>), \<open>repr\<close> of a JSON container, the clock, and the executor. The executor is awaited, so
  others run meanwhile: it maps the world at the call to its result, or an exception, and to the
  world in which the worker goes on.
\<close>

subsection \<open>Calls and results\<close>

datatype lifecycle_stage = PRE_LIVE | ON_LIVE | POST_LIVE

record skill_call =
  sc_skill_id :: string
  sc_version :: string
  sc_room_id :: string
  sc_trace_id :: string
  sc_lifecycle :: lifecycle_stage
  sc_deadline_at :: int
  sc_idempotency_key :: "string option"
  sc_authorization :: "event_authorization option"
  sc_arguments :: json

datatype execution_status = SUCCESS | PENDING_STATUS | ERROR

record skill_result =
  sr_skill_id :: string
  sr_version :: string
  sr_status :: execution_status
  sr_error_code :: "string option"
  sr_output :: "(string \<times> json) list option"
  sr_failure :: "failure_fact option"

type_synonym executor = "skill_call \<Rightarrow> world \<Rightarrow> (unit + skill_result) \<times> world"

definition failure_category_value :: "failure_category \<Rightarrow> string" where
  "failure_category_value c = (case c of TRANSIENT_INFRA \<Rightarrow> ''TRANSIENT_INFRA'' | RATE_LIMITED \<Rightarrow> ''RATE_LIMITED''
     | INVALID_INPUT \<Rightarrow> ''INVALID_INPUT'' | BUSINESS_CONFLICT \<Rightarrow> ''BUSINESS_CONFLICT''
     | POLICY_DENIED \<Rightarrow> ''POLICY_DENIED'' | VERSION_CONFLICT \<Rightarrow> ''VERSION_CONFLICT''
     | SIDE_EFFECT_UNKNOWN \<Rightarrow> ''SIDE_EFFECT_UNKNOWN'' | INTERNAL_INVARIANT \<Rightarrow> ''INTERNAL_INVARIANT'')"

definition side_effect_value :: "side_effect_state \<Rightarrow> string" where
  "side_effect_value s = (case s of NOT_SENT \<Rightarrow> ''NOT_SENT'' | CONFIRMED \<Rightarrow> ''CONFIRMED'' | UNKNOWN_EFFECT \<Rightarrow> ''UNKNOWN'')"

definition dump_failure :: "failure_fact \<Rightarrow> json" where
  "dump_failure f = JObj
     [(''category'', JStr (failure_category_value (ff_category f))),
      (''external_code'', JStr (ff_external_code f)),
      (''side_effect_state'', JStr (side_effect_value (ff_side_effect_state f))),
      (''attempt_id'', JStr (ff_attempt_id f)),
      (''retry_after_seconds'', opt_json JInt (ff_retry_after_seconds f))]"

subsection \<open>The worker and its parameters\<close>

record worker =
  wk_id :: string
  wk_event_store :: bool
  wk_max_claims :: int
  wk_lease_seconds :: int
  wk_deadline_seconds :: int
  wk_catalog :: "(string, skill_manifest) dict"
  wk_clock :: "nat \<Rightarrow> pytime"
  wk_repr :: "json \<Rightarrow> string"
  wk_accepts :: "skill_manifest \<Rightarrow> json \<Rightarrow> bool"
  wk_load_batch :: "json \<Rightarrow> validation_error + card_batch_input"
  wk_load_emergency :: "json \<Rightarrow> validation_error + emergency_input"

definition worker_arguments_ok :: "string \<Rightarrow> pyval \<Rightarrow> pyval \<Rightarrow> pyval \<Rightarrow> bool" where
  "worker_arguments_ok worker_id max_claims lease deadline \<longleftrightarrow> worker_id \<noteq> ''''
     \<and> (case max_claims of PyInt n \<Rightarrow> 1 \<le> n \<and> n \<le> 4 | _ \<Rightarrow> False)
     \<and> (case lease of PyInt n \<Rightarrow> 1 \<le> n \<and> n \<le> 600 | _ \<Rightarrow> False)
     \<and> (case deadline of PyInt n \<Rightarrow> 1 \<le> n | _ \<Rightarrow> False)"

definition int_of_py :: "pyval \<Rightarrow> int" where
  "int_of_py v = (case v of PyInt n \<Rightarrow> n | _ \<Rightarrow> 0)"

text \<open>The constructor: \<open>collaborators\<close> supplies the injected parts, the catalogue is indexed by Skill id.\<close>

definition worker_init ::
  "string \<Rightarrow> pyval \<Rightarrow> pyval \<Rightarrow> pyval \<Rightarrow> skill_manifest list \<Rightarrow> worker \<Rightarrow> engine_error + worker" where
  "worker_init worker_id max_claims lease deadline manifests collaborators =
     rbind (guard (worker_arguments_ok worker_id max_claims lease deadline) ArgumentRaised) (\<lambda>_.
     Inr (collaborators\<lparr>wk_id := worker_id, wk_max_claims := int_of_py max_claims,
       wk_lease_seconds := int_of_py lease, wk_deadline_seconds := int_of_py deadline,
       wk_catalog := fold (\<lambda>m. dset (sm_skill_id m) m) manifests []\<rparr>))"

definition worker_now :: "worker \<Rightarrow> pytime world_program" where
  "worker_now wk = sbind (read_clock (wk_clock wk)) (\<lambda>t.
     sread (\<lambda>_. rbind (aware_utc (EngineInvariant NaiveClock) t) (\<lambda>us. Inr (Aware us))))"

definition wd_plans :: "world \<Rightarrow> plan_store" where
  "wd_plans w = en_plans (wd_engine w)"

subsection \<open>\<open>_dependency_outputs\<close>\<close>

text \<open>
  The \<open>while\<close> loop over the reuse chain. Each round visits a node not seen before, and every
  node but the first is one the store lists, so one more round than there are nodes is enough.
\<close>

fun reused_runs ::
  "nat \<Rightarrow> string \<Rightarrow> int \<Rightarrow> plan_store \<Rightarrow> string list \<Rightarrow> string option \<Rightarrow> engine_error + node_run_rec list" where
  "reused_runs fuel p current s visited None = Inr []"
| "reused_runs 0 p current s visited (Some i) = Inl (EngineInvariant DependencyLoop)"
| "reused_runs (Suc fuel) p current s visited (Some i) =
     rbind (guard (i \<notin> set visited) (EngineInvariant DependencyLoop)) (\<lambda>_.
     rbind (map_sum PlanRaised id (list_node_runs p (Some i) s)) (\<lambda>rs.
     rbind (map_sum PlanRaised id (find_node p i (nat current) s)) (\<lambda>found.
     if filter valid_run rs \<noteq> [] then Inr (filter valid_run rs)
     else reused_runs fuel p current s (i # visited)
            (case found of None \<Rightarrow> None | Some n \<Rightarrow> nv_reused_from n))))"

definition dependency_output_of ::
  "string \<Rightarrow> int \<Rightarrow> (string, node_view_rec) dict \<Rightarrow> plan_store \<Rightarrow> string \<Rightarrow> engine_error + int \<times> json" where
  "dependency_output_of p current nodes s key =
     rbind (of_option (EngineInvariant NoDependencyNode) (dget nodes key)) (\<lambda>n.
     rbind (map_sum PlanRaised id (list_node_runs p (Some (nv_id n)) s)) (\<lambda>rs.
     let done = filter (\<lambda>r. nr_state r = N_SUCCEEDED) rs in
     rbind (if done \<noteq> [] then Inr done
            else reused_runs (length (ps_nodes s) + 1) p current s [] (nv_reused_from n)) (\<lambda>found.
     rbind (guard (found \<noteq> []) (EngineInvariant NoDependencyOutput)) (\<lambda>_.
     Inr (nv_version n, nr_output (last found))))))"

fun collect_outputs ::
  "string \<Rightarrow> int \<Rightarrow> (string, node_view_rec) dict \<Rightarrow> plan_store \<Rightarrow> string list \<Rightarrow> (string, int \<times> json) dict
     \<Rightarrow> engine_error + (string, int \<times> json) dict" where
  "collect_outputs p current nodes s [] outputs = Inr outputs"
| "collect_outputs p current nodes s (k # ks) outputs =
     rbind (dependency_output_of p current nodes s k) (\<lambda>out.
     collect_outputs p current nodes s ks (dset k out outputs))"

definition dependency_outputs ::
  "string \<Rightarrow> string list \<Rightarrow> plan_store \<Rightarrow> engine_error + (string, int \<times> json) dict" where
  "dependency_outputs p keys s =
     rbind (map_sum PlanRaised id (get_plan_run p s)) (\<lambda>run.
     rbind (map_sum PlanRaised id (list_nodes p None s)) (\<lambda>ns.
     collect_outputs p (pl_current_version run) (nodes_by_key ns) s keys []))"

definition resolver_outputs :: "(string, int \<times> json) dict \<Rightarrow> (string, dependency_output) dict" where
  "resolver_outputs outputs = map (\<lambda>(k, n, j). (k, Versioned (PyInt n) (py_of_json j))) outputs"

subsection \<open>\<open>_claim_plan_version\<close>\<close>

fun versions_of_node :: "string \<Rightarrow> string \<Rightarrow> nat \<Rightarrow> plan_store \<Rightarrow> store_error + int list" where
  "versions_of_node p i 0 s = Inr []"
| "versions_of_node p i (Suc k) s =
     rbind (list_nodes p (Some (PyInt (int (Suc k)))) s) (\<lambda>ns.
     rbind (versions_of_node p i k s) (\<lambda>rest.
     Inr (map nv_version (filter (\<lambda>n. nv_id n = i) ns) @ rest)))"

definition claim_plan_version :: "node_run_rec \<Rightarrow> plan_store \<Rightarrow> engine_error + int" where
  "claim_plan_version c s =
     rbind (map_sum PlanRaised id (get_plan_run (nr_plan_run_id c) s)) (\<lambda>run.
     rbind (map_sum PlanRaised id (versions_of_node (nr_plan_run_id c) (nr_node_id c)
       (nat (pl_current_version run)) s)) (\<lambda>matches.
     case matches of [n] \<Rightarrow> Inr n | _ \<Rightarrow> Inl (EngineInvariant NoUniqueVersion)))"

text \<open>\<open>plan_version.planning_input or plan_run.planning_input\<close>: an empty snapshot counts as none.\<close>

fun json_truthy :: "json \<Rightarrow> bool" where
  "json_truthy JNull = False"
| "json_truthy (JBool b) = b"
| "json_truthy (JInt i) = (i \<noteq> 0)"
| "json_truthy (JFloat v t) = (v \<noteq> 0)"
| "json_truthy (JStr s) = (s \<noteq> '''')"
| "json_truthy (JList xs) = (xs \<noteq> [])"
| "json_truthy (JObj kvs) = (kvs \<noteq> [])"

definition version_input :: "version_rec \<Rightarrow> plan_run_rec \<Rightarrow> json" where
  "version_input v run = (case ver_planning_input v of
       None \<Rightarrow> pl_planning_input run
     | Some j \<Rightarrow> if json_truthy j then j else pl_planning_input run)"

subsection \<open>\<open>_materialize_claim\<close>\<close>

text \<open>\<open>InputBinding.model_validate\<close> of a stored binding: \<open>kind\<close> is required, unknown keys are ignored.\<close>

definition field_or :: "json \<Rightarrow> (string \<times> json) list \<Rightarrow> string \<Rightarrow> json" where
  "field_or absent kvs k = (case map_of kvs k of None \<Rightarrow> absent | Some j \<Rightarrow> j)"

definition load_binding :: "json \<Rightarrow> validation_error + input_binding" where
  "load_binding j = (case j of
       JObj kvs \<Rightarrow>
         rbind (case map_of kvs ''kind'' of
             Some (JStr t) \<Rightarrow> of_option FieldInvalid (map_of binding_kind_members t)
           | _ \<Rightarrow> Inl FieldInvalid) (\<lambda>kind.
         rbind (case field_or (JList []) kvs ''path'' of
             JList xs \<Rightarrow> Inr (map py_of_json xs) | _ \<Rightarrow> Inl FieldInvalid) (\<lambda>path.
         rbind (case field_or JNull kvs ''upstream_logical_key'' of
             JNull \<Rightarrow> Inr None | JStr t \<Rightarrow> Inr (Some t) | _ \<Rightarrow> Inl FieldInvalid) (\<lambda>upstream.
         input_binding_create kind path upstream
           (py_of_json (field_or JNull kvs ''literal_value'')))))
     | _ \<Rightarrow> Inl FieldInvalid)"

definition load_bindings ::
  "(string \<times> json) list \<Rightarrow> validation_error + (string, input_binding) dict" where
  "load_bindings kvs = rmap (\<lambda>(k, j). rbind (load_binding j) (\<lambda>b. Inr (k, b))) kvs"

definition input_spec :: "json \<Rightarrow> engine_error + (string \<times> json) list \<times> json list" where
  "input_spec snapshot = (case snapshot of
       JObj spec \<Rightarrow>
         (case (field_or (JObj []) spec ''input_bindings'', field_or (JList []) spec ''depends_on'') of
            (JObj kvs, JList xs) \<Rightarrow> Inr (kvs, xs)
          | _ \<Rightarrow> Inl (EngineInvariant BadBindingSnapshot))
     | _ \<Rightarrow> Inl Unexpected)"

definition load_planning_input :: "worker \<Rightarrow> run_kind \<Rightarrow> json \<Rightarrow> validation_error + planning_input" where
  "load_planning_input wk kind j =
     (if kind = EMERGENCY_SOLD_OUT then rbind (wk_load_emergency wk j) (\<lambda>m. Inr (Emergency m))
      else rbind (wk_load_batch wk j) (\<lambda>c. Inr (CardBatch c)))"

definition materialize_claim ::
  "worker \<Rightarrow> node_run_rec \<Rightarrow> plan_store \<Rightarrow> engine_error + materialized_input \<times> (string, int \<times> json) dict" where
  "materialize_claim wk c s = (case nr_fingerprint c of
       Some f \<Rightarrow>
         rbind (map_sum BindingRaised id (materialized_node_input (py_of_json (nr_input_snapshot c)) f)) (\<lambda>m.
         Inr (m, []))
     | None \<Rightarrow>
         rbind (input_spec (nr_input_snapshot c)) (\<lambda>(raw_bindings, raw_dependencies).
         rbind (map_sum (ModelRaised \<circ> ModelRejected) id (load_bindings raw_bindings)) (\<lambda>bindings.
         let dependencies = map (element_text (wk_repr wk)) raw_dependencies in
         rbind (dependency_outputs (nr_plan_run_id c) dependencies s) (\<lambda>outputs.
         rbind (map_sum PlanRaised id (get_plan_run (nr_plan_run_id c) s)) (\<lambda>run.
         rbind (claim_plan_version c s) (\<lambda>version.
         rbind (map_sum PlanRaised id (get_plan_version (nr_plan_run_id c) (PyInt version) s)) (\<lambda>v.
         rbind (map_sum (ModelRaised \<circ> ModelRejected) id
           (load_planning_input wk (pl_plan_kind run) (version_input v run))) (\<lambda>input.
         rbind (map_sum BindingRaised id (materialize (runtime_bindings bindings) input
           (resolver_outputs outputs) dependencies (PyInt version))) (\<lambda>m.
         Inr (m, outputs))))))))))"

subsection \<open>Control nodes\<close>

definition prepared_output :: "card_batch_input \<Rightarrow> json" where
  "prepared_output c = JObj [(''prepared'', JBool True),
     (''product_ids'', JList (map (JStr \<circ> li_product_id) (take 3 (lp_items (cb_live_plan c)))))]"

definition collected_output :: "string \<Rightarrow> (string, int \<times> json) dict \<Rightarrow> json" where
  "collected_output field outputs = JObj [(field, JList (map (snd \<circ> snd) outputs))]"

definition verified_event_record :: "worker \<Rightarrow> emergency_input \<Rightarrow> event_store \<Rightarrow> engine_error + inbox_record" where
  "verified_event_record wk m t =
     rbind (guard (wk_event_store wk) (EngineInvariant NoEventStore)) (\<lambda>_.
     rbind (map_sum EventRaised id (get_inbox (em_trigger_event_id m) t)) (\<lambda>r.
     rbind (guard (ir_state r \<in> {I_VERIFIED, I_PROCESSING}) (EngineInvariant EventClosed)) (\<lambda>_.
     rbind (guard (json_eq (dump_event (ir_event r)) (dump_event (em_event m))
         \<and> json_eq (dump_provenance (ir_provenance r)) (dump_provenance (em_provenance m)))
       (EngineInvariant EventFactsDiffer)) (\<lambda>_. Inr r))))"

definition validated_output :: "inbox_record \<Rightarrow> json" where
  "validated_output r = JObj [(''validated'', JBool True), (''event_id'', JStr (ev_event_id (ir_event r))),
     (''provenance_id'', JStr (pv_provenance_id (ir_provenance r))),
     (''payload_digest'', JStr (ev_payload_digest (ir_event r)))]"

definition execute_control ::
  "worker \<Rightarrow> node_run_rec \<Rightarrow> (string, int \<times> json) dict \<Rightarrow> engine \<Rightarrow> engine_error + json" where
  "execute_control wk c outputs e =
     rbind (map_sum PlanRaised id (get_plan_run (nr_plan_run_id c) (en_plans e))) (\<lambda>run.
     rbind (claim_plan_version c (en_plans e)) (\<lambda>version.
     rbind (map_sum PlanRaised id (get_plan_version (nr_plan_run_id c) (PyInt version) (en_plans e))) (\<lambda>v.
     if nr_node_type c = ''PREPARE_CARD_BATCH''
     then rbind (map_sum (ModelRaised \<circ> ModelRejected) id (wk_load_batch wk (version_input v run))) (\<lambda>b.
          Inr (prepared_output b))
     else if nr_node_type c = ''COLLECT_CARD_RESULTS'' then Inr (collected_output ''cards'' outputs)
     else if nr_node_type c = ''VALIDATE_SOLD_OUT_EVENT''
     then rbind (map_sum (ModelRaised \<circ> ModelRejected) id (wk_load_emergency wk (version_input v run))) (\<lambda>m.
          rbind (verified_event_record wk m (en_events e)) (\<lambda>r.
          Inr (validated_output r)))
     else if nr_node_type c = ''COLLECT_SOLD_OUT_RESPONSE'' then Inr (collected_output ''responses'' outputs)
     else Inl (EngineInvariant UnknownControlNode))))"

definition control_types :: "string list" where
  "control_types = [''PREPARE_CARD_BATCH'', ''COLLECT_CARD_RESULTS'', ''VALIDATE_SOLD_OUT_EVENT'',
     ''COLLECT_SOLD_OUT_RESPONSE'']"

subsection \<open>Skill nodes: everything up to the executor\<close>

definition manifest_for_claim :: "worker \<Rightarrow> node_run_rec \<Rightarrow> engine_error + skill_manifest" where
  "manifest_for_claim wk c = (case (nr_skill_id c, nr_skill_version c) of
       (Some i, Some version) \<Rightarrow>
         (case dget (wk_catalog wk) i of
            Some m \<Rightarrow> if sm_version m = version then Inr m else Inl (EngineInvariant SkillVersionDiffers)
          | None \<Rightarrow> Inl (EngineInvariant SkillVersionDiffers))
     | _ \<Rightarrow> Inl (EngineInvariant NoSkillIdentity))"

definition capability_from_claim :: "node_run_rec \<Rightarrow> skill_manifest \<Rightarrow> plan_capability" where
  "capability_from_claim c m =
     \<lparr>rc_node_type = nr_node_type c, rc_skill_id = Some (sm_skill_id m), rc_skill_version = Some (sm_version m),
      rc_lifecycle = sm_lifecycle m, rc_risk_level = Some (sm_risk_level m),
      rc_max_attempt_seconds = Some (sm_max_attempt_seconds m), rc_resource_keys = nr_resource_keys c,
      rc_max_concurrency = 4\<rparr>"

definition on_live_skills :: "string list" where
  "on_live_skills = [''handle_sold_out_event'', ''recommend_backup_product'', ''generate_on_live_prompt'']"

definition verified_event_authorization ::
  "worker \<Rightarrow> plan_run_rec \<Rightarrow> event_store \<Rightarrow> engine_error + event_authorization" where
  "verified_event_authorization wk run t =
     rbind (map_sum (ModelRaised \<circ> ModelRejected) id (wk_load_emergency wk (pl_planning_input run))) (\<lambda>m.
     rbind (verified_event_record wk m t) (\<lambda>r.
     map_sum (ModelRaised \<circ> ModelRejected) id (build_event_authorization_context (ir_event r) (ir_provenance r))))"

definition node_idempotency_key :: "node_run_rec \<Rightarrow> plan_run_rec \<Rightarrow> string" where
  "node_idempotency_key c run = ''plan:'' @ nr_plan_run_id c @ '':node:'' @ nr_node_id c @ '':v''
     @ int_text (pl_current_version run)"

definition prepare_call ::
  "worker \<Rightarrow> node_run_rec \<Rightarrow> skill_manifest \<Rightarrow> json \<Rightarrow> int \<Rightarrow> engine \<Rightarrow> engine_error + skill_call" where
  "prepare_call wk c m arguments deadline e =
     rbind (map_sum PlanRaised id (get_plan_run (nr_plan_run_id c) (en_plans e))) (\<lambda>run.
     rbind (if sm_skill_id m = ''handle_sold_out_event''
            then rbind (verified_event_authorization wk run (en_events e)) (\<lambda>a.
                 Inr (Some a, Some (node_idempotency_key c run)))
            else Inr (None, None)) (\<lambda>(authorization, key).
     Inr \<lparr>sc_skill_id = sm_skill_id m, sc_version = sm_version m, sc_room_id = pl_room_id run,
          sc_trace_id = pl_trace_id run,
          sc_lifecycle = (if sm_skill_id m \<in> set on_live_skills then ON_LIVE else PRE_LIVE),
          sc_deadline_at = deadline, sc_idempotency_key = key, sc_authorization = authorization,
          sc_arguments = arguments\<rparr>))"

datatype node_outcome = O_SUCCEEDED | O_RETRIED | O_WAITING_HUMAN | O_WAITING_APPROVAL | O_FAILED

text \<open>A node that needs no executor is finished at once; any other waits for the result of its call.\<close>

datatype progress = Finished node_outcome | Awaiting skill_call skill_manifest

definition record_result :: "worker \<Rightarrow> node_run_rec \<Rightarrow> node_state \<Rightarrow> json \<Rightarrow> unit world_program" where
  "record_result wk c target output =
     sbind (worker_now wk) (\<lambda>now.
     sbind (on_engine (plan_call (record_node_result (nr_id c) (nr_worker c) (nr_claim_version c)
       (py_node_state target) (py_of_json output) now))) (\<lambda>_.
     sreturn ()))"

definition error_output :: "string \<Rightarrow> json" where
  "error_output code = JObj [(''error'', JStr code)]"

definition closes :: "worker \<Rightarrow> node_run_rec \<Rightarrow> node_state \<Rightarrow> json \<Rightarrow> 'a \<Rightarrow> 'a world_program" where
  "closes wk c target output result = sbind (record_result wk c target output) (\<lambda>_. sreturn result)"

definition effective_deadline :: "node_run_rec \<Rightarrow> int \<Rightarrow> int" where
  "effective_deadline c deadline = (case nr_deadline_at c of None \<Rightarrow> deadline | Some d \<Rightarrow> d)"

text \<open>\<open>_execute_claim_inner\<close> up to the \<open>await\<close>.\<close>

definition begin_inner :: "worker \<Rightarrow> int \<Rightarrow> node_run_rec \<Rightarrow> progress world_program" where
  "begin_inner wk deadline c =
     sbind (sread (\<lambda>w. materialize_claim wk c (wd_plans w))) (\<lambda>(input, outputs).
     sbind (worker_now wk) (\<lambda>now.
     sbind (on_engine (plan_call (record_node_input (nr_id c) (nr_worker c) (nr_claim_version c) input now))) (\<lambda>_.
     sbind (worker_now wk) (\<lambda>checked.
     if (case checked of Aware us \<Rightarrow> effective_deadline c deadline \<le> us | Naive _ \<Rightarrow> False)
     then closes wk c N_FAILED (error_output ''NODE_DEADLINE_EXPIRED'') (Finished O_FAILED)
     else if nr_node_type c \<in> set control_types
     then sbind (sread (\<lambda>w. execute_control wk c outputs (wd_engine w))) (\<lambda>output.
          closes wk c N_SUCCEEDED output (Finished O_SUCCEEDED))
     else sbind (sread (\<lambda>_. manifest_for_claim wk c)) (\<lambda>m.
          if \<not> wk_accepts wk m (mi_parameters input)
          then closes wk c N_FAILED (error_output ''INVALID_ARGUMENTS'') (Finished O_FAILED)
          else sbind (sread (\<lambda>w. prepare_call wk c m (mi_parameters input) (effective_deadline c deadline)
                 (wd_engine w))) (\<lambda>call.
               sreturn (Awaiting call m)))))))"

text \<open>\<open>_execute_claim\<close>: whatever goes wrong inside, the failure is recorded once more.\<close>

definition fail_closed :: "worker \<Rightarrow> node_run_rec \<Rightarrow> node_outcome world_program" where
  "fail_closed wk c = closes wk c N_FAILED (error_output ''INTERNAL_INVARIANT'') O_FAILED"

definition begin_claim :: "worker \<Rightarrow> int \<Rightarrow> node_run_rec \<Rightarrow> progress world_program" where
  "begin_claim wk deadline c =
     catch (begin_inner wk deadline c) (sbind (fail_closed wk c) (\<lambda>out. sreturn (Finished out)))"

subsection \<open>Skill nodes: the result of the executor\<close>

definition error_code_output :: "string option \<Rightarrow> json" where
  "error_code_output code = JObj [(''error_code'', opt_json JStr code)]"

definition failure_output :: "failure_fact \<Rightarrow> json" where
  "failure_output f = JObj [(''failure'', dump_failure f)]"

definition retry_claim :: "worker \<Rightarrow> node_run_rec \<Rightarrow> int \<Rightarrow> node_outcome world_program" where
  "retry_claim wk c retry_at =
     sbind (worker_now wk) (\<lambda>now.
     sbind (on_engine (plan_call (schedule_retry (nr_id c) (nr_worker c) (nr_claim_version c) now
       (Aware retry_at)))) (\<lambda>_.
     sreturn O_RETRIED))"

definition finish_inner ::
  "worker \<Rightarrow> int \<Rightarrow> node_run_rec \<Rightarrow> skill_call \<Rightarrow> skill_manifest \<Rightarrow> unit + skill_result \<Rightarrow> node_outcome world_program" where
  "finish_inner wk deadline c call m executed = (case executed of
       Inl _ \<Rightarrow> closes wk c N_FAILED (error_output ''INTERNAL_INVARIANT'') O_FAILED
     | Inr r \<Rightarrow>
         if sr_skill_id r \<noteq> sc_skill_id call \<or> sr_version r \<noteq> sc_version call
         then closes wk c N_FAILED (error_output ''RESULT_IDENTITY_MISMATCH'') O_FAILED
         else if sr_status r = SUCCESS
         then closes wk c N_SUCCEEDED (JObj (case sr_output r of None \<Rightarrow> [] | Some kvs \<Rightarrow> kvs)) O_SUCCEEDED
         else if sr_status r = PENDING_STATUS
         then closes wk c N_WAITING_APPROVAL (error_code_output (sr_error_code r)) O_WAITING_APPROVAL
         else (case sr_failure r of
             None \<Rightarrow> closes wk c N_FAILED (error_code_output (sr_error_code r)) O_FAILED
           | Some f \<Rightarrow>
               sbind (worker_now wk) (\<lambda>now.
               sbind (pure_step ModelRaised (decide_failure f (capability_from_claim c m)
                 (PyInt (int (nr_attempt c))) (Aware (effective_deadline c deadline)) now)) (\<lambda>decision.
               case decision of
                 Retry retry_at \<Rightarrow> retry_claim wk c retry_at
               | WaitHuman \<Rightarrow> closes wk c N_WAITING_RECONCILIATION (failure_output f) O_WAITING_HUMAN
               | _ \<Rightarrow> closes wk c N_FAILED (failure_output f) O_FAILED))))"

definition finish_claim ::
  "worker \<Rightarrow> int \<Rightarrow> node_run_rec \<Rightarrow> skill_call \<Rightarrow> skill_manifest \<Rightarrow> unit + skill_result \<Rightarrow> node_outcome world_program" where
  "finish_claim wk deadline c call m executed =
     catch (finish_inner wk deadline c call m executed) (fail_closed wk c)"

text \<open>The whole coroutine: what happens while it waits is the business of the executor.\<close>

definition execute_claim :: "executor \<Rightarrow> worker \<Rightarrow> int \<Rightarrow> node_run_rec \<Rightarrow> node_outcome world_program" where
  "execute_claim execute wk deadline c =
     sbind (begin_claim wk deadline c) (\<lambda>p. case p of
       Finished out \<Rightarrow> sreturn out
     | Awaiting call m \<Rightarrow> (\<lambda>w. case execute call w of (executed, w1) \<Rightarrow>
         finish_claim wk deadline c call m executed w1))"

subsection \<open>A batch of claims\<close>

text \<open>
  \<open>asyncio.gather\<close>: the coroutines start in the order of the claims and each runs to its first
  suspension. That is its \<open>await\<close> of the executor, unless the call completes without suspending
  (\<open>sch_eager\<close>): then the coroutine runs to its end before the next one starts. The others go on as
  their calls complete, in the order \<open>sch_order\<close> and then in that of the claims. The batch raises the
  exception that came first; \<open>gather\<close> does not cancel the other coroutines, but the caller's event loop
  may end after an exception (\<open>sch_closing\<close>), and then those not in \<open>sch_order\<close> stay where they wait.
\<close>

record schedule =
  sch_eager :: "nat list"
  sch_order :: "nat list"
  sch_closing :: bool

definition plain_schedule :: schedule where
  "plain_schedule = \<lparr>sch_eager = [], sch_order = [], sch_closing = False\<rparr>"

lemma plain_schedule_sel [simp]:
  "sch_eager plain_schedule = []" "sch_order plain_schedule = []" "\<not> sch_closing plain_schedule"
  by (simp_all add: plain_schedule_def)

datatype claim_task = Waiting node_run_rec skill_call skill_manifest | Ended node_run_rec "engine_error + node_outcome"

fun task_claim :: "claim_task \<Rightarrow> node_run_rec" where
  "task_claim (Waiting c call m) = c"
| "task_claim (Ended c r) = c"

definition begin_task :: "worker \<Rightarrow> int \<Rightarrow> node_run_rec \<Rightarrow> world \<Rightarrow> claim_task \<times> world" where
  "begin_task wk deadline c w = (case begin_claim wk deadline c w of
       (Inl e, w') \<Rightarrow> (Ended c (Inl e), w')
     | (Inr (Finished out), w') \<Rightarrow> (Ended c (Inr out), w')
     | (Inr (Awaiting call m), w') \<Rightarrow> (Waiting c call m, w'))"

definition resume_task :: "executor \<Rightarrow> worker \<Rightarrow> int \<Rightarrow> claim_task \<Rightarrow> world \<Rightarrow> claim_task \<times> world" where
  "resume_task execute wk deadline t w = (case t of
       Ended c r \<Rightarrow> (t, w)
     | Waiting c call m \<Rightarrow>
         let (executed, w1) = execute call w; (r, w2) = finish_claim wk deadline c call m executed w1
         in (Ended c r, w2))"

text \<open>The start of the batch; \<open>i\<close> is the position of the first claim.\<close>

fun begin_tasks ::
  "executor \<Rightarrow> nat list \<Rightarrow> worker \<Rightarrow> int \<Rightarrow> nat \<Rightarrow> node_run_rec list \<Rightarrow> world \<Rightarrow> claim_task list \<times> world" where
  "begin_tasks execute eager wk deadline i [] w = ([], w)"
| "begin_tasks execute eager wk deadline i (c # cs) w =
     (let (t, w1) = begin_task wk deadline c w;
          (t', w2) = (if i \<in> set eager then resume_task execute wk deadline t w1 else (t, w1));
          (ts, w3) = begin_tasks execute eager wk deadline (Suc i) cs w2
      in (t' # ts, w3))"

fun task_error :: "claim_task \<Rightarrow> engine_error list" where
  "task_error (Ended c (Inl e)) = [e]"
| "task_error t = []"

fun is_waiting :: "claim_task \<Rightarrow> bool" where
  "is_waiting (Waiting c call m) = True"
| "is_waiting (Ended c r) = False"

text \<open>The calls complete in a given order; with \<open>stop\<close>, none after an exception.\<close>

fun resume_tasks ::
  "executor \<Rightarrow> worker \<Rightarrow> int \<Rightarrow> bool \<Rightarrow> nat list \<Rightarrow> claim_task list \<Rightarrow> engine_error list \<Rightarrow> world
     \<Rightarrow> claim_task list \<times> engine_error list \<times> world" where
  "resume_tasks execute wk deadline stop [] ts errs w = (ts, errs, w)"
| "resume_tasks execute wk deadline stop (i # is) ts errs w =
     (if i < length ts \<and> is_waiting (ts ! i) \<and> \<not> (stop \<and> errs \<noteq> [])
      then let (t, w1) = resume_task execute wk deadline (ts ! i) w
           in resume_tasks execute wk deadline stop is (ts[i := t]) (errs @ task_error t) w1
      else resume_tasks execute wk deadline stop is ts errs w)"

record worker_result =
  wr_claimed :: nat
  wr_succeeded :: nat
  wr_retried :: nat
  wr_waiting_human :: nat
  wr_waiting_approval :: nat
  wr_failed :: nat

definition count_outcome :: "claim_task list \<Rightarrow> node_outcome \<Rightarrow> nat" where
  "count_outcome ts out = length (filter (\<lambda>t. case t of Ended c (Inr x) \<Rightarrow> x = out | _ \<Rightarrow> False) ts)"

definition batch_result :: "claim_task list \<Rightarrow> worker_result" where
  "batch_result ts = \<lparr>wr_claimed = length ts, wr_succeeded = count_outcome ts O_SUCCEEDED,
     wr_retried = count_outcome ts O_RETRIED, wr_waiting_human = count_outcome ts O_WAITING_HUMAN,
     wr_waiting_approval = count_outcome ts O_WAITING_APPROVAL, wr_failed = count_outcome ts O_FAILED\<rparr>"

definition run_batch ::
  "executor \<Rightarrow> schedule \<Rightarrow> worker \<Rightarrow> int \<Rightarrow> node_run_rec list \<Rightarrow> worker_result world_program" where
  "run_batch execute order wk deadline cs w =
     (let (ts, w1) = begin_tasks execute (sch_eager order) wk deadline 0 cs w;
          (ts1, errs1, w2) = resume_tasks execute wk deadline False (sch_order order) ts
            (concat (map task_error ts)) w1;
          (ts2, errs, w3) = resume_tasks execute wk deadline (sch_closing order) [0..<length ts] ts1 errs1 w2
      in (if errs = [] then Inr (batch_result ts2) else Inl (hd errs), w3))"

subsection \<open>\<open>run_once\<close> and \<open>run_next_once\<close>\<close>

definition resolved_deadline :: "worker \<Rightarrow> pytime \<Rightarrow> pytime option \<Rightarrow> engine_error + int" where
  "resolved_deadline wk start deadline = (case deadline of
       None \<Rightarrow> (case start of Aware us \<Rightarrow> Inr (us + seconds (wk_deadline_seconds wk))
                            | Naive _ \<Rightarrow> Inl (EngineInvariant NaiveClock))
     | Some d \<Rightarrow> aware_utc (EngineInvariant NaiveClock) d)"

definition run_once ::
  "(nat \<Rightarrow> string) \<Rightarrow> executor \<Rightarrow> schedule \<Rightarrow> worker \<Rightarrow> string \<Rightarrow> pytime option \<Rightarrow> worker_result world_program" where
  "run_once u execute order wk plan_run_id deadline =
     sbind (worker_now wk) (\<lambda>start.
     sbind (sread (\<lambda>_. resolved_deadline wk start deadline)) (\<lambda>resolved.
     sbind (on_engine (plan_call (claim_ready_nodes u plan_run_id (wk_id wk) start
       (PyInt (wk_lease_seconds wk)) (PyInt (wk_max_claims wk)) (Some (Aware resolved))))) (\<lambda>claims.
     run_batch execute order wk resolved claims)))"

definition run_next_once ::
  "(nat \<Rightarrow> string) \<Rightarrow> executor \<Rightarrow> schedule \<Rightarrow> worker \<Rightarrow> pytime option \<Rightarrow> worker_result world_program" where
  "run_next_once u execute order wk deadline =
     sbind (worker_now wk) (\<lambda>start.
     sbind (sread (\<lambda>_. resolved_deadline wk start deadline)) (\<lambda>resolved.
     sbind (on_engine (plan_call (claim_next_ready_nodes u (wk_id wk) start
       (PyInt (wk_lease_seconds wk)) (PyInt (wk_max_claims wk)) (Some (Aware resolved))))) (\<lambda>claims.
     run_batch execute order wk resolved claims)))"

end
