(* ===== verification/WorkerProofs.thy ===== *)
theory WorkerProofs
  imports Worker
begin

section \<open>What a worker does to the stores\<close>

text \<open>
  A worker makes only lawful calls, whatever its executor does in between. A claim it has worked on
  is settled: the run has the state its outcome names, or the worker no longer holds it.
\<close>

subsection \<open>Only lawful calls\<close>

lemma obeys_plan_step:
  "(\<And>s. \<exists>now. store_step u now s (snd (f s))) \<Longrightarrow> obeys (moves u v) (on_engine (plan_call f)) w"
  by (metis obeys_on_engine obeys_plan_call)

lemma store_step_any:
  "\<exists>now. store_step u now s (snd (record_node_input i wk cv input t s))"
  "\<exists>now. store_step u now s (snd (record_node_result i wk cv target out t s))"
  "\<exists>now. store_step u now s (snd (schedule_retry i wk cv t ra s))"
  "\<exists>now. store_step u now s (snd (claim_ready_nodes u p wk t lease limit dl s))"
  "\<exists>now. store_step u now s (snd (claim_next_ready_nodes u wk t lease limit dl s))"
  by (blast intro: step_input step_result step_retry step_claim step_claim_next clock_of_at)+

lemma obeys_worker_now: "obeys (moves u v) (worker_now wk) w"
  unfolding worker_now_def by (intro obeys_bind obeys_read_clock obeys_read)

lemma obeys_closes: "obeys (moves u v) (closes wk c target out x) w"
  unfolding closes_def record_result_def
  by (intro obeys_bind obeys_worker_now obeys_plan_step store_step_any obeys_return)

lemmas obeys_worker = obeys_bind obeys_worker_now obeys_closes obeys_plan_step store_step_any obeys_return
  obeys_read obeys_raise obeys_if obeys_pure_alone

lemma begin_inner_obeys: "obeys (moves u v) (begin_inner wk d c) w"
  unfolding begin_inner_def by (auto intro!: obeys_worker split: prod.split)

lemma begin_claim_obeys: "obeys (moves u v) (begin_claim wk d c) w"
  unfolding begin_claim_def fail_closed_def by (intro obeys_catch begin_inner_obeys obeys_worker)

lemma finish_claim_obeys: "obeys (moves u v) (finish_claim wk d c call m r) w"
  unfolding finish_claim_def fail_closed_def finish_inner_def retry_claim_def
  by (intro obeys_catch) (auto intro!: obeys_worker split: sum.split option.split failure_decision.split)

text \<open>An executor may let anyone act while it runs, by lawful calls.\<close>

definition lawful_executor :: "(nat \<Rightarrow> string) \<Rightarrow> (nat \<Rightarrow> string) \<Rightarrow> executor \<Rightarrow> bool" where
  "lawful_executor u v execute \<longleftrightarrow> (\<forall>call w. moves u v w (snd (execute call w)))"

subsection \<open>The lease a worker holds\<close>

definition holds :: "plan_store \<Rightarrow> node_run_rec \<Rightarrow> int \<Rightarrow> bool" where
  "holds s c us \<longleftrightarrow> (\<exists>r. fenced_run s (nr_id c) (nr_worker c) (nr_claim_version c) = Inr r \<and> us < nr_lease_until r)"

definition outcome_state :: "node_outcome \<Rightarrow> node_state" where
  "outcome_state out = (case out of O_SUCCEEDED \<Rightarrow> N_SUCCEEDED | O_RETRIED \<Rightarrow> N_RETRY_WAIT
     | O_WAITING_HUMAN \<Rightarrow> N_WAITING_RECONCILIATION | O_WAITING_APPROVAL \<Rightarrow> N_WAITING_APPROVAL | O_FAILED \<Rightarrow> N_FAILED)"

definition run_in :: "plan_store \<Rightarrow> node_run_rec \<Rightarrow> node_state \<Rightarrow> bool" where
  "run_in s c st \<longleftrightarrow> (\<exists>r. dget (ps_node_runs s) (nr_id c) = Some r \<and> nr_state r = st)"

lemma outcome_state_not_running [simp]: "outcome_state out \<noteq> N_RUNNING"
  by (cases out) (simp_all add: outcome_state_def)

lemma run_in_not_held: "run_in s c st \<Longrightarrow> st \<noteq> N_RUNNING \<Longrightarrow> \<not> holds s c us"
  by (auto simp: run_in_def holds_def fenced_run_eq_Inr)

lemma ready_loop_runs: "ps_node_runs (snd (ready_loop now is states s)) = ps_node_runs s"
  by (induction now "is" states s rule: ready_loop.induct) (auto split: option.split sum.split)

lemma ready_dependents_runs: "ps_node_runs (snd (ready_satisfied_dependents p now s)) = ps_node_runs s"
  using ready_loop_runs
  by (auto simp: ready_satisfied_dependents_def split: sum.split prod.split) (metis snd_conv)+

lemma set_plan_state_runs [simp]: "ps_node_runs (snd (set_plan_state p st s)) = ps_node_runs s"
  by (simp add: set_plan_state_def split: option.split)

lemma record_node_result_cases:
  assumes "record_node_result i wk cv (py_node_state st) (py_of_json out) (Aware us) s = (res, t)"
  obtains (rejected) e where "res = Inl e" "t = s"
  | (written) r where "fenced_run s i wk cv = Inr r" "us < nr_lease_until r"
      "dget (ps_node_runs t) (nr_id r) = Some (r\<lparr>nr_state := st, nr_output := out\<rparr>)"
proof -
  have "(t = s \<and> (\<exists>e. res = Inl e)) \<or> (\<exists>r. fenced_run s i wk cv = Inr r \<and> us < nr_lease_until r
      \<and> dget (ps_node_runs t) (nr_id r) = Some (r\<lparr>nr_state := st, nr_output := out\<rparr>))"
    using assms ready_dependents_runs unfolding record_node_result_def commit_def
    by (auto simp: outcome utc_def json_safe_copy_def checked_transition Let_def case_prod_unfold
        put_node_def put_node_run_def split: sum.splits) metis+
  then show ?thesis using that by blast
qed

text \<open>Recording a result either writes the run or finds that the lease is gone.\<close>

lemma record_node_result_settles:
  assumes wf: "wf u {} s"
    and r: "record_node_result (nr_id c) (nr_worker c) (nr_claim_version c) (py_node_state st) (py_of_json out)
      (Aware us) s = (res, t)"
  shows "run_in t c st \<or> (t = s \<and> (\<exists>e. res = Inl e) \<and> (node_edge N_RUNNING st \<longrightarrow> \<not> holds s c us))"
proof (cases "holds s c us \<and> node_edge N_RUNNING st")
  case True
  then obtain r where f: "fenced_run s (nr_id c) (nr_worker c) (nr_claim_version c) = Inr r" "us < nr_lease_until r"
    by (auto simp: holds_def)
  then have r': "dget (ps_node_runs s) (nr_id c) = Some r" "current_node_run_id s (nr_node_id r) = Some (nr_id c)"
    "nr_state r = N_RUNNING" by (auto simp: fenced_run_eq_Inr)
  obtain n where n: "nr_id r = nr_id c" "dget (ps_nodes s) (nr_node_id r) = Some n" "in_step n r"
    using fenced_runD [OF wf r'(1,2)] by metis
  then have "transition_node (py_node_state (nd_state n)) (py_node_state st) = Inr st"
    using r'(3) True by (simp add: in_step_def transition_node_eq_Inr)
  then show ?thesis
    using r f n ready_dependents_runs
    by (auto simp: record_node_result_def utc_def json_safe_copy_def run_in_def Let_def
        put_node_def put_node_run_def case_prod_unfold outcome)
next
  case False
  from r show ?thesis
  proof (cases rule: record_node_result_cases)
    case (rejected e)
    then show ?thesis using False by blast
  next
    case (written r')
    then have "nr_id r' = nr_id c" using wf_node_runsD [OF wf] by (auto simp: fenced_run_eq_Inr)
    then show ?thesis using written by (simp add: run_in_def)
  qed
qed

subsection \<open>Every claim that is worked on is settled\<close>

lemma closes_settles:
  assumes inv: "world_inv u w" and c: "closes wk c st out x w = (res, w')"
  shows "(\<forall>y. res = Inr y \<longrightarrow> y = x \<and> run_in (wd_plans w') c st)
    \<and> (\<forall>e. res = Inl e \<longrightarrow> node_edge N_RUNNING st \<longrightarrow>
        (case wk_clock wk (wd_readings w) of Naive _ \<Rightarrow> True | Aware us \<Rightarrow> \<not> holds (wd_plans w') c us))
    \<and> wd_readings w' = wd_readings w + 1"
proof (cases "wk_clock wk (wd_readings w)")
  case (Naive us)
  then show ?thesis
    using c by (auto simp: closes_def record_result_def worker_now_def read_clock_def sbind_def)
next
  case (Aware us)
  have wf: "wf u {} (wd_plans w)" using inv by (simp add: world_inv_def engine_inv_def wd_plans_def)
  obtain r t where r: "record_node_result (nr_id c) (nr_worker c) (nr_claim_version c) (py_node_state st)
      (py_of_json out) (Aware us) (wd_plans w) = (r, t)" by fastforce
  have t: "wd_plans w' = t \<and> res = map_sum PlanRaised (\<lambda>_. x) r \<and> wd_readings w' = wd_readings w + 1"
    using c Aware r
    by (cases r) (auto simp: closes_def record_result_def worker_now_def read_clock_def sbind_def on_engine_def
        plan_call_def wd_plans_def)
  show ?thesis
    using record_node_result_settles [OF wf r] run_in_not_held t Aware
    by (cases r) auto
qed


lemma worker_now_eq_Inr [outcome]:
  "worker_now wk w = (Inr t, w') \<longleftrightarrow>
     (\<exists>us. t = Aware us \<and> wk_clock wk (wd_readings w) = Aware us) \<and> w' = w\<lparr>wd_readings := wd_readings w + 1\<rparr>"
  by (auto simp: worker_now_def outcome)

lemma retry_settles:
  assumes inv: "world_inv u w" and r: "retry_claim wk c retry_at w = (Inr out, w')"
  shows "out = O_RETRIED \<and> run_in (wd_plans w') c N_RETRY_WAIT"
proof -
  obtain us t n where t: "schedule_retry (nr_id c) (nr_worker c) (nr_claim_version c) (Aware us) (Aware retry_at)
      (wd_plans w) = (Inr n, t)" "wd_plans w' = t" "out = O_RETRIED"
    using r by (auto simp: retry_claim_def outcome wd_plans_def)
  have wf: "wf u {} (wd_plans w)" using inv by (simp add: world_inv_def engine_inv_def wd_plans_def)
  have "run_in t c N_RETRY_WAIT"
    using t(1) wf_node_runsD [OF wf] unfolding schedule_retry_def commit_def
    by (auto simp: outcome fenced_run_eq_Inr move_eq run_in_def put_node_def put_node_run_def Let_def
        split: sum.splits if_splits)
  then show ?thesis using t(2,3) by simp
qed

definition recorded :: "world \<Rightarrow> plan_store \<Rightarrow> world" where
  "recorded w s = w\<lparr>wd_engine := (wd_engine w)\<lparr>en_plans := s\<rparr>, wd_readings := wd_readings w + 2\<rparr>"

lemma begin_inner_parts:
  assumes "begin_inner wk deadline c w = (Inr p, w')"
  obtains input outputs us checked r s where
    "materialize_claim wk c (wd_plans w) = Inr (input, outputs)"
    "record_node_input (nr_id c) (nr_worker c) (nr_claim_version c) input (Aware us) (wd_plans w) = (Inr r, s)"
    "wk_clock wk (wd_readings w + 1) = Aware checked"
    "(\<exists>out json. p = Finished out \<and> closes wk c (outcome_state out) json p (recorded w s) = (Inr p, w'))
     \<or> (\<exists>m call. p = Awaiting call m \<and> w' = recorded w s \<and> nr_node_type c \<notin> set control_types
          \<and> checked < effective_deadline c deadline \<and> manifest_for_claim wk c = Inr m
          \<and> wk_accepts wk m (mi_parameters input)
          \<and> prepare_call wk c m (mi_parameters input) (effective_deadline c deadline) (wd_engine w') = Inr call)"
proof -
  obtain input outputs us checked r s where go:
    "materialize_claim wk c (wd_plans w) = Inr (input, outputs)"
    "record_node_input (nr_id c) (nr_worker c) (nr_claim_version c) input (Aware us) (wd_plans w) = (Inr r, s)"
    "wk_clock wk (wd_readings w + 1) = Aware checked"
    and rest: "(if effective_deadline c deadline \<le> checked
       then closes wk c N_FAILED (error_output ''NODE_DEADLINE_EXPIRED'') (Finished O_FAILED)
       else if nr_node_type c \<in> set control_types
       then sbind (sread (\<lambda>w. execute_control wk c outputs (wd_engine w))) (\<lambda>output.
            closes wk c N_SUCCEEDED output (Finished O_SUCCEEDED))
       else sbind (sread (\<lambda>_. manifest_for_claim wk c)) (\<lambda>m.
            if \<not> wk_accepts wk m (mi_parameters input)
            then closes wk c N_FAILED (error_output ''INVALID_ARGUMENTS'') (Finished O_FAILED)
            else sbind (sread (\<lambda>w. prepare_call wk c m (mi_parameters input) (effective_deadline c deadline)
                   (wd_engine w))) (\<lambda>call.
                 sreturn (Awaiting call m)))) (recorded w s) = (Inr p, w')"
    using assms by (auto simp: begin_inner_def outcome wd_plans_def recorded_def)
  have pass: "\<exists>out json. p = Finished out \<and> closes wk c (outcome_state out) json p (recorded w s) = (Inr p, w')"
    if "closes wk c (outcome_state out) json (Finished out) (recorded w s) = (Inr p, w')" for out json
    using that by (auto simp: closes_def outcome)
  have "(\<exists>out json. p = Finished out \<and> closes wk c (outcome_state out) json p (recorded w s) = (Inr p, w'))
     \<or> (\<exists>m call. p = Awaiting call m \<and> w' = recorded w s \<and> nr_node_type c \<notin> set control_types
          \<and> checked < effective_deadline c deadline \<and> manifest_for_claim wk c = Inr m
          \<and> wk_accepts wk m (mi_parameters input)
          \<and> prepare_call wk c m (mi_parameters input) (effective_deadline c deadline) (wd_engine w') = Inr call)"
    using rest pass [of O_FAILED] pass [of O_SUCCEEDED]
    by (auto simp: outcome outcome_state_def split: if_splits)
  then show ?thesis using that go by blast
qed


lemma inv_recorded:
  assumes "world_inv u w" and "inj u"
    and "record_node_input (nr_id c) (nr_worker c) (nr_claim_version c) input t (wd_plans w) = (r, s)"
  shows "world_inv u (recorded w s)"
proof -
  obtain now where "store_step u now (wd_plans w) s"
    using store_step_any(1) [of u "wd_plans w" "nr_id c" "nr_worker c" "nr_claim_version c" input t] assms(3) by auto
  then have "engine_step u v (wd_engine w) (wd_engine (recorded w s))"
    unfolding recorded_def by (simp add: engine_plan wd_plans_def)
  then show ?thesis using assms(1,2) engine_step_good unfolding world_inv_def by blast
qed

text \<open>What a coroutine leaves behind when it raises: no clock, or no lease.\<close>

definition given_up :: "worker \<Rightarrow> node_run_rec \<Rightarrow> world \<Rightarrow> bool" where
  "given_up wk c w \<longleftrightarrow> (case wk_clock wk (wd_readings w - 1) of
       Naive _ \<Rightarrow> True | Aware us \<Rightarrow> \<not> holds (wd_plans w) c us)"

lemma fail_closed_settles:
  assumes "world_inv u w" and "fail_closed wk c w = (res, w')"
  shows "(\<forall>out. res = Inr out \<longrightarrow> run_in (wd_plans w') c (outcome_state out)) \<and> (\<forall>e. res = Inl e \<longrightarrow> given_up wk c w')"
  using closes_settles [OF assms(1) assms(2) [unfolded fail_closed_def]]
  by (auto simp: outcome_state_def given_up_def)

lemma obeys_inv:
  "obeys (moves u v) m w \<Longrightarrow> m w = (r, w') \<Longrightarrow> world_inv u w \<Longrightarrow> inj u \<Longrightarrow> world_inv u w'"
  using moves_good by (fastforce simp: obeys_moves)

lemma begin_claim_settles:
  assumes inv: "world_inv u w" and inj: "inj u" and b: "begin_claim wk deadline c w = (res, w')"
  shows "(\<forall>out. res = Inr (Finished out) \<longrightarrow> run_in (wd_plans w') c (outcome_state out))
    \<and> (\<forall>e. res = Inl e \<longrightarrow> given_up wk c w')"
proof (cases rule: catch_cases [of "begin_inner wk deadline c" w "sbind (fail_closed wk c) (\<lambda>out. sreturn (Finished out))"])
  case (1 p w1)
  then have p: "res = Inr p" "begin_inner wk deadline c w = (Inr p, w')"
    using b by (auto simp: begin_claim_def)
  from p(2) show ?thesis
  proof (cases rule: begin_inner_parts)
    case (1 input outputs us checked r s)
    show ?thesis
      using 1(4) closes_settles [OF inv_recorded [OF inv inj 1(2)]] p(1) by fastforce
  qed
next
  case (2 e w1)
  have "world_inv u w1" by (rule obeys_inv [OF begin_inner_obeys 2(1) inv inj])
  moreover obtain r where "fail_closed wk c w1 = (r, w')" "res = map_sum id Finished r"
    using b 2 by (auto simp: begin_claim_def sbind_def split: prod.splits sum.splits)
  ultimately show ?thesis using fail_closed_settles by (cases r) auto
qed

lemma finish_inner_settles:
  assumes inv: "world_inv u w" and f: "finish_inner wk deadline c call m executed w = (Inr out, w')"
  shows "run_in (wd_plans w') c (outcome_state out)"
proof -
  have pass: "out = o1 \<and> run_in (wd_plans w') c st"
    if "closes wk c st json o1 w1 = (Inr out, w')" "world_inv u w1" for st json o1 w1
    using closes_settles [OF that(2,1)] by auto
  have tick: "world_inv u (w\<lparr>wd_readings := n\<rparr>)" for n using inv by (simp add: world_inv_def)
  show ?thesis
    using f
    apply (auto simp: finish_inner_def sbind_eq_Inr worker_now_eq_Inr pure_step_eq_Inr outcome_state_def split: sum.splits if_splits option.splits
        failure_decision.splits dest!: pass [OF _ inv] pass [OF _ tick] retry_settles [OF tick])
    subgoal for r fact us d by (cases d) (auto dest!: retry_settles [OF tick])
    done
qed

lemma finish_claim_settles:
  assumes inv: "world_inv u w" and inj: "inj u" and f: "finish_claim wk deadline c call m executed w = (res, w')"
  shows "(\<forall>out. res = Inr out \<longrightarrow> run_in (wd_plans w') c (outcome_state out)) \<and> (\<forall>e. res = Inl e \<longrightarrow> given_up wk c w')"
proof (cases rule: catch_cases [of "finish_inner wk deadline c call m executed" w "fail_closed wk c"])
  case (1 out w1)
  then show ?thesis using f finish_inner_settles [OF inv] by (auto simp: finish_claim_def)
next
  case (2 e w1)
  have "obeys (moves u v) (finish_inner wk deadline c call m executed) w" for v
    unfolding finish_inner_def retry_claim_def
    by (auto intro!: obeys_worker split: sum.split option.split failure_decision.split)
  then have "world_inv u w1" using obeys_inv 2(1) inv inj by blast
  then show ?thesis using f 2(2) fail_closed_settles unfolding finish_claim_def by metis
qed


lemma execute_claim_settles:
  assumes inv: "world_inv u w" and inj: "inj u" and ex: "lawful_executor u v execute"
    and e: "execute_claim execute wk deadline c w = (res, w')"
  shows "(\<forall>out. res = Inr out \<longrightarrow> run_in (wd_plans w') c (outcome_state out)) \<and> (\<forall>e. res = Inl e \<longrightarrow> given_up wk c w')"
proof -
  obtain r w1 where b: "begin_claim wk deadline c w = (r, w1)" by fastforce
  note begun = begin_claim_settles [OF inv inj b]
  show ?thesis
  proof (cases r)
    case (Inl e)
    then show ?thesis using e b begun by (auto simp: execute_claim_def)
  next
    case (Inr p)
    show ?thesis
    proof (cases p)
      case (Finished out)
      then show ?thesis using e b begun Inr by (auto simp: execute_claim_def)
    next
      case (Awaiting call m)
      obtain x w2 where x: "execute call w1 = (x, w2)" by fastforce
      have "moves u v w1 w2" using ex x unfolding lawful_executor_def by (metis snd_conv)
      then have "world_inv u w2"
        using moves_good inj obeys_inv [OF begin_claim_obeys b inv inj] by blast
      moreover have "finish_claim wk deadline c call m x w2 = (res, w')"
        using e b Inr Awaiting x by (simp add: execute_claim_def)
      ultimately show ?thesis using finish_claim_settles inj by blast
    qed
  qed
qed

subsection \<open>A batch\<close>

definition finished :: "plan_store \<Rightarrow> node_run_rec \<Rightarrow> bool" where
  "finished s c \<longleftrightarrow> (\<exists>r. dget (ps_node_runs s) (nr_id c) = Some r \<and> nr_state r \<noteq> N_RUNNING)"

lemma run_in_finished: "run_in s c (outcome_state out) \<Longrightarrow> finished s c"
  by (auto simp: run_in_def finished_def)

lemma finished_mono: "evolves s t \<Longrightarrow> finished s c \<Longrightarrow> finished t c"
  unfolding finished_def evolves_def dict_rel_def same_run_def by blast

lemma finished_moves:
  "moves u v w w' \<Longrightarrow> world_inv u w \<Longrightarrow> inj u \<Longrightarrow> finished (wd_plans w) c \<Longrightarrow> finished (wd_plans w') c"
  using moves_good finished_mono unfolding engine_evolves_def wd_plans_def by blast

fun task_ok :: "plan_store \<Rightarrow> claim_task \<Rightarrow> bool" where
  "task_ok s (Ended c (Inr out)) = finished s c"
| "task_ok s t = True"

lemma task_ok_moves:
  "moves u v w w' \<Longrightarrow> world_inv u w \<Longrightarrow> inj u \<Longrightarrow> task_ok (wd_plans w) t \<Longrightarrow> task_ok (wd_plans w') t"
  using finished_moves by (cases "(wd_plans w, t)" rule: task_ok.cases) auto

lemma begin_task_effect:
  assumes inv: "world_inv u w" and inj: "inj u" and b: "begin_task wk d c w = (t, w')"
  shows "moves u v w w' \<and> task_claim t = c \<and> task_ok (wd_plans w') t"
proof -
  obtain r where r: "begin_claim wk d c w = (r, w')" and t: "t = (case r of Inl e \<Rightarrow> Ended c (Inl e)
      | Inr (Finished out) \<Rightarrow> Ended c (Inr out) | Inr (Awaiting call m) \<Rightarrow> Waiting c call m)"
    using b by (auto simp: begin_task_def split: prod.splits sum.splits progress.splits)
  have "moves u v w w'" using begin_claim_obeys [of u v wk d c w] r by (simp add: obeys_moves)
  then show ?thesis
    using begin_claim_settles [OF inv inj r] run_in_finished by (auto simp: t split: sum.split progress.split)
qed

lemma resume_task_effect:
  assumes inv: "world_inv u w" and inj: "inj u" and ex: "lawful_executor u v execute"
    and b: "resume_task execute wk d (Waiting c call m) w = (t, w')"
  shows "moves u v w w' \<and> (\<exists>r. t = Ended c r) \<and> task_ok (wd_plans w') t"
proof -
  obtain x w1 r where x: "execute call w = (x, w1)" "finish_claim wk d c call m x w1 = (r, w')" "t = Ended c r"
    using b by (auto simp: resume_task_def split: prod.splits)
  have one: "moves u v w w1" using ex x(1) unfolding lawful_executor_def by (metis snd_conv)
  then have inv1: "world_inv u w1" using moves_good inv inj by blast
  have "moves u v w1 w'" using finish_claim_obeys [of u v wk d c call m x w1] x(2) by (simp add: obeys_moves)
  then show ?thesis
    using moves_trans [OF one] finish_claim_settles [OF inv1 inj x(2)] run_in_finished x(3) by (cases r) auto
qed

lemma begin_tasks_effect:
  assumes "world_inv u w" and inj: "inj u" and ex: "lawful_executor u v execute"
    and "begin_tasks execute eager wk d i cs w = (ts, w')"
  shows "moves u v w w' \<and> map task_claim ts = cs \<and> (\<forall>t\<in>set ts. task_ok (wd_plans w') t)"
  using assms(1,4)
proof (induction cs arbitrary: w ts i)
  case (Cons c cs)
  obtain t t' ts1 w1 w2 where t: "begin_task wk d c w = (t, w1)"
    "(if i \<in> set eager then resume_task execute wk d t w1 else (t, w1)) = (t', w2)"
    "begin_tasks execute eager wk d (Suc i) cs w2 = (ts1, w')" "ts = t' # ts1"
    using Cons.prems(2) by (auto split: prod.splits)
  note begun = begin_task_effect [OF Cons.prems(1) inj t(1), of v]
  then have inv1: "world_inv u w1" using moves_good Cons.prems(1) inj by blast
  have first: "moves u v w w2 \<and> task_claim t' = c \<and> task_ok (wd_plans w2) t'"
  proof (cases "i \<in> set eager \<and> is_waiting t")
    case True
    then obtain call m where "t = Waiting c call m" using begun by (cases t) auto
    then show ?thesis
      using True t(2) begun resume_task_effect [OF inv1 inj ex, of wk d c call m t' w2] moves_trans [of u v w w1 w2]
      by (auto simp: resume_task_def split: prod.splits)
  next
    case False
    then have "t' = t" "w2 = w1" using t(2) by (cases t; auto simp: resume_task_def split: if_splits)+
    then show ?thesis using begun by simp
  qed
  then have inv: "world_inv u w2" using moves_good Cons.prems(1) inj by blast
  note rest = Cons.IH [OF inv t(3)]
  show ?case
    using first rest t(4) moves_trans [of u v w w2 w'] task_ok_moves [of u v w2 w' t'] inv inj by auto
qed simp

lemma resume_tasks_effect:
  assumes inv: "world_inv u w" and inj: "inj u" and ex: "lawful_executor u v execute"
    and b: "resume_tasks execute wk d stop is ts errs w = (ts', errs', w')"
    and ok: "\<forall>t\<in>set ts. task_ok (wd_plans w) t \<and> set (task_error t) \<subseteq> set errs"
  shows "moves u v w w' \<and> map task_claim ts' = map task_claim ts
    \<and> (\<forall>t\<in>set ts'. task_ok (wd_plans w') t \<and> set (task_error t) \<subseteq> set errs')
    \<and> (\<exists>more. errs' = errs @ more)
    \<and> (errs' = [] \<longrightarrow> (\<forall>i<length ts. i \<in> set is \<or> \<not> is_waiting (ts ! i) \<longrightarrow> \<not> is_waiting (ts' ! i)))"
  using inv b ok
proof (induction "is" arbitrary: ts errs w)
  case (Cons i js)
  show ?case
  proof (cases "i < length ts \<and> is_waiting (ts ! i) \<and> \<not> (stop \<and> errs \<noteq> [])")
    case True
    then obtain c call m where i: "i < length ts" "ts ! i = Waiting c call m" by (cases "ts ! i") auto
    obtain t w1 where t: "resume_task execute wk d (Waiting c call m) w = (t, w1)" by fastforce
    note step = resume_task_effect [OF Cons.prems(1) inj ex t]
    then have inv1: "world_inv u w1" using moves_good Cons.prems(1) inj by blast
    have go: "resume_tasks execute wk d stop js (ts[i := t]) (errs @ task_error t) w1 = (ts', errs', w')"
      using Cons.prems(2) i t True by simp
    have ok1: "\<forall>x\<in>set (ts[i := t]). task_ok (wd_plans w1) x \<and> set (task_error x) \<subseteq> set (errs @ task_error t)"
      using Cons.prems(1,3) step task_ok_moves inj set_update_subset_insert [of ts i t] by fastforce
    have same: "map task_claim (ts[i := t]) = map task_claim ts"
      using i step by (auto simp: map_update intro!: list_update_same_conv [THEN iffD2])
    have "\<not> is_waiting t" using step by auto
    then show ?thesis
      using Cons.IH [OF inv1 go ok1] step moves_trans [of u v w w1 w'] i same
      by (auto simp: nth_list_update)
  next
    case False
    then have go: "resume_tasks execute wk d stop js ts errs w = (ts', errs', w')" using Cons.prems(2) by auto
    then show ?thesis using Cons.IH [OF Cons.prems(1) go Cons.prems(3)] False by auto
  qed
qed simp


lemma outcomes_add_up:
  "\<forall>t\<in>set ts. \<exists>c out. t = Ended c (Inr out) \<Longrightarrow>
     length ts = count_outcome ts O_SUCCEEDED + count_outcome ts O_RETRIED + count_outcome ts O_WAITING_HUMAN
       + count_outcome ts O_WAITING_APPROVAL + count_outcome ts O_FAILED"
proof (induction ts)
  case (Cons t ts)
  then obtain c out where "t = Ended c (Inr out)" by auto
  then show ?case using Cons by (cases out) (auto simp: count_outcome_def)
qed (simp add: count_outcome_def)

definition adds_up :: "worker_result \<Rightarrow> bool" where
  "adds_up r \<longleftrightarrow> wr_claimed r = wr_succeeded r + wr_retried r + wr_waiting_human r + wr_waiting_approval r + wr_failed r"

lemma run_batch_effect:
  assumes inv: "world_inv u w" and inj: "inj u" and ex: "lawful_executor u v execute"
    and b: "run_batch execute order wk d cs w = (res, w')"
  shows "moves u v w w' \<and> (\<forall>r. res = Inr r \<longrightarrow>
     wr_claimed r = length cs \<and> adds_up r \<and> (\<forall>c\<in>set cs. finished (wd_plans w') c))"
proof -
  obtain ts w1 ts1 errs1 w2 ts' errs where t:
    "begin_tasks execute (sch_eager order) wk d 0 cs w = (ts, w1)"
    "resume_tasks execute wk d False (sch_order order) ts (concat (map task_error ts)) w1 = (ts1, errs1, w2)"
    "resume_tasks execute wk d (sch_closing order) [0..<length ts] ts1 errs1 w2 = (ts', errs, w')"
    and res: "res = (if errs = [] then Inr (batch_result ts') else Inl (hd errs))"
    using b by (auto simp: run_batch_def split: prod.splits)
  note one = begin_tasks_effect [OF inv inj ex t(1)]
  then have inv1: "world_inv u w1" using moves_good inv inj by blast
  have "\<forall>x\<in>set ts. task_ok (wd_plans w1) x \<and> set (task_error x) \<subseteq> set (concat (map task_error ts))"
    using one by auto
  note mid = resume_tasks_effect [OF inv1 inj ex t(2) this]
  then have inv2: "world_inv u w2" using moves_good inv1 inj by blast
  have ok1: "\<forall>x\<in>set ts1. task_ok (wd_plans w2) x \<and> set (task_error x) \<subseteq> set errs1" using mid by blast
  note two = resume_tasks_effect [OF inv2 inj ex t(3) ok1]
  have len: "length ts' = length cs" "length ts1 = length ts" using one mid two by (metis length_map)+
  have "\<exists>out. ts' ! i = Ended (cs ! i) (Inr out)" if i: "i < length ts'" and none: "errs = []" for i
  proof -
    have "length ts' = length ts1" using two by (metis length_map)
    then have "\<not> is_waiting (ts' ! i)" using two none i len(2) by auto
    moreover have "map task_claim ts' = cs" using one mid two by simp
    then have "task_claim (ts' ! i) = cs ! i" using i by (metis nth_map)
    moreover have "task_error (ts' ! i) = []" using two nth_mem [OF i] none by force
    ultimately show ?thesis by (cases "ts' ! i" rule: task_error.cases) auto
  qed
  note ended = this
  have "adds_up (batch_result ts')" if "errs = []"
  proof -
    have "\<forall>t\<in>set ts'. \<exists>c out. t = Ended c (Inr out)" using ended that by (metis in_set_conv_nth)
    then show ?thesis using outcomes_add_up by (simp add: adds_up_def batch_result_def)
  qed
  moreover have "finished (wd_plans w') c" if "c \<in> set cs" "errs = []" for c
  proof -
    obtain i where i: "i < length ts'" "c = cs ! i" using \<open>c \<in> set cs\<close> len(1) by (metis in_set_conv_nth)
    then show ?thesis using ended [OF i(1) that(2)] two nth_mem [OF i(1)] by force
  qed
  moreover have "moves u v w w'"
    using moves_trans [of u v w w1 w2] moves_trans [of u v w w2 w'] one mid two by simp
  ultimately show ?thesis using len(1) by (simp add: res batch_result_def)
qed

text \<open>Both entry points claim first and then work on the batch.\<close>

definition claim_batch ::
  "executor \<Rightarrow> schedule \<Rightarrow> worker \<Rightarrow> pytime option \<Rightarrow> (pytime \<Rightarrow> int \<Rightarrow> plan_store \<Rightarrow> node_run_rec list outcome)
     \<Rightarrow> worker_result world_program" where
  "claim_batch execute order wk deadline claim =
     sbind (worker_now wk) (\<lambda>start.
     sbind (sread (\<lambda>_. resolved_deadline wk start deadline)) (\<lambda>d.
     sbind (on_engine (plan_call (claim start d))) (run_batch execute order wk d)))"

lemma run_once_batch:
  "run_once u execute order wk p deadline = claim_batch execute order wk deadline (\<lambda>t d.
     claim_ready_nodes u p (wk_id wk) t (PyInt (wk_lease_seconds wk)) (PyInt (wk_max_claims wk)) (Some (Aware d)))"
  "run_next_once u execute order wk deadline = claim_batch execute order wk deadline (\<lambda>t d.
     claim_next_ready_nodes u (wk_id wk) t (PyInt (wk_lease_seconds wk)) (PyInt (wk_max_claims wk)) (Some (Aware d)))"
  by (simp_all add: run_once_def run_next_once_def claim_batch_def)

lemma claim_batch_effect:
  assumes inv: "world_inv u w" and inj: "inj u" and ex: "lawful_executor u v execute"
    and claim: "\<And>t d s. \<exists>now. store_step u now s (snd (claim t d s))"
    and b: "claim_batch execute order wk deadline claim w = (res, w')"
  shows "moves u v w w' \<and> (\<forall>r. res = Inr r \<longrightarrow> adds_up r \<and>
    (\<exists>t d cs s. claim t d (wd_plans w) = (Inr cs, s) \<and> wr_claimed r = length cs
       \<and> (\<forall>c\<in>set cs. finished (wd_plans w') c)))"
proof -
  let ?w1 = "w\<lparr>wd_readings := wd_readings w + 1\<rparr>"
  let ?claim = "\<lambda>d us. on_engine (plan_call (claim (Aware us) d))"
  have inv1: "world_inv u ?w1" using inv by (simp add: world_inv_def)
  have calls: "moves u v ?w1 w2" if "?claim d us ?w1 = (r, w2)" for d us r w2
  proof -
    have "moves u v ?w1 (snd (?claim d us ?w1))"
      using obeys_plan_step [where f = "claim (Aware us) d", OF claim] unfolding obeys_moves by blast
    then show ?thesis unfolding that by (simp only: snd_conv)
  qed
  show ?thesis
  proof (cases "wk_clock wk (wd_readings w)")
    case (Naive us)
    then have "worker_now wk w = (Inl (EngineInvariant NaiveClock), ?w1)"
      by (simp add: worker_now_def read_clock_def sbind_def)
    then show ?thesis using b by (auto simp: claim_batch_def)
  next
    case (Aware us)
    then have now: "worker_now wk w = (Inr (Aware us), ?w1)"
      by (simp add: worker_now_def read_clock_def sbind_def)
    show ?thesis
    proof (cases "resolved_deadline wk (Aware us) deadline")
      case (Inl e)
      then show ?thesis using b now by (auto simp: claim_batch_def sbind_def)
    next
      case (Inr d)
      obtain r w2 where c: "?claim d us ?w1 = (r, w2)" by fastforce
      have m: "moves u v w w2" using calls [OF c] by (auto intro: moves_trans [of u v w ?w1])
      have go: "sbind (?claim d us) (run_batch execute order wk d) ?w1 = (res, w')"
        using b now Inr by (simp add: claim_batch_def)
      show ?thesis
      proof (cases r)
        case (Inl e)
        then show ?thesis using go c m by auto
      next
        case (Inr cs)
        then have batch: "run_batch execute order wk d cs w2 = (res, w')" using go c by simp
        have "world_inv u w2" using moves_good m inv inj by blast
        note effect = run_batch_effect [OF this inj ex batch]
        have "\<exists>s. claim (Aware us) d (wd_plans w) = (Inr cs, s)"
          using c Inr by (auto simp: on_engine_eq_Inr plan_call_eq_Inr wd_plans_def)
        then obtain s where "claim (Aware us) d (wd_plans w) = (Inr cs, s)" by blast
        with effect moves_trans [OF m] show ?thesis by (cases res) auto
      qed
    qed
  qed
qed

end
