(* ===== verification/WorkerProperties.thy ===== *)
theory WorkerProperties
  imports WorkerProofs ReplanProperties
begin

section \<open>Properties of the worker\<close>

subsection \<open>The input of a call is the recorded one\<close>

lemma record_node_input_effect:
  assumes wf: "wf u {} s" and r: "record_node_input i w cv input (Aware us) s = (Inr x, t)"
  shows "\<exists>r. fenced_run t i w cv = Inr r \<and> nr_id r = i \<and> us < nr_lease_until r
    \<and> nr_fingerprint r = Some (mi_fingerprint input) \<and> (nr_input_snapshot r = mi_parameters input \<or> json_eq (nr_input_snapshot r) (mi_parameters input))"
proof -
  obtain r0 where f: "fenced_run s i w cv = Inr r0" "us < nr_lease_until r0"
    and t: "if nr_fingerprint r0 = None
      then t = put_node_run (r0\<lparr>nr_input_snapshot := mi_parameters input, nr_fingerprint := Some (mi_fingerprint input)\<rparr>) s
      else t = s \<and> nr_fingerprint r0 = Some (mi_fingerprint input) \<and> json_eq (nr_input_snapshot r0) (mi_parameters input)"
    using r unfolding record_node_input_def commit_def
    by (auto simp: outcome utc_def Let_def split: sum.splits option.splits if_splits)
  have "nr_id r0 = i" using f wf_node_runsD [OF wf] by (auto simp: fenced_run_eq_Inr)
  then show ?thesis
    using f t by (cases "nr_fingerprint r0") (auto simp: fenced_run_eq_Inr put_node_run_def current_node_run_id_def history_def)
qed

lemma materialize_claim_fingerprint:
  "materialize_claim wk c s = Inr (input, outputs) \<Longrightarrow> mi_fingerprint input = resolver_sha256 (mi_parameters input)"
  by (auto simp: materialize_claim_def materialize_eq materialized_node_input_def copy_json_def outcome Let_def
      split: option.splits prod.splits)

lemma begin_claim_awaiting:
  assumes "begin_claim wk deadline c w = (Inr (Awaiting call m), w')"
  shows "begin_inner wk deadline c w = (Inr (Awaiting call m), w')"
  using assms unfolding begin_claim_def
  by (cases rule: catch_cases [of "begin_inner wk deadline c" w "sbind (fail_closed wk c) (\<lambda>out. sreturn (Finished out))"])
    (auto simp: sbind_eq_Inr)

lemma manifest_for_claim_eq:
  "manifest_for_claim wk c = Inr m \<longleftrightarrow> (\<exists>i. nr_skill_id c = Some i \<and> dget (wk_catalog wk) i = Some m
     \<and> nr_skill_version c = Some (sm_version m))"
  by (auto simp: manifest_for_claim_def split: option.splits)

lemma prepare_call_eq:
  assumes "prepare_call wk c m arguments deadline e = Inr call"
  obtains run where "get_plan_run (nr_plan_run_id c) (en_plans e) = Inr run"
    "sc_skill_id call = sm_skill_id m" "sc_version call = sm_version m" "sc_arguments call = arguments"
    "sc_deadline_at call = deadline" "sc_room_id call = pl_room_id run" "sc_trace_id call = pl_trace_id run"
    "if sm_skill_id m = ''handle_sold_out_event''
     then (\<exists>a. verified_event_authorization wk run (en_events e) = Inr a \<and> sc_authorization call = Some a
        \<and> sc_idempotency_key call = Some (node_idempotency_key c run))
     else sc_authorization call = None \<and> sc_idempotency_key call = None"
  using assms by (auto simp: prepare_call_def outcome split: prod.splits if_splits)

lemma awaiting_recorded:
  assumes inv: "world_inv u w" and inj: "inj u" and b: "begin_claim wk deadline c w = (Inr (Awaiting call m), w')"
  shows "(\<exists>r. fenced_run (wd_plans w') (nr_id c) (nr_worker c) (nr_claim_version c) = Inr r
      \<and> nr_fingerprint r = Some (resolver_sha256 (sc_arguments call))
      \<and> (nr_input_snapshot r = sc_arguments call \<or> json_eq (nr_input_snapshot r) (sc_arguments call)))
    \<and> (\<exists>i. nr_skill_id c = Some i \<and> dget (wk_catalog wk) i = Some m) \<and> nr_skill_version c = Some (sc_version call)
    \<and> sc_skill_id call = sm_skill_id m \<and> wk_accepts wk m (sc_arguments call)
    \<and> sc_deadline_at call = effective_deadline c deadline
    \<and> (\<exists>checked. wk_clock wk (wd_readings w' - 1) = Aware checked \<and> checked < sc_deadline_at call)"
  using begin_claim_awaiting [OF b]
proof (cases rule: begin_inner_parts)
  case (1 input outputs us checked r s)
  then have at: "w' = recorded w s" "manifest_for_claim wk c = Inr m" "wk_accepts wk m (mi_parameters input)"
    "prepare_call wk c m (mi_parameters input) (effective_deadline c deadline) (wd_engine w') = Inr call"
    "checked < effective_deadline c deadline" "nr_node_type c \<notin> set control_types" by auto
  have wf: "wf u {} (wd_plans w)" using inv by (simp add: world_inv_def engine_inv_def wd_plans_def)
  have "wd_plans w' = s" "wd_readings w' - 1 = wd_readings w + 1" using at(1) by (simp_all add: recorded_def wd_plans_def)
  then show ?thesis
    using record_node_input_effect [OF wf 1(2)] materialize_claim_fingerprint [OF 1(1)] 1(3) at(2-6)
    by (elim prepare_call_eq) (auto simp: manifest_for_claim_eq)
qed

lemma built_authorization:
  "build_event_authorization_context e p = Inr a \<Longrightarrow> provenance_verified a \<and> ea_identity a
     = (ev_event_id e, pv_provenance_id p, calculate_payload_digest e, ev_observed_version e)"
  using build_event_authorization_sound by blast

lemma verified_event_authorization_sound:
  assumes "verified_event_authorization wk run t = Inr a"
  shows "\<exists>m r. wk_load_emergency wk (pl_planning_input run) = Inr m
    \<and> dget (es_inbox t) (em_trigger_event_id m) = Some r \<and> ir_state r \<in> {I_VERIFIED, I_PROCESSING}
    \<and> json_eq (dump_event (ir_event r)) (dump_event (em_event m)) \<and> provenance_verified a
    \<and> ea_identity a = (ev_event_id (ir_event r), pv_provenance_id (ir_provenance r),
        calculate_payload_digest (ir_event r), ev_observed_version (ir_event r))"
  using assms
  by (auto simp: verified_event_authorization_def verified_event_record_def get_inbox_def outcome
      dest!: built_authorization)

subsection \<open>A worker on the concrete batch\<close>

definition demo_worker :: worker where
  "demo_worker = \<lparr>wk_id = ''w'', wk_event_store = False, wk_max_claims = 1, wk_lease_seconds = 10,
     wk_deadline_seconds = 60, wk_catalog = [(generate_product_card, demo_manifest)], wk_clock = (\<lambda>n. Aware (int n)),
     wk_repr = (\<lambda>_. ''''), wk_accepts = (\<lambda>_ _. True),
     wk_load_batch = (\<lambda>j. if j = dump_card_batch demo_batch then Inr demo_batch else Inl FieldInvalid),
     wk_load_emergency = (\<lambda>_. Inl FieldInvalid)\<rparr>"

lemma demo_worker_sel [simp]:
  "wk_id demo_worker = ''w''" "wk_max_claims demo_worker = 1" "wk_lease_seconds demo_worker = 10"
  "wk_deadline_seconds demo_worker = 60" "wk_clock demo_worker n = Aware (int n)" "wk_accepts demo_worker m j"
  "wk_load_batch demo_worker (dump_card_batch demo_batch) = Inr demo_batch"
  "wk_catalog demo_worker = [(generate_product_card, demo_manifest)]"
  by (simp_all add: demo_worker_def)

definition demo_world :: "plan_store \<Rightarrow> nat \<Rightarrow> world" where
  "demo_world s n = \<lparr>wd_engine = \<lparr>en_plans = s, en_events = empty_event_store\<rparr>, wd_readings = n\<rparr>"

lemma demo_world_sel [simp]:
  "wd_engine (demo_world s n) = \<lparr>en_plans = s, en_events = empty_event_store\<rparr>" "wd_plans (demo_world s n) = s"
  "wd_readings (demo_world s n) = n"
  "demo_world s n\<lparr>wd_readings := k\<rparr> = demo_world s k"
  "demo_world s n\<lparr>wd_engine := \<lparr>en_plans = t, en_events = empty_event_store\<rparr>\<rparr> = demo_world t n"
  by (simp_all add: demo_world_def wd_plans_def)

definition demo_due_claim :: node_run_rec where
  "demo_due_claim = demo_claim\<lparr>nr_deadline_at := Some 60000000\<rparr>"

definition demo_due :: plan_store where
  "demo_due = demo_created
     \<lparr>ps_nodes := [(demo_ids 1, demo_prepare\<lparr>nd_state := N_RUNNING, nd_deadline_at := Some 60000000\<rparr>),
        (demo_ids 2, demo_card 2 ''p''), (demo_ids 3, demo_card 3 ''q''), (demo_ids 4, demo_collect)],
      ps_run_ids := [(demo_ids 1, [demo_ids 5]), (demo_ids 2, []), (demo_ids 3, []), (demo_ids 4, [])],
      ps_node_runs := [(demo_ids 5, demo_due_claim)], ps_draws := 6\<rparr>"

lemma demo_due_claimed:
  "claim_next_ready_nodes demo_ids ''w'' (Aware 0) (PyInt 10) (PyInt 1) (Some (Aware 60000000)) demo_created
     = (Inr [demo_due_claim], demo_due)"
  by (simp add: demo_created_eq demo_claim_simps demo_claim_def demo_due_def demo_due_claim_def)

lemma demo_due_claim_sel [simp]:
  "nr_id demo_due_claim = demo_ids 5" "nr_node_id demo_due_claim = demo_ids 1" "nr_plan_run_id demo_due_claim = demo_ids 0"
  "nr_worker demo_due_claim = ''w''" "nr_claim_version demo_due_claim = 1" "nr_attempt demo_due_claim = 1"
  "nr_state demo_due_claim = N_RUNNING" "nr_lease_until demo_due_claim = 10000000"
  "nr_fingerprint demo_due_claim = None" "nr_node_type demo_due_claim = ''PREPARE_CARD_BATCH''"
  "nr_deadline_at demo_due_claim = Some 60000000"
  "nr_input_snapshot demo_due_claim = JObj [(''input_bindings'', JObj []), (''depends_on'', JList [])]"
  by (simp_all add: demo_due_claim_def) (simp add: demo_claim_def new_claim_def claim_snapshot_def demo_prepare_def
      new_node_def control_node_def bindings_json_def)

lemma demo_due_sel [simp]:
  "ps_plan_runs demo_due = [(demo_ids 0, demo_run)]"
  "ps_versions demo_due = [((demo_ids 0, 1), initial_version (demo_ids 0) demo_plan)]"
  "ps_node_ids demo_due = [((demo_ids 0, 1), [demo_ids 1, demo_ids 2, demo_ids 3, demo_ids 4])]"
  by (simp_all add: demo_due_def demo_created_eq)

lemma demo_due_run: "get_plan_run (demo_ids 0) demo_due = Inr demo_run"
  using demo_get_run by (simp add: get_plan_run_def demo_created_eq)

lemma demo_due_nodes: "\<exists>ns. list_nodes (demo_ids 0) v demo_due = Inr ns
    \<and> map nv_version (filter (\<lambda>n. nv_id n = demo_ids 1) ns) = [1]" if "v \<in> {None, Some (PyInt 1)}"
  using that
  by (auto simp: list_nodes_def validate_version_number_def demo_due_def demo_created_eq node_view_def node_view_ok_def
      min_length_1_def)

lemma demo_due_version: "claim_plan_version demo_due_claim demo_due = Inr 1"
  using demo_due_nodes [of "Some (PyInt 1)"] demo_due_run
  by (auto simp: claim_plan_version_def numeral_eq_Suc)

lemma demo_due_materialized:
  "materialize_claim demo_worker demo_due_claim demo_due
     = Inr (\<lparr>mi_parameters = JObj [], mi_fingerprint = resolver_sha256 (JObj [])\<rparr>, [])"
proof -
  obtain ns where "list_nodes (demo_ids 0) None demo_due = Inr ns" using demo_due_nodes [of None] by auto
  moreover have "get_plan_version (demo_ids 0) (PyInt 1) demo_due = Inr (initial_version (demo_ids 0) demo_plan)"
    using demo_first_version by (simp add: get_plan_version_def demo_card_done_store)
  moreover have "version_input (initial_version (demo_ids 0) demo_plan) demo_run = dump_card_batch demo_batch"
    by (simp add: version_input_def initial_version_def demo_run_def new_plan_run_def demo_plan_def Let_def
        dump_planning_input_def dump_card_batch_def)
  ultimately show ?thesis
    by (simp add: materialize_claim_def input_spec_def field_or_def load_bindings_def dependency_outputs_def
        demo_due_run demo_due_version load_planning_input_def materialize_eq runtime_bindings_def Let_def)
qed

definition demo_due_input :: plan_store where
  "demo_due_input = put_node_run (demo_due_claim\<lparr>nr_input_snapshot := JObj [],
     nr_fingerprint := Some (resolver_sha256 (JObj []))\<rparr>) demo_due"

lemma demo_due_recorded:
  "\<exists>r. record_node_input (demo_ids 5) ''w'' 1 \<lparr>mi_parameters = JObj [], mi_fingerprint = resolver_sha256 (JObj [])\<rparr>
     (Aware t) demo_due = (Inr r, demo_due_input)" if "t < 10000000"
proof -
  have "is_sha256 (resolver_sha256 (JObj []))" by (simp add: resolver_sha256_def)
  then show ?thesis
    using that
    by (simp add: record_node_input_def utc_def fenced_run_def demo_due_def current_node_run_id_def history_def Let_def
        demo_due_input_def node_run_view_def node_run_view_ok_def demo_due_claim_def demo_claim_def new_claim_def
        sha_option_ok_def min_length_1_def)
qed

lemma demo_input_queries:
  "get_plan_run i (put_node_run r s) = get_plan_run i s" "get_plan_version i n (put_node_run r s) = get_plan_version i n s"
  "list_nodes i v (put_node_run r s) = list_nodes i v s"
  by (simp_all add: get_plan_run_def get_plan_version_def list_nodes_def put_node_run_def)

lemma versions_of_node_put: "versions_of_node p i k (put_node_run r s) = versions_of_node p i k s"
  by (induction k) (simp_all add: demo_input_queries)

lemma demo_due_control:
  "execute_control demo_worker demo_due_claim [] \<lparr>en_plans = demo_due_input, en_events = t\<rparr> = Inr (prepared_output demo_batch)"
proof -
  have "get_plan_version (demo_ids 0) (PyInt 1) demo_due = Inr (initial_version (demo_ids 0) demo_plan)"
    using demo_first_version by (simp add: get_plan_version_def demo_card_done_store)
  moreover have "version_input (initial_version (demo_ids 0) demo_plan) demo_run = dump_card_batch demo_batch"
    by (simp add: version_input_def initial_version_def demo_run_def new_plan_run_def demo_plan_def Let_def
        dump_planning_input_def dump_card_batch_def)
  moreover have "claim_plan_version demo_due_claim demo_due_input = Inr 1"
    using demo_due_version by (simp add: claim_plan_version_def demo_due_input_def demo_input_queries versions_of_node_put)
  ultimately show ?thesis
    using demo_due_run by (simp add: execute_control_def demo_due_input_def demo_input_queries)
qed

lemma demo_due_result:
  "\<exists>r t. record_node_result (demo_ids 5) ''w'' 1 (py_node_state N_SUCCEEDED) (py_of_json j) (Aware 3) demo_due_input = (Inr r, t)"
proof -
  have "is_sha256 (resolver_sha256 (JObj []))" by (simp add: resolver_sha256_def)
  moreover have "transition_node (py_node_state N_RUNNING) (py_node_state N_SUCCEEDED) = Inr N_SUCCEEDED"
    by (simp add: transition_node_eq_Inr)
  ultimately show ?thesis
    by (simp add: record_node_result_def utc_def json_safe_copy_def fenced_run_def demo_due_input_def demo_due_def
        demo_created_eq put_node_run_def put_node_def current_node_run_id_def history_def ready_satisfied_dependents_def
        states_by_logical_key_def all_succeeded_def Let_def store_writes node_run_view_def node_run_view_ok_def
        demo_due_claim_def demo_claim_def new_claim_def sha_option_ok_def min_length_1_def)
qed

lemma demo_now: "worker_now demo_worker (demo_world s n) = (Inr (Aware (int n)), demo_world s (n + 1))"
  by (simp add: worker_now_def read_clock_def sbind_def)

lemma demo_call:
  "on_engine (plan_call f) (demo_world s n) = (map_sum PlanRaised id (fst (f s)), demo_world (snd (f s)) n)"
  by (simp add: on_engine_def plan_call_def split: prod.split)

lemma demo_begin:
  "\<exists>w'. begin_claim demo_worker 60000000 demo_due_claim (demo_world demo_due 1) = (Inr (Finished O_SUCCEEDED), w')"
proof -
  obtain r where input: "record_node_input (demo_ids 5) ''w'' 1 \<lparr>mi_parameters = JObj [], mi_fingerprint = resolver_sha256 (JObj [])\<rparr>
     (Aware 1) demo_due = (Inr r, demo_due_input)" using demo_due_recorded [of 1] by auto
  obtain r' t where res: "record_node_result (demo_ids 5) ''w'' 1 (py_node_state N_SUCCEEDED)
     (py_of_json (prepared_output demo_batch)) (Aware 3) demo_due_input = (Inr r', t)" using demo_due_result by blast
  have "begin_inner demo_worker 60000000 demo_due_claim (demo_world demo_due 1) = (Inr (Finished O_SUCCEEDED), demo_world t 4)"
    using input res
    by (simp add: begin_inner_def sbind_def demo_now demo_call demo_due_materialized demo_due_control effective_deadline_def
        control_types_def closes_def record_result_def)
  then show ?thesis by (auto simp: begin_claim_def)
qed

definition idle_executor :: executor where
  "idle_executor call w = (Inl (), w)"

lemma idle_lawful: "lawful_executor u v idle_executor"
  by (simp add: lawful_executor_def idle_executor_def)

lemma demo_work:
  "\<exists>r w'. run_next_once demo_ids idle_executor plain_schedule demo_worker None (demo_world demo_created 0) = (Inr r, w') \<and> wr_claimed r = 1"
proof -
  obtain w' where b: "begin_claim demo_worker 60000000 demo_due_claim (demo_world demo_due 1)
      = (Inr (Finished O_SUCCEEDED), w')" using demo_begin by blast
  show ?thesis
    using b by (simp add: run_next_once_def sbind_def demo_now demo_call resolved_deadline_def seconds_def demo_due_claimed
        run_batch_def begin_task_def batch_result_def)
qed

subsection \<open>Stored bindings\<close>

lemma rmap_freeze_path:
  "list_all path_part_ok ps \<Longrightarrow> rmap freeze_path_part (map (py_of_json \<circ> path_part_json) ps) = Inr ps"
  by (induction ps) (auto simp: path_part_ok_def freeze_index_def split: path_part.splits)

lemma load_dump_binding: "binding_wf b \<Longrightarrow> load_binding (dump_binding b) = Inr b"
  using rmap_freeze_path [of "ib_path b"]
  by (cases b; cases "ib_kind b")
    (auto simp: load_binding_def dump_binding_def field_or_def binding_kind_members_def
      input_binding_create_def freeze_json_field_def validate_source_shape_def binding_wf_def min_length_1_def guard_def
      split: option.splits)

lemma load_dump_bindings:
  "list_all (\<lambda>(k, b). binding_wf b) bs \<Longrightarrow> load_bindings (map (\<lambda>(k, b). (k, dump_binding b)) bs) = Inr bs"
  by (induction bs) (auto simp: load_bindings_def load_dump_binding)

subsection \<open>A card waits for its Skill\<close>

lemma demo_card_snapshot:
  "nr_input_snapshot (demo_card_claim k j i) = JObj
     [(''input_bindings'', JObj (map (\<lambda>(k, b). (k, dump_binding b)) (cn_input_bindings (card_node i)))),
      (''depends_on'', JList [JStr ''prepare-card-batch''])]"
  by (simp add: demo_card_claim_def new_claim_def claim_snapshot_def demo_ready_card_def demo_card_def new_node_def
      bindings_json_def card_node_def skill_node_def)

lemma card_bindings_wf: "list_all (\<lambda>(k, b). binding_wf b) (cn_input_bindings (card_node ''q''))"
  by (simp add: card_node_def skill_node_def plan_input_binding_def binding_wf_def path_part_ok_def)

lemma demo_card_materialize:
  "materialize (runtime_bindings (cn_input_bindings (card_node ''q''))) (CardBatch demo_batch) outputs deps (PyInt n)
     = Inr demo_input"
  by (simp add: materialize_eq runtime_bindings_def runtime_binding_def runtime_path_part_def card_node_def
      skill_node_def plan_input_binding_def resolve_binding_def validate_runtime_path_def binding_kind_of_def
      enum_call_def binding_kind_members_def is_str_def dump_planning_input_def dump_card_batch_def
      card_batch_snapshot_def demo_batch_def demo_products_def traverse_part_def demo_input_def)

lemma demo_cards_run: "get_plan_run (demo_ids 0) demo_cards = Inr demo_run"
  using demo_get_run by (simp add: get_plan_run_def demo_created_eq demo_cards_store)

lemma demo_cards_version: "get_plan_version (demo_ids 0) (PyInt 1) demo_cards = Inr (initial_version (demo_ids 0) demo_plan)"
  using demo_first_version by (simp add: get_plan_version_def demo_card_done_store demo_cards_store)

lemma demo_cards_nodes:
  "list_nodes (demo_ids 0) v demo_cards = Inr (map demo_view [demo_prepare\<lparr>nd_state := N_SUCCEEDED, nd_deadline_at := None\<rparr>,
      demo_ready_card 2 ''p''\<lparr>nd_state := N_RUNNING, nd_deadline_at := None\<rparr>,
      demo_ready_card 3 ''q''\<lparr>nd_state := N_RUNNING, nd_deadline_at := None\<rparr>, demo_collect])"
  if "v \<in> {None, Some (PyInt 1)}"
  using that
  by (auto simp: demo_view_def list_nodes_def demo_cards_store node_view_def node_view_ok_def
      min_length_1_def validate_version_number_def)

lemma demo_cards_outputs:
  "dependency_outputs (demo_ids 0) [''prepare-card-batch''] demo_cards = Inr [(''prepare-card-batch'', 1, JNull)]"
proof -
  have "list_node_runs (demo_ids 0) (Some (demo_ids 1)) demo_cards = Inr [demo_claim\<lparr>nr_state := N_SUCCEEDED, nr_output := JNull\<rparr>]"
    by (simp add: list_node_runs_def demo_cards_store node_run_view_def node_run_view_ok_def sha_option_ok_def
        min_length_1_def) (simp add: demo_claim_def new_claim_def)
  then show ?thesis
    by (simp add: dependency_outputs_def demo_cards_run demo_cards_nodes dependency_output_of_def nodes_by_key_def
        demo_view_def Let_def)
qed

lemma demo_cards_claim_version: "claim_plan_version (demo_card_claim 7 3 ''q'') demo_cards = Inr 1"
  by (simp add: claim_plan_version_def demo_cards_run demo_cards_nodes numeral_eq_Suc)
    (simp add: demo_view_def)

lemma demo_card_claim_materialized:
  "materialize_claim demo_worker (demo_card_claim 7 3 ''q'') demo_cards
     = Inr (demo_input, [(''prepare-card-batch'', 1, JNull)])"
proof -
  have "version_input (initial_version (demo_ids 0) demo_plan) demo_run = dump_card_batch demo_batch"
    by (simp add: version_input_def initial_version_def demo_run_def new_plan_run_def demo_plan_def Let_def
        dump_planning_input_def dump_card_batch_def)
  moreover have "pl_plan_kind demo_run \<noteq> EMERGENCY_SOLD_OUT" by simp
  ultimately show ?thesis
    using load_dump_bindings [OF card_bindings_wf] demo_card_materialize
    by (simp add: materialize_claim_def input_spec_def field_or_def demo_card_snapshot demo_cards_outputs
        demo_cards_run demo_cards_claim_version demo_cards_version load_planning_input_def Let_def)
qed

lemma demo_card_recorded:
  "\<exists>r. record_node_input (demo_ids 7) ''w'' 1 demo_input (Aware 3) demo_cards = (Inr r, demo_input_recorded)"
proof -
  have "is_sha256 (mi_fingerprint demo_input)" by (simp add: demo_input_def resolver_sha256_def)
  then show ?thesis
    by (simp add: demo_input_recorded_store demo_cards_store record_node_input_def utc_def fenced_run_def
        current_node_run_id_def history_def demo_recorded_def Let_def node_run_view_def node_run_view_ok_def
        sha_option_ok_def min_length_1_def)
qed

lemma demo_card_awaits:
  "\<exists>call w'. begin_claim demo_worker 60000000 (demo_card_claim 7 3 ''q'') (demo_world demo_cards 3)
     = (Inr (Awaiting call demo_manifest), w')"
proof -
  obtain r where r: "record_node_input (demo_ids 7) ''w'' 1 demo_input (Aware 3) demo_cards = (Inr r, demo_input_recorded)"
    using demo_card_recorded by blast
  have m: "manifest_for_claim demo_worker (demo_card_claim 7 3 ''q'') = Inr demo_manifest"
    by (simp add: manifest_for_claim_def demo_card_claim_def new_claim_def demo_ready_card_def demo_card_def new_node_def
        demo_card_capability_def demo_manifest_def)
  have "get_plan_run (demo_ids 0) demo_input_recorded = Inr demo_run"
    using demo_cards_run by (simp add: demo_input_recorded_store demo_input_queries)
  then obtain call where call: "prepare_call demo_worker (demo_card_claim 7 3 ''q'') demo_manifest (mi_parameters demo_input)
      60000000 \<lparr>en_plans = demo_input_recorded, en_events = empty_event_store\<rparr> = Inr call"
    by (auto simp: prepare_call_def demo_manifest_def generate_product_card_def)
  have due: "nr_deadline_at (demo_card_claim 7 3 ''q'') = None" by (simp add: demo_card_claim_def new_claim_def)
  have "begin_inner demo_worker 60000000 (demo_card_claim 7 3 ''q'') (demo_world demo_cards 3)
      = (Inr (Awaiting call demo_manifest), demo_world demo_input_recorded 5)"
    using r m call due
    by (simp add: begin_inner_def sbind_def demo_now demo_call demo_card_claim_materialized effective_deadline_def
        control_types_def)
  then show ?thesis by (auto simp: begin_claim_def)
qed

subsection \<open>The properties\<close>

lemma reachable_world: "steps (system_step u v) empty_engine (wd_engine w) \<Longrightarrow> inj u \<Longrightarrow> world_inv u w"
  unfolding world_inv_def by (rule system_reachable)

lemma plan_step_system:
  "store_step u now s t \<Longrightarrow> system_step u v \<lparr>en_plans = s, en_events = x\<rparr> \<lparr>en_plans = t, en_events = x\<rparr>"
  using system_plan [of u now "\<lparr>en_plans = s, en_events = x\<rparr>" t] by simp

lemma demo_world_steps:
  "steps (system_step demo_ids v) empty_engine \<lparr>en_plans = demo_created, en_events = empty_event_store\<rparr>"
  "steps (system_step demo_ids v) empty_engine \<lparr>en_plans = demo_due, en_events = empty_event_store\<rparr>"
  "steps (system_step demo_ids v) empty_engine \<lparr>en_plans = demo_cards, en_events = empty_event_store\<rparr>"
proof -
  note go = steps_step [where r = "system_step demo_ids v"]
  show one: "steps (system_step demo_ids v) empty_engine \<lparr>en_plans = demo_created, en_events = empty_event_store\<rparr>"
    unfolding empty_engine_def by (rule go [OF steps_refl plan_step_system [OF demo_steps(1)]])
  have "store_step demo_ids 0 demo_created demo_due"
    using step_claim_next [of 0 "Aware 0" demo_ids demo_created "''w''" "PyInt 10" "PyInt 1" "Some (Aware 60000000)"]
    by (simp add: at_clock_def demo_due_claimed)
  from go [OF one plan_step_system [OF this]]
  show "steps (system_step demo_ids v) empty_engine \<lparr>en_plans = demo_due, en_events = empty_event_store\<rparr>" .
  show "steps (system_step demo_ids v) empty_engine \<lparr>en_plans = demo_cards, en_events = empty_event_store\<rparr>"
    by (rule go [OF go [OF go [OF one plan_step_system [OF demo_steps(2)]] plan_step_system [OF demo_steps(3)]]
        plan_step_system [OF demo_steps(4)]])
qed

text \<open>
  C9: a worker that returns has settled every claim it took: each is counted once, under one outcome,
  and none of their runs is left running, whatever the executor did and whoever else called the
  stores meanwhile.
\<close>

theorem worker_settles_claims:
  assumes "inj u" and "steps (system_step u v) empty_engine (wd_engine w)" and "lawful_executor u v execute"
    and "run_next_once u execute order wk deadline w = (Inr res, w')"
  shows "wr_claimed res = wr_succeeded res + wr_retried res + wr_waiting_human res + wr_waiting_approval res + wr_failed res
    \<and> (\<exists>t d cs s. claim_next_ready_nodes u (wk_id wk) t (PyInt (wk_lease_seconds wk)) (PyInt (wk_max_claims wk))
          (Some (Aware d)) (wd_plans w) = (Inr cs, s) \<and> wr_claimed res = length cs
        \<and> (\<forall>c\<in>set cs. \<exists>r. dget (ps_node_runs (wd_plans w')) (nr_id c) = Some r \<and> nr_state r \<noteq> N_RUNNING))"
  using claim_batch_effect [OF reachable_world [OF assms(2,1)] assms(1,3) store_step_any(5)
      assms(4) [unfolded run_once_batch]]
  unfolding adds_up_def finished_def by blast

theorem worker_settles_claims_witness:
  "\<exists>res w' s r. run_next_once demo_ids idle_executor plain_schedule demo_worker None (demo_world demo_created 0) = (Inr res, w')
     \<and> dget (ps_node_runs (wd_plans w')) s = Some r \<and> nr_state r \<noteq> N_RUNNING"
proof -
  obtain res w' where run: "run_next_once demo_ids idle_executor plain_schedule demo_worker None (demo_world demo_created 0) = (Inr res, w')"
    and one: "wr_claimed res = 1" using demo_work by blast
  have "steps (system_step demo_ids demo_ids) empty_engine (wd_engine (demo_world demo_created 0))"
    using demo_world_steps(1) by simp
  from worker_settles_claims [OF demo_ids_inj this idle_lawful run]
  obtain cs :: "node_run_rec list" where "length cs = 1"
    "\<forall>c\<in>set cs. \<exists>r. dget (ps_node_runs (wd_plans w')) (nr_id c) = Some r \<and> nr_state r \<noteq> N_RUNNING"
    using one by auto
  then show ?thesis using run by (cases cs) auto
qed

text \<open>
  C11: a coroutine that returns leaves its run in the state its outcome names; one that raises had
  no clock to go by, or no longer holds the claim: its token is stale, its run is not running any
  more, or its lease has ended at the last reading of the clock.
\<close>

theorem claim_settled_or_lost:
  assumes "inj u" and "steps (system_step u v) empty_engine (wd_engine w)" and "lawful_executor u v execute"
    and "execute_claim execute wk deadline c w = (res, w')"
  shows "case res of
      Inr out \<Rightarrow> \<exists>r. dget (ps_node_runs (wd_plans w')) (nr_id c) = Some r \<and> nr_state r = outcome_state out
    | Inl e \<Rightarrow> (\<forall>us. wk_clock wk (wd_readings w' - 1) = Aware us \<longrightarrow>
        (\<forall>r. fenced_run (wd_plans w') (nr_id c) (nr_worker c) (nr_claim_version c) = Inr r \<longrightarrow> nr_lease_until r \<le> us))"
  using execute_claim_settles [OF reachable_world [OF assms(2,1)] assms(1,3,4)]
  by (cases res) (fastforce simp: run_in_def given_up_def holds_def)+

theorem claim_settled_or_lost_witness:
  "\<exists>w' r. execute_claim idle_executor demo_worker 60000000 demo_due_claim (demo_world demo_due 1) = (Inr O_SUCCEEDED, w')
     \<and> dget (ps_node_runs (wd_plans w')) (demo_ids 5) = Some r \<and> nr_state r = N_SUCCEEDED"
proof -
  obtain w' where run: "execute_claim idle_executor demo_worker 60000000 demo_due_claim (demo_world demo_due 1)
      = (Inr O_SUCCEEDED, w')" using demo_begin by (auto simp: execute_claim_def)
  have "steps (system_step demo_ids demo_ids) empty_engine (wd_engine (demo_world demo_due 1))"
    using demo_world_steps(2) by simp
  from claim_settled_or_lost [OF demo_ids_inj this idle_lawful run] show ?thesis
    using run by (auto simp: outcome_state_def)
qed

text \<open>
  C8: the executor sees nothing but what the store has recorded. When a coroutine is about to call it,
  the run is the current claim of its node, is running, and carries the fingerprint and the snapshot
  of the very arguments of the call; the call names the Skill and the exact version of the claim, the
  schema of its manifest accepts the arguments, and the deadline of the call has not passed.
\<close>

theorem executor_sees_recorded_input:
  assumes "inj u" and "steps (system_step u v) empty_engine (wd_engine w)"
    and "begin_claim wk deadline c w = (Inr (Awaiting call m), w')"
  shows "(\<exists>r. fenced_run (wd_plans w') (nr_id c) (nr_worker c) (nr_claim_version c) = Inr r
      \<and> nr_fingerprint r = Some (resolver_sha256 (sc_arguments call))
      \<and> (nr_input_snapshot r = sc_arguments call \<or> json_eq (nr_input_snapshot r) (sc_arguments call)))
    \<and> (\<exists>i. nr_skill_id c = Some i \<and> dget (wk_catalog wk) i = Some m) \<and> nr_skill_version c = Some (sc_version call)
    \<and> sc_skill_id call = sm_skill_id m \<and> wk_accepts wk m (sc_arguments call)
    \<and> sc_deadline_at call = effective_deadline c deadline
    \<and> (\<exists>checked. wk_clock wk (wd_readings w' - 1) = Aware checked \<and> checked < sc_deadline_at call)"
  by (rule awaiting_recorded [OF reachable_world [OF assms(2,1)] assms(1,3)])

theorem executor_sees_recorded_input_witness:
  "\<exists>call w'. begin_claim demo_worker 60000000 (demo_card_claim 7 3 ''q'') (demo_world demo_cards 3)
      = (Inr (Awaiting call demo_manifest), w') \<and> sc_skill_id call = generate_product_card
     \<and> nr_skill_version (demo_card_claim 7 3 ''q'') = Some (sc_version call)"
proof -
  obtain call w' where b: "begin_claim demo_worker 60000000 (demo_card_claim 7 3 ''q'') (demo_world demo_cards 3)
     = (Inr (Awaiting call demo_manifest), w')" using demo_card_awaits by blast
  have "steps (system_step demo_ids demo_ids) empty_engine (wd_engine (demo_world demo_cards 3))"
    using demo_world_steps(3) by simp
  note sees = executor_sees_recorded_input [OF demo_ids_inj this b]
  have "sm_skill_id demo_manifest = generate_product_card" by (simp add: demo_manifest_def)
  then have "sc_skill_id call = generate_product_card" using sees by simp
  then show ?thesis using b sees by blast
qed

text \<open>
  C10: a call of the sold-out Skill, the only one that writes to the platform, is authorized by the
  event that triggered the plan: the event inbox holds it, verified or being processed, with the facts
  the plan was made from, the authorization carries its identity and recomputed digest, and the key
  that makes the call idempotent names plan, node and version. No other call carries either.
\<close>

theorem sold_out_call_authorized:
  assumes "begin_claim wk deadline c w = (Inr (Awaiting call m), w')"
  shows "if sc_skill_id call = ''handle_sold_out_event''
    then (\<exists>run e r a. get_plan_run (nr_plan_run_id c) (wd_plans w') = Inr run
        \<and> wk_load_emergency wk (pl_planning_input run) = Inr e
        \<and> dget (es_inbox (en_events (wd_engine w'))) (em_trigger_event_id e) = Some r
        \<and> ir_state r \<in> {I_VERIFIED, I_PROCESSING} \<and> json_eq (dump_event (ir_event r)) (dump_event (em_event e))
        \<and> sc_authorization call = Some a \<and> provenance_verified a
        \<and> ea_identity a = (ev_event_id (ir_event r), pv_provenance_id (ir_provenance r),
            calculate_payload_digest (ir_event r), ev_observed_version (ir_event r))
        \<and> sc_idempotency_key call = Some (node_idempotency_key c run))
    else sc_authorization call = None \<and> sc_idempotency_key call = None"
  using begin_claim_awaiting [OF assms]
proof (cases rule: begin_inner_parts)
  case (1 input outputs us checked r s)
  then have "prepare_call wk c m (mi_parameters input) (effective_deadline c deadline) (wd_engine w') = Inr call" by auto
  then show ?thesis
  proof (cases rule: prepare_call_eq)
    case (1 run)
    then show ?thesis
      using verified_event_authorization_sound [of wk run "en_events (wd_engine w')"]
      by (cases "sm_skill_id m = ''handle_sold_out_event''") (fastforce simp: wd_plans_def)+
  qed
qed

definition sold_out_manifest :: skill_manifest where
  "sold_out_manifest = demo_manifest\<lparr>sm_skill_id := ''handle_sold_out_event''\<rparr>"

definition sold_out_input :: emergency_input where
  "sold_out_input = \<lparr>em_room_id = ''r'', em_trace_id = ''t'', em_root_plan_run_id = demo_ids 0,
     em_parent_plan_run_id = demo_ids 0, em_trigger_event_id = ''e'', em_event = demo_sold,
     em_provenance = demo_ingress, em_product_id = ''p'', em_expected_version = 1, em_run_key = ''''\<rparr>"

definition sold_out_worker :: worker where
  "sold_out_worker = demo_worker\<lparr>wk_event_store := True, wk_catalog := [(''handle_sold_out_event'', sold_out_manifest)],
     wk_load_emergency := (\<lambda>_. Inr sold_out_input)\<rparr>"

definition sold_out_claim :: node_run_rec where
  "sold_out_claim = demo_card_claim 7 3 ''q''\<lparr>nr_input_snapshot := JObj [], nr_fingerprint := Some (resolver_sha256 (JObj [])),
     nr_skill_id := Some ''handle_sold_out_event'', nr_skill_version := Some ''1''\<rparr>"

definition sold_out_world :: world where
  "sold_out_world = \<lparr>wd_engine = \<lparr>en_plans = put_node_run sold_out_claim demo_cards, en_events = demo_registered\<rparr>,
     wd_readings = 3\<rparr>"

lemma sold_out_claim_sel [simp]:
  "nr_id sold_out_claim = demo_ids 7" "nr_plan_run_id sold_out_claim = demo_ids 0" "nr_node_id sold_out_claim = demo_ids 3"
  "nr_worker sold_out_claim = ''w''" "nr_claim_version sold_out_claim = 1" "nr_state sold_out_claim = N_RUNNING"
  "nr_lease_until sold_out_claim = 10000002" "nr_node_type sold_out_claim = ''SKILL''"
  "nr_deadline_at sold_out_claim = None" "nr_fingerprint sold_out_claim = Some (resolver_sha256 (JObj []))"
  "nr_input_snapshot sold_out_claim = JObj []"
  by (simp_all add: sold_out_claim_def) (simp add: demo_card_claim_def new_claim_def)

lemma sold_out_recorded:
  "record_node_input (demo_ids 7) ''w'' 1 \<lparr>mi_parameters = JObj [], mi_fingerprint = resolver_sha256 (JObj [])\<rparr>
     (Aware 3) (put_node_run sold_out_claim demo_cards) = (Inr sold_out_claim, put_node_run sold_out_claim demo_cards)"
proof -
  have "is_sha256 (resolver_sha256 (JObj []))" by (simp add: resolver_sha256_def)
  moreover have "nr_attempt sold_out_claim = 1" "nr_superseded sold_out_claim = False" "nr_superseded_by sold_out_claim = None"
    "nr_superseded_at sold_out_claim = None"
    by (simp_all add: sold_out_claim_def)
  ultimately show ?thesis
    by (simp add: record_node_input_def utc_def fenced_run_def demo_cards_store put_node_run_def current_node_run_id_def
        history_def Let_def node_run_view_def node_run_view_ok_def sha_option_ok_def min_length_1_def)
qed

lemma sold_out_authorization:
  "\<exists>a. verified_event_authorization sold_out_worker run demo_registered = Inr a"
proof -
  have "\<exists>a. build_event_authorization_context demo_sold demo_ingress = Inr a"
    using demo_authentic
    by (simp add: build_event_authorization_context_def event_authentic_def event_fields_ok_def provenance_fields_ok_def
        build_verified_event_authorization_def event_authorization_validate_def provenance_verified_def)
      (simp add: demo_ingress_def)
  moreover have "json_eq (dump_event demo_sold) (dump_event demo_sold)"
    "json_eq (dump_provenance demo_ingress) (dump_provenance demo_ingress)"
    by (simp_all add: dump_event_def dump_provenance_def)
  ultimately show ?thesis
    by (simp add: verified_event_authorization_def verified_event_record_def sold_out_worker_def sold_out_input_def
        get_inbox_def) auto
qed

theorem sold_out_call_authorized_witness:
  "\<exists>call w' a. begin_claim sold_out_worker 60000000 sold_out_claim sold_out_world = (Inr (Awaiting call sold_out_manifest), w')
     \<and> sc_authorization call = Some a \<and> provenance_verified a"
proof -
  have m: "manifest_for_claim sold_out_worker sold_out_claim = Inr sold_out_manifest"
    by (simp add: manifest_for_claim_def sold_out_worker_def sold_out_claim_def sold_out_manifest_def demo_manifest_def)
  obtain call where call: "prepare_call sold_out_worker sold_out_claim sold_out_manifest (JObj []) 60000000
      (wd_engine sold_out_world) = Inr call" and skill: "sc_skill_id call = ''handle_sold_out_event''"
  proof -
    obtain a where "verified_event_authorization sold_out_worker demo_run demo_registered = Inr a"
      using sold_out_authorization by blast
    then show ?thesis
      using that demo_cards_run
      by (simp add: prepare_call_def sold_out_world_def demo_input_queries sold_out_manifest_def)
  qed
  have input: "materialize_claim sold_out_worker sold_out_claim s
      = Inr (\<lparr>mi_parameters = JObj [], mi_fingerprint = resolver_sha256 (JObj [])\<rparr>, [])" for s
    by (simp add: materialize_claim_def materialized_node_input_def copy_json_def all_str_keys_def)
  have "worker_now sold_out_worker w = (Inr (Aware (int (wd_readings w))), w\<lparr>wd_readings := wd_readings w + 1\<rparr>)" for w
    by (simp add: worker_now_def read_clock_def sbind_def sold_out_worker_def)
  moreover have "wk_accepts sold_out_worker sold_out_manifest (JObj [])" by (simp add: sold_out_worker_def)
  ultimately have "\<exists>w'. begin_inner sold_out_worker 60000000 sold_out_claim sold_out_world
      = (Inr (Awaiting call sold_out_manifest), w')"
    using m input call sold_out_recorded
    by (simp add: begin_inner_def sbind_def on_engine_def plan_call_def wd_plans_def sold_out_world_def effective_deadline_def
        control_types_def)
  then obtain w' where b: "begin_claim sold_out_worker 60000000 sold_out_claim sold_out_world
      = (Inr (Awaiting call sold_out_manifest), w')" by (auto simp: begin_claim_def)
  from sold_out_call_authorized [OF b] skill show ?thesis using b by auto
qed

end
