(* ===== verification/Reconciliation.thy ===== *)
theory Reconciliation
  imports WorkerProofs
begin

section \<open>Reconciling the plan store with the checkpoint\<close>

text \<open>
  \<open>reconciliation.py\<close>: the plan store is the authority on what has been executed, a checkpoint of the
  graph holds no more than a reference to a plan and the end of the batch it believes in. Reconciling
  a plan compares the two: it reuses what the store has when the checkpoint lags behind, lifts an
  incident when both agree, and records one, which freezes the plan, when the checkpoint claims
  more than the store knows. The checkpointer is third-party: \<open>get_tuple\<close> gives the
  \<open>checkpoint\<close> attribute of the tuple of a thread, nothing when there is none, or raises.
\<close>

subsection \<open>The reference in the checkpoint\<close>

datatype control_position = CARD_BATCH_SUCCEEDED | CARD_BATCH_FAILED

definition control_position_value :: "control_position \<Rightarrow> string" where
  "control_position_value c =
     (case c of CARD_BATCH_SUCCEEDED \<Rightarrow> ''CARD_BATCH_SUCCEEDED'' | CARD_BATCH_FAILED \<Rightarrow> ''CARD_BATCH_FAILED'')"

datatype reconciliation_category = NO_CHECKPOINT | CONSISTENT | REPLAY_REUSE | RECONCILIATION_INVARIANT

record checkpoint_reference =
  kr_plan_run_id :: string
  kr_plan_version :: int
  kr_position :: control_position

text \<open>
  \<open>PlanCheckpointReference.model_validate\<close> of a dict or another mapping: exactly the three fields, a
  strict positive version, a position by its value.
\<close>

definition reference_fields :: "string list" where
  "reference_fields = [''plan_run_id'', ''plan_version'', ''control_position'']"

fun mapping_items :: "pyval \<Rightarrow> (pyval \<times> pyval) list option" where
  "mapping_items (PyDict kvs) = Some kvs"
| "mapping_items (PyMapping kvs) = Some kvs"
| "mapping_items _ = None"

definition reference_validate :: "pyval \<Rightarrow> checkpoint_reference option" where
  "reference_validate v = (case mapping_items v of
       Some kvs \<Rightarrow>
         if \<not> list_all (\<lambda>(k, x). case str_key k of None \<Rightarrow> False | Some t \<Rightarrow> t \<in> set reference_fields) kvs then None
         else (case (py_dict_get kvs ''plan_run_id'', py_dict_get kvs ''plan_version'', py_dict_get kvs ''control_position'') of
             (Some p, Some (PyInt n), Some c) \<Rightarrow>
               (case (str_key p, Option.bind (str_key c) (map_of (map (\<lambda>x. (control_position_value x, x))
                   [CARD_BATCH_SUCCEEDED, CARD_BATCH_FAILED]))) of
                  (Some i, Some pos) \<Rightarrow>
                    if i \<noteq> '''' \<and> 1 \<le> n
                    then Some \<lparr>kr_plan_run_id = i, kr_plan_version = n, kr_position = pos\<rparr> else None
                | _ \<Rightarrow> None)
           | _ \<Rightarrow> None)
     | None \<Rightarrow> None)"

definition dump_reference :: "checkpoint_reference \<Rightarrow> json" where
  "dump_reference r = JObj [(''plan_run_id'', JStr (kr_plan_run_id r)), (''plan_version'', JInt (kr_plan_version r)),
     (''control_position'', JStr (control_position_value (kr_position r)))]"

type_synonym checkpointer = "string \<Rightarrow> unit + pyval option"

datatype reference_read = NoReferenceRead | InvalidReference | ReferenceRead checkpoint_reference

definition read_checkpoint_reference :: "checkpointer \<Rightarrow> string \<Rightarrow> engine_error + reference_read" where
  "read_checkpoint_reference get_tuple thread_id = (case get_tuple thread_id of
       Inl _ \<Rightarrow> Inl Unexpected
     | Inr found \<Rightarrow>
         (case Option.bind (Option.bind (Option.bind found mapping_items)
                 (\<lambda>checkpoint. py_dict_get checkpoint ''channel_values'')) mapping_items of
            None \<Rightarrow> Inr NoReferenceRead
          | Some channels \<Rightarrow>
              (case py_dict_get channels ''plan_checkpoint_reference'' of
                 None \<Rightarrow> Inr NoReferenceRead
               | Some PyNone \<Rightarrow> Inr NoReferenceRead
               | Some raw \<Rightarrow> (case reference_validate raw of
                     None \<Rightarrow> Inr InvalidReference | Some r \<Rightarrow> Inr (ReferenceRead r)))))"

subsection \<open>The outcome\<close>

record reconciliation_outcome =
  ro_plan_run_id :: string
  ro_plan_version :: int
  ro_category :: reconciliation_category
  ro_plan_state :: run_state
  ro_cards :: "json list"
  ro_audit :: json
  ro_signature :: "string option"

definition outcome_of ::
  "string \<Rightarrow> int \<Rightarrow> reconciliation_category \<Rightarrow> run_state \<Rightarrow> json list \<Rightarrow> json \<Rightarrow> string option
     \<Rightarrow> reconciliation_outcome world_program" where
  "outcome_of p n category st cards audit signature =
     sbind (require (p \<noteq> '''' \<and> 1 \<le> n \<and> sha_option_ok signature) (ModelRaised (ModelRejected FieldInvalid))) (\<lambda>_.
     sreturn \<lparr>ro_plan_run_id = p, ro_plan_version = n, ro_category = category, ro_plan_state = st,
       ro_cards = cards, ro_audit = audit, ro_signature = signature\<rparr>)"

text \<open>The cards a succeeded plan has collected.\<close>

definition collected_run :: "string \<Rightarrow> plan_store \<Rightarrow> engine_error + node_run_rec" where
  "collected_run p s =
     rbind (map_sum PlanRaised id (list_nodes p None s)) (\<lambda>ns.
     rbind (of_option (EngineInvariant NoCollectNode)
       (find (\<lambda>n. nv_logical_key n = ''collect-card-results'') ns)) (\<lambda>n.
     rbind (map_sum PlanRaised id (list_node_runs p (Some (nv_id n)) s)) (\<lambda>rs.
     let found = filter (\<lambda>r. nr_state r = N_SUCCEEDED) rs in
     rbind (guard (found \<noteq> []) (EngineInvariant NoCollectRun)) (\<lambda>_.
     Inr (last found)))))"

definition cards_snapshot :: "string \<Rightarrow> plan_store \<Rightarrow> engine_error + json list" where
  "cards_snapshot p s =
     rbind (collected_run p s) (\<lambda>r.
     case nr_output r of
       JObj kvs \<Rightarrow> (case map_of kvs ''cards'' of Some (JList xs) \<Rightarrow> Inr xs | _ \<Rightarrow> Inl (EngineInvariant NoCards))
     | _ \<Rightarrow> Inl (EngineInvariant NoCards))"

definition terminal_cards :: "plan_run_rec \<Rightarrow> plan_store \<Rightarrow> engine_error + json list" where
  "terminal_cards run s = (if pl_state run = R_SUCCEEDED then cards_snapshot (pl_id run) s else Inr [])"

subsection \<open>Recording an incident\<close>

definition service_now :: "(nat \<Rightarrow> pytime) \<Rightarrow> pytime world_program" where
  "service_now clock = sbind (read_clock clock) (\<lambda>t.
     sread (\<lambda>_. rbind (aware_utc (EngineInvariant NaiveClock) t) (\<lambda>us. Inr (Aware us))))"

definition incident :: "string \<Rightarrow> checkpoint_reference option \<Rightarrow> json" where
  "incident reason reference = JObj [(''category'', JStr ''INTERNAL_INVARIANT''), (''reason'', JStr reason),
     (''checkpoint_reference'', opt_json dump_reference reference)]"

definition record_invariant ::
  "(nat \<Rightarrow> pytime) \<Rightarrow> string \<Rightarrow> string \<Rightarrow> checkpoint_reference option \<Rightarrow> reconciliation_outcome world_program" where
  "record_invariant clock p reason reference =
     (let signature = canonical_sha256 (incident reason reference) in
      sbind (service_now clock) (\<lambda>now.
      sbind (on_engine (plan_call (record_reconciliation_failure p (py_of_json (incident reason reference))
        (PyStr signature) now))) (\<lambda>persisted.
      outcome_of (pl_id persisted) (pl_current_version persisted) RECONCILIATION_INVARIANT (pl_state persisted) []
        (JObj [(''reason'', JStr reason)]) (Some signature))))"

subsection \<open>\<open>reconcile\<close>\<close>

definition replay_reuse :: "string \<Rightarrow> reconciliation_outcome world_program" where
  "replay_reuse p =
     sbind (on_engine (plan_query (get_plan_run p))) (\<lambda>run.
     sbind (sread (\<lambda>w. terminal_cards run (wd_plans w))) (\<lambda>cards.
     outcome_of (pl_id run) (pl_current_version run) REPLAY_REUSE (pl_state run) cards
       (JObj [(''checkpoint'', JStr ''BEHIND''), (''reused_node_runs'', JInt (int (length cards)))]) None))"

definition expected_position :: "plan_run_rec \<Rightarrow> control_position option" where
  "expected_position run = (if pl_state run = R_SUCCEEDED then Some CARD_BATCH_SUCCEEDED
     else if pl_state run = R_FAILED then Some CARD_BATCH_FAILED else None)"

definition without_reference :: "plan_run_rec \<Rightarrow> reconciliation_outcome world_program" where
  "without_reference run =
     (if pl_rec_required run
      then outcome_of (pl_id run) (pl_current_version run) RECONCILIATION_INVARIANT (pl_state run) []
             (JObj [(''reason'', JStr ''RECONCILIATION_EVIDENCE_MISSING'')]) (pl_rec_signature run)
      else if pl_state run \<in> {R_SUCCEEDED, R_FAILED} then replay_reuse (pl_id run)
      else outcome_of (pl_id run) (pl_current_version run) NO_CHECKPOINT (pl_state run) []
             (JObj [(''checkpoint'', JStr ''ABSENT_OR_BEHIND'')]) None)"

definition lift_incident :: "(nat \<Rightarrow> pytime) \<Rightarrow> plan_run_rec \<Rightarrow> plan_run_rec world_program" where
  "lift_incident clock run =
     (if pl_rec_required run
      then sbind (service_now clock) (\<lambda>now.
           on_engine (plan_call (clear_reconciliation_failure (pl_id run) now)))
      else sreturn run)"

definition with_reference ::
  "(nat \<Rightarrow> pytime) \<Rightarrow> plan_run_rec \<Rightarrow> checkpoint_reference \<Rightarrow> reconciliation_outcome world_program" where
  "with_reference clock run r =
     (if kr_plan_run_id r \<noteq> pl_id run \<or> kr_plan_version r \<noteq> pl_current_version run
      then record_invariant clock (pl_id run) ''CHECKPOINT_REFERENCE_MISMATCH'' (Some r)
      else case expected_position run of
        None \<Rightarrow> record_invariant clock (pl_id run) ''CHECKPOINT_AHEAD_OF_PLANSTORE'' (Some r)
      | Some pos \<Rightarrow>
          if kr_position r \<noteq> pos
          then record_invariant clock (pl_id run) ''CHECKPOINT_PLANSTORE_OUTCOME_CONFLICT'' (Some r)
          else sbind (lift_incident clock run) (\<lambda>run.
               sbind (sread (\<lambda>w. terminal_cards run (wd_plans w))) (\<lambda>cards.
               outcome_of (pl_id run) (pl_current_version run) CONSISTENT (pl_state run) cards
                 (JObj [(''checkpoint'', JStr (control_position_value (kr_position r)))]) None)))"

definition reconcile :: "(nat \<Rightarrow> pytime) \<Rightarrow> checkpointer \<Rightarrow> string \<Rightarrow> reconciliation_outcome world_program" where
  "reconcile clock get_tuple p =
     sbind (on_engine (plan_query (get_plan_run p))) (\<lambda>run.
     sbind (sread (\<lambda>_. read_checkpoint_reference get_tuple (pl_trace_id run))) (\<lambda>reference.
     case reference of
       InvalidReference \<Rightarrow> record_invariant clock (pl_id run) ''INVALID_CHECKPOINT_REFERENCE'' None
     | NoReferenceRead \<Rightarrow> without_reference run
     | ReferenceRead r \<Rightarrow> with_reference clock run r))"

text \<open>The scans at startup and in each period, and the check before a command.\<close>

fun reconcile_each ::
  "(nat \<Rightarrow> pytime) \<Rightarrow> checkpointer \<Rightarrow> plan_run_rec list \<Rightarrow> reconciliation_outcome list world_program" where
  "reconcile_each clock get_tuple [] = sreturn []"
| "reconcile_each clock get_tuple (r # rs) =
     sbind (reconcile clock get_tuple (pl_id r)) (\<lambda>x.
     sbind (reconcile_each clock get_tuple rs) (\<lambda>xs. sreturn (x # xs)))"

definition reconcile_scan :: "(nat \<Rightarrow> pytime) \<Rightarrow> checkpointer \<Rightarrow> reconciliation_outcome list world_program" where
  "reconcile_scan clock get_tuple =
     sbind (on_engine (plan_query (list_plan_runs False))) (reconcile_each clock get_tuple)"

definition reconcile_before_command ::
  "(nat \<Rightarrow> pytime) \<Rightarrow> checkpointer \<Rightarrow> plan_command \<Rightarrow> reconciliation_outcome world_program" where
  "reconcile_before_command clock get_tuple c = reconcile clock get_tuple (pc_plan_run_id c)"

end
