(* ===== verification/Service.thy ===== *)
theory Service
  imports Reconciliation
begin

section \<open>The card batch service\<close>

text \<open>
  \<open>service.py\<close>: \<open>create_or_resume\<close> materialises the fixed proposal with trusted capabilities and
  hands it to the store; \<open>drive_to_terminal\<close> lets a worker run batch after batch until the plan has
  ended, at most \<open>cycles\<close> times, and returns the cards of the collecting node. \<open>order k\<close> is the order in
  which the calls of the batch in cycle \<open>k\<close> complete.
\<close>

subsection \<open>\<open>ProductCard\<close>\<close>

definition card_text :: "(string \<times> json) list \<Rightarrow> string \<Rightarrow> engine_error + json" where
  "card_text kvs field = (case map_of kvs field of
       Some (JStr t) \<Rightarrow> if t \<noteq> '''' then Inr (JStr t) else Inl (ModelRaised (ModelRejected FieldInvalid))
     | _ \<Rightarrow> Inl (ModelRaised (ModelRejected FieldInvalid)))"

definition card_texts :: "(string \<times> json) list \<Rightarrow> string \<Rightarrow> engine_error + json" where
  "card_texts kvs field = (case map_of kvs field of
       Some (JList xs) \<Rightarrow> if xs \<noteq> [] \<and> list_all (\<lambda>x. case x of JStr _ \<Rightarrow> True | _ \<Rightarrow> False) xs
         then Inr (JList xs) else Inl (ModelRaised (ModelRejected FieldInvalid))
     | _ \<Rightarrow> Inl (ModelRaised (ModelRejected FieldInvalid)))"

text \<open>\<open>ProductCard.model_validate(card).model_dump(mode="json")\<close>: other keys are dropped.\<close>

definition product_card :: "json \<Rightarrow> engine_error + json" where
  "product_card j = (case j of
       JObj kvs \<Rightarrow>
         rbind (card_text kvs ''product_id'') (\<lambda>product_id.
         rbind (card_text kvs ''title'') (\<lambda>title.
         rbind (card_texts kvs ''talking_points'') (\<lambda>points.
         rbind (card_text kvs ''opening_script'') (\<lambda>script.
         rbind (card_text kvs ''price_hint'') (\<lambda>price.
         rbind (card_texts kvs ''risk_tips'') (\<lambda>tips.
         Inr (JObj [(''product_id'', product_id), (''title'', title), (''talking_points'', points),
           (''opening_script'', script), (''price_hint'', price), (''risk_tips'', tips)])))))))
     | _ \<Rightarrow> Inl (ModelRaised (ModelRejected FieldInvalid)))"

lemma card_text_eq: "card_text kvs f = Inr j \<longleftrightarrow> map_of kvs f = Some j \<and> (\<exists>t. j = JStr t \<and> t \<noteq> '''')"
  by (auto simp: card_text_def split: option.splits json.splits)

lemma card_texts_eq:
  "card_texts kvs f = Inr j \<longleftrightarrow> map_of kvs f = Some j
     \<and> (\<exists>xs. j = JList xs \<and> xs \<noteq> [] \<and> list_all (\<lambda>x. case x of JStr _ \<Rightarrow> True | _ \<Rightarrow> False) xs)"
  by (auto simp: card_texts_def split: option.splits json.splits)

text \<open>A validated card is its own validation.\<close>

lemma product_card_again: "product_card j = Inr c \<Longrightarrow> product_card c = Inr c"
  by (auto simp: product_card_def rbind_eq_Inr card_text_eq card_texts_eq split: json.splits)

text \<open>The standard output of a Skill wraps the card.\<close>

definition unwrap_card :: "json \<Rightarrow> json" where
  "unwrap_card j = (case j of
       JObj kvs \<Rightarrow> (case map_of kvs ''card'' of Some c \<Rightarrow> c | None \<Rightarrow> j)
     | _ \<Rightarrow> j)"

subsection \<open>The result\<close>

record batch_plan_ref =
  br_plan_run_id :: string
  br_plan_version :: int

record batch_execution =
  bx_plan_run_id :: string
  bx_plan_version :: int
  bx_status :: run_state
  bx_cards :: "json list"

definition batch_execution_create ::
  "string \<Rightarrow> int \<Rightarrow> run_state \<Rightarrow> json list \<Rightarrow> engine_error + batch_execution" where
  "batch_execution_create p n st cards =
     rbind (guard (p \<noteq> '''' \<and> 1 \<le> n) (ModelRaised (ModelRejected FieldInvalid))) (\<lambda>_.
     rbind (rmap product_card cards) (\<lambda>frozen.
     rbind (guard (st \<in> {R_SUCCEEDED, R_FAILED} \<and> (st = R_SUCCEEDED \<longrightarrow> frozen \<noteq> []) \<and> (st = R_FAILED \<longrightarrow> frozen = []))
       (ModelRaised (ModelRejected ShapeInvalid))) (\<lambda>_.
     Inr \<lparr>bx_plan_run_id = p, bx_plan_version = n, bx_status = st, bx_cards = frozen\<rparr>)))"

definition terminal_result :: "string \<Rightarrow> plan_store \<Rightarrow> engine_error + batch_execution" where
  "terminal_result p s =
     rbind (map_sum PlanRaised id (get_plan_run p s)) (\<lambda>run.
     if pl_state run = R_FAILED then batch_execution_create (pl_id run) (pl_current_version run) R_FAILED []
     else if pl_state run \<noteq> R_SUCCEEDED then Inl (EngineInvariant NotTerminal)
     else rbind (cards_snapshot p s) (\<lambda>raw.
          rbind (rmap (product_card \<circ> unwrap_card) raw) (\<lambda>cards.
          batch_execution_create (pl_id run) (pl_current_version run) R_SUCCEEDED cards)))"

subsection \<open>\<open>create_or_resume\<close>\<close>

definition product_of_binding :: "card_batch_input \<Rightarrow> candidate_node \<Rightarrow> engine_error + string" where
  "product_of_binding request n = (case dget (cn_input_bindings n) ''product'' of
       Some b \<Rightarrow>
         (case (ib_kind b, ib_path b) of
            (B_PLAN_INPUT, [Key k, Key i]) \<Rightarrow>
              if k \<noteq> ''products_by_id'' then Inl (EngineInvariant NoInputBinding)
              else if i \<notin> set (dkeys (cb_products_by_id request)) then Inl (EngineInvariant ForeignProduct)
              else Inr i
          | _ \<Rightarrow> Inl (EngineInvariant NoInputBinding))
     | None \<Rightarrow> Inl (EngineInvariant NoInputBinding))"

definition service_capability ::
  "capability_profile \<Rightarrow> card_batch_input \<Rightarrow> candidate_node \<Rightarrow> engine_error + plan_capability" where
  "service_capability pf request n =
     (if cn_node_kind n = K_CONTROL
      then if cn_logical_key n = ''prepare-card-batch''
           then map_sum (\<lambda>_. CapabilityRaised) id (resolve_control_node ''PREPARE_CARD_BATCH'')
           else if cn_logical_key n = ''collect-card-results''
           then map_sum (\<lambda>_. CapabilityRaised) id (resolve_control_node ''COLLECT_CARD_RESULTS'')
           else Inl (EngineInvariant UnknownControlNode)
      else rbind (product_of_binding request n) (\<lambda>i.
           rbind (of_option CapabilityRaised (cn_skill_id n)) (\<lambda>skill.
           map_sum (\<lambda>_. CapabilityRaised) id (resolve_skill_node pf skill i (cb_room_id request)))))"

fun service_capabilities ::
  "capability_profile \<Rightarrow> card_batch_input \<Rightarrow> candidate_node list \<Rightarrow> (string, plan_capability) dict
     \<Rightarrow> engine_error + (string, plan_capability) dict" where
  "service_capabilities pf request [] caps = Inr caps"
| "service_capabilities pf request (n # ns) caps =
     rbind (service_capability pf request n) (\<lambda>c.
     service_capabilities pf request ns (dset (cn_logical_key n) c caps))"

definition service_create ::
  "(nat \<Rightarrow> string) \<Rightarrow> int \<Rightarrow> capability_profile \<Rightarrow> card_batch_input \<Rightarrow> batch_plan_ref engine_program" where
  "service_create u wall pf request =
     sbind (pure_step (ModelRaised \<circ> ModelRejected) (card_batch_planning_input (cb_room_id request)
       (cb_trace_id request) (cb_live_plan request) (cb_products_by_id request) (Some (cb_run_key request)))) (\<lambda>frozen.
     sbind (pure_step (ModelRaised \<circ> ModelRejected) (propose_card_batch frozen)) (\<lambda>proposal.
     sbind (pure_step id (service_capabilities pf frozen (cp_nodes proposal) [])) (\<lambda>caps.
     sbind (pure_step ModelRaised (materialized_plan_init (CardBatch frozen) proposal caps)) (\<lambda>plan.
     sbind (plan_call (create_or_resume u wall plan)) (\<lambda>run.
     sreturn \<lparr>br_plan_run_id = pl_id run, br_plan_version = pl_current_version run\<rparr>)))))"

subsection \<open>\<open>drive_to_terminal\<close>\<close>

fun drive_to_terminal ::
  "(nat \<Rightarrow> string) \<Rightarrow> executor \<Rightarrow> (nat \<Rightarrow> schedule) \<Rightarrow> worker \<Rightarrow> nat \<Rightarrow> string \<Rightarrow> batch_execution world_program" where
  "drive_to_terminal u execute order wk 0 p = sraise (EngineInvariant TooManyCycles)"
| "drive_to_terminal u execute order wk (Suc cycles) p =
     sbind (on_engine (plan_query (get_plan_run p))) (\<lambda>run.
     if pl_state run \<in> {R_SUCCEEDED, R_FAILED}
     then sread (\<lambda>w. terminal_result p (wd_plans w))
     else sbind (run_once u execute (order cycles) wk p None) (\<lambda>batch.
          if wr_claimed batch = 0
          then sbind (on_engine (plan_query (get_plan_run p))) (\<lambda>_. sraise (EngineInvariant NothingRunnable))
          else drive_to_terminal u execute order wk cycles p))"

definition default_worker_cycles :: nat where
  "default_worker_cycles = 16"

definition worker_cycles_ok :: "pyval \<Rightarrow> bool" where
  "worker_cycles_ok v = (case v of PyInt n \<Rightarrow> 1 \<le> n | _ \<Rightarrow> False)"

end
