(* ===== verification/ReconciliationProofs.thy ===== *)
theory ReconciliationProofs
  imports Service
begin

section \<open>What reconciling a plan changes\<close>

text \<open>
  Reconciling touches the record of the one plan and nothing else: no node, no run, no version is
  ever made up from a checkpoint. Its verdict says what the store holds afterwards.
\<close>

text \<open>The fields of a plan run an incident may change; it freezes an active plan and no other.\<close>

definition incident_only :: "plan_run_rec \<Rightarrow> plan_run_rec \<Rightarrow> bool" where
  "incident_only r r' \<longleftrightarrow>
     r' = r\<lparr>pl_state := pl_state r', pl_rec_required := pl_rec_required r', pl_rec_failure := pl_rec_failure r',
        pl_rec_signature := pl_rec_signature r', pl_rec_attempts := pl_rec_attempts r',
        pl_last_reconciled := pl_last_reconciled r'\<rparr>
     \<and> (pl_state r' \<noteq> pl_state r \<longrightarrow> pl_state r = R_ACTIVE \<and> pl_state r' = R_FROZEN)"

lemma incident_only_refl [simp]: "incident_only r r"
  by (simp add: incident_only_def)

lemma incident_only_trans: "incident_only a b \<Longrightarrow> incident_only b c \<Longrightarrow> incident_only a c"
  by (cases a; cases b; cases c) (auto simp: incident_only_def)

lemma incident_recorded:
  "incident_only r (r\<lparr>pl_state := (if pl_state r = R_ACTIVE then R_FROZEN else pl_state r),
     pl_rec_required := True, pl_rec_failure := f, pl_rec_signature := sig, pl_rec_attempts := n,
     pl_last_reconciled := t\<rparr>)"
  "pl_state r = R_ACTIVE \<Longrightarrow> incident_only r (r\<lparr>pl_state := R_FROZEN,
     pl_rec_required := True, pl_rec_failure := f, pl_rec_signature := sig, pl_rec_attempts := n,
     pl_last_reconciled := t\<rparr>)"
  by (simp_all add: incident_only_def)

lemma incident_lifted:
  "incident_only r (r\<lparr>pl_rec_required := False, pl_rec_failure := None, pl_rec_signature := None,
     pl_last_reconciled := t\<rparr>)"
  by (simp add: incident_only_def)

definition run_kept :: "plan_run_rec option \<Rightarrow> plan_run_rec option \<Rightarrow> bool" where
  "run_kept x y \<longleftrightarrow> (case x of None \<Rightarrow> y = None | Some r \<Rightarrow> (\<exists>r'. y = Some r' \<and> incident_only r r'))"

lemma run_kept_refl [simp]: "run_kept x x"
  by (simp add: run_kept_def split: option.split)

lemma run_kept_trans: "run_kept a b \<Longrightarrow> run_kept b c \<Longrightarrow> run_kept a c"
  by (auto simp: run_kept_def intro: incident_only_trans split: option.splits)

definition same_facts :: "string \<Rightarrow> world \<Rightarrow> world \<Rightarrow> bool" where
  "same_facts p w w' \<longleftrightarrow> en_events (wd_engine w') = en_events (wd_engine w)
     \<and> (\<exists>runs. wd_plans w' = wd_plans w\<lparr>ps_plan_runs := runs\<rparr>
          \<and> (\<forall>q. q \<noteq> p \<longrightarrow> dget runs q = dget (ps_plan_runs (wd_plans w)) q)
          \<and> run_kept (dget (ps_plan_runs (wd_plans w)) p) (dget runs p))"

lemma same_facts_refl: "wd_engine w' = wd_engine w \<Longrightarrow> same_facts p w w'"
  unfolding same_facts_def wd_plans_def by (intro conjI exI [of _ "ps_plan_runs (en_plans (wd_engine w))"]) simp_all

lemma same_facts_trans: "same_facts p a b \<Longrightarrow> same_facts p b c \<Longrightarrow> same_facts p a c"
  unfolding same_facts_def
  apply (elim conjE exE)
  subgoal for runs runs'
    by (intro conjI exI [of _ runs']) (auto intro: run_kept_trans)
  done

lemma same_facts_call:
  assumes "on_engine (plan_call f) w = (r, w')"
    and "\<And>t x. f (wd_plans w) = (x, t) \<Longrightarrow> t = wd_plans w
      \<or> (\<exists>old run. dget (ps_plan_runs (wd_plans w)) p = Some old \<and> incident_only old run
          \<and> t = put_plan_run run (wd_plans w) \<and> pl_id run = p)"
  shows "same_facts p w w'"
proof -
  obtain x t where f: "f (wd_plans w) = (x, t)" by fastforce
  then have w': "w' = w\<lparr>wd_engine := (wd_engine w)\<lparr>en_plans := t\<rparr>\<rparr>"
    using assms(1) by (auto simp: on_engine_def plan_call_def wd_plans_def)
  consider "t = wd_plans w" | old run where "dget (ps_plan_runs (wd_plans w)) p = Some old" "incident_only old run"
      "t = put_plan_run run (wd_plans w)" "pl_id run = p"
    using assms(2) [OF f] by blast
  then show ?thesis
  proof cases
    case 1
    then show ?thesis by (intro same_facts_refl) (simp add: w' wd_plans_def)
  next
    case 2
    then show ?thesis by (auto simp: w' same_facts_def wd_plans_def put_plan_run_def run_kept_def)
  qed
qed

lemma wd_plans_readings [simp]: "wd_plans (w\<lparr>wd_readings := n\<rparr>) = wd_plans w"
  by (simp add: wd_plans_def)

lemma record_failure_write:
  assumes "record_reconciliation_failure p failure sig now s = (x, t)" and "wf u {} s"
  shows "t = s \<or> (\<exists>old run. dget (ps_plan_runs s) p = Some old \<and> incident_only old run
    \<and> t = put_plan_run run s \<and> pl_id run = p)"
proof (cases "dget (ps_plan_runs s) p")
  case None
  then show ?thesis using assms(1) by (auto simp: record_reconciliation_failure_def commit_def outcome split: sum.splits)
next
  case (Some run)
  then have "pl_id run = p" using wf_plan_runsD [OF assms(2)] by blast
  then show ?thesis
    using assms(1) Some
    by (auto simp: record_reconciliation_failure_def commit_def outcome Let_def
        intro: incident_recorded split: sum.splits)
qed

lemma clear_failure_write:
  assumes "clear_reconciliation_failure p now s = (x, t)" and "wf u {} s"
  shows "t = s \<or> (\<exists>old run. dget (ps_plan_runs s) p = Some old \<and> incident_only old run
    \<and> t = put_plan_run run s \<and> pl_id run = p)"
proof (cases "dget (ps_plan_runs s) p")
  case None
  then show ?thesis using assms(1) by (auto simp: clear_reconciliation_failure_def commit_def outcome split: sum.splits)
next
  case (Some run)
  then have "pl_id run = p" using wf_plan_runsD [OF assms(2)] by blast
  then show ?thesis
    using assms(1) Some
    by (auto simp: clear_reconciliation_failure_def commit_def outcome Let_def
        intro: incident_lifted split: sum.splits if_splits)
qed


lemma world_wf: "world_inv u w \<Longrightarrow> wf u {} (wd_plans w)"
  by (simp add: world_inv_def engine_inv_def wd_plans_def)

lemma service_now_cases:
  obtains us where "service_now clock w = (Inr (Aware us), w\<lparr>wd_readings := wd_readings w + 1\<rparr>)"
  | "service_now clock w = (Inl (EngineInvariant NaiveClock), w\<lparr>wd_readings := wd_readings w + 1\<rparr>)"
  by (cases "clock (wd_readings w)") (auto simp: service_now_def read_clock_def sbind_def)

lemma snd_outcome_of [simp]: "snd (outcome_of p n c st cards audit sig w) = w"
  by (simp add: outcome_of_def require_def guard_def sbind_def)

lemma outcome_of_eq_Inr:
  "outcome_of p n c st cards audit sig w = (Inr x, w') \<longleftrightarrow> w' = w \<and> p \<noteq> '''' \<and> 1 \<le> n \<and> sha_option_ok sig
     \<and> x = \<lparr>ro_plan_run_id = p, ro_plan_version = n, ro_category = c, ro_plan_state = st, ro_cards = cards,
        ro_audit = audit, ro_signature = sig\<rparr>"
  by (auto simp: outcome_of_def outcome)

text \<open>A program that ends in building an outcome changes what its first part changes.\<close>

lemma same_facts_bind:
  assumes "same_facts p w (snd (m w))" and "\<And>x t. m w = (Inr x, t) \<Longrightarrow> same_facts p t (snd (f x t))"
  shows "same_facts p w (snd (sbind m f w))"
proof (cases "m w")
  case (Pair r t)
  then show ?thesis using assms by (cases r) (auto intro: same_facts_trans)
qed

definition stored_run :: "plan_store \<Rightarrow> string \<Rightarrow> plan_run_rec \<Rightarrow> bool" where
  "stored_run s p run \<longleftrightarrow> dget (ps_plan_runs s) p = Some run \<and> pl_id run = p"

text \<open>The verdict, read off the store it leaves.\<close>

definition verdict :: "checkpointer \<Rightarrow> plan_store \<Rightarrow> plan_store \<Rightarrow> string \<Rightarrow> reconciliation_outcome \<Rightarrow> bool" where
  "verdict get_tuple s t p x \<longleftrightarrow> ro_plan_run_id x = p \<and> (\<exists>run. stored_run t p run
     \<and> ro_plan_state x = pl_state run \<and> ro_plan_version x = pl_current_version run
     \<and> (case ro_category x of
          NO_CHECKPOINT \<Rightarrow> t = s \<and> read_checkpoint_reference get_tuple (pl_trace_id run) = Inr NoReferenceRead
            \<and> \<not> pl_rec_required run \<and> expected_position run = None \<and> ro_cards x = []
        | REPLAY_REUSE \<Rightarrow> t = s \<and> read_checkpoint_reference get_tuple (pl_trace_id run) = Inr NoReferenceRead
            \<and> \<not> pl_rec_required run \<and> expected_position run \<noteq> None \<and> terminal_cards run s = Inr (ro_cards x)
        | CONSISTENT \<Rightarrow> \<not> pl_rec_required run \<and> terminal_cards run t = Inr (ro_cards x)
            \<and> (\<exists>r. read_checkpoint_reference get_tuple (pl_trace_id run) = Inr (ReferenceRead r)
                 \<and> kr_plan_run_id r = p \<and> kr_plan_version r = pl_current_version run
                 \<and> expected_position run = Some (kr_position r))
        | RECONCILIATION_INVARIANT \<Rightarrow> pl_rec_required run \<and> pl_rec_signature run = ro_signature x \<and> ro_cards x = []
            \<and> (pl_state run \<noteq> R_ACTIVE \<or> t = s)))"

lemma record_failure_effect:
  assumes "record_reconciliation_failure p failure (PyStr sig) now s = (Inr run, t)" and "wf u {} s"
  shows "pl_id run = p \<and> dget (ps_plan_runs t) p = Some run \<and> pl_rec_required run \<and> pl_rec_signature run = Some sig
    \<and> pl_state run \<noteq> R_ACTIVE"
proof -
  obtain old where old: "dget (ps_plan_runs s) p = Some old"
    using assms(1) by (auto simp: record_reconciliation_failure_def commit_def outcome split: sum.splits)
  then have "pl_id old = p" using wf_plan_runsD [OF assms(2)] by blast
  then show ?thesis
    using assms(1) old
    by (auto simp: record_reconciliation_failure_def commit_def outcome Let_def plan_run_view_def put_plan_run_def
        validate_reconciliation_signature_def split: sum.splits if_splits)
qed

lemma record_invariant_effect:
  assumes inv: "world_inv u w" and r: "record_invariant clock p reason reference w = (res, w')"
  shows "same_facts p w w' \<and> (\<forall>x. res = Inr x \<longrightarrow> ro_category x = RECONCILIATION_INVARIANT
    \<and> ro_plan_state x \<noteq> R_ACTIVE \<and> verdict get_tuple s (wd_plans w') p x)"
proof (cases rule: service_now_cases [of clock w])
  case (1 us)
  let ?w1 = "w\<lparr>wd_readings := wd_readings w + 1\<rparr>"
  let ?sig = "canonical_sha256 (incident reason reference)"
  let ?f = "record_reconciliation_failure p (py_of_json (incident reason reference)) (PyStr ?sig) (Aware us)"
  obtain x w2 where call: "on_engine (plan_call ?f) ?w1 = (x, w2)" by fastforce
  have facts: "same_facts p w w2"
    by (rule same_facts_trans [OF same_facts_refl same_facts_call [OF call]])
      (use record_failure_write [OF _ world_wf [OF inv]] in auto)
  show ?thesis
  proof (cases x)
    case (Inl e)
    then show ?thesis using r 1 call facts by (auto simp: record_invariant_def Let_def sbind_def)
  next
    case (Inr run)
    then have "(\<exists>t. ?f (wd_plans w) = (Inr run, t) \<and> wd_plans w2 = t)"
      using call by (auto simp: on_engine_eq_Inr plan_call_eq_Inr wd_plans_def)
    then have run: "pl_id run = p \<and> dget (ps_plan_runs (wd_plans w2)) p = Some run \<and> pl_rec_required run
        \<and> pl_rec_signature run = Some ?sig \<and> pl_state run \<noteq> R_ACTIVE"
      using record_failure_effect world_wf [OF inv] by blast
    let ?out = "outcome_of (pl_id run) (pl_current_version run) RECONCILIATION_INVARIANT (pl_state run) []
        (JObj [(''reason'', JStr reason)]) (Some ?sig)"
    have go: "(res, w') = ?out w2"
      using r 1 call Inr by (simp add: record_invariant_def Let_def sbind_def)
    then have "w' = w2" using snd_outcome_of by (metis snd_conv)
    with go run facts show ?thesis
      by (auto simp: outcome_of_eq_Inr verdict_def stored_run_def dest: sym)
  qed
next
  case 2
  then show ?thesis
    using r by (auto simp: record_invariant_def Let_def intro!: same_facts_refl)
qed

lemma clear_failure_effect:
  assumes "clear_reconciliation_failure p now s = (Inr run, t)" and "wf u {} s" and "dget (ps_plan_runs s) p = Some old"
  shows "dget (ps_plan_runs t) p = Some run \<and> \<not> pl_rec_required run \<and> pl_id run = p
    \<and> pl_trace_id run = pl_trace_id old
    \<and> pl_state run = pl_state old \<and> pl_current_version run = pl_current_version old"
proof -
  have "pl_id old = p" using assms wf_plan_runsD [OF assms(2)] by blast
  then show ?thesis
    using assms(1,3)
    by (auto simp: clear_reconciliation_failure_def commit_def outcome Let_def plan_run_view_def put_plan_run_def
        split: sum.splits if_splits)
qed

lemma lift_incident_effect:
  assumes inv: "world_inv u w" and old: "stored_run (wd_plans w) p old" and r: "lift_incident clock old w = (res, w')"
  shows "same_facts p w w' \<and> (\<forall>run. res = Inr run \<longrightarrow> stored_run (wd_plans w') p run \<and> \<not> pl_rec_required run
    \<and> pl_trace_id run = pl_trace_id old
    \<and> pl_state run = pl_state old \<and> pl_current_version run = pl_current_version old)"
proof (cases "pl_rec_required old")
  case False
  then show ?thesis using r old by (auto simp: lift_incident_def intro!: same_facts_refl)
next
  case True
  show ?thesis
  proof (cases rule: service_now_cases [of clock w])
    case (1 us)
    let ?w1 = "w\<lparr>wd_readings := wd_readings w + 1\<rparr>"
    let ?f = "clear_reconciliation_failure p (Aware us)"
    have call: "on_engine (plan_call ?f) ?w1 = (res, w')"
      using r True old 1 by (simp add: lift_incident_def stored_run_def sbind_def)
    have facts: "same_facts p w w'"
      by (rule same_facts_trans [OF same_facts_refl same_facts_call [OF call]])
        (use clear_failure_write [OF _ world_wf [OF inv]] in auto)
    show ?thesis
    proof (intro conjI facts allI impI)
      fix run assume "res = Inr run"
      then have "\<exists>t. ?f (wd_plans w) = (Inr run, t) \<and> wd_plans w' = t"
        using call by (auto simp: on_engine_eq_Inr plan_call_eq_Inr wd_plans_def)
      then show "stored_run (wd_plans w') p run" "\<not> pl_rec_required run" "pl_trace_id run = pl_trace_id old"
        "pl_state run = pl_state old" "pl_current_version run = pl_current_version old"
        using clear_failure_effect [OF _ world_wf [OF inv]] old unfolding stored_run_def by blast+
    qed
  next
    case 2
    then show ?thesis using r True by (auto simp: lift_incident_def intro!: same_facts_refl)
  qed
qed

lemma outcome_verdict:
  assumes "outcome_of (pl_id run) (pl_current_version run) c (pl_state run) cards audit sig w = (Inr x, w')"
  shows "w' = w \<and> ro_plan_run_id x = pl_id run \<and> ro_plan_version x = pl_current_version run \<and> ro_category x = c
    \<and> ro_plan_state x = pl_state run \<and> ro_cards x = cards \<and> ro_signature x = sig"
  using assms by (auto simp: outcome_of_eq_Inr)

lemma get_plan_run_stored:
  assumes "wf u {} s" and "get_plan_run p s = Inr run"
  shows "stored_run s p run"
  using assms wf_plan_runsD [OF assms(1)]
  by (auto simp: stored_run_def get_plan_run_def plan_run_view_def outcome split: option.splits)

lemma on_plan_query_cases:
  obtains x where "f (wd_plans w) = Inr x" "on_engine (plan_query f) w = (Inr x, w)"
  | e where "f (wd_plans w) = Inl e" "on_engine (plan_query f) w = (Inl (PlanRaised e), w)"
  by (cases "f (wd_plans w)") (auto simp: on_engine_def plan_query_def wd_plans_def sread_def map_sum_def)

lemma replay_reuse_effect:
  assumes old: "stored_run (wd_plans w) p old" and wf: "wf u {} (wd_plans w)" and r: "replay_reuse p w = (res, w')"
    and none: "read_checkpoint_reference get_tuple (pl_trace_id old) = Inr NoReferenceRead"
    and closed: "\<not> pl_rec_required old" "expected_position old \<noteq> None"
  shows "w' = w \<and> (\<forall>x. res = Inr x \<longrightarrow> verdict get_tuple (wd_plans w) (wd_plans w') p x)"
proof (cases rule: on_plan_query_cases [of "get_plan_run p" w])
  case (1 run)
  then have run: "run = old" using get_plan_run_stored [OF wf] old by (fastforce simp: stored_run_def)
  show ?thesis
  proof (cases "terminal_cards old (wd_plans w)")
    case (Inl e)
    then show ?thesis using r 1 run by (auto simp: replay_reuse_def sbind_def sread_def)
  next
    case (Inr cards)
    then obtain audit where go: "outcome_of (pl_id old) (pl_current_version old) REPLAY_REUSE (pl_state old) cards audit None w = (res, w')"
      using r 1 run by (simp add: replay_reuse_def sbind_def sread_def)
    show ?thesis
    proof (intro conjI allI impI)
      show "w' = w" using go snd_outcome_of by (metis snd_conv)
      fix x assume "res = Inr x"
      with go have out: "outcome_of (pl_id old) (pl_current_version old) REPLAY_REUSE (pl_state old) cards audit None w = (Inr x, w')"
        by simp
      show "verdict get_tuple (wd_plans w) (wd_plans w') p x"
        using outcome_verdict [OF out] old none closed Inr by (auto simp: verdict_def stored_run_def)
    qed
  qed
next
  case (2 e)
  then show ?thesis using r by (auto simp: replay_reuse_def sbind_def)
qed

lemma without_reference_effect:
  assumes old: "stored_run (wd_plans w) p old" and wf: "wf u {} (wd_plans w)"
    and r: "without_reference old w = (res, w')"
    and none: "read_checkpoint_reference get_tuple (pl_trace_id old) = Inr NoReferenceRead"
  shows "w' = w \<and> (\<forall>x. res = Inr x \<longrightarrow> verdict get_tuple (wd_plans w) (wd_plans w') p x)"
proof -
  let ?out = "\<lambda>c audit sig. outcome_of (pl_id old) (pl_current_version old) c (pl_state old) [] audit sig w"
  have direct: ?thesis
    if out: "?out c audit sig = (res, w')" and "c = RECONCILIATION_INVARIANT \<and> pl_rec_required old \<and> sig = pl_rec_signature old
        \<or> c = NO_CHECKPOINT \<and> \<not> pl_rec_required old \<and> expected_position old = None" for c audit sig
  proof -
    have "w' = w" using out snd_outcome_of by (metis snd_conv)
    then show ?thesis
      using that old none by (cases res) (auto simp: verdict_def stored_run_def dest!: outcome_verdict)
  qed
  consider (stopped) "pl_rec_required old" | (behind) "\<not> pl_rec_required old" "pl_state old \<in> {R_SUCCEEDED, R_FAILED}"
    | (absent) "\<not> pl_rec_required old" "pl_state old \<notin> {R_SUCCEEDED, R_FAILED}" by blast
  then show ?thesis
  proof cases
    case stopped
    then show ?thesis using r direct [of RECONCILIATION_INVARIANT _ "pl_rec_signature old"] by (auto simp add: without_reference_def)
  next
    case behind
    then have "expected_position old \<noteq> None" by (auto simp: expected_position_def)
    moreover have "replay_reuse p w = (res, w')" using r behind old by (simp add: without_reference_def stored_run_def)
    ultimately show ?thesis using replay_reuse_effect [OF old wf _ none] behind by blast
  next
    case absent
    then have "expected_position old = None" by (auto simp: expected_position_def)
    then show ?thesis using r absent direct [of NO_CHECKPOINT] by (auto simp add: without_reference_def)
  qed
qed

lemma with_reference_effect:
  assumes inv: "world_inv u w" and old: "stored_run (wd_plans w) p old"
    and r: "with_reference clock old r w = (res, w')"
    and ref: "read_checkpoint_reference get_tuple (pl_trace_id old) = Inr (ReferenceRead r)"
  shows "same_facts p w w' \<and> (\<forall>x. res = Inr x \<longrightarrow> verdict get_tuple (wd_plans w) (wd_plans w') p x)"
proof (cases "kr_plan_run_id r = p \<and> kr_plan_version r = pl_current_version old \<and> expected_position old = Some (kr_position r)")
  case False
  then obtain reason where "record_invariant clock p reason (Some r) w = (res, w')"
    using r old by (auto simp: with_reference_def stored_run_def split: if_splits option.splits)
  then show ?thesis using record_invariant_effect [OF inv] by blast
next
  case True
  obtain x w1 where l: "lift_incident clock old w = (x, w1)" by fastforce
  note lifted = lift_incident_effect [OF inv old l]
  have go: "sbind (lift_incident clock old) (\<lambda>run.
               sbind (sread (\<lambda>w. terminal_cards run (wd_plans w))) (\<lambda>cards.
               outcome_of (pl_id run) (pl_current_version run) CONSISTENT (pl_state run) cards
                 (JObj [(''checkpoint'', JStr (control_position_value (kr_position r)))]) None)) w = (res, w')"
    using r True old by (simp add: with_reference_def stored_run_def)
  show ?thesis
  proof (cases x)
    case (Inl e)
    then show ?thesis using go l lifted by (auto simp: sbind_def)
  next
    case (Inr run)
    show ?thesis
    proof (cases "terminal_cards run (wd_plans w1)")
      case (Inl e)
      then show ?thesis using go l lifted Inr by (auto simp: sbind_def sread_def)
    next
      case (Inr cards)
      then obtain audit where out: "outcome_of (pl_id run) (pl_current_version run) CONSISTENT (pl_state run) cards audit None w1 = (res, w')"
        using go l \<open>x = Inr run\<close> by (simp add: sbind_def sread_def)
      then have w': "w' = w1" using snd_outcome_of by (metis snd_conv)
      have pos: "expected_position run = expected_position old"
        using lifted \<open>x = Inr run\<close> by (simp add: expected_position_def)
      show ?thesis
      proof (intro conjI allI impI)
        show "same_facts p w w'" using lifted w' by blast
        fix y assume "res = Inr y"
        with out have "outcome_of (pl_id run) (pl_current_version run) CONSISTENT (pl_state run) cards audit None w1 = (Inr y, w')"
          by simp
        from outcome_verdict [OF this] show "verdict get_tuple (wd_plans w) (wd_plans w') p y"
          using lifted \<open>x = Inr run\<close> True ref Inr pos unfolding verdict_def stored_run_def by simp
      qed
    qed
  qed
qed

lemma reconcile_effect:
  assumes inv: "world_inv u w" and r: "reconcile clock get_tuple p w = (res, w')"
  shows "same_facts p w w' \<and> (\<forall>x. res = Inr x \<longrightarrow> verdict get_tuple (wd_plans w) (wd_plans w') p x)"
proof (cases rule: on_plan_query_cases [of "get_plan_run p" w])
  case (1 run)
  note old = get_plan_run_stored [OF world_wf [OF inv] 1(1)]
  show ?thesis
  proof (cases "read_checkpoint_reference get_tuple (pl_trace_id run)")
    case (Inl e)
    then show ?thesis using r 1 by (auto simp: reconcile_def sbind_def sread_def intro!: same_facts_refl)
  next
    case (Inr reference)
    have go: "(case reference of
       InvalidReference \<Rightarrow> record_invariant clock p ''INVALID_CHECKPOINT_REFERENCE'' None
     | NoReferenceRead \<Rightarrow> without_reference run
     | ReferenceRead r \<Rightarrow> with_reference clock run r) w = (res, w')"
      using r 1 Inr old by (cases reference) (simp_all add: reconcile_def sbind_def sread_def stored_run_def)
    show ?thesis
    proof (cases reference)
      case NoReferenceRead
      then show ?thesis using go Inr without_reference_effect [OF old world_wf [OF inv]] same_facts_refl by auto
    next
      case InvalidReference
      then show ?thesis using go record_invariant_effect [OF inv] by auto
    next
      case (ReferenceRead k)
      then show ?thesis using go Inr with_reference_effect [OF inv old] by auto
    qed
  qed
next
  case (2 e)
  then show ?thesis using r by (auto simp: reconcile_def sbind_def intro!: same_facts_refl)
qed

end
