(* ===== verification/ServiceProperties.thy ===== *)
theory ServiceProperties
  imports ReconciliationProofs WorkerProperties
begin

section \<open>Properties of reconciliation and of the service\<close>

subsection \<open>The result of driving a plan\<close>

lemma rmap_fixed: "rmap f xs = Inr ys \<Longrightarrow> (\<And>x y. f x = Inr y \<Longrightarrow> g y = Inr y) \<Longrightarrow> rmap g ys = Inr ys"
  by (auto simp: rmap_eq_Inr list_all2_conv_all_nth)

lemma batch_execution_create_eq:
  "batch_execution_create p n st cards = Inr x \<longleftrightarrow> p \<noteq> '''' \<and> 1 \<le> n \<and> (\<exists>frozen. rmap product_card cards = Inr frozen
     \<and> st \<in> {R_SUCCEEDED, R_FAILED} \<and> (st = R_SUCCEEDED \<longrightarrow> frozen \<noteq> []) \<and> (st = R_FAILED \<longrightarrow> frozen = [])
     \<and> x = \<lparr>bx_plan_run_id = p, bx_plan_version = n, bx_status = st, bx_cards = frozen\<rparr>)"
  by (auto simp: batch_execution_create_def outcome)

definition ended_with :: "plan_store \<Rightarrow> string \<Rightarrow> batch_execution \<Rightarrow> bool" where
  "ended_with s p x \<longleftrightarrow> (\<exists>run. stored_run s p run \<and> bx_plan_run_id x = p \<and> bx_plan_version x = pl_current_version run
     \<and> bx_status x = pl_state run
     \<and> (pl_state run = R_FAILED \<and> bx_cards x = []
        \<or> pl_state run = R_SUCCEEDED \<and> bx_cards x \<noteq> []
          \<and> (\<exists>raw. cards_snapshot p s = Inr raw \<and> list_all2 (\<lambda>j c. product_card (unwrap_card j) = Inr c) raw (bx_cards x))))"

lemma terminal_result_ended:
  assumes wf: "wf u {} s" and r: "terminal_result p s = Inr x"
  shows "ended_with s p x"
proof -
  obtain run where g: "get_plan_run p s = Inr run" using r by (auto simp: terminal_result_def outcome)
  note run = get_plan_run_stored [OF wf g]
  show ?thesis
  proof (cases "pl_state run = R_FAILED")
    case True
    then show ?thesis using r g run by (auto simp: terminal_result_def batch_execution_create_eq ended_with_def stored_run_def)
  next
    case False
    then obtain raw cards where c: "pl_state run = R_SUCCEEDED" "cards_snapshot p s = Inr raw"
      "rmap (product_card \<circ> unwrap_card) raw = Inr cards"
      "batch_execution_create (pl_id run) (pl_current_version run) R_SUCCEEDED cards = Inr x"
      using r g by (auto simp: terminal_result_def rbind_eq_Inr split: if_splits)
    have "rmap product_card cards = Inr cards"
      using rmap_fixed [OF c(3)] product_card_again by auto
    moreover have "list_all2 (\<lambda>j c. product_card (unwrap_card j) = Inr c) raw cards"
      using c(3) by (simp add: rmap_eq_Inr)
    ultimately show ?thesis
      using c run by (auto simp: batch_execution_create_eq ended_with_def stored_run_def)
  qed
qed

lemma drive_effect:
  assumes "world_inv u w" and inj: "inj u" and ex: "lawful_executor u v execute"
    and "drive_to_terminal u execute order wk n p w = (res, w')"
  shows "moves u v w w' \<and> (\<forall>x. res = Inr x \<longrightarrow> ended_with (wd_plans w') p x)"
  using assms(1,4)
proof (induction n arbitrary: w)
  case (Suc n)
  show ?case
  proof (cases rule: on_plan_query_cases [of "get_plan_run p" w])
    case (1 run)
    show ?thesis
    proof (cases "pl_state run \<in> {R_SUCCEEDED, R_FAILED}")
      case True
      then have "res = terminal_result p (wd_plans w)" "w' = w" using Suc.prems(2) 1 by (auto simp: sbind_def sread_def)
      then show ?thesis using terminal_result_ended world_wf [OF Suc.prems(1)] by auto
    next
      case False
      obtain r w1 where b: "run_once u execute (order n) wk p None w = (r, w1)" by fastforce
      note effect = claim_batch_effect [OF Suc.prems(1) inj ex store_step_any(4) b [unfolded run_once_batch]]
      then have inv1: "world_inv u w1" using moves_good Suc.prems(1) inj by blast
      show ?thesis
      proof (cases r)
        case (Inl e)
        then show ?thesis using Suc.prems(2) 1 False b effect by (auto simp: sbind_def)
      next
        case (Inr batch)
        show ?thesis
        proof (cases "wr_claimed batch = 0")
          case True
          then have "sbind (on_engine (plan_query (get_plan_run p))) (\<lambda>_. sraise (EngineInvariant NothingRunnable)) w1 = (res, w')"
            using Suc.prems(2) 1 False b Inr by (simp add: sbind_def)
          then show ?thesis
            using effect by (cases rule: on_plan_query_cases [of "get_plan_run p" w1]) (auto simp: sbind_def)
        next
          case False
          then have "drive_to_terminal u execute order wk n p w1 = (res, w')"
            using Suc.prems(2) 1 \<open>pl_state run \<notin> {R_SUCCEEDED, R_FAILED}\<close> b Inr by (simp add: sbind_def)
          then show ?thesis using Suc.IH [OF inv1] effect moves_trans by blast
        qed
      qed
    qed
  next
    case (2 e)
    then show ?thesis using Suc.prems(2) by (auto simp: sbind_def)
  qed
qed (auto)

subsection \<open>Creating a plan twice\<close>

definition service_plan :: "capability_profile \<Rightarrow> card_batch_input \<Rightarrow> engine_error + materialized_plan" where
  "service_plan pf request =
     rbind (map_sum (ModelRaised \<circ> ModelRejected) id (card_batch_planning_input (cb_room_id request)
       (cb_trace_id request) (cb_live_plan request) (cb_products_by_id request) (Some (cb_run_key request)))) (\<lambda>frozen.
     rbind (map_sum (ModelRaised \<circ> ModelRejected) id (propose_card_batch frozen)) (\<lambda>proposal.
     rbind (service_capabilities pf frozen (cp_nodes proposal) []) (\<lambda>caps.
     map_sum ModelRaised id (materialized_plan_init (CardBatch frozen) proposal caps))))"

lemma service_create_eq:
  "service_create u wall pf request e = (case service_plan pf request of
       Inl r \<Rightarrow> (Inl r, e)
     | Inr plan \<Rightarrow> sbind (plan_call (create_or_resume u wall plan)) (\<lambda>run.
         sreturn \<lparr>br_plan_run_id = pl_id run, br_plan_version = pl_current_version run\<rparr>) e)"
  by (simp add: service_create_def service_plan_def sbind_def pure_step_def sread_def rbind_def map_sum_def
      split: sum.split)

lemma service_plan_wf: "service_plan pf request = Inr plan \<Longrightarrow> plan_wf plan"
  by (auto simp: service_plan_def rbind_eq_Inr map_sum_eq_Inr intro: materialized_plan_init_wf)


lemma system_step_good:
  assumes "system_step u v e e'" and inv: "engine_inv u e" and inj: "inj u"
  shows "engine_inv u e' \<and> engine_evolves e e'"
  using assms(1)
proof cases
  case (system_plan now p)
  then show ?thesis using engine_step_good [OF engine_plan [OF system_plan(2)] inv inj] by simp
next
  case (system_event t)
  then have "engine_step u v e (e\<lparr>en_events := t\<rparr>)"
    by (intro engine_event) (auto simp: applies_lawfully_def)
  then show ?thesis using system_event(1) engine_step_good [OF _ inv inj] by blast
next
  case (system_replan pf repr root_id batch signature now)
  then show ?thesis using engine_steps_good [OF replan_obeys [OF inv inj, unfolded obeys_def] inv inj] by simp
qed

lemma system_steps_good:
  "steps (system_step u v) e e' \<Longrightarrow> engine_inv u e \<Longrightarrow> inj u \<Longrightarrow> engine_inv u e' \<and> engine_evolves e e'"
proof (induction rule: steps.induct)
  case (steps_step e t e')
  then show ?case using system_step_good engine_evolves_trans by blast
qed simp

text \<open>After \<open>create_or_resume\<close> has answered, the key of the plan is bound to its run and its digest.\<close>

lemma create_binds:
  assumes "create_or_resume u wall plan s = (Inr run, t)" and "wf u {} s"
  shows "dget (ps_run_id_by_key t) (planning_run_key (mp_planning_input plan)) = Some (pl_id run)
    \<and> dget (ps_digest_by_key t) (planning_run_key (mp_planning_input plan)) = Some (plan_digest plan)
    \<and> dget (ps_plan_runs t) (pl_id run) = Some run"
proof (cases "dget (ps_run_id_by_key s) (planning_run_key (mp_planning_input plan))")
  case None
  then show ?thesis
    using assms(1) by (auto simp: create_or_resume_def Let_def publish_key_def publish_version_def put_plan_run_def
        plan_run_view_def outcome new_plan_run_def split: sum.splits prod.splits)
next
  case (Some i)
  then show ?thesis
    using assms(1) wf_plan_runsD [OF assms(2)]
    by (auto simp: create_or_resume_def Let_def of_key_def plan_run_view_def outcome split: option.splits)
qed

lemma create_again:
  assumes "dget (ps_run_id_by_key t) (planning_run_key (mp_planning_input plan)) = Some i"
    and "dget (ps_digest_by_key t) (planning_run_key (mp_planning_input plan)) = Some (plan_digest plan)"
    and "dget (ps_plan_runs t) i = Some run"
  shows "create_or_resume u wall plan t = (plan_run_view run, t)"
  using assms by (simp add: create_or_resume_def Let_def)

lemma bound_forever:
  assumes "evolves s t" and "dget (ps_run_id_by_key s) k = Some i" and "dget (ps_digest_by_key s) k = Some d"
    and "dget (ps_plan_runs s) i = Some run"
  shows "dget (ps_run_id_by_key t) k = Some i" "dget (ps_digest_by_key t) k = Some d"
    "\<exists>run'. dget (ps_plan_runs t) i = Some run' \<and> plan_grows run run'"
  using assms unfolding evolves_def keeps_def dict_rel_def by blast+

lemma service_create_twice:
  assumes inv: "engine_inv u e" and inj: "inj u"
    and r: "service_create u wall pf request e = (Inr ref, e')" and later: "steps (system_step u v) e' e''"
  shows "\<exists>run. dget (ps_plan_runs (en_plans e'')) (br_plan_run_id ref) = Some run
    \<and> br_plan_version ref \<le> pl_current_version run
    \<and> service_create u wall' pf request e'' = (map_sum PlanRaised
         (\<lambda>r. \<lparr>br_plan_run_id = br_plan_run_id ref, br_plan_version = pl_current_version r\<rparr>) (plan_run_view run), e'')"
proof -
  obtain plan where plan: "service_plan pf request = Inr plan"
    using r by (auto simp: service_create_eq split: sum.splits)
  have "sbind (plan_call (create_or_resume u wall plan)) (\<lambda>run.
         sreturn \<lparr>br_plan_run_id = pl_id run, br_plan_version = pl_current_version run\<rparr>) e = (Inr ref, e')"
    using r plan by (simp add: service_create_eq)
  then obtain run s where c: "create_or_resume u wall plan (en_plans e) = (Inr run, s)" "e' = e\<lparr>en_plans := s\<rparr>"
    "ref = \<lparr>br_plan_run_id = pl_id run, br_plan_version = pl_current_version run\<rparr>"
    by (auto simp: sbind_eq_Inr plan_call_eq_Inr sreturn_def)
  have wf: "wf u {} (en_plans e)" using inv by (simp add: engine_inv_def)
  note bound = create_binds [OF c(1) wf]
  have "store_step u wall (en_plans e) s"
    using step_create [OF service_plan_wf [OF plan], of u wall "en_plans e"] c(1) by simp
  then have "system_step u v e e'" using c(2) system_plan by simp
  then have inv': "engine_inv u e'" using system_step_good inv inj by blast
  then have "engine_inv u e''" "evolves (en_plans e') (en_plans e'')"
    using system_steps_good [OF later _ inj] by (auto simp: engine_evolves_def)
  then have grown: "evolves s (en_plans e'')" using c(2) by simp
  obtain run' where run': "dget (ps_plan_runs (en_plans e'')) (pl_id run) = Some run'" "plan_grows run run'"
    using bound_forever(3) [OF grown] bound by blast
  have again: "create_or_resume u wall' plan (en_plans e'') = (plan_run_view run', en_plans e'')"
    using create_again [OF _ _ run'(1)] bound_forever(1,2) [OF grown] bound by blast
  have id: "pl_id run' = pl_id run" "pl_current_version run \<le> pl_current_version run'"
    using run'(2) by (auto simp: plan_grows_def same_plan_def)
  have "service_create u wall' pf request e'' = (map_sum PlanRaised
      (\<lambda>r. \<lparr>br_plan_run_id = pl_id run, br_plan_version = pl_current_version r\<rparr>) (plan_run_view run'), e'')"
    using again id by (simp add: service_create_eq plan plan_call_def sbind_def sreturn_def plan_run_view_def rbind_def
        guard_def)
  then show ?thesis using run'(1) id c(3) by auto
qed

subsection \<open>The batch that failed, and a checkpoint that is ahead\<close>

definition demo_failed :: plan_store where
  "demo_failed = snd (record_node_result (demo_ids 5) ''w'' 1 (PyStr ''FAILED'') PyNone (Aware 1) demo_claimed)"

lemma demo_failed_eq: "demo_failed = demo_claimed
   \<lparr>ps_plan_runs := [(demo_ids 0, demo_run\<lparr>pl_state := R_FAILED\<rparr>)],
    ps_nodes := [(demo_ids 1, demo_prepare\<lparr>nd_state := N_FAILED, nd_deadline_at := None\<rparr>),
      (demo_ids 2, demo_card 2 ''p''), (demo_ids 3, demo_card 3 ''q''), (demo_ids 4, demo_collect)],
    ps_node_runs := [(demo_ids 5, demo_claim\<lparr>nr_state := N_FAILED, nr_output := JNull\<rparr>)]\<rparr>"
proof -
  have "coerce_node_state (PyStr ''FAILED'') = Inr N_FAILED"
    by (simp add: coerce_node_state_def enum_call_def node_state_members_def)
  then show ?thesis
  by (simp add: demo_failed_def demo_claimed_store record_node_result_def json_safe_copy_def fenced_run_def
     current_node_run_id_def history_def transition_node_def set_plan_state_def
     Let_def store_writes)
qed

lemma demo_view: "plan_run_view demo_run = Inr demo_run"
  using demo_get_run by (simp add: get_plan_run_def demo_created_eq)

lemma demo_failed_run: "get_plan_run (demo_ids 0) demo_failed = Inr (demo_run\<lparr>pl_state := R_FAILED\<rparr>)"
proof -
  have "plan_run_view_ok demo_run" using demo_view by (auto simp: plan_run_view_def outcome)
  then show ?thesis
    by (simp add: get_plan_run_def demo_failed_eq plan_run_view_def plan_run_view_ok_def lineage_ok_def guard_def
        min_length_1_def)
qed

definition demo_reference :: "control_position \<Rightarrow> checkpointer" where
  "demo_reference pos thread = Inr (Some (PyDict [(PyStr ''channel_values'',
     PyDict [(PyStr ''plan_checkpoint_reference'', py_of_json (dump_reference
       \<lparr>kr_plan_run_id = demo_ids 0, kr_plan_version = 1, kr_position = pos\<rparr>))])]))"

lemma demo_reference_read: "read_checkpoint_reference (demo_reference pos) thread
    = Inr (ReferenceRead \<lparr>kr_plan_run_id = demo_ids 0, kr_plan_version = 1, kr_position = pos\<rparr>)"
  by (cases pos) (simp_all add: read_checkpoint_reference_def demo_reference_def dump_reference_def reference_validate_def
    reference_fields_def control_position_value_def)

definition demo_clock :: "nat \<Rightarrow> pytime" where
  "demo_clock n = Aware (int n)"

lemma demo_reconciled:
  "\<exists>x. reconcile demo_clock (demo_reference CARD_BATCH_FAILED) (demo_ids 0) (demo_world demo_failed 0)
     = (Inr x, demo_world demo_failed 0) \<and> ro_category x = CONSISTENT \<and> ro_plan_state x = R_FAILED"
  by (simp add: reconcile_def sbind_def on_engine_def plan_query_def sread_def demo_failed_run demo_reference_read
      with_reference_def expected_position_def lift_incident_def sreturn_def terminal_cards_def outcome_of_def
      require_def guard_def sha_option_ok_def)

definition demo_frozen_run :: "checkpoint_reference \<Rightarrow> plan_run_rec" where
  "demo_frozen_run r = demo_run\<lparr>pl_state := R_FROZEN, pl_rec_required := True,
     pl_rec_failure := Some (incident ''CHECKPOINT_AHEAD_OF_PLANSTORE'' (Some r)),
     pl_rec_signature := Some (canonical_sha256 (incident ''CHECKPOINT_AHEAD_OF_PLANSTORE'' (Some r))),
     pl_rec_attempts := pl_rec_attempts demo_run + 1, pl_last_reconciled := Some 0\<rparr>"

lemma demo_ahead:
  "\<exists>x w'. reconcile demo_clock (demo_reference CARD_BATCH_SUCCEEDED) (demo_ids 0) (demo_world demo_created 0) = (Inr x, w')
     \<and> ro_category x = RECONCILIATION_INVARIANT \<and> ro_plan_state x = R_FROZEN"
proof -
  define r where "r = \<lparr>kr_plan_run_id = demo_ids 0, kr_plan_version = 1, kr_position = CARD_BATCH_SUCCEEDED\<rparr>"
  define sig where "sig = canonical_sha256 (incident ''CHECKPOINT_AHEAD_OF_PLANSTORE'' (Some r))"
  have sha: "is_sha256 sig" by (simp add: sig_def canonical_sha256_def)
  have frozen: "reconciliation_failure_snapshot (py_of_json (incident reason (Some r))) = Inr (incident reason (Some r))" for reason
    by (simp add: incident_def dump_reference_def reconciliation_failure_snapshot_def json_safe_copy_def
        all_str_keys_def key_text_def)
  have "plan_run_view_ok demo_run" using demo_view by (auto simp: plan_run_view_def outcome)
  then have view: "plan_run_view (demo_frozen_run r) = Inr (demo_frozen_run r)"
    using sha by (simp add: demo_frozen_run_def sig_def [symmetric] plan_run_view_def plan_run_view_ok_def lineage_ok_def guard_def
        min_length_1_def sha_option_ok_def)
  have rec: "record_reconciliation_failure (demo_ids 0) (py_of_json (incident ''CHECKPOINT_AHEAD_OF_PLANSTORE'' (Some r)))
      (PyStr sig) (Aware 0) demo_created = (Inr (demo_frozen_run r), put_plan_run (demo_frozen_run r) demo_created)"
    using view frozen sha
    by (simp add: record_reconciliation_failure_def commit_def validate_reconciliation_signature_def utc_def
        demo_created_eq demo_frozen_run_def sig_def [symmetric] Let_def)
  have "reconcile demo_clock (demo_reference CARD_BATCH_SUCCEEDED) (demo_ids 0) (demo_world demo_created 0)
      = record_invariant demo_clock (demo_ids 0) ''CHECKPOINT_AHEAD_OF_PLANSTORE'' (Some r) (demo_world demo_created 0)"
    by (simp add: reconcile_def sbind_def on_engine_def plan_query_def sread_def demo_get_run demo_reference_read
      with_reference_def expected_position_def r_def)
  moreover have "\<exists>x w'. record_invariant demo_clock (demo_ids 0) ''CHECKPOINT_AHEAD_OF_PLANSTORE'' (Some r) (demo_world demo_created 0)
      = (Inr x, w') \<and> ro_category x = RECONCILIATION_INVARIANT \<and> ro_plan_state x = R_FROZEN"
    using rec sha
    by (simp add: record_invariant_def Let_def sig_def [symmetric] service_now_def sbind_def read_clock_def sread_def
        demo_clock_def demo_call outcome_of_def require_def guard_def sha_option_ok_def demo_frozen_run_def)
  ultimately show ?thesis by simp
qed

lemma demo_failed_steps: "steps (system_step demo_ids v) empty_engine \<lparr>en_plans = demo_failed, en_events = empty_event_store\<rparr>"
proof -
  note go = steps_step [where r = "system_step demo_ids v"]
  have "store_step demo_ids 1 demo_claimed demo_failed"
    unfolding demo_failed_def by (rule step_result) (simp add: at_clock_def)
  from go [OF go [OF demo_world_steps(1) plan_step_system [OF demo_claimed_step]] plan_step_system [OF this]]
  show ?thesis .
qed

lemma demo_driven:
  "\<exists>x. drive_to_terminal demo_ids idle_executor (\<lambda>_. plain_schedule) demo_worker 16 (demo_ids 0) (demo_world demo_failed 0)
       = (Inr x, demo_world demo_failed 0) \<and> bx_status x = R_FAILED"
  by (simp add: eval_nat_numeral sbind_def on_engine_def plan_query_def sread_def demo_failed_run terminal_result_def
      batch_execution_create_def guard_def)

lemma demo_service_capabilities:
  "service_capabilities demo_profile demo_batch (card_batch_nodes demo_batch) [] = Inr demo_caps"
proof -
  have "cb_room_id demo_batch = ''r''" "cb_products_by_id demo_batch = demo_products" by (simp_all add: demo_batch_def)
  then show ?thesis
    by (simp add: demo_nodes service_capability_def control_node_def card_node_def skill_node_def card_key_def
      resolve_control_node_def resolve_skill_node_def product_of_binding_def plan_input_binding_def
      demo_profile_def demo_caps_def demo_products_def demo_capability_def card_max_concurrency_def)
qed

lemma demo_service_create:
  "\<exists>ref e'. service_create demo_ids 0 demo_profile demo_batch empty_engine = (Inr ref, e')"
proof -
  have "propose_card_batch demo_batch = Inr demo_proposal"
    using propose_card_batch_valid [OF demo_batch_wf] by (auto simp: propose_card_batch_def demo_proposal_def dest: candidate_plan_proposal_id)
  then have plan: "service_plan demo_profile demo_batch = Inr demo_replanned"
    using demo_revalidated demo_service_capabilities demo_replanned_init
    by (simp add: service_plan_def demo_proposal_def) (simp add: demo_batch_def)
  have "new_plan_run (demo_ids 0) demo_replanned = demo_run"
    by (simp add: demo_run_def new_plan_run_def demo_plan_def demo_replanned_def Let_def)
  moreover have "\<exists>ids t. create_nodes demo_ids (demo_ids 0) 0 (mp_capabilities demo_replanned)
      (cp_nodes (mp_proposal demo_replanned)) s = (Inr ids, t)" for s
    by (simp add: demo_replanned_def demo_proposal_def demo_caps_def demo_nodes card_key_def control_node_def card_node_def
        skill_node_def Let_def)
  ultimately have "fst (create_or_resume demo_ids 0 demo_replanned empty_store) = Inr demo_run"
    using demo_view by (auto simp: create_or_resume_def Let_def empty_store_def split: prod.split sum.split)
      (metis Inl_Inr_False prod.inject)
  then show ?thesis
    by (cases "create_or_resume demo_ids 0 demo_replanned empty_store")
      (simp add: service_create_eq plan plan_call_def sbind_def sreturn_def empty_engine_def)
qed

subsection \<open>The properties\<close>

text \<open>
  C12: a checkpoint never makes up a fact. Whatever the checkpointer returns, and whether it answers,
  claims too much or fails, reconciling a plan leaves every node, run, version, recorded command,
  event and application of the system as it is, and every other plan. No plan is made up or lost. In
  the record of the one plan only the incident may change, and the state, from active to frozen:
  its identity, its lineage, its planning input and its current version stay.
\<close>

theorem reconcile_makes_no_facts:
  assumes "inj u" and "steps (system_step u v) empty_engine (wd_engine w)"
    and "reconcile clock get_tuple p w = (res, w')"
  shows "en_events (wd_engine w') = en_events (wd_engine w)
    \<and> (\<exists>runs. wd_plans w' = wd_plans w\<lparr>ps_plan_runs := runs\<rparr>
         \<and> (\<forall>q. q \<noteq> p \<longrightarrow> dget runs q = dget (ps_plan_runs (wd_plans w)) q)
         \<and> (dget (ps_plan_runs (wd_plans w)) p = None \<longrightarrow> dget runs p = None)
         \<and> (\<forall>r. dget (ps_plan_runs (wd_plans w)) p = Some r \<longrightarrow> (\<exists>r'. dget runs p = Some r'
              \<and> r' = r\<lparr>pl_state := pl_state r', pl_rec_required := pl_rec_required r',
                   pl_rec_failure := pl_rec_failure r', pl_rec_signature := pl_rec_signature r',
                   pl_rec_attempts := pl_rec_attempts r', pl_last_reconciled := pl_last_reconciled r'\<rparr>
              \<and> (pl_state r' \<noteq> pl_state r \<longrightarrow> pl_state r = R_ACTIVE \<and> pl_state r' = R_FROZEN))))"
proof -
  from reconcile_effect [OF reachable_world [OF assms(2,1)] assms(3)]
  obtain runs where "en_events (wd_engine w') = en_events (wd_engine w)"
    "wd_plans w' = wd_plans w\<lparr>ps_plan_runs := runs\<rparr>"
    "\<forall>q. q \<noteq> p \<longrightarrow> dget runs q = dget (ps_plan_runs (wd_plans w)) q"
    and kept: "run_kept (dget (ps_plan_runs (wd_plans w)) p) (dget runs p)"
    unfolding same_facts_def by blast
  then show ?thesis
    by (intro conjI exI [of _ runs]) (simp_all add: run_kept_def incident_only_def split: option.splits)
qed

theorem reconcile_makes_no_facts_witness:
  "\<exists>x w' runs. reconcile demo_clock (demo_reference CARD_BATCH_SUCCEEDED) (demo_ids 0) (demo_world demo_created 0) = (Inr x, w')
     \<and> ro_category x = RECONCILIATION_INVARIANT \<and> wd_plans w' = demo_created\<lparr>ps_plan_runs := runs\<rparr>
     \<and> (\<exists>r'. dget runs (demo_ids 0) = Some r' \<and> pl_current_version r' = 1 \<and> pl_run_key r' = pl_run_key demo_run)"
proof -
  obtain x w' where r: "reconcile demo_clock (demo_reference CARD_BATCH_SUCCEEDED) (demo_ids 0) (demo_world demo_created 0) = (Inr x, w')"
    "ro_category x = RECONCILIATION_INVARIANT" using demo_ahead by blast
  have "steps (system_step demo_ids demo_ids) empty_engine (wd_engine (demo_world demo_created 0))"
    using demo_world_steps(1) by simp
  moreover have "dget (ps_plan_runs (wd_plans (demo_world demo_created 0))) (demo_ids 0) = Some demo_run"
    by (simp add: demo_created_eq)
  ultimately obtain runs r' where "wd_plans w' = demo_created\<lparr>ps_plan_runs := runs\<rparr>"
    and r': "dget runs (demo_ids 0) = Some r'" "r' = demo_run\<lparr>pl_state := pl_state r', pl_rec_required := pl_rec_required r',
        pl_rec_failure := pl_rec_failure r', pl_rec_signature := pl_rec_signature r',
        pl_rec_attempts := pl_rec_attempts r', pl_last_reconciled := pl_last_reconciled r'\<rparr>"
    using reconcile_makes_no_facts [OF demo_ids_inj _ r(1)] by fastforce
  moreover have "pl_current_version r' = 1" "pl_run_key r' = pl_run_key demo_run"
    by (subst r'(2), simp)+
  ultimately show ?thesis using r by blast
qed

text \<open>
  C13: the verdict of a reconciliation describes the store it leaves. It names the plan with its state
  and its current version, and: CONSISTENT means that the checkpoint refers to this plan at this
  version and at the end the plan has, that no incident is left, and that the cards are those the
  store has collected; REPLAY_REUSE means that there is no reference and the plan has ended, and
  NO_CHECKPOINT that there is none and it has not, neither with an incident nor with a write;
  RECONCILIATION_INVARIANT means that the plan holds the incident with that signature and gives no
  cards, and that it is not active when anything was written.
\<close>

theorem reconcile_verdicts:
  assumes "inj u" and "steps (system_step u v) empty_engine (wd_engine w)"
    and "reconcile clock get_tuple p w = (Inr x, w')"
  shows "ro_plan_run_id x = p \<and> (\<exists>run. dget (ps_plan_runs (wd_plans w')) p = Some run
     \<and> ro_plan_state x = pl_state run \<and> ro_plan_version x = pl_current_version run
     \<and> (case ro_category x of
          NO_CHECKPOINT \<Rightarrow> wd_plans w' = wd_plans w
            \<and> read_checkpoint_reference get_tuple (pl_trace_id run) = Inr NoReferenceRead
            \<and> \<not> pl_rec_required run \<and> expected_position run = None \<and> ro_cards x = []
        | REPLAY_REUSE \<Rightarrow> wd_plans w' = wd_plans w
            \<and> read_checkpoint_reference get_tuple (pl_trace_id run) = Inr NoReferenceRead
            \<and> \<not> pl_rec_required run \<and> expected_position run \<noteq> None
            \<and> terminal_cards run (wd_plans w') = Inr (ro_cards x)
        | CONSISTENT \<Rightarrow> \<not> pl_rec_required run \<and> terminal_cards run (wd_plans w') = Inr (ro_cards x)
            \<and> (\<exists>r. read_checkpoint_reference get_tuple (pl_trace_id run) = Inr (ReferenceRead r)
                 \<and> kr_plan_run_id r = p \<and> kr_plan_version r = pl_current_version run
                 \<and> expected_position run = Some (kr_position r))
        | RECONCILIATION_INVARIANT \<Rightarrow> pl_rec_required run \<and> pl_rec_signature run = ro_signature x \<and> ro_cards x = []
            \<and> (pl_state run \<noteq> R_ACTIVE \<or> wd_plans w' = wd_plans w)))"
proof -
  have v: "verdict get_tuple (wd_plans w) (wd_plans w') p x"
    using reconcile_effect [OF reachable_world [OF assms(2,1)] assms(3)] by blast
  show ?thesis
    using v unfolding verdict_def stored_run_def
    by (cases "ro_category x") (simp_all, (metis | blast)+)
qed

theorem reconcile_verdicts_witness:
  "\<exists>x. reconcile demo_clock (demo_reference CARD_BATCH_FAILED) (demo_ids 0) (demo_world demo_failed 0)
     = (Inr x, demo_world demo_failed 0) \<and> ro_category x = CONSISTENT
     \<and> (\<exists>run. dget (ps_plan_runs demo_failed) (demo_ids 0) = Some run \<and> \<not> pl_rec_required run
          \<and> terminal_cards run demo_failed = Inr (ro_cards x))"
proof -
  obtain x where r: "reconcile demo_clock (demo_reference CARD_BATCH_FAILED) (demo_ids 0) (demo_world demo_failed 0)
     = (Inr x, demo_world demo_failed 0)" "ro_category x = CONSISTENT" using demo_reconciled by blast
  have "steps (system_step demo_ids demo_ids) empty_engine (wd_engine (demo_world demo_failed 0))"
    using demo_failed_steps by simp
  from reconcile_verdicts [OF demo_ids_inj this r(1)] r show ?thesis by auto
qed

text \<open>What the service returns for a driven plan is what the store holds when it returns: the plan has
  ended, and the answer gives its identity, its current version and its state; a failed plan comes
  with no card, a succeeded one with at least one, the validated output of its collecting node
  card for card. The executor may let others act while it runs.
\<close>

lemma drive_returns_terminal:
  assumes "inj u" and "steps (system_step u v) empty_engine (wd_engine w)" and "lawful_executor u v execute"
    and "drive_to_terminal u execute order wk cycles p w = (Inr x, w')"
  shows "\<exists>run. dget (ps_plan_runs (wd_plans w')) p = Some run \<and> bx_plan_run_id x = p
     \<and> bx_plan_version x = pl_current_version run \<and> bx_status x = pl_state run
     \<and> (pl_state run = R_FAILED \<and> bx_cards x = []
        \<or> pl_state run = R_SUCCEEDED \<and> bx_cards x \<noteq> []
          \<and> (\<exists>raw. cards_snapshot p (wd_plans w') = Inr raw
               \<and> list_all2 (\<lambda>j c. product_card (unwrap_card j) = Inr c) raw (bx_cards x)))"
  using drive_effect [OF reachable_world [OF assms(2,1)] assms(1,3,4)]
  unfolding ended_with_def stored_run_def by blast

text \<open>Asking the service twice for the same batch creates one plan. Whatever the system has done since,
  the second call writes nothing and answers with the run of the first, at the version the run has
  now, which is no earlier.
\<close>

lemma service_create_resumes:
  assumes "inj u" and "steps (system_step u v) empty_engine e"
    and "service_create u wall pf request e = (Inr ref, e')" and "steps (system_step u v) e' e''"
  shows "\<exists>run. dget (ps_plan_runs (en_plans e'')) (br_plan_run_id ref) = Some run
    \<and> br_plan_version ref \<le> pl_current_version run
    \<and> service_create u later pf request e'' = (map_sum PlanRaised
         (\<lambda>r. \<lparr>br_plan_run_id = br_plan_run_id ref, br_plan_version = pl_current_version r\<rparr>) (plan_run_view run), e'')"
  by (rule service_create_twice [OF system_reachable [OF assms(2,1)] assms(1,3,4)])

end
