(* ===== verification/SideEffects.thy ===== *)
theory SideEffects
  imports Service
begin

section \<open>Confirming a sold-out write whose effect is unknown\<close>

text \<open>
  \<open>side_effect_reconciliation.py\<close>: one read-only query of the platform, under the identity of the
  attempt whose effect is unknown, and a verdict that is a confirmation only when product, stock,
  activity and version all say that the write has happened. The port of the platform is a
  parameter: it may take its time, let others act, raise, or answer with a failure or a JSON object.
\<close>

subsection \<open>Request and result\<close>

record sold_out_request =
  sq_room_id :: string
  sq_trace_id :: string
  sq_product_id :: string
  sq_expected_version :: int
  sq_authorization :: event_authorization
  sq_failure :: failure_fact
  sq_deadline_at :: int

definition sold_out_request_create ::
  "string \<Rightarrow> string \<Rightarrow> string \<Rightarrow> int \<Rightarrow> event_authorization \<Rightarrow> failure_fact \<Rightarrow> pytime
     \<Rightarrow> validation_error + sold_out_request" where
  "sold_out_request_create room trace product_id version authorization failure deadline =
     rbind (guard (room \<noteq> '''' \<and> trace \<noteq> '''' \<and> product_id \<noteq> '''' \<and> 1 \<le> version) FieldInvalid) (\<lambda>_.
     rbind (aware_utc FieldInvalid deadline) (\<lambda>us.
     rbind (guard (ff_category failure = SIDE_EFFECT_UNKNOWN \<and> ff_side_effect_state failure = UNKNOWN_EFFECT)
       ShapeInvalid) (\<lambda>_.
     rbind (guard (provenance_verified authorization) ShapeInvalid) (\<lambda>_.
     rbind (guard (ea_observed_version authorization = version) ShapeInvalid) (\<lambda>_.
     Inr \<lparr>sq_room_id = room, sq_trace_id = trace, sq_product_id = product_id, sq_expected_version = version,
          sq_authorization = authorization, sq_failure = failure, sq_deadline_at = us\<rparr>)))))"

datatype sold_out_status = CONFIRMED_SUCCESS | STILL_WAITING

definition sold_out_status_value :: "sold_out_status \<Rightarrow> string" where
  "sold_out_status_value s =
     (case s of CONFIRMED_SUCCESS \<Rightarrow> ''CONFIRMED_SUCCESS'' | STILL_WAITING \<Rightarrow> ''WAITING_RECONCILIATION'')"

record sold_out_result =
  so_status :: sold_out_status
  so_attempt_id :: string
  so_evidence :: "json option"
  so_read_failure :: "failure_fact option"
  so_reason :: string

definition sold_out_result_create :: "sold_out_result \<Rightarrow> validation_error + sold_out_result" where
  "sold_out_result_create r =
     rbind (guard (so_attempt_id r \<noteq> '''' \<and> so_reason r \<noteq> '''') FieldInvalid) (\<lambda>_.
     rbind (guard (if so_status r = CONFIRMED_SUCCESS then so_evidence r \<noteq> None \<and> so_read_failure r = None
       else so_evidence r = None) ShapeInvalid) (\<lambda>_. Inr r))"

definition dump_sold_out_result :: "sold_out_result \<Rightarrow> json" where
  "dump_sold_out_result r = JObj
     [(''status'', JStr (sold_out_status_value (so_status r))),
      (''original_attempt_id'', JStr (so_attempt_id r)),
      (''evidence'', opt_json id (so_evidence r)),
      (''read_failure'', opt_json dump_failure (so_read_failure r)),
      (''reason_code'', JStr (so_reason r))]"

subsection \<open>The query\<close>

record adapter_request =
  aq_operation_id :: string
  aq_attempt_id :: string
  aq_room_id :: string
  aq_idempotency_key :: "string option"
  aq_deadline_at :: int
  aq_payload :: json

datatype adapter_result = AdapterFailed failure_fact | AdapterOk "(string \<times> json) list"

type_synonym live_port = "adapter_request \<Rightarrow> world \<Rightarrow> (unit + adapter_result) \<times> world"

definition sold_out_query :: "sold_out_request \<Rightarrow> adapter_request" where
  "sold_out_query q = \<lparr>aq_operation_id = ''sold-out-reconciliation:'' @ ff_attempt_id (sq_failure q),
     aq_attempt_id = ff_attempt_id (sq_failure q), aq_room_id = sq_room_id q, aq_idempotency_key = None,
     aq_deadline_at = sq_deadline_at q, aq_payload = JObj [(''sold_out_product_id'', JStr (sq_product_id q))]\<rparr>"

definition waiting_verdict ::
  "sold_out_request \<Rightarrow> string \<Rightarrow> failure_fact option \<Rightarrow> validation_error + sold_out_result" where
  "waiting_verdict q reason failure = sold_out_result_create
     \<lparr>so_status = STILL_WAITING, so_attempt_id = ff_attempt_id (sq_failure q), so_evidence = None,
      so_read_failure = failure, so_reason = reason\<rparr>"

text \<open>
  \<open>get\<close> of a missing field gives \<open>None\<close>, which equals nothing here; \<open>== 0\<close> is Python's equality of
  numbers, so \<open>0.0\<close> and \<open>False\<close> pass it, while \<open>type(version) is int\<close> rejects a Boolean.
\<close>

definition facts_closed :: "sold_out_request \<Rightarrow> (string \<times> json) list \<Rightarrow> bool" where
  "facts_closed q product \<longleftrightarrow> map_of product ''product_id'' = Some (JStr (sq_product_id q))
     \<and> (case map_of product ''inventory'' of None \<Rightarrow> False | Some j \<Rightarrow> json_eq j (JInt 0))
     \<and> map_of product ''is_active'' = Some (JBool False)
     \<and> (case map_of product ''version'' of Some (JInt n) \<Rightarrow> sq_expected_version q + 1 \<le> n | _ \<Rightarrow> False)"

definition sold_out_evidence :: "sold_out_request \<Rightarrow> (string \<times> json) list \<Rightarrow> json" where
  "sold_out_evidence q product = JObj
     [(''event_id'', JStr (ea_event_id (sq_authorization q))),
      (''provenance_id'', JStr (ea_provenance_id (sq_authorization q))),
      (''product_id'', JStr (sq_product_id q)),
      (''expected_version'', JInt (sq_expected_version q)),
      (''confirmed_version'', opt_json id (map_of product ''version'')),
      (''sold_out_product'', JObj product)]"

definition sold_out_verdict :: "sold_out_request \<Rightarrow> adapter_result \<Rightarrow> validation_error + sold_out_result" where
  "sold_out_verdict q answer = (case answer of
       AdapterFailed f \<Rightarrow> waiting_verdict q ''READ_FACT_UNAVAILABLE'' (Some f)
     | AdapterOk output \<Rightarrow> (case map_of output ''sold_out_product'' of
           Some (JObj product) \<Rightarrow>
             if facts_closed q product
             then sold_out_result_create \<lparr>so_status = CONFIRMED_SUCCESS, so_attempt_id = ff_attempt_id (sq_failure q),
                    so_evidence = Some (sold_out_evidence q product), so_read_failure = None,
                    so_reason = ''SOLD_OUT_FACT_CONFIRMED''\<rparr>
             else waiting_verdict q ''PRODUCT_FACT_NOT_CLOSED'' None
         | _ \<Rightarrow> waiting_verdict q ''PRODUCT_EVIDENCE_MISSING'' None))"

type_synonym sold_out_service = "sold_out_request \<Rightarrow> sold_out_result world_program"

definition sold_out_reconcile :: "live_port \<Rightarrow> sold_out_service" where
  "sold_out_reconcile port q w = (case port (sold_out_query q) w of
       (Inl _, w') \<Rightarrow> (Inl Unexpected, w')
     | (Inr answer, w') \<Rightarrow> (map_sum (ModelRaised \<circ> ModelRejected) id (sold_out_verdict q answer), w'))"

lemma sold_out_result_create_eq:
  "sold_out_result_create r = Inr x \<longleftrightarrow> x = r \<and> so_attempt_id r \<noteq> '''' \<and> so_reason r \<noteq> ''''
     \<and> (if so_status r = CONFIRMED_SUCCESS then so_evidence r \<noteq> None \<and> so_read_failure r = None else so_evidence r = None)"
  by (auto simp: sold_out_result_create_def outcome)

lemma confirmed_facts:
  assumes "sold_out_verdict q answer = Inr r" and "so_status r = CONFIRMED_SUCCESS"
  obtains fields product n where "answer = AdapterOk fields" "map_of fields ''sold_out_product'' = Some (JObj product)"
    "map_of product ''product_id'' = Some (JStr (sq_product_id q))" "map_of product ''is_active'' = Some (JBool False)"
    "map_of product ''version'' = Some (JInt n)" "sq_expected_version q < n"
    "so_evidence r = Some (sold_out_evidence q product)" "so_attempt_id r = ff_attempt_id (sq_failure q)"
    "facts_closed q product"
  using assms that
  by (auto simp: sold_out_verdict_def waiting_verdict_def sold_out_result_create_eq facts_closed_def
      split: adapter_result.splits option.splits json.splits if_splits)

end
