(* ===== verification/Preemption.thy ===== *)
theory Preemption
  imports SideEffects ImpactFreeze
begin

section \<open>The preemption coordinator\<close>

text \<open>
  \<open>preemption.py\<close>: the one driver that takes an inventory event from the inbox to a new version of
  the root plan. Each stage writes to a store before the next one starts, so after a crash the state
  of inbox and application says where to go on. The coordinator owns no state; its collaborators
  are the fields of \<open>coordinator\<close>: the worker of the emergency plans with its executor and the schedule
  of its calls (per cycle), the capability profiles, the read-only reconciliation service, the
  clock and the wall clock of the plan store, and what pydantic makes of stored JSON.
\<close>

record coordinator =
  pc_worker_id :: string
  pc_worker :: worker
  pc_execute :: executor
  pc_order :: "nat \<Rightarrow> schedule"
  pc_profile :: capability_profile
  pc_replan_profile :: capability_profile
  pc_repr :: "json \<Rightarrow> string"
  pc_reconciler :: "sold_out_service option"
  pc_clock :: "nat \<Rightarrow> pytime"
  pc_wall :: "nat \<Rightarrow> int"
  pc_parse_failure :: "json \<Rightarrow> failure_fact option"
  pc_parse_impact :: "json \<Rightarrow> impact_analysis option"
  pc_load_batch :: "json \<Rightarrow> validation_error + card_batch_input"

definition coordinator_ok :: "coordinator \<Rightarrow> bool" where
  "coordinator_ok pc \<longleftrightarrow> pc_worker_id pc \<noteq> ''''"

definition coordinator_time :: "pytime \<Rightarrow> pytime world_program" where
  "coordinator_time t = sread (\<lambda>_. rbind (aware_utc (EngineInvariant NaiveClock) t) (\<lambda>us. Inr (Aware us)))"

definition wall_clock :: "coordinator \<Rightarrow> int world_program" where
  "wall_clock pc w = (Inr (pc_wall pc (wd_readings w)), w\<lparr>wd_readings := wd_readings w + 1\<rparr>)"

definition model_step :: "validation_error + 'a \<Rightarrow> 'a world_program" where
  "model_step r = pure_step (ModelRaised \<circ> ModelRejected) r"

text \<open>
  Stored JSON is parsed by pydantic, then checked by the validators of the model:
  \<open>FailureFact.model_validate\<close> and \<open>ImpactAnalysis.model_validate\<close>.
\<close>

definition load_failure :: "coordinator \<Rightarrow> json \<Rightarrow> validation_error + failure_fact" where
  "load_failure pc j =
     rbind (of_option FieldInvalid (pc_parse_failure pc j)) (\<lambda>f.
     rbind (guard (ff_external_code f \<noteq> '''' \<and> ff_attempt_id f \<noteq> ''''
       \<and> (case ff_retry_after_seconds f of None \<Rightarrow> True | Some s \<Rightarrow> 0 \<le> s)) FieldInvalid) (\<lambda>_. Inr f))"

definition load_impact :: "coordinator \<Rightarrow> json option \<Rightarrow> engine_error + impact_analysis" where
  "load_impact pc stored =
     rbind (of_option ImpactRaised (Option.bind stored (pc_parse_impact pc))) (\<lambda>a.
     map_sum (\<lambda>_. ImpactRaised) id (impact_analysis_create a))"

definition dump_impact :: "impact_analysis \<Rightarrow> json" where
  "dump_impact a = (case digest_payload a of
       JObj kvs \<Rightarrow> JObj (kvs @ [(''analysis_digest'', JStr (ia_analysis_digest a))]) | j \<Rightarrow> j)"

subsection \<open>Results\<close>

datatype preemption_status = P_APPLIED | P_WAITING_RECONCILIATION | P_RETRY_PENDING | P_FAILED | P_IDLE

record preemption_evidence =
  pe_event_id :: string
  pe_root :: string
  pe_state :: app_state
  pe_emergency :: string
  pe_applied_version :: int
  pe_fact :: string
  pe_digest :: string

definition app_state_value :: "app_state \<Rightarrow> string" where
  "app_state_value st = (case st of A_PENDING \<Rightarrow> ''PENDING'' | A_FREEZING \<Rightarrow> ''FREEZING''
     | A_EMERGENCY_RUNNING \<Rightarrow> ''EMERGENCY_RUNNING'' | A_WAITING_RECONCILIATION \<Rightarrow> ''WAITING_RECONCILIATION''
     | A_REPLAN_READY \<Rightarrow> ''REPLAN_READY'' | A_APPLIED \<Rightarrow> ''APPLIED'' | A_FAILED \<Rightarrow> ''FAILED'')"

definition evidence_payload :: "preemption_evidence \<Rightarrow> json" where
  "evidence_payload e = JObj
     [(''event_id'', JStr (pe_event_id e)), (''root_plan_run_id'', JStr (pe_root e)),
      (''application_state'', JStr (app_state_value (pe_state e))),
      (''emergency_plan_run_id'', JStr (pe_emergency e)),
      (''applied_plan_version'', JInt (pe_applied_version e)),
      (''final_suggestion_fact'', JStr (pe_fact e))]"

definition evidence_validate :: "preemption_evidence \<Rightarrow> validation_error + preemption_evidence" where
  "evidence_validate e =
     rbind (guard (pe_event_id e \<noteq> '''' \<and> pe_root e \<noteq> '''' \<and> pe_emergency e \<noteq> '''' \<and> 1 \<le> pe_applied_version e
       \<and> pe_fact e \<noteq> '''' \<and> is_sha256 (pe_digest e)) FieldInvalid) (\<lambda>_.
     rbind (guard (pe_digest e = canonical_sha256 (evidence_payload e)) IdentityMismatch) (\<lambda>_.
     rbind (guard (pe_state e = A_APPLIED) ShapeInvalid) (\<lambda>_. Inr e)))"

definition evidence_create ::
  "string \<Rightarrow> string \<Rightarrow> app_state \<Rightarrow> string \<Rightarrow> int \<Rightarrow> string \<Rightarrow> validation_error + preemption_evidence" where
  "evidence_create event_id root_id st emergency version message =
     (let e = \<lparr>pe_event_id = event_id, pe_root = root_id, pe_state = st, pe_emergency = emergency,
                pe_applied_version = version, pe_fact = message, pe_digest = ''''\<rparr>
      in evidence_validate (e\<lparr>pe_digest := canonical_sha256 (evidence_payload e)\<rparr>))"

record preemption_result =
  px_status :: preemption_status
  px_event_id :: "string option"
  px_root :: string
  px_evidence :: "preemption_evidence option"
  px_failure :: "failure_fact option"

definition outcome_result :: "preemption_status \<Rightarrow> string \<Rightarrow> string \<Rightarrow> preemption_result" where
  "outcome_result st event_id root_id = \<lparr>px_status = st, px_event_id = Some event_id, px_root = root_id,
     px_evidence = None, px_failure = None\<rparr>"

definition coordinator_failure :: "string \<Rightarrow> failure_fact" where
  "coordinator_failure event_id = \<lparr>ff_category = INTERNAL_INVARIANT,
     ff_external_code = ''preemption.coordinator_failed'', ff_side_effect_state = NOT_SENT,
     ff_attempt_id = ''preemption:'' @ event_id, ff_retry_after_seconds = None\<rparr>"

text \<open>The last prompt of the emergency plan, or a fixed sentence (the UTF-8 bytes of the source).\<close>

definition default_message :: string where
  "default_message = map char_of [229, 148, 174, 231, 189, 132, 228, 186, 139, 228, 187, 182, 229, 183, 178, 229, 174, 140,
     230, 136, 144, 231, 161, 174, 229, 174, 154, 230, 128, 167, 229, 164, 132, 231, 144, 134 :: nat]"

definition prompt_message :: "json \<Rightarrow> string option" where
  "prompt_message output = (case output of
       JObj kvs \<Rightarrow> (case map_of kvs ''prompt'' of
           Some (JObj prompt) \<Rightarrow> (case map_of prompt ''message'' of Some (JStr t) \<Rightarrow> Some t | _ \<Rightarrow> None)
         | _ \<Rightarrow> None)
     | _ \<Rightarrow> None)"

fun final_message :: "string \<Rightarrow> plan_store \<Rightarrow> node_view_rec list \<Rightarrow> string \<Rightarrow> store_error + string" where
  "final_message child s [] m = Inr m"
| "final_message child s (n # ns) m =
     (if nv_logical_key n \<noteq> ''generate-sold-out-prompt'' then final_message child s ns m
      else rbind (list_node_runs child (Some (nv_id n)) s) (\<lambda>rs.
           final_message child s ns (case rs of [] \<Rightarrow> m
             | _ \<Rightarrow> (case prompt_message (nr_output (last rs)) of None \<Rightarrow> m | Some t \<Rightarrow> t))))"

definition evidence_of :: "application_record \<Rightarrow> plan_store \<Rightarrow> engine_error + preemption_evidence" where
  "evidence_of a s =
     rbind (guard (ap_state a = A_APPLIED) (EngineInvariant NotApplied)) (\<lambda>_.
     rbind (of_option (EngineInvariant NoChildRun) (ap_emergency a)) (\<lambda>child.
     rbind (map_sum PlanRaised id (list_nodes child None s)) (\<lambda>ns.
     rbind (map_sum PlanRaised id (final_message child s ns default_message)) (\<lambda>message.
     rbind (of_option (ModelRaised (ModelRejected FieldInvalid)) (ap_applied_version a)) (\<lambda>n.
     map_sum (ModelRaised \<circ> ModelRejected) id (evidence_create (ap_event_id a) (ap_root a) (ap_state a) child n message))))))"

subsection \<open>The emergency plan\<close>

definition emergency_request :: "inbox_record \<Rightarrow> string \<Rightarrow> emergency_input" where
  "emergency_request r root_id = (let e = ir_event r in
     \<lparr>em_room_id = ev_room_id e, em_trace_id = ev_event_id e @ '':'' @ root_id, em_root_plan_run_id = root_id,
      em_parent_plan_run_id = root_id, em_trigger_event_id = ev_event_id e, em_event = e,
      em_provenance = ir_provenance r, em_product_id = '''', em_expected_version = ev_observed_version e,
      em_run_key = ''''\<rparr>)"

definition emergency_capability ::
  "capability_profile \<Rightarrow> emergency_input \<Rightarrow> candidate_node \<Rightarrow> capability_error + plan_capability" where
  "emergency_capability pf m n = (case cn_skill_id n of
       None \<Rightarrow> resolve_emergency_control_node (cn_logical_key n)
     | Some skill \<Rightarrow> resolve_emergency_skill_node pf skill (em_room_id m) (em_product_id m))"

fun emergency_capabilities ::
  "capability_profile \<Rightarrow> emergency_input \<Rightarrow> candidate_node list \<Rightarrow> (string, plan_capability) dict
     \<Rightarrow> capability_error + (string, plan_capability) dict" where
  "emergency_capabilities pf m [] caps = Inr caps"
| "emergency_capabilities pf m (n # ns) caps =
     rbind (emergency_capability pf m n) (\<lambda>c.
     emergency_capabilities pf m ns (dset (cn_logical_key n) c caps))"

definition emergency_plan :: "capability_profile \<Rightarrow> inbox_record \<Rightarrow> string \<Rightarrow> engine_error + materialized_plan" where
  "emergency_plan pf r root_id =
     rbind (map_sum (ModelRaised \<circ> ModelRejected) id (close_emergency_facts (emergency_request r root_id))) (\<lambda>m.
     rbind (map_sum (ModelRaised \<circ> ModelRejected) id (propose_sold_out m)) (\<lambda>proposal.
     rbind (map_sum (\<lambda>_. CapabilityRaised) id (emergency_capabilities pf m (cp_nodes proposal) [])) (\<lambda>caps.
     map_sum ModelRaised id (materialized_plan_init (Emergency m) proposal caps))))"

subsection \<open>Calls under the lease of the claimed event\<close>

type_synonym event_claim = "inbox_record \<times> nat"

definition claim_event_id :: "event_claim \<Rightarrow> string" where
  "claim_event_id c = ev_event_id (ir_event (fst c))"

text \<open>\<open>claim.record.lease_owner or self._worker_id\<close>.\<close>

definition claim_owner :: "coordinator \<Rightarrow> event_claim \<Rightarrow> string" where
  "claim_owner pc c = (case ir_owner (fst c) of Some w \<Rightarrow> if w = '''' then pc_worker_id pc else w
     | None \<Rightarrow> pc_worker_id pc)"

definition keep_lease :: "coordinator \<Rightarrow> event_claim \<Rightarrow> pytime \<Rightarrow> unit world_program" where
  "keep_lease pc c now = sbind (on_engine (event_call
     (heartbeat (claim_event_id c) (claim_owner pc c) (snd c) now 60))) (\<lambda>_. sreturn ())"

definition close_claim ::
  "event_claim \<Rightarrow> string option \<Rightarrow> inbox_state \<Rightarrow> pytime \<Rightarrow> failure_fact option \<Rightarrow> unit world_program" where
  "close_claim c owner target now failure = sbind (on_engine (event_call
     (transition_inbox (claim_event_id c) I_PROCESSING target now owner (Some (snd c)) failure))) (\<lambda>_. sreturn ())"

definition move_application ::
  "string \<Rightarrow> string \<Rightarrow> app_state \<Rightarrow> app_state \<Rightarrow> pytime \<Rightarrow> string option \<Rightarrow> json option \<Rightarrow> failure_fact option
     \<Rightarrow> application_record world_program" where
  "move_application event_id root_id from target now emergency impact failure = on_engine (event_call
     (transition_application event_id root_id from target now emergency None impact failure))"

subsection \<open>\<open>_run_child\<close>\<close>

definition ended :: "plan_run_rec \<Rightarrow> bool" where
  "ended r \<longleftrightarrow> pl_state r \<in> {R_SUCCEEDED, R_FAILED}"

fun run_child ::
  "(nat \<Rightarrow> string) \<Rightarrow> coordinator \<Rightarrow> string \<Rightarrow> event_claim \<Rightarrow> nat \<Rightarrow> plan_run_rec world_program" where
  "run_child u pc child c 0 = sraise (EngineInvariant TooManyChildCycles)"
| "run_child u pc child c (Suc cycles) =
     sbind (read_clock (pc_clock pc)) (\<lambda>t.
     sbind (coordinator_time t) (\<lambda>now.
     sbind (keep_lease pc c now) (\<lambda>_.
     sbind (on_engine (plan_query (get_plan_run child))) (\<lambda>run.
     if ended run then sreturn run
     else sbind (run_once u (pc_execute pc) (pc_order pc cycles) (pc_worker pc) child None) (\<lambda>batch.
          sbind (on_engine (plan_query (get_plan_run child))) (\<lambda>run.
          if wr_waiting_human batch \<noteq> 0 \<or> wr_waiting_approval batch \<noteq> 0 \<or> wr_retried batch \<noteq> 0 \<or> wr_claimed batch = 0
          then sreturn run
          else run_child u pc child c cycles))))))"

subsection \<open>\<open>_resume_application\<close>, stage by stage\<close>

text \<open>The application is applied already: only the inbox is left to close.\<close>

definition resume_applied ::
  "coordinator \<Rightarrow> event_claim \<Rightarrow> string \<Rightarrow> pytime \<Rightarrow> application_record \<Rightarrow> preemption_result world_program" where
  "resume_applied pc c root_id now a =
     sbind (keep_lease pc c now) (\<lambda>_.
     sbind (close_claim c (Some (claim_owner pc c)) I_APPLIED now None) (\<lambda>_.
     sbind (sread (\<lambda>w. evidence_of a (wd_plans w))) (\<lambda>e.
     sreturn ((outcome_result P_APPLIED (claim_event_id c) root_id)\<lparr>px_evidence := Some e\<rparr>))))"

definition resume_failed ::
  "coordinator \<Rightarrow> event_claim \<Rightarrow> string \<Rightarrow> pytime \<Rightarrow> application_record \<Rightarrow> preemption_result world_program" where
  "resume_failed pc c root_id now a =
     (let failure = (case ap_failure a of None \<Rightarrow> coordinator_failure (claim_event_id c) | Some f \<Rightarrow> f) in
      sbind (if ir_state (fst c) = I_PROCESSING
             then close_claim c (Some (claim_owner pc c)) I_FAILED now (Some failure)
             else sreturn ()) (\<lambda>_.
      sreturn ((outcome_result P_FAILED (claim_event_id c) root_id)\<lparr>px_failure := Some failure\<rparr>)))"

definition pending_stage ::
  "event_claim \<Rightarrow> plan_run_rec \<Rightarrow> string \<Rightarrow> pytime \<Rightarrow> application_record \<Rightarrow> application_record world_program" where
  "pending_stage c base root_id now a =
     (if ap_state a \<noteq> A_PENDING then sreturn a
      else sbind (on_engine (plan_query (list_nodes root_id (Some (PyInt (pl_current_version base)))))) (\<lambda>ns.
           sbind (pure_step (\<lambda>_. ImpactRaised) (analyze (fst c) base ns None)) (\<lambda>analysis.
           move_application (claim_event_id c) root_id A_PENDING A_FREEZING now None (Some (dump_impact analysis)) None)))"

definition freezing_stage ::
  "(nat \<Rightarrow> string) \<Rightarrow> coordinator \<Rightarrow> event_claim \<Rightarrow> plan_run_rec \<Rightarrow> string \<Rightarrow> pytime \<Rightarrow> application_record
     \<Rightarrow> application_record world_program" where
  "freezing_stage u pc c base root_id now a =
     (if ap_state a \<noteq> A_FREEZING then sreturn a
      else sbind (pure_step id (load_impact pc (ap_impact a))) (\<lambda>analysis.
           sbind (on_engine (plan_call (apply_impact_freeze root_id (PyInt (pl_current_version base)) (claim_event_id c)
             analysis now))) (\<lambda>_.
           sbind (pure_step id (emergency_plan (pc_profile pc) (fst c) root_id)) (\<lambda>plan.
           sbind (wall_clock pc) (\<lambda>wall.
           sbind (on_engine (plan_call (create_or_resume u wall plan))) (\<lambda>child.
           move_application (claim_event_id c) root_id A_FREEZING A_EMERGENCY_RUNNING now (Some (pl_id child)) None None))))))"

text \<open>The emergency plan runs; the stage ends the run of the coordinator or hands on the application.\<close>

definition child_failed ::
  "event_claim \<Rightarrow> string \<Rightarrow> pytime \<Rightarrow> preemption_result world_program" where
  "child_failed c root_id now =
     (let failure = coordinator_failure (claim_event_id c) in
      sbind (move_application (claim_event_id c) root_id A_EMERGENCY_RUNNING A_FAILED now None None (Some failure)) (\<lambda>_.
      sbind (close_claim c (ir_owner (fst c)) I_FAILED now (Some failure)) (\<lambda>_.
      sreturn ((outcome_result P_FAILED (claim_event_id c) root_id)\<lparr>px_failure := Some failure\<rparr>))))"

definition child_unfinished ::
  "coordinator \<Rightarrow> event_claim \<Rightarrow> string \<Rightarrow> pytime \<Rightarrow> string \<Rightarrow> preemption_result world_program" where
  "child_unfinished pc c root_id now child =
     sbind (on_engine (plan_query (list_nodes child None))) (\<lambda>ns.
     if list_ex (\<lambda>n. nv_state n = N_WAITING_RECONCILIATION) ns
     then sbind (move_application (claim_event_id c) root_id A_EMERGENCY_RUNNING A_WAITING_RECONCILIATION now None None None) (\<lambda>_.
          sbind (close_claim c (Some (claim_owner pc c)) I_WAITING_HUMAN now None) (\<lambda>_.
          sreturn (outcome_result P_WAITING_RECONCILIATION (claim_event_id c) root_id)))
     else sbind (close_claim c (Some (claim_owner pc c)) I_VERIFIED now None) (\<lambda>_.
          sreturn (outcome_result P_RETRY_PENDING (claim_event_id c) root_id)))"

definition child_cycles :: nat where
  "child_cycles = 16"

definition running_stage ::
  "(nat \<Rightarrow> string) \<Rightarrow> coordinator \<Rightarrow> event_claim \<Rightarrow> string \<Rightarrow> pytime \<Rightarrow> application_record
     \<Rightarrow> (preemption_result + application_record) world_program" where
  "running_stage u pc c root_id now a =
     (if ap_state a \<noteq> A_EMERGENCY_RUNNING then sreturn (Inr a)
      else sbind (pure_step id (of_option (EngineInvariant NoChildRun) (ap_emergency a))) (\<lambda>child.
           sbind (run_child u pc child c child_cycles) (\<lambda>run.
           if pl_state run = R_FAILED then sbind (child_failed c root_id now) (\<lambda>r. sreturn (Inl r))
           else if pl_state run \<noteq> R_SUCCEEDED
           then sbind (child_unfinished pc c root_id now child) (\<lambda>r. sreturn (Inl r))
           else sbind (move_application (claim_event_id c) root_id A_EMERGENCY_RUNNING A_REPLAN_READY now None None None) (\<lambda>b.
                sreturn (Inr b)))))"

definition replan_signature :: "string \<Rightarrow> impact_analysis \<Rightarrow> string" where
  "replan_signature event_id a = canonical_sha256 (JObj
     [(''event_id'', JStr event_id), (''analysis_digest'', JStr (ia_analysis_digest a))])"

definition replan_stage ::
  "(nat \<Rightarrow> string) \<Rightarrow> coordinator \<Rightarrow> event_claim \<Rightarrow> plan_run_rec \<Rightarrow> string \<Rightarrow> pytime \<Rightarrow> application_record
     \<Rightarrow> application_record world_program" where
  "replan_stage u pc c base root_id now a =
     (if ap_state a \<noteq> A_REPLAN_READY then sreturn a
      else sbind (on_engine (plan_query (get_plan_version root_id (PyInt (pl_current_version base))))) (\<lambda>version.
           sbind (model_step (pc_load_batch pc (opt_json id (ver_planning_input version)))) (\<lambda>batch.
           sbind (on_engine (event_query (get_application (claim_event_id c) root_id))) (\<lambda>stored.
           sbind (pure_step id (load_impact pc (ap_impact stored))) (\<lambda>analysis.
           sbind (on_engine (replan u (pc_replan_profile pc) (pc_repr pc) root_id batch
             (replan_signature (claim_event_id c) analysis) now)) (\<lambda>_.
           sbind (on_engine (event_query (get_application (claim_event_id c) root_id))) (\<lambda>b.
           sbind (require (ap_state b = A_APPLIED) (EngineInvariant NotClosedByReplan)) (\<lambda>_.
           sbind (read_clock (pc_clock pc)) (\<lambda>t.
           sbind (coordinator_time t) (\<lambda>completed.
           sbind (keep_lease pc c completed) (\<lambda>_.
           sbind (close_claim c (ir_owner (fst c)) I_APPLIED completed None) (\<lambda>_.
           sreturn b))))))))))))"

definition resume_application ::
  "(nat \<Rightarrow> string) \<Rightarrow> coordinator \<Rightarrow> event_claim \<Rightarrow> string \<Rightarrow> pytime \<Rightarrow> application_record \<Rightarrow> preemption_result world_program" where
  "resume_application u pc c root_id now a =
     sbind (on_engine (plan_query (get_plan_run root_id))) (\<lambda>base.
     if ap_state a = A_APPLIED then resume_applied pc c root_id now a
     else if ap_state a = A_WAITING_RECONCILIATION
     then sreturn (outcome_result P_WAITING_RECONCILIATION (claim_event_id c) root_id)
     else if ap_state a = A_FAILED then resume_failed pc c root_id now a
     else sbind (pending_stage c base root_id now a) (\<lambda>a1.
          sbind (freezing_stage u pc c base root_id now a1) (\<lambda>a2.
          sbind (running_stage u pc c root_id now a2) (\<lambda>r. case r of
            Inl result \<Rightarrow> sreturn result
          | Inr a3 \<Rightarrow>
              sbind (replan_stage u pc c base root_id now a3) (\<lambda>a4.
              sbind (sread (\<lambda>w. evidence_of a4 (wd_plans w))) (\<lambda>e.
              sreturn ((outcome_result P_APPLIED (claim_event_id c) root_id)\<lparr>px_evidence := Some e\<rparr>)))))))"

subsection \<open>\<open>run_next\<close>\<close>

text \<open>\<open>u\<close> and \<open>v\<close> give the identifiers of the plan store and of the event store.\<close>

definition active_roots :: "string \<Rightarrow> plan_store \<Rightarrow> engine_error + string list" where
  "active_roots room s =
     rbind (map_sum PlanRaised id (list_plan_runs False s)) (\<lambda>rs.
     Inr (sort (map pl_id (filter (\<lambda>r. pl_room_id r = room \<and> pl_plan_kind r = CARD_BATCH) rs))))"

definition claimed_event ::
  "(nat \<Rightarrow> string) \<Rightarrow> (nat \<Rightarrow> string) \<Rightarrow> coordinator \<Rightarrow> event_claim \<Rightarrow> plan_run_rec \<Rightarrow> string \<Rightarrow> pytime
     \<Rightarrow> preemption_result world_program" where
  "claimed_event u v pc c selected root_id now =
     sbind (sread (\<lambda>w. active_roots (pl_room_id selected) (wd_plans w))) (\<lambda>roots.
     if roots \<noteq> [root_id]
     then sbind (close_claim c (Some (claim_owner pc c)) I_VERIFIED now None) (\<lambda>_.
          sreturn (outcome_result P_RETRY_PENDING (claim_event_id c) root_id))
     else if pl_room_id selected \<noteq> ev_room_id (ir_event (fst c))
     then let failure = coordinator_failure (claim_event_id c) in
          sbind (close_claim c (ir_owner (fst c)) I_FAILED now (Some failure)) (\<lambda>_.
          sreturn ((outcome_result P_FAILED (claim_event_id c) root_id)\<lparr>px_failure := Some failure\<rparr>))
     else sbind (on_engine (plan_query (get_plan_run root_id))) (\<lambda>base.
          sbind (on_engine (event_call (create_application v (claim_event_id c) root_id (pl_current_version base) now)))
            (\<lambda>(created, a). resume_application u pc c root_id now a)))"

definition run_next ::
  "(nat \<Rightarrow> string) \<Rightarrow> (nat \<Rightarrow> string) \<Rightarrow> coordinator \<Rightarrow> string \<Rightarrow> pytime \<Rightarrow> preemption_result world_program" where
  "run_next u v pc root_id t =
     sbind (coordinator_time t) (\<lambda>now.
     sbind (on_engine (plan_query (get_plan_run root_id))) (\<lambda>selected.
     sbind (sread (\<lambda>w. active_roots (pl_room_id selected) (wd_plans w))) (\<lambda>roots.
     sbind (require (roots = [root_id]) (EngineInvariant AmbiguousRoot)) (\<lambda>_.
     sbind (on_engine (event_call (claim_next_for_room (pc_worker_id pc) (pl_room_id selected) now 60))) (\<lambda>claim.
     case claim of
       None \<Rightarrow> sreturn \<lparr>px_status = P_IDLE, px_event_id = None, px_root = root_id, px_evidence = None, px_failure = None\<rparr>
     | Some c \<Rightarrow> claimed_event u v pc c selected root_id now)))))"

subsection \<open>\<open>reconcile_waiting\<close>\<close>

definition reopen_inbox :: "string \<Rightarrow> string \<Rightarrow> pytime \<Rightarrow> preemption_result world_program" where
  "reopen_inbox event_id root_id now =
     sbind (on_engine (event_call (transition_inbox event_id I_WAITING_HUMAN I_VERIFIED now None None None))) (\<lambda>_.
     sreturn (outcome_result P_RETRY_PENDING event_id root_id))"

definition recorded_failure :: "coordinator \<Rightarrow> node_run_rec list \<Rightarrow> engine_error + failure_fact" where
  "recorded_failure pc rs = (case rs of
       [] \<Rightarrow> Inl (EngineInvariant NoFailureFact)
     | _ \<Rightarrow> (case nr_output (last rs) of
         JObj kvs \<Rightarrow> map_sum (ModelRaised \<circ> ModelRejected) id
           (load_failure pc (case map_of kvs ''failure'' of None \<Rightarrow> JNull | Some j \<Rightarrow> j))
       | _ \<Rightarrow> Inl (EngineInvariant NoFailureFact)))"

text \<open>The query, and the closing of the node on a confirmation; \<open>False\<close> when the effect is still unknown.\<close>

definition confirm_sold_out ::
  "coordinator \<Rightarrow> sold_out_service \<Rightarrow> inbox_record \<Rightarrow> string \<Rightarrow> node_view_rec \<Rightarrow> int \<Rightarrow> bool world_program" where
  "confirm_sold_out pc service inbox child n us =
     sbind (on_engine (plan_query (list_node_runs child (Some (nv_id n))))) (\<lambda>rs.
     sbind (pure_step id (recorded_failure pc rs)) (\<lambda>failure.
     sbind (model_step (build_verified_event_authorization (ev_event_id (ir_event inbox))
       (pv_provenance_id (ir_provenance inbox)) (ev_payload_digest (ir_event inbox))
       (ev_observed_version (ir_event inbox)))) (\<lambda>authorization.
     sbind (on_engine (plan_query (get_plan_run child))) (\<lambda>run.
     sbind (model_step (sold_out_request_create (ev_room_id (ir_event inbox)) (pl_trace_id run)
       (ev_product_id (ir_event inbox)) (ev_observed_version (ir_event inbox)) authorization failure
       (Aware (us + seconds 30)))) (\<lambda>q.
     sbind (service q) (\<lambda>result.
     if so_status result = STILL_WAITING then sreturn False
     else sbind (wall_clock pc) (\<lambda>wall.
          sbind (on_engine (plan_call (reconcile_plan_reference wall child (nv_id n) (py_node_state N_SUCCEEDED)
            (py_of_json (JObj [(''side_effect_reconciliation'', dump_sold_out_result result)]))))) (\<lambda>_.
          sreturn True))))))))"

definition reconcile_waiting ::
  "coordinator \<Rightarrow> string \<Rightarrow> string \<Rightarrow> pytime \<Rightarrow> preemption_result world_program" where
  "reconcile_waiting pc event_id root_id t =
     sbind (pure_step id (of_option (EngineInvariant NoReconciliationService) (pc_reconciler pc))) (\<lambda>service.
     sbind (pure_step id (aware_utc (EngineInvariant NaiveClock) t)) (\<lambda>us.
     sbind (on_engine (event_query (get_application event_id root_id))) (\<lambda>a.
     sbind (on_engine (event_query (get_inbox event_id))) (\<lambda>inbox.
     if ap_state a = A_EMERGENCY_RUNNING \<and> ir_state inbox = I_WAITING_HUMAN
     then reopen_inbox event_id root_id (Aware us)
     else
       sbind (require (ap_state a = A_WAITING_RECONCILIATION) (EngineInvariant NotWaitingReconciliation)) (\<lambda>_.
       sbind (pure_step id (of_option (EngineInvariant NoChildRun) (ap_emergency a))) (\<lambda>child.
       sbind (on_engine (plan_query (list_nodes child None))) (\<lambda>ns.
       sbind (pure_step id (case filter (\<lambda>n. nv_logical_key n = ''mark-sold-out'') ns of
           [n] \<Rightarrow> Inr n | _ \<Rightarrow> Inl (EngineInvariant NoUniqueSoldOutNode))) (\<lambda>n.
       sbind (if nv_state n = N_WAITING_RECONCILIATION then confirm_sold_out pc service inbox child n us
              else if nv_state n = N_SUCCEEDED then sreturn True
              else sraise (EngineInvariant NotRecoverable)) (\<lambda>confirmed.
       if \<not> confirmed then sreturn (outcome_result P_WAITING_RECONCILIATION event_id root_id)
       else sbind (move_application event_id root_id A_WAITING_RECONCILIATION A_EMERGENCY_RUNNING (Aware us) None None None) (\<lambda>_.
            reopen_inbox event_id root_id (Aware us)))))))))))"

end
