(* ===== verification/PreemptionProofs.thy ===== *)
theory PreemptionProofs
  imports Preemption
begin

section \<open>What the preemption coordinator does to the stores\<close>

subsection \<open>Programs that make only lawful calls\<close>

definition lawful :: "(nat \<Rightarrow> string) \<Rightarrow> (nat \<Rightarrow> string) \<Rightarrow> 'a world_program \<Rightarrow> bool" where
  "lawful u v m \<longleftrightarrow> (\<forall>w. world_inv u w \<longrightarrow> moves u v w (snd (m w)))"

lemma lawfulI: "(\<And>w. world_inv u w \<Longrightarrow> moves u v w (snd (m w))) \<Longrightarrow> lawful u v m"
  by (simp add: lawful_def)

lemma lawful_bind:
  assumes inj: "inj u" and m: "lawful u v m" and f: "\<And>x w t. m w = (Inr x, t) \<Longrightarrow> lawful u v (f x)"
  shows "lawful u v (sbind m f)"
proof (rule lawfulI)
  fix w assume inv: "world_inv u w"
  obtain r t where r: "m w = (r, t)" by fastforce
  have one: "moves u v w t" using m inv r unfolding lawful_def by (metis snd_conv)
  show "moves u v w (snd (sbind m f w))"
  proof (cases r)
    case (Inl e)
    then show ?thesis using r one by simp
  next
    case (Inr x)
    then have "world_inv u t" using moves_good one inv inj by blast
    then have "moves u v t (snd (f x t))" using f r Inr unfolding lawful_def by blast
    then show ?thesis using r Inr moves_trans [OF one] by simp
  qed
qed

lemma lawful_silent:
  "lawful u v (sread f)" "lawful u v (sreturn x)" "lawful u v (sraise e)" "lawful u v (pure_step h r)"
  "lawful u v (require ok err)" "lawful u v (read_clock clock)" "lawful u v (wall_clock pc)"
  "lawful u v (coordinator_time t)" "lawful u v (model_step q)"
  "lawful u v (on_engine (plan_query g))" "lawful u v (on_engine (event_query k))"
  by (auto intro!: lawfulI simp: pure_step_def require_def read_clock_def wall_clock_def coordinator_time_def
      model_step_def plan_query_def event_query_def)

lemma lawful_if: "(b \<Longrightarrow> lawful u v m) \<Longrightarrow> (\<not> b \<Longrightarrow> lawful u v n) \<Longrightarrow> lawful u v (if b then m else n)"
  by simp

lemma lawful_plan_call:
  assumes "\<And>s. \<exists>now. store_step u now s (snd (f s))"
  shows "lawful u v (on_engine (plan_call f))"
  using obeys_plan_step [OF assms] unfolding lawful_def obeys_moves by blast

lemma lawful_event_call:
  assumes "\<And>t. event_step v t (snd (f t))" and "\<And>s t. ev_wf t \<Longrightarrow> applies_lawfully s t (snd (f t))"
  shows "lawful u v (on_engine (event_call f))"
proof (rule lawfulI)
  fix w assume "world_inv u w"
  then have "engine_step u v (wd_engine w) ((wd_engine w)\<lparr>en_events := snd (f (en_events (wd_engine w)))\<rparr>)"
    using assms by (intro engine_event) (auto simp: world_inv_def engine_inv_def)
  then have "obeys (engine_step u v) (event_call f) (wd_engine w)"
    by (intro obeys_step, cases "f (en_events (wd_engine w))") (simp add: event_call_def)
  then show "moves u v w (snd (on_engine (event_call f) w))"
    using obeys_on_engine unfolding obeys_moves by blast
qed

lemma same_applications:
  "es_applications (snd (heartbeat i worker token now lease t)) = es_applications t"
  "es_applications (snd (transition_inbox i expected target now owner token' failure t)) = es_applications t"
  "es_applications (snd (claim_next_for_room worker room now lease t)) = es_applications t"
  by (auto simp: heartbeat_def transition_inbox_def claim_next_for_room_def claim_event_def commit_def put_inbox_def
      split: sum.split option.split)

lemma create_application_lawful: "applies_lawfully s t (snd (create_application v i p n now t))"
  by (auto simp: create_application_def commit_def Let_def put_application_def applies_lawfully_def new_application_def
      application_record_init_def outcome split: sum.split option.split if_splits)

lemma lawful_events:
  "lawful u v (on_engine (event_call (heartbeat i worker token now lease)))"
  "lawful u v (on_engine (event_call (transition_inbox i expected target now owner token' failure)))"
  "lawful u v (on_engine (event_call (claim_next_for_room worker room now lease)))"
  "lawful u v (on_engine (event_call (create_application v i p n now)))"
  by (intro lawful_event_call event_heartbeat event_transition event_claim_room event_application
      applies_lawfully_frame same_applications create_application_lawful)+

lemma lawful_move:
  "target \<noteq> A_APPLIED \<Longrightarrow> lawful u v (move_application i p from target now emergency impact failure)"
  unfolding move_application_def
  by (intro lawful_event_call event_apply transition_application_lawful) auto

lemma lawful_lease: "inj u \<Longrightarrow> lawful u v (keep_lease pc c now)"
  and lawful_close: "inj u \<Longrightarrow> lawful u v (close_claim c owner target now failure)"
  unfolding keep_lease_def close_claim_def by (intro lawful_bind lawful_events lawful_silent; simp)+

lemma lawful_replan:
  assumes "inj u"
  shows "lawful u v (on_engine (replan u pf repr p batch sig now))"
proof (rule lawfulI)
  fix w assume "world_inv u w"
  then have "obeys (engine_step u v) (replan u pf repr p batch sig now) (wd_engine w)"
    using replan_obeys assms by (simp add: world_inv_def)
  then show "moves u v w (snd (on_engine (replan u pf repr p batch sig now) w))"
    using obeys_on_engine unfolding obeys_moves by blast
qed

lemma lawful_run_once:
  assumes "inj u" and "lawful_executor u v execute"
  shows "lawful u v (run_once u execute order wk p deadline)"
proof (rule lawfulI)
  fix w assume inv: "world_inv u w"
  obtain res w' where b: "run_once u execute order wk p deadline w = (res, w')" by fastforce
  show "moves u v w (snd (run_once u execute order wk p deadline w))"
    using claim_batch_effect [OF inv assms store_step_any(4) b [unfolded run_once_batch]] b by simp
qed

definition lawful_coordinator :: "(nat \<Rightarrow> string) \<Rightarrow> (nat \<Rightarrow> string) \<Rightarrow> coordinator \<Rightarrow> bool" where
  "lawful_coordinator u v pc \<longleftrightarrow> lawful_executor u v (pc_execute pc)
     \<and> (\<forall>service q. pc_reconciler pc = Some service \<longrightarrow> lawful u v (service q))"

lemma store_step_more:
  "plan_wf plan \<Longrightarrow> \<exists>now. store_step u now s (snd (create_or_resume u wall plan s))"
  "\<exists>now. store_step u now s (snd (apply_impact_freeze i n e a t s))"
  "\<exists>now. store_step u now s (snd (reconcile_plan_reference wall i j r ref s))"
  by (blast intro: step_create step_impact step_reconcile clock_of_at)+

lemma emergency_plan_wf: "emergency_plan pf r root_id = Inr plan \<Longrightarrow> plan_wf plan"
  by (auto simp: emergency_plan_def rbind_eq_Inr map_sum_eq_Inr intro: materialized_plan_init_wf)

lemmas lawful_rules = lawful_bind lawful_silent lawful_if lawful_events lawful_move lawful_lease lawful_close
  lawful_replan lawful_run_once

lemma run_child_lawful:
  assumes inj: "inj u" and pc: "lawful_coordinator u v pc"
  shows "lawful u v (run_child u pc child c n)"
proof (induction n)
  case (Suc n)
  then show ?case
    using inj pc by (auto intro!: lawful_rules simp: lawful_coordinator_def)
qed (auto intro!: lawfulI)

lemma pending_stage_lawful: "inj u \<Longrightarrow> lawful u v (pending_stage c base p now a)"
  unfolding pending_stage_def by (intro lawful_rules) auto

lemma freezing_stage_lawful:
  assumes inj: "inj u"
  shows "lawful u v (freezing_stage u pc c base p now a)"
  unfolding freezing_stage_def
proof (intro lawful_rules inj)
  show "lawful u v (on_engine (plan_call (create_or_resume u wall plan)))"
    if "pure_step id (emergency_plan (pc_profile pc) (fst c) p) w = (Inr plan, t)" for w plan t wall
  proof -
    have "plan_wf plan" using that emergency_plan_wf by (auto simp: pure_step_eq_Inr)
    then show ?thesis by (intro lawful_plan_call store_step_more)
  qed
qed (auto intro!: lawful_plan_call store_step_more)

lemma running_stage_lawful:
  assumes inj: "inj u" and pc: "lawful_coordinator u v pc"
  shows "lawful u v (running_stage u pc c p now a)"
  unfolding running_stage_def child_failed_def child_unfinished_def Let_def
  by (intro lawful_rules inj run_child_lawful [OF inj pc]) auto

lemma resume_application_lawful:
  assumes inj: "inj u" and pc: "lawful_coordinator u v pc"
  shows "lawful u v (resume_application u pc c p now a)"
proof -
  have "lawful u v (replan_stage u pc c base p now a)" for base a
    unfolding replan_stage_def by (intro lawful_rules inj)
  moreover have "lawful u v (resume_failed pc c p now a)" "lawful u v (resume_applied pc c p now a)"
    unfolding resume_failed_def resume_applied_def Let_def by (intro lawful_rules inj)+
  ultimately show ?thesis
    unfolding resume_application_def
    by (auto intro!: lawful_rules inj pending_stage_lawful freezing_stage_lawful running_stage_lawful [OF inj pc]
        split: sum.split)
qed

lemma run_next_lawful:
  assumes inj: "inj u" and pc: "lawful_coordinator u v pc"
  shows "lawful u v (run_next u v pc p t)"
proof -
  have "lawful u v (claimed_event u v pc c selected p now)" for c selected now
    unfolding claimed_event_def Let_def
    by (auto intro!: lawful_rules inj resume_application_lawful pc split: prod.split)
  then show ?thesis unfolding run_next_def by (auto intro!: lawful_rules inj split: option.split)
qed

lemma reconcile_waiting_lawful:
  assumes inj: "inj u" and pc: "lawful_coordinator u v pc"
  shows "lawful u v (reconcile_waiting pc i p t)"
proof -
  have confirm: "lawful u v (confirm_sold_out pc service inbox child n us)" if "pc_reconciler pc = Some service"
    for service inbox child n us
    unfolding confirm_sold_out_def using pc that
    by (auto intro!: lawful_rules inj lawful_plan_call store_step_more simp: lawful_coordinator_def)
  have reopen: "lawful u v (reopen_inbox i p now)" for now
    unfolding reopen_inbox_def by (intro lawful_rules inj)
  show ?thesis
    unfolding reconcile_waiting_def
    by (intro lawful_rules inj reopen) (auto intro!: confirm simp: pure_step_eq_Inr of_option_eq_Inr)
qed

subsection \<open>The last call tells the outcome\<close>

definition wd_events :: "world \<Rightarrow> event_store" where
  "wd_events w = en_events (wd_engine w)"

lemma wd_events_simps [simp]:
  "wd_events (w\<lparr>wd_readings := n\<rparr>) = wd_events w" "wd_events (w\<lparr>wd_engine := e\<rparr>) = en_events e"
  "wd_plans (w\<lparr>wd_engine := e\<rparr>) = en_plans e"
  by (simp_all add: wd_events_def wd_plans_def)

definition inbox_is :: "world \<Rightarrow> string \<Rightarrow> inbox_state \<Rightarrow> bool" where
  "inbox_is w i st \<longleftrightarrow> (\<exists>r. dget (es_inbox (wd_events w)) i = Some r \<and> ir_state r = st)"

definition app_is :: "world \<Rightarrow> string \<Rightarrow> string \<Rightarrow> application_record \<Rightarrow> bool" where
  "app_is w i p a \<longleftrightarrow> dget (es_applications (wd_events w)) (i, p) = Some a"

lemma lawful_inv: "lawful u v m \<Longrightarrow> world_inv u w \<Longrightarrow> inj u \<Longrightarrow> m w = (r, w') \<Longrightarrow> world_inv u w'"
  using moves_good unfolding lawful_def by (metis snd_conv)

lemma world_events: "world_inv u w \<Longrightarrow> ev_wf (wd_events w)"
  by (simp add: world_inv_def engine_inv_def wd_events_def)

lemma close_claim_effect:
  assumes inv: "world_inv u w" and c: "close_claim c owner target now failure w = (Inr x, w')"
  shows "inbox_is w' (claim_event_id c) target \<and> es_applications (wd_events w') = es_applications (wd_events w)
    \<and> wd_plans w' = wd_plans w"
proof -
  obtain r' t where t: "transition_inbox (claim_event_id c) I_PROCESSING target now owner (Some (snd c)) failure (wd_events w) = (Inr r', t)"
    "w' = w\<lparr>wd_engine := (wd_engine w)\<lparr>en_events := t\<rparr>\<rparr>"
    using c by (auto simp: close_claim_def sbind_eq_Inr on_engine_eq_Inr event_call_eq_Inr wd_events_def)
  show ?thesis
    using t(1)
  proof (cases rule: transition_inbox_parts)
    case (1 us r)
    have "ev_event_id (ir_event r) = claim_event_id c"
      using world_events [OF inv] 1(2) unfolding ev_wf_def wf_inbox_def by blast
    then show ?thesis using t(2) 1 by (simp add: inbox_is_def put_inbox_def wd_plans_def wd_events_def)
  qed
qed

lemma keep_lease_effect:
  assumes "keep_lease pc c now w = (Inr x, w')"
  shows "es_applications (wd_events w') = es_applications (wd_events w) \<and> wd_plans w' = wd_plans w"
proof -
  obtain r' t where "heartbeat (claim_event_id c) (claim_owner pc c) (snd c) now 60 (wd_events w) = (Inr r', t)"
    "w' = w\<lparr>wd_engine := (wd_engine w)\<lparr>en_events := t\<rparr>\<rparr>"
    using assms by (auto simp: keep_lease_def sbind_eq_Inr on_engine_eq_Inr event_call_eq_Inr wd_events_def)
  then show ?thesis
    using same_applications(1) [of "claim_event_id c" "claim_owner pc c" "snd c" now 60 "wd_events w"]
    by (simp add: wd_plans_def)
qed

lemma move_application_effect:
  assumes inv: "world_inv u w" and m: "move_application i p from target now emergency impact failure w = (Inr b, w')"
  shows "app_is w' i p b \<and> ap_state b = target \<and> wd_plans w' = wd_plans w"
proof -
  obtain t where t: "transition_application i p from target now emergency None impact failure (wd_events w) = (Inr b, t)"
    "w' = w\<lparr>wd_engine := (wd_engine w)\<lparr>en_events := t\<rparr>\<rparr>"
    using m by (auto simp: move_application_def on_engine_eq_Inr event_call_eq_Inr wd_events_def)
  show ?thesis
    using t(1)
  proof (cases rule: transition_application_parts)
    case (1 us a)
    have "ap_event_id a = i" "ap_root a = p"
      using applicationD [OF world_events [OF inv] 1(2)] by (auto simp: application_ok_def)
    then show ?thesis using t(2) 1 by (simp add: app_is_def put_application_def wd_plans_def)
  qed
qed

lemma wall_clock_eq: "wall_clock pc w = (Inr x, w') \<longleftrightarrow> x = pc_wall pc (wd_readings w) \<and> w' = w\<lparr>wd_readings := wd_readings w + 1\<rparr>"
  by (auto simp: wall_clock_def)

lemma coordinator_time_eq: "coordinator_time t w = (Inr now, w') \<longleftrightarrow> (\<exists>us. t = Aware us) \<and> now = t \<and> w' = w"
  by (cases t) (auto simp: coordinator_time_def)

lemma on_plan_query_eq: "on_engine (plan_query g) w = (Inr x, w') \<longleftrightarrow> g (wd_plans w) = Inr x \<and> w' = w"
  by (auto simp: on_engine_eq_Inr plan_query_eq_Inr wd_plans_def)

lemma on_event_query_eq: "on_engine (event_query g) w = (Inr x, w') \<longleftrightarrow> g (wd_events w) = Inr x \<and> w' = w"
  by (auto simp: on_engine_eq_Inr event_query_eq_Inr wd_events_def)

lemmas stepwise = sbind_eq_Inr wall_clock_eq coordinator_time_eq on_plan_query_eq on_event_query_eq pure_step_eq_Inr
  require_eq_Inr read_clock_eq

subsection \<open>What each stage hands on\<close>

text \<open>An application that is not applied stays so until the replan; what is handed on is what is stored.\<close>

definition carries :: "string \<Rightarrow> string \<Rightarrow> world \<Rightarrow> application_record \<Rightarrow> bool" where
  "carries i p w a \<longleftrightarrow> app_is w i p a \<and> ap_state a \<noteq> A_APPLIED"

lemma pending_stage_carries:
  assumes inv: "world_inv u w" and "carries (claim_event_id c) p w a"
    and "pending_stage c base p now a w = (Inr b, w')"
  shows "carries (claim_event_id c) p w' b"
proof (cases "ap_state a = A_PENDING")
  case False
  then show ?thesis using assms by (simp add: pending_stage_def)
next
  case True
  then obtain analysis where "move_application (claim_event_id c) p A_PENDING A_FREEZING now None (Some (dump_impact analysis)) None w = (Inr b, w')"
    using assms(3) by (auto simp: pending_stage_def stepwise)
  then show ?thesis using move_application_effect [OF inv] by (auto simp: carries_def)
qed

lemma freezing_stage_carries:
  assumes inv: "world_inv u w" and inj: "inj u" and "carries (claim_event_id c) p w a"
    and f: "freezing_stage u pc c base p now a w = (Inr b, w')"
  shows "carries (claim_event_id c) p w' b"
proof (cases "ap_state a = A_FREEZING")
  case False
  then show ?thesis using assms by (simp add: freezing_stage_def)
next
  case True
  obtain analysis plan child w1 w2 wall views where
    w1: "on_engine (plan_call (apply_impact_freeze p (PyInt (pl_current_version base)) (claim_event_id c) analysis now)) w = (Inr views, w1)"
    and plan: "emergency_plan (pc_profile pc) (fst c) p = Inr plan"
    and w2: "on_engine (plan_call (create_or_resume u wall plan)) (w1\<lparr>wd_readings := wd_readings w1 + 1\<rparr>) = (Inr child, w2)"
    and m: "move_application (claim_event_id c) p A_FREEZING A_EMERGENCY_RUNNING now (Some (pl_id child)) None None w2 = (Inr b, w')"
    using f True by (auto simp: freezing_stage_def stepwise)
  have "world_inv u w1"
    using lawful_inv [OF lawful_plan_call [OF store_step_more(2)] inv inj w1] .
  then have "world_inv u (w1\<lparr>wd_readings := wd_readings w1 + 1\<rparr>)" by (simp add: world_inv_def)
  then have "world_inv u w2"
    using lawful_inv [OF lawful_plan_call [OF store_step_more(1) [OF emergency_plan_wf [OF plan]]] _ inj w2] by blast
  then show ?thesis using move_application_effect [OF _ m] by (auto simp: carries_def)
qed

definition reported :: "string \<Rightarrow> world \<Rightarrow> preemption_result \<Rightarrow> bool" where
  "reported p w x \<longleftrightarrow> px_root x = p \<and> (case px_status x of
       P_IDLE \<Rightarrow> px_event_id x = None \<and> px_evidence x = None
     | P_APPLIED \<Rightarrow> (\<exists>i a e. px_event_id x = Some i \<and> inbox_is w i I_APPLIED \<and> app_is w i p a \<and> ap_state a = A_APPLIED
         \<and> px_evidence x = Some e \<and> evidence_of a (wd_plans w) = Inr e)
     | P_WAITING_RECONCILIATION \<Rightarrow> (\<exists>i a. px_event_id x = Some i \<and> px_evidence x = None \<and> app_is w i p a
         \<and> ap_state a = A_WAITING_RECONCILIATION)
     | P_FAILED \<Rightarrow> (\<exists>i a. px_event_id x = Some i \<and> px_evidence x = None \<and> inbox_is w i I_FAILED \<and> app_is w i p a
         \<and> ap_state a = A_FAILED)
     | P_RETRY_PENDING \<Rightarrow> (\<exists>i. px_event_id x = Some i \<and> px_evidence x = None \<and> inbox_is w i I_VERIFIED))"

lemma outcome_result_sel [simp]:
  "px_status (outcome_result st i p) = st" "px_event_id (outcome_result st i p) = Some i"
  "px_root (outcome_result st i p) = p" "px_evidence (outcome_result st i p) = None"
  by (simp_all add: outcome_result_def)

lemma close_app_is:
  "world_inv u w \<Longrightarrow> close_claim c owner target now failure w = (Inr x, w') \<Longrightarrow>
     inbox_is w' (claim_event_id c) target \<and> app_is w' i p a = app_is w i p a \<and> wd_plans w' = wd_plans w"
  using close_claim_effect by (fastforce simp: app_is_def)

lemma child_failed_reported:
  assumes inv: "world_inv u w" and inj: "inj u" and f: "child_failed c p now w = (Inr x, w')"
  shows "reported p w' x"
proof -
  obtain b w1 y where m: "move_application (claim_event_id c) p A_EMERGENCY_RUNNING A_FAILED now None None
      (Some (coordinator_failure (claim_event_id c))) w = (Inr b, w1)"
    and c: "close_claim c (ir_owner (fst c)) I_FAILED now (Some (coordinator_failure (claim_event_id c))) w1 = (Inr y, w')"
    and x: "x = (outcome_result P_FAILED (claim_event_id c) p)\<lparr>px_failure := Some (coordinator_failure (claim_event_id c))\<rparr>"
    using f by (auto simp: child_failed_def Let_def stepwise)
  have "world_inv u w1" by (rule lawful_inv [OF lawful_move inv inj m]) simp
  then show ?thesis
    using move_application_effect [OF inv m] close_app_is [OF _ c, of u "claim_event_id c" p b]
    by (auto simp: reported_def x)
qed

lemma child_unfinished_reported:
  assumes inv: "world_inv u w" and inj: "inj u" and f: "child_unfinished pc c p now child w = (Inr x, w')"
  shows "reported p w' x"
proof -
  obtain ns where ns: "list_nodes child None (wd_plans w) = Inr ns" using f by (auto simp: child_unfinished_def stepwise)
  show ?thesis
  proof (cases "list_ex (\<lambda>n. nv_state n = N_WAITING_RECONCILIATION) ns")
    case True
    then obtain b w1 y where m: "move_application (claim_event_id c) p A_EMERGENCY_RUNNING A_WAITING_RECONCILIATION now None None None w = (Inr b, w1)"
      and c: "close_claim c (Some (claim_owner pc c)) I_WAITING_HUMAN now None w1 = (Inr y, w')"
      and x: "x = outcome_result P_WAITING_RECONCILIATION (claim_event_id c) p"
      using f ns by (auto simp: child_unfinished_def stepwise)
    have "world_inv u w1" by (rule lawful_inv [OF lawful_move inv inj m]) simp
    then show ?thesis
      using move_application_effect [OF inv m] close_app_is [OF _ c, of u "claim_event_id c" p b]
      by (auto simp: reported_def x)
  next
    case False
    then obtain y where c: "close_claim c (Some (claim_owner pc c)) I_VERIFIED now None w = (Inr y, w')"
      and x: "x = outcome_result P_RETRY_PENDING (claim_event_id c) p"
      using f ns by (auto simp: child_unfinished_def stepwise)
    then show ?thesis using close_app_is [OF inv c] by (auto simp: reported_def)
  qed
qed

lemma running_stage_hands_on:
  assumes inv: "world_inv u w" and inj: "inj u" and pc: "lawful_coordinator u v pc"
    and a: "carries (claim_event_id c) p w a" and f: "running_stage u pc c p now a w = (Inr r, w')"
  shows "(\<forall>x. r = Inl x \<longrightarrow> reported p w' x) \<and> (\<forall>b. r = Inr b \<longrightarrow> carries (claim_event_id c) p w' b)"
proof (cases "ap_state a = A_EMERGENCY_RUNNING")
  case False
  then show ?thesis using a f by (auto simp: running_stage_def)
next
  case True
  obtain child run w1 where run: "run_child u pc child c child_cycles w = (Inr run, w1)"
    and go: "(if pl_state run = R_FAILED then sbind (child_failed c p now) (\<lambda>r. sreturn (Inl r))
           else if pl_state run \<noteq> R_SUCCEEDED
           then sbind (child_unfinished pc c p now child) (\<lambda>r. sreturn (Inl r))
           else sbind (move_application (claim_event_id c) p A_EMERGENCY_RUNNING A_REPLAN_READY now None None None) (\<lambda>b.
                sreturn (Inr b))) w1 = (Inr r, w')"
    using f True by (auto simp: running_stage_def stepwise)
  note inv1 = lawful_inv [OF run_child_lawful [OF inj pc] inv inj run]
  show ?thesis
    using go child_failed_reported [OF inv1 inj, of c p now] child_unfinished_reported [OF inv1 inj, of pc c p now child]
      move_application_effect [OF inv1]
    by (auto simp: sbind_eq_Inr carries_def split: if_splits)
qed

lemma replan_stage_hands_on:
  assumes inv: "world_inv u w" and inj: "inj u" and a: "carries (claim_event_id c) p w a"
    and f: "replan_stage u pc c base p now a w = (Inr b, w')" and applied: "ap_state b = A_APPLIED"
  shows "app_is w' (claim_event_id c) p b \<and> inbox_is w' (claim_event_id c) I_APPLIED"
proof (cases "ap_state a = A_REPLAN_READY")
  case False
  then show ?thesis using a f applied by (auto simp: replan_stage_def carries_def)
next
  case True
  obtain batch sig r w1 t w2 y z where r: "on_engine (replan u (pc_replan_profile pc) (pc_repr pc) p batch sig now) w = (Inr r, w1)"
    and get: "get_application (claim_event_id c) p (wd_events w1) = Inr b"
    and lease: "keep_lease pc c t (w1\<lparr>wd_readings := wd_readings w1 + 1\<rparr>) = (Inr y, w2)"
    and close: "close_claim c (ir_owner (fst c)) I_APPLIED t None w2 = (Inr z, w')"
    using f True by (auto simp: replan_stage_def model_step_def stepwise)
  have inv1: "world_inv u (w1\<lparr>wd_readings := wd_readings w1 + 1\<rparr>)"
    using lawful_inv [OF lawful_replan [OF inj] inv inj r] by (simp add: world_inv_def)
  note inv2 = lawful_inv [OF lawful_lease [OF inj] inv1 inj lease]
  have "app_is w2 (claim_event_id c) p b"
    using get keep_lease_effect [OF lease] by (simp add: app_is_def get_application_def of_option_eq_Inr)
  then show ?thesis using close_app_is [OF inv2 close] by blast
qed

lemma resume_application_reported:
  assumes inv: "world_inv u w" and inj: "inj u" and pc: "lawful_coordinator u v pc"
    and a: "app_is w (claim_event_id c) p a" and claimed: "ir_state (fst c) = I_PROCESSING"
    and f: "resume_application u pc c p now a w = (Inr x, w')"
  shows "reported p w' x"
proof -
  obtain base where base: "get_plan_run p (wd_plans w) = Inr base" using f by (auto simp: resume_application_def stepwise)
  consider (applied) "ap_state a = A_APPLIED" | (waiting) "ap_state a = A_WAITING_RECONCILIATION"
    | (failed) "ap_state a = A_FAILED" | (go) "ap_state a \<notin> {A_APPLIED, A_WAITING_RECONCILIATION, A_FAILED}" by blast
  then show ?thesis
  proof cases
    case applied
    then obtain w1 e y z where l: "keep_lease pc c now w = (Inr y, w1)"
      and cl: "close_claim c (Some (claim_owner pc c)) I_APPLIED now None w1 = (Inr z, w')"
      and e: "evidence_of a (wd_plans w') = Inr e"
      and x: "x = (outcome_result P_APPLIED (claim_event_id c) p)\<lparr>px_evidence := Some e\<rparr>"
      using f base by (auto simp: resume_application_def resume_applied_def stepwise)
    have "app_is w1 (claim_event_id c) p a" using a keep_lease_effect [OF l] by (simp add: app_is_def)
    then show ?thesis
      using close_app_is [OF lawful_inv [OF lawful_lease [OF inj] inv inj l] cl] applied e by (auto simp: reported_def x)
  next
    case waiting
    then show ?thesis using f base a by (auto simp: resume_application_def stepwise reported_def)
  next
    case failed
    then obtain failure y where cl: "close_claim c (Some (claim_owner pc c)) I_FAILED now failure w = (Inr y, w')"
      and x: "px_status x = P_FAILED" "px_event_id x = Some (claim_event_id c)" "px_evidence x = None" "px_root x = p"
      using f base claimed by (auto simp: resume_application_def resume_failed_def Let_def stepwise)
    then show ?thesis using close_app_is [OF inv cl] a failed by (auto simp: reported_def)
  next
    case go
    then obtain a1 w1 a2 w2 r w3 where s1: "pending_stage c base p now a w = (Inr a1, w1)"
      and s2: "freezing_stage u pc c base p now a1 w1 = (Inr a2, w2)"
      and s3: "running_stage u pc c p now a2 w2 = (Inr r, w3)"
      and rest: "(case r of Inl result \<Rightarrow> sreturn result | Inr a3 \<Rightarrow>
          sbind (replan_stage u pc c base p now a3) (\<lambda>a4. sbind (sread (\<lambda>w. evidence_of a4 (wd_plans w))) (\<lambda>e.
          sreturn ((outcome_result P_APPLIED (claim_event_id c) p)\<lparr>px_evidence := Some e\<rparr>)))) w3 = (Inr x, w')"
      using f base by (auto simp: resume_application_def stepwise)
    have c0: "carries (claim_event_id c) p w a" using go a by (simp add: carries_def)
    note c1 = pending_stage_carries [OF inv c0 s1] and i1 = lawful_inv [OF pending_stage_lawful [OF inj] inv inj s1]
    note c2 = freezing_stage_carries [OF i1 inj c1 s2] and i2 = lawful_inv [OF freezing_stage_lawful [OF inj] i1 inj s2]
    note c3 = running_stage_hands_on [OF i2 inj pc c2 s3] and i3 = lawful_inv [OF running_stage_lawful [OF inj pc] i2 inj s3]
    show ?thesis
    proof (cases r)
      case (Inl y)
      then show ?thesis using rest c3 by simp
    next
      case (Inr a3)
      then obtain a4 e where s4: "replan_stage u pc c base p now a3 w3 = (Inr a4, w')"
        and e: "evidence_of a4 (wd_plans w') = Inr e"
        and x: "x = (outcome_result P_APPLIED (claim_event_id c) p)\<lparr>px_evidence := Some e\<rparr>"
        using rest by (auto simp: sbind_eq_Inr)
      have "ap_state a4 = A_APPLIED" using e by (auto simp: evidence_of_def outcome)
      then show ?thesis
        using replan_stage_hands_on [OF i3 inj _ s4] c3 Inr e by (auto simp: reported_def x)
    qed
  qed
qed

text \<open>The event that is claimed is one of the room, and is under a lease when it is handed out.\<close>

lemma claim_room_effect:
  assumes "claim_next_for_room worker room now lease s = (Inr (Some c), t)" and "ev_wf s"
  shows "ir_state (fst c) = I_PROCESSING \<and> ev_room_id (ir_event (fst c)) = room"
proof -
  have "claim_event (Some room) worker now lease s = (Inr (Some c), t)"
    using assms(1) by (auto simp: claim_next_for_room_def split: if_splits)
  then show ?thesis
  proof (cases rule: claim_event_parts)
    case (2 us r r')
    then show ?thesis using arg_min_list_stored(1) [OF assms(2) 2(2,3)] by (simp add: claimable_def claimed_by_def)
  qed simp
qed

lemma create_application_stored:
  assumes "create_application v i p n now s = (Inr (created, a), t)" and "ev_wf s"
  shows "dget (es_applications t) (i, p) = Some a"
  using assms
  by (auto simp: create_application_def commit_def Let_def application_record_init_def put_application_def
      new_application_def outcome split: sum.splits option.splits if_splits)

lemma run_next_reported:
  assumes inv: "world_inv u w" and inj: "inj u" and pc: "lawful_coordinator u v pc"
    and f: "run_next u v pc p t w = (Inr x, w')"
  shows "reported p w' x"
proof -
  obtain selected claim w1 where c: "on_engine (event_call (claim_next_for_room (pc_worker_id pc) (pl_room_id selected) t 60)) w
      = (Inr claim, w1)"
    and go: "(case claim of
       None \<Rightarrow> sreturn \<lparr>px_status = P_IDLE, px_event_id = None, px_root = p, px_evidence = None, px_failure = None\<rparr>
     | Some c \<Rightarrow> claimed_event u v pc c selected p t) w1 = (Inr x, w')"
    using f by (auto simp: run_next_def stepwise)
  note inv1 = lawful_inv [OF lawful_events(3) inv inj c]
  show ?thesis
  proof (cases claim)
    case None
    then show ?thesis using go by (auto simp: reported_def)
  next
    case (Some cl)
    obtain s where "claim_next_for_room (pc_worker_id pc) (pl_room_id selected) t 60 (wd_events w) = (Inr (Some cl), s)"
      using c Some by (auto simp: on_engine_eq_Inr event_call_eq_Inr wd_events_def)
    note cl = claim_room_effect [OF this world_events [OF inv]]
    obtain roots where roots: "active_roots (pl_room_id selected) (wd_plans w1) = Inr roots"
      using go Some by (auto simp: claimed_event_def stepwise)
    show ?thesis
    proof (cases "roots = [p]")
      case False
      then obtain y where "close_claim cl (Some (claim_owner pc cl)) I_VERIFIED t None w1 = (Inr y, w')"
        "x = outcome_result P_RETRY_PENDING (claim_event_id cl) p"
        using go Some roots by (auto simp: claimed_event_def stepwise)
      then show ?thesis using close_app_is [OF inv1] by (auto simp: reported_def)
    next
      case True
      then have "\<exists>(base :: plan_run_rec) r w2. on_engine (event_call (create_application v (claim_event_id cl) p (pl_current_version base) t)) w1 = (Inr r, w2)
          \<and> (case r of (created, a) \<Rightarrow> resume_application u pc cl p t a) w2 = (Inr x, w')"
        using go Some roots cl by (simp add: claimed_event_def stepwise) blast
      then obtain base :: plan_run_rec and r w2 where
        r: "on_engine (event_call (create_application v (claim_event_id cl) p (pl_current_version base) t)) w1 = (Inr r, w2)"
        "(case r of (created, a) \<Rightarrow> resume_application u pc cl p t a) w2 = (Inr x, w')" by blast
      obtain created a where ra: "r = (created, a)" by (cases r)
      note a = r(1) [unfolded ra] and r = r(2) [unfolded ra prod.case]
      note inv2 = lawful_inv [OF lawful_events(4) inv1 inj a]
      have "app_is w2 (claim_event_id cl) p a"
        using a create_application_stored [OF _ world_events [OF inv1]]
        by (auto simp: app_is_def on_engine_eq_Inr event_call_eq_Inr wd_events_def)
      then show ?thesis using resume_application_reported [OF inv2 inj pc _ _ r] cl by blast
    qed
  qed
qed

end
