(* ===== verification/PreemptionProperties.thy ===== *)
theory PreemptionProperties
  imports PreemptionProofs ServiceProperties
begin

section \<open>The properties of the preemption coordinator\<close>

text \<open>
  What \<open>run_next\<close> reports is what the stores hold; whatever it and \<open>reconcile_waiting\<close> return or raise,
  they made lawful calls only; a confirmation of an uncertain write rests on the platform; and an
  event whose plan has been replanned under it is never closed.
\<close>

subsection \<open>The evidence of an applied event\<close>

lemma evidence_create_fields:
  "evidence_create i p st child n m = Inr e \<Longrightarrow> pe_event_id e = i \<and> pe_root e = p \<and> pe_emergency e = child
     \<and> pe_applied_version e = n \<and> pe_digest e = canonical_sha256 (evidence_payload e)"
  by (auto simp: evidence_create_def evidence_validate_def Let_def outcome)

lemma evidence_of_fields:
  assumes "evidence_of a s = Inr e"
  shows "ap_state a = A_APPLIED \<and> pe_event_id e = ap_event_id a \<and> pe_root e = ap_root a
    \<and> ap_emergency a = Some (pe_emergency e) \<and> ap_applied_version a = Some (pe_applied_version e)
    \<and> pe_digest e = canonical_sha256 (evidence_payload e)"
proof -
  obtain child ns m n where "ap_state a = A_APPLIED" "ap_emergency a = Some child" "ap_applied_version a = Some n"
    and c: "evidence_create (ap_event_id a) (ap_root a) (ap_state a) child n m = Inr e"
    using assms by (auto simp: evidence_of_def outcome)
  moreover have "pe_event_id e = ap_event_id a" "pe_root e = ap_root a" "pe_emergency e = child" "pe_applied_version e = n"
    "pe_digest e = canonical_sha256 (evidence_payload e)"
    using evidence_create_fields [OF c] by simp_all
  ultimately show ?thesis by simp
qed

lemma moved_inv:
  "inj u \<Longrightarrow> steps (system_step u v) empty_engine (wd_engine w) \<Longrightarrow> moves u v w w' \<Longrightarrow> world_inv u w'"
  using moves_good reachable_world by blast

lemma app_is_ok:
  assumes "world_inv u w" and "app_is w i p a"
  shows "application_ok (wd_events w) (i, p) a" "ap_state a = A_APPLIED \<Longrightarrow> names_version (wd_plans w) a"
  using assms applicationD unfolding world_inv_def engine_inv_def app_is_def wd_events_def wd_plans_def by blast+

lemma applied_published:
  assumes inv: "world_inv u w" and a: "app_is w i p a" "ap_state a = A_APPLIED"
  shows "\<exists>n x run. ap_applied_version a = Some n \<and> dget (ps_versions (wd_plans w)) (p, n) = Some x
    \<and> i \<in> set (ver_source_events x) \<and> dget (ps_plan_runs (wd_plans w)) p = Some run \<and> 1 \<le> n \<and> n \<le> pl_current_version run"
proof -
  obtain n x where x: "ap_applied_version a = Some n" "dget (ps_versions (wd_plans w)) (p, n) = Some x" "i \<in> set (ver_source_events x)"
    using app_is_ok(1) [OF inv a(1)] app_is_ok(2) [OF inv a] a(2) by (auto simp: names_version_def application_ok_def)
  then show ?thesis
    using inv unfolding world_inv_def engine_inv_def wd_plans_def wf_def wf_versions_def by blast
qed

subsection \<open>The run key of a claim is its event\<close>

lemma resume_event_id:
  assumes "resume_application u pc c p now a w = (Inr x, w')"
  shows "px_event_id x = Some (claim_event_id c)"
proof -
  have unfinished: "px_event_id y = Some (claim_event_id c)"
    if "child_unfinished pc c p now child s = (Inr y, t)" for y child s t
    using that by (auto simp: child_unfinished_def stepwise split: if_splits)
  have failed: "px_event_id y = Some (claim_event_id c)" if "child_failed c p now s = (Inr y, t)" for y s t
    using that by (auto simp: child_failed_def Let_def stepwise)
  have running: "px_event_id y = Some (claim_event_id c)"
    if r: "running_stage u pc c p now b s = (Inr (Inl y), t)" for y b s t
  proof (cases "ap_state b = A_EMERGENCY_RUNNING")
    case False
    then show ?thesis using r by (simp add: running_stage_def)
  next
    case True
    then show ?thesis
      using r by (auto simp: running_stage_def stepwise split: if_splits dest: unfinished failed)
  qed
  obtain base where base: "get_plan_run p (wd_plans w) = Inr base" using assms by (auto simp: resume_application_def stepwise)
  show ?thesis
  proof (cases "ap_state a \<in> {A_APPLIED, A_WAITING_RECONCILIATION, A_FAILED}")
    case True
    then show ?thesis using assms base
      by (auto simp: resume_application_def resume_applied_def resume_failed_def Let_def stepwise split: if_splits)
  next
    case False
    then obtain r w3 where r: "\<exists>a2 w2. running_stage u pc c p now a2 w2 = (Inr r, w3)"
      and rest: "(case r of Inl result \<Rightarrow> sreturn result | Inr a3 \<Rightarrow>
          sbind (replan_stage u pc c base p now a3) (\<lambda>a4. sbind (sread (\<lambda>w. evidence_of a4 (wd_plans w))) (\<lambda>e.
          sreturn ((outcome_result P_APPLIED (claim_event_id c) p)\<lparr>px_evidence := Some e\<rparr>)))) w3 = (Inr x, w')"
      using assms base by (auto simp: resume_application_def stepwise)
    then show ?thesis using running by (cases r) (auto simp: sbind_eq_Inr)
  qed
qed

text \<open>What \<open>run_next\<close> does once it has the room: nothing to do, or one application of the claimed event.\<close>

lemma run_next_claims:
  assumes inv: "world_inv u w" and f: "run_next u v pc p t w = (Inr x, w')" and i: "px_event_id x = Some i"
  obtains c s base r s' where "claim_next_for_room (pc_worker_id pc) (pl_room_id base) t 60 (wd_events w) = (Inr (Some c), s)"
    "claim_event_id c = i" "get_plan_run p (wd_plans w) = Inr base"
    "create_application v i p (pl_current_version base) t s = (Inr r, s')"
proof -
  obtain selected claim w1 where base: "get_plan_run p (wd_plans w) = Inr selected"
    and roots: "active_roots (pl_room_id selected) (wd_plans w) = Inr [p]"
    and c: "on_engine (event_call (claim_next_for_room (pc_worker_id pc) (pl_room_id selected) t 60)) w = (Inr claim, w1)"
    and go: "(case claim of
       None \<Rightarrow> sreturn \<lparr>px_status = P_IDLE, px_event_id = None, px_root = p, px_evidence = None, px_failure = None\<rparr>
     | Some c \<Rightarrow> claimed_event u v pc c selected p t) w1 = (Inr x, w')"
    using f by (auto simp: run_next_def stepwise)
  obtain cl where cl: "claim = Some cl" using go i by (cases claim) auto
  obtain s where s: "claim_next_for_room (pc_worker_id pc) (pl_room_id selected) t 60 (wd_events w) = (Inr (Some cl), s)"
    "w1 = w\<lparr>wd_engine := (wd_engine w)\<lparr>en_events := s\<rparr>\<rparr>"
    using c cl by (auto simp: on_engine_eq_Inr event_call_eq_Inr wd_events_def)
  have room: "ev_room_id (ir_event (fst cl)) = pl_room_id selected" using claim_room_effect [OF s(1) world_events [OF inv]] by simp
  have plans: "wd_plans w1 = wd_plans w" by (simp add: s(2) wd_plans_def)
  have "\<exists>r w2. on_engine (event_call (create_application v (claim_event_id cl) p (pl_current_version selected) t)) w1 = (Inr r, w2)
      \<and> (case r of (created, a) \<Rightarrow> resume_application u pc cl p t a) w2 = (Inr x, w')"
    using go base roots room unfolding cl by (simp add: claimed_event_def stepwise plans)
  then obtain r w2 where r: "on_engine (event_call (create_application v (claim_event_id cl) p (pl_current_version selected) t)) w1 = (Inr r, w2)"
    "(case r of (created, a) \<Rightarrow> resume_application u pc cl p t a) w2 = (Inr x, w')" by blast
  have "claim_event_id cl = i" using resume_event_id r(2) i by (cases r) fastforce
  moreover obtain s' where "create_application v (claim_event_id cl) p (pl_current_version selected) t s = (Inr r, s')"
    using r(1) by (auto simp: on_engine_eq_Inr event_call_eq_Inr s(2))
  ultimately show ?thesis using that s(1) base by blast
qed

lemma create_application_source:
  assumes "create_application v i p n t s = (Inr r, s')" and "dget (es_applications s) (i, p) = Some a"
  shows "ap_source_version a = n"
  using assms by (auto simp: create_application_def outcome split: sum.splits option.splits if_splits)

subsection \<open>A coordinator on the concrete batch\<close>

definition demo_driver :: coordinator where
  "demo_driver = \<lparr>pc_worker_id = ''w'', pc_worker = demo_worker, pc_execute = idle_executor, pc_order = (\<lambda>_. plain_schedule),
     pc_profile = demo_profile, pc_replan_profile = demo_profile, pc_repr = dumps False, pc_reconciler = None,
     pc_clock = demo_clock, pc_wall = (\<lambda>_. 0), pc_parse_failure = (\<lambda>_. None), pc_parse_impact = (\<lambda>_. None),
     pc_load_batch = (\<lambda>_. Inr demo_batch)\<rparr>"

lemma demo_driver_lawful: "lawful_coordinator u v demo_driver"
  by (simp add: lawful_coordinator_def demo_driver_def idle_lawful)

definition demo_doomed :: application_record where
  "demo_doomed = (demo_app A_FAILED None None)\<lparr>ap_failure := Some (coordinator_failure ''e'')\<rparr>"

definition demo_room :: "event_store \<Rightarrow> world" where
  "demo_room t = \<lparr>wd_engine = \<lparr>en_plans = demo_created, en_events = t\<rparr>, wd_readings = 0\<rparr>"

lemma demo_doomed_transition:
  "transition_application ''e'' (demo_ids 0) A_PENDING A_FAILED (Aware 2) None None None (Some (coordinator_failure ''e''))
     (demo_events (demo_app A_PENDING None None)) = (Inr demo_doomed, demo_events demo_doomed)"
  by (simp add: transition_application_def ev_utc_def get_application_def ev_guard_def
      application_record_init_def application_fields_ok_def min_length_1_def write_once_def or_else_def
      assert_application_transition_def demo_app_def new_application_def demo_events_def put_application_def demo_doomed_def)

lemma demo_room_steps:
  "steps (system_step demo_ids demo_ids) empty_engine (wd_engine (demo_room (demo_events demo_doomed)))"
proof -
  have event: "system_step demo_ids demo_ids \<lparr>en_plans = s, en_events = x\<rparr> \<lparr>en_plans = s, en_events = y\<rparr>"
    if "event_step demo_ids x y" "\<forall>a\<in>set (dvalues (es_applications y)). ap_state a \<noteq> A_APPLIED" for s x y
    using system_event [of demo_ids "\<lparr>en_plans = s, en_events = x\<rparr>" y] that by (force dest: map_of_SomeD)
  have register: "event_step demo_ids empty_event_store demo_registered"
    using event_register [of demo_ids empty_event_store demo_sold demo_ingress demo_delivery] by (simp add: demo_register)
  have moves: "event_step demo_ids demo_registered (demo_events (demo_app A_PENDING None None))"
    "event_step demo_ids (demo_events (demo_app A_PENDING None None)) (demo_events demo_doomed)"
    by (metis demo_transitions event_application snd_conv) (metis demo_doomed_transition event_apply snd_conv)
  let ?step = "system_step demo_ids demo_ids" and ?d = "\<lambda>x. \<lparr>en_plans = demo_created, en_events = x\<rparr>"
  have events: "?step (?d empty_event_store) (?d demo_registered)"
    "?step (?d demo_registered) (?d (demo_events (demo_app A_PENDING None None)))"
    "?step (?d (demo_events (demo_app A_PENDING None None))) (?d (demo_events demo_doomed))"
    using register moves by (intro event; simp add: demo_doomed_def)+
  note go = steps_step [where r = ?step]
  show ?thesis
    using go [OF go [OF go [OF demo_world_steps(1) events(1)] events(2)] events(3)] by (simp add: demo_room_def)
qed

lemma demo_room_sel [simp]:
  "wd_plans (demo_room t) = demo_created" "wd_events (demo_room t) = t" "wd_readings (demo_room t) = 0"
  "wd_engine (demo_room t) = \<lparr>en_plans = demo_created, en_events = t\<rparr>"
  by (simp_all add: demo_room_def wd_plans_def wd_events_def)

lemma demo_active: "active_roots ''r'' demo_created = Inr [demo_ids 0]"
proof -
  have "pl_state demo_run = R_ACTIVE" "pl_id demo_run = demo_ids 0" "pl_room_id demo_run = ''r''" "pl_plan_kind demo_run = CARD_BATCH"
    by (simp_all add: demo_run_def new_plan_run_def Let_def demo_plan_def planning_room_def demo_batch_def)
  then show ?thesis using demo_view by (simp add: active_roots_def list_plan_runs_def demo_created_eq)
qed

definition demo_taken :: inbox_record where
  "demo_taken = claimed_by ''w'' 5 60 demo_inbox"

lemma demo_taken_sel [simp]:
  "ir_event demo_taken = demo_sold" "ir_provenance demo_taken = demo_ingress" "ir_state demo_taken = I_PROCESSING"
  "ir_owner demo_taken = Some ''w''" "ir_expires_at demo_taken = Some 60000005" "ir_token demo_taken = 1"
  "ir_created_at demo_taken = 0" "ir_updated_at demo_taken = 5" "ir_failure demo_taken = None"
  by (simp_all add: demo_taken_def claimed_by_def seconds_def)

lemma demo_take:
  "claim_next_for_room ''w'' ''r'' (Aware 5) 60 (demo_events a) = (Inr (Some (demo_taken, 1)), put_inbox demo_taken (demo_events a))"
  by (simp add: claim_next_for_room_def claim_event_def ev_utc_def claimable_def copy_inbox_def inbox_record_init_def
      demo_taken_def claimed_by_def lease_shape_ok_def assert_inbox_transition_def nested_ok_def min_length_1_def
      demo_authentic)


lemma demo_heartbeat:
  "heartbeat ''e'' ''w'' 1 (Aware 6) 60 (put_inbox demo_taken s)
     = (Inr (demo_taken\<lparr>ir_expires_at := Some 60000006, ir_updated_at := 6\<rparr>),
        put_inbox (demo_taken\<lparr>ir_expires_at := Some 60000006, ir_updated_at := 6\<rparr>) (put_inbox demo_taken s))"
  by (simp add: heartbeat_def ev_utc_def get_inbox_def put_inbox_def assert_current_claim_def copy_inbox_def
      inbox_record_init_def lease_shape_ok_def nested_ok_def min_length_1_def demo_authentic seconds_def)

lemma demo_fails:
  "\<exists>r t. transition_inbox ''e'' I_PROCESSING I_FAILED (Aware 5) (Some ''w'') (Some 1) (Some f) (put_inbox demo_taken s) = (Inr r, t)"
  by (simp add: transition_inbox_def ev_utc_def get_inbox_def put_inbox_def assert_current_claim_def copy_inbox_def
      inbox_record_init_def lease_shape_ok_def nested_ok_def min_length_1_def demo_authentic ev_guard_def assert_inbox_transition_def)

lemma demo_run_next:
  "\<exists>x w'. run_next demo_ids demo_ids demo_driver (demo_ids 0) (Aware 5) (demo_room (demo_events demo_doomed)) = (Inr x, w')
     \<and> px_status x = P_FAILED \<and> px_event_id x = Some ''e''"
proof -
  have app: "es_applications (put_inbox demo_taken (demo_events demo_doomed)) = [((''e'', demo_ids 0), demo_doomed)]"
    "es_inbox (put_inbox demo_taken (demo_events demo_doomed)) = [(''e'', demo_taken)]"
    by (simp_all add: put_inbox_def demo_doomed_def)
  have "ap_source_version demo_doomed = 1" "ap_state demo_doomed = A_FAILED"
    "ap_failure demo_doomed = Some (coordinator_failure ''e'')"
    by (simp_all add: demo_doomed_def)
  then have made: "create_application demo_ids ''e'' (demo_ids 0) 1 (Aware 5) (put_inbox demo_taken (demo_events demo_doomed))
      = (Inr (False, demo_doomed), put_inbox demo_taken (demo_events demo_doomed))"
    by (simp add: create_application_def ev_utc_def app ev_guard_def)
  obtain r t where closed: "transition_inbox ''e'' I_PROCESSING I_FAILED (Aware 5) (Some ''w'') (Some 1)
      (Some (coordinator_failure ''e'')) (put_inbox demo_taken (demo_events demo_doomed)) = (Inr r, t)"
    using demo_fails by blast
  have id: "claim_event_id (demo_taken, k) = ''e''" for k by (simp add: claim_event_id_def)
  show ?thesis
    using made closed \<open>ap_state demo_doomed = A_FAILED\<close> \<open>ap_failure demo_doomed = _\<close>
    by (simp add: run_next_def claimed_event_def resume_application_def resume_failed_def close_claim_def claim_owner_def sbind_def
        on_engine_def plan_query_def event_call_def sread_def coordinator_time_def require_def id demo_get_run demo_active
        demo_run_room demo_take demo_driver_def Let_def)
qed

subsection \<open>The properties\<close>

text \<open>
  C14: what the preemption coordinator reports is what the stores hold. From any state the system
  reaches, and after any lawful calls of others or of interrupted runs of the coordinator, a result of
  \<open>run_next\<close> names its root plan, and: APPLIED means that the event is closed as applied, that its
  application names a published version of the plan with the event among the sources, and that the
  evidence carries event, plan, version and emergency plan under its own digest;
  WAITING_RECONCILIATION and FAILED mean that the application is in that state, the event closed as
  failed too; RETRY_PENDING that the event is back to be claimed again; only IDLE names no event.
\<close>

theorem preemption_reports:
  assumes "inj u" and "steps (system_step u v) empty_engine (wd_engine w0)" and "moves u v w0 w"
    and "lawful_coordinator u v pc" and "run_next u v pc p t w = (Inr x, w')"
  shows "px_root x = p \<and> (case px_status x of
       P_IDLE \<Rightarrow> px_event_id x = None \<and> px_evidence x = None
     | P_APPLIED \<Rightarrow> (\<exists>i a e n y. px_event_id x = Some i \<and> inbox_is w' i I_APPLIED \<and> app_is w' i p a \<and> ap_state a = A_APPLIED
         \<and> ap_applied_version a = Some n \<and> dget (ps_versions (wd_plans w')) (p, n) = Some y \<and> i \<in> set (ver_source_events y)
         \<and> px_evidence x = Some e \<and> pe_event_id e = i \<and> pe_root e = p \<and> pe_applied_version e = n
         \<and> ap_emergency a = Some (pe_emergency e) \<and> pe_digest e = canonical_sha256 (evidence_payload e))
     | P_WAITING_RECONCILIATION \<Rightarrow> (\<exists>i a. px_event_id x = Some i \<and> px_evidence x = None \<and> app_is w' i p a
         \<and> ap_state a = A_WAITING_RECONCILIATION)
     | P_FAILED \<Rightarrow> (\<exists>i a. px_event_id x = Some i \<and> px_evidence x = None \<and> inbox_is w' i I_FAILED \<and> app_is w' i p a
         \<and> ap_state a = A_FAILED)
     | P_RETRY_PENDING \<Rightarrow> (\<exists>i. px_event_id x = Some i \<and> px_evidence x = None \<and> inbox_is w' i I_VERIFIED))"
proof -
  have inv: "world_inv u w" by (rule moved_inv [OF assms(1,2,3)])
  have rep: "reported p w' x" by (rule run_next_reported [OF inv assms(1,4,5)])
  have inv': "world_inv u w'" by (rule lawful_inv [OF run_next_lawful [OF assms(1,4)] inv assms(1,5)])
  show ?thesis
  proof (cases "px_status x")
    case P_APPLIED
    then obtain i a e where i: "px_event_id x = Some i" "inbox_is w' i I_APPLIED" "app_is w' i p a" "ap_state a = A_APPLIED"
      "px_evidence x = Some e" and e: "evidence_of a (wd_plans w') = Inr e" and root: "px_root x = p"
      using rep by (auto simp: reported_def)
    have "ap_event_id a = i" "ap_root a = p" using app_is_ok(1) [OF inv' i(3)] by (auto simp: application_ok_def)
    then show ?thesis using applied_published [OF inv' i(3,4)] evidence_of_fields [OF e] i root P_APPLIED by auto
  qed (use rep in \<open>auto simp: reported_def\<close>)
qed

theorem preemption_reports_witness:
  "\<exists>x w' a. run_next demo_ids demo_ids demo_driver (demo_ids 0) (Aware 5) (demo_room (demo_events demo_doomed)) = (Inr x, w')
     \<and> px_root x = demo_ids 0 \<and> inbox_is w' ''e'' I_FAILED \<and> app_is w' ''e'' (demo_ids 0) a \<and> ap_state a = A_FAILED"
proof -
  obtain x w' where r: "run_next demo_ids demo_ids demo_driver (demo_ids 0) (Aware 5) (demo_room (demo_events demo_doomed)) = (Inr x, w')"
    "px_status x = P_FAILED" "px_event_id x = Some ''e''" using demo_run_next by blast
  from preemption_reports [OF demo_ids_inj demo_room_steps moves_refl [OF refl] demo_driver_lawful r(1)] r show ?thesis by auto
qed

text \<open>
  C15: the coordinator is safe to interrupt. Whatever \<open>run_next\<close> and \<open>reconcile_waiting\<close> return or raise,
  and at whatever stage, the stores they leave were reached by lawful calls only: nothing is taken
  back, and every application that is applied names a published version with its event among the
  sources.
\<close>

theorem preemption_interruptible:
  assumes "inj u" and "steps (system_step u v) empty_engine (wd_engine w0)" and "moves u v w0 w"
    and "lawful_coordinator u v pc"
    and "run_next u v pc p t w = (res, w') \<or> reconcile_waiting pc j p t w = (res, w')"
  shows "moves u v w0 w' \<and> engine_evolves (wd_engine w) (wd_engine w')
    \<and> (\<forall>i q a. app_is w' i q a \<longrightarrow> ap_state a = A_APPLIED \<longrightarrow>
         (\<exists>n y. ap_applied_version a = Some n \<and> dget (ps_versions (wd_plans w')) (q, n) = Some y
            \<and> i \<in> set (ver_source_events y)))"
proof -
  have inv: "world_inv u w" by (rule moved_inv [OF assms(1,2,3)])
  have m: "moves u v w w'"
    using assms(5) run_next_lawful [OF assms(1,4), of p t] reconcile_waiting_lawful [OF assms(1,4), of j p t] inv
    unfolding lawful_def by (metis snd_conv)
  then have "world_inv u w'" "engine_evolves (wd_engine w) (wd_engine w')" using moves_good inv assms(1) by blast+
  then show ?thesis using applied_published m moves_trans [OF assms(3) m] by blast
qed

theorem preemption_interruptible_witness:
  "\<exists>res w'. run_next demo_ids demo_ids demo_driver (demo_ids 0) (Aware 5) (demo_room (demo_events demo_doomed)) = (res, w')
     \<and> moves demo_ids demo_ids (demo_room (demo_events demo_doomed)) w'"
proof -
  obtain res w' where r: "run_next demo_ids demo_ids demo_driver (demo_ids 0) (Aware 5) (demo_room (demo_events demo_doomed)) = (res, w')"
    by fastforce
  from preemption_interruptible [OF demo_ids_inj demo_room_steps moves_refl [OF refl] demo_driver_lawful disjI1 [OF r]] r show ?thesis by auto
qed

text \<open>
  C17: an event whose plan was replanned under it is stuck. Once the root plan has moved past the
  version an application was made for, which is what applying that very application does, no
  \<open>run_next\<close> reports on the event any more, and one that claims it raises the conflict of source
  versions with the event under its lease: the branch that is to close the inbox of an application
  that is applied already is never reached.
\<close>

theorem replanned_event_is_stuck:
  assumes "inj u" and "steps (system_step u v) empty_engine (wd_engine w0)" and "moves u v w0 w"
    and "app_is w0 i p a" and "dget (ps_plan_runs (wd_plans w0)) p = Some run"
    and "ap_source_version a < pl_current_version run"
  shows "(\<forall>x w'. run_next u v pc p t w = (Inr x, w') \<longrightarrow> px_event_id x \<noteq> Some i)
    \<and> (\<forall>base r tok s. get_plan_run p (wd_plans w) = Inr base \<longrightarrow> active_roots (pl_room_id base) (wd_plans w) = Inr [p] \<longrightarrow>
         claim_next_for_room (pc_worker_id pc) (pl_room_id base) t 60 (wd_events w) = (Inr (Some (r, tok)), s) \<longrightarrow>
         ev_event_id (ir_event r) = i \<longrightarrow>
         run_next u v pc p t w = (Inl (EventRaised (EventInvariant SourceVersionConflict)),
           w\<lparr>wd_engine := (wd_engine w)\<lparr>en_events := s\<rparr>\<rparr>))"
proof -
  have inv: "world_inv u w" and g: "engine_evolves (wd_engine w0) (wd_engine w)"
    using moves_good [OF assms(3) reachable_world [OF assms(2,1)] assms(1)] by simp_all
  have "dict_rel application_grows (es_applications (wd_events w0)) (es_applications (wd_events w))"
    "dict_rel plan_grows (ps_plan_runs (wd_plans w0)) (ps_plan_runs (wd_plans w))"
    using g by (simp_all add: engine_evolves_def evolves_def ev_evolves_def wd_events_def wd_plans_def)
  then obtain b now_run where b: "app_is w i p b" "application_grows a b"
    and now: "dget (ps_plan_runs (wd_plans w)) p = Some now_run" "plan_grows run now_run"
    using assms(4,5) unfolding dict_rel_def app_is_def by metis
  have base: "base = now_run" if "get_plan_run p (wd_plans w) = Inr base" for base
    using that now(1) by (auto simp: get_plan_run_def outcome plan_run_view_def)
  have older: "ap_source_version b < pl_current_version base" if "get_plan_run p (wd_plans w) = Inr base" for base
    using base [OF that] b(2) now(2) assms(6) by (simp add: application_grows_def plan_grows_def)
  have kept: "dget (es_applications s) (i, p) = Some b"
    if "claim_next_for_room worker room t lease (wd_events w) = (c, s)" for worker room lease c s
    using that b(1) same_applications(3) [of worker room t lease "wd_events w"] by (simp add: app_is_def)
  have "px_event_id x \<noteq> Some i" if r: "run_next u v pc p t w = (Inr x, w')" for x w'
  proof
    assume i: "px_event_id x = Some i"
    obtain c s base q s' where c: "claim_next_for_room (pc_worker_id pc) (pl_room_id base) t 60 (wd_events w) = (Inr (Some c), s)"
      "get_plan_run p (wd_plans w) = Inr base" "create_application v i p (pl_current_version base) t s = (Inr q, s')"
      by (rule run_next_claims [OF inv r i])
    then show False using create_application_source [OF c(3) kept [OF c(1)]] older [OF c(2)] by simp
  qed
  moreover have "run_next u v pc p t w = (Inl (EventRaised (EventInvariant SourceVersionConflict)),
      w\<lparr>wd_engine := (wd_engine w)\<lparr>en_events := s\<rparr>\<rparr>)"
    if base: "get_plan_run p (wd_plans w) = Inr base" and roots: "active_roots (pl_room_id base) (wd_plans w) = Inr [p]"
      and c: "claim_next_for_room (pc_worker_id pc) (pl_room_id base) t 60 (wd_events w) = (Inr (Some (r, tok)), s)"
      and r: "ev_event_id (ir_event r) = i" for base r tok s
  proof -
    have room: "ev_room_id (ir_event r) = pl_room_id base" using claim_room_effect [OF c world_events [OF inv]] by simp
    have "claim_event (Some (pl_room_id base)) (pc_worker_id pc) t 60 (wd_events w) = (Inr (Some (r, tok)), s)"
      using c by (auto simp: claim_next_for_room_def split: if_splits)
    then obtain us where t: "t = Aware us" and "dget (es_inbox s) i \<noteq> None"
      by (cases rule: claim_event_parts) (use r in \<open>auto simp: put_inbox_def\<close>)
    then have made: "create_application v i p (pl_current_version base) t s = (Inl (EventInvariant SourceVersionConflict), s)"
      using kept [OF c] older [OF base] by (simp add: create_application_def t ev_utc_def ev_guard_def guard_def)
    show ?thesis
      using base roots c made room r unfolding t
      by (simp add: run_next_def sbind_def coordinator_time_def on_engine_def plan_query_def sread_def require_def
          event_call_def claimed_event_def claim_event_id_def wd_plans_def [symmetric] wd_events_def [symmetric])
  qed
  ultimately show ?thesis by simp
qed

definition demo_after_replan :: "world \<Rightarrow> bool" where
  "demo_after_replan w \<longleftrightarrow> steps (system_step demo_ids demo_ids) empty_engine (wd_engine w)
     \<and> (\<exists>a. wd_events w = demo_events a \<and> ap_event_id a = ''e'' \<and> ap_root a = demo_ids 0 \<and> ap_state a = A_APPLIED
          \<and> ap_source_version a = 1)
     \<and> ps_plan_runs (wd_plans w) = [(demo_ids 0, demo_run\<lparr>pl_current_version := 2, pl_state := R_ACTIVE\<rparr>)]"

lemma demo_replanned_world: "\<exists>w. demo_after_replan w"
proof -
  obtain res e' a where r: "replan demo_ids demo_profile (dumps False) (demo_ids 0) demo_batch demo_sig (Aware 5) demo_engine = (Inr res, e')"
    and e: "en_events e' = demo_events a" "ap_event_id a = ''e''" "ap_root a = demo_ids 0" "ap_state a = A_APPLIED"
      "ap_source_version a = 1" "ps_plan_runs (en_plans e') = [(demo_ids 0, demo_run\<lparr>pl_current_version := 2, pl_state := R_ACTIVE\<rparr>)]"
    using demo_replans_to [of "dumps False"] by blast
  have "steps (system_step demo_ids demo_ids) empty_engine e'"
    using steps_step [OF demo_engine_steps system_replan] r by (metis snd_conv)
  then have "demo_after_replan \<lparr>wd_engine = e', wd_readings = 0\<rparr>"
    using e by (auto simp: demo_after_replan_def wd_events_def wd_plans_def)
  then show ?thesis ..
qed

theorem replanned_event_is_stuck_witness:
  "\<exists>w a. steps (system_step demo_ids demo_ids) empty_engine (wd_engine w)
     \<and> app_is w ''e'' (demo_ids 0) a \<and> ap_state a = A_APPLIED \<and> inbox_is w ''e'' I_VERIFIED
     \<and> fst (run_next demo_ids demo_ids demo_driver (demo_ids 0) (Aware 5) w)
         = Inl (EventRaised (EventInvariant SourceVersionConflict))"
proof -
  obtain w where "demo_after_replan w" using demo_replanned_world by blast
  then obtain a where steps: "steps (system_step demo_ids demo_ids) empty_engine (wd_engine w)"
    and ev: "wd_events w = demo_events a" and a: "ap_event_id a = ''e''" "ap_root a = demo_ids 0" "ap_state a = A_APPLIED"
      "ap_source_version a = 1"
    and plans: "ps_plan_runs (wd_plans w) = [(demo_ids 0, demo_run\<lparr>pl_current_version := 2, pl_state := R_ACTIVE\<rparr>)]"
    by (auto simp: demo_after_replan_def)
  let ?run = "demo_run\<lparr>pl_current_version := 2, pl_state := R_ACTIVE\<rparr>"
  have app: "app_is w ''e'' (demo_ids 0) a" using a by (simp add: app_is_def ev)
  have view: "plan_run_view ?run = Inr ?run"
    using demo_view by (auto simp: plan_run_view_def plan_run_view_ok_def lineage_ok_def outcome)
  then have base: "get_plan_run (demo_ids 0) (wd_plans w) = Inr ?run" by (simp add: get_plan_run_def plans)
  have roots: "active_roots (pl_room_id ?run) (wd_plans w) = Inr [demo_ids 0]"
    using view by (simp add: active_roots_def list_plan_runs_def plans)
  have claim: "claim_next_for_room (pc_worker_id demo_driver) (pl_room_id ?run) (Aware 5) 60 (wd_events w)
      = (Inr (Some (demo_taken, 1)), put_inbox demo_taken (demo_events a))"
    by (simp add: demo_driver_def demo_run_room ev demo_take)
  have older: "ap_source_version a < pl_current_version ?run" by (simp add: a)
  have "dget (ps_plan_runs (wd_plans w)) (demo_ids 0) = Some ?run" by (simp add: plans)
  from replanned_event_is_stuck [OF demo_ids_inj steps moves_refl [OF refl] app this older, of demo_driver "Aware 5"]
  have "run_next demo_ids demo_ids demo_driver (demo_ids 0) (Aware 5) w = (Inl (EventRaised (EventInvariant SourceVersionConflict)),
      w\<lparr>wd_engine := (wd_engine w)\<lparr>en_events := put_inbox demo_taken (demo_events a)\<rparr>\<rparr>)"
    using base roots claim by simp
  moreover have "inbox_is w ''e'' I_VERIFIED" by (simp add: inbox_is_def ev)
  ultimately show ?thesis using steps app a(3) by (intro exI conjI) auto
qed

subsection \<open>A confirmation rests on the platform\<close>

lemma sold_out_reconcile_eq:
  "sold_out_reconcile port q w = (Inr r, w') \<longleftrightarrow>
     (\<exists>answer. port (sold_out_query q) w = (Inr answer, w') \<and> sold_out_verdict q answer = Inr r)"
  by (auto simp: sold_out_reconcile_def map_sum_eq_Inr split: prod.split sum.split)

lemma sold_out_request_fields:
  assumes "sold_out_request_create room trace product_id n authorization failure deadline = Inr q"
  shows "sq_room_id q = room \<and> sq_product_id q = product_id \<and> sq_expected_version q = n \<and> sq_authorization q = authorization
    \<and> sq_failure q = failure \<and> ff_category failure = SIDE_EFFECT_UNKNOWN \<and> ff_side_effect_state failure = UNKNOWN_EFFECT
    \<and> provenance_verified authorization"
  using assms by (auto simp: sold_out_request_create_def outcome)

lemma verified_authorization_event:
  "build_verified_event_authorization i prov digest n = Inr a \<Longrightarrow> ea_event_id a = i \<and> ea_provenance_id a = prov"
  by (auto simp: build_verified_event_authorization_def event_authorization_validate_def outcome split: if_splits)

text \<open>The query of one event under the identity of the attempt whose effect is unknown.\<close>

definition asks_about :: "coordinator \<Rightarrow> node_run_rec list \<Rightarrow> inbox_record \<Rightarrow> sold_out_request \<Rightarrow> bool" where
  "asks_about pc rs inbox q \<longleftrightarrow> recorded_failure pc rs = Inr (sq_failure q)
     \<and> ff_category (sq_failure q) = SIDE_EFFECT_UNKNOWN \<and> ff_side_effect_state (sq_failure q) = UNKNOWN_EFFECT
     \<and> sq_room_id q = ev_room_id (ir_event inbox) \<and> sq_product_id q = ev_product_id (ir_event inbox)
     \<and> sq_expected_version q = ev_observed_version (ir_event inbox) \<and> provenance_verified (sq_authorization q)
     \<and> ea_event_id (sq_authorization q) = ev_event_id (ir_event inbox)"

lemma confirm_sold_out_asks:
  assumes "confirm_sold_out pc (sold_out_reconcile port) inbox child n us w = (Inr confirmed, w')"
  obtains rs q answer w1 r where "list_node_runs child (Some (nv_id n)) (wd_plans w) = Inr rs" "asks_about pc rs inbox q"
    "port (sold_out_query q) w = (Inr answer, w1)" "sold_out_verdict q answer = Inr r"
    "confirmed \<longleftrightarrow> so_status r = CONFIRMED_SUCCESS" "\<not> confirmed \<longrightarrow> w' = w1"
proof -
  obtain rs failure authorization and run :: plan_run_rec and q r w1 where
    rs: "list_node_runs child (Some (nv_id n)) (wd_plans w) = Inr rs" "recorded_failure pc rs = Inr failure"
    and authorization: "build_verified_event_authorization (ev_event_id (ir_event inbox)) (pv_provenance_id (ir_provenance inbox))
      (ev_payload_digest (ir_event inbox)) (ev_observed_version (ir_event inbox)) = Inr authorization"
    and q: "sold_out_request_create (ev_room_id (ir_event inbox)) (pl_trace_id run) (ev_product_id (ir_event inbox))
      (ev_observed_version (ir_event inbox)) authorization failure (Aware (us + seconds 30)) = Inr q"
    and r: "sold_out_reconcile port q w = (Inr r, w1)"
    and go: "(if so_status r = STILL_WAITING then sreturn False
     else sbind (wall_clock pc) (\<lambda>wall.
          sbind (on_engine (plan_call (reconcile_plan_reference wall child (nv_id n) (py_node_state N_SUCCEEDED)
            (py_of_json (JObj [(''side_effect_reconciliation'', dump_sold_out_result r)]))))) (\<lambda>_.
          sreturn True))) w1 = (Inr confirmed, w')"
    using assms by (simp add: confirm_sold_out_def model_step_def stepwise) blast
  have asked: "asks_about pc rs inbox q"
    using rs(2) sold_out_request_fields [OF q] verified_authorization_event [OF authorization] by (simp add: asks_about_def)
  obtain answer where answer: "port (sold_out_query q) w = (Inr answer, w1)" "sold_out_verdict q answer = Inr r"
    using r [unfolded sold_out_reconcile_eq] by blast
  have "(confirmed \<longleftrightarrow> so_status r = CONFIRMED_SUCCESS) \<and> (\<not> confirmed \<longrightarrow> w' = w1)"
    using go by (cases "so_status r") (auto simp: stepwise)
  then show ?thesis using that [OF rs(1) asked answer] by blast
qed

text \<open>
  C16: an uncertain sold-out write is confirmed only by the platform. When \<open>reconcile_waiting\<close> returns for
  an application that waits with its write node, it has asked the platform once, about the product
  of the event, under the recorded attempt whose effect is unknown and the verified authorization
  of the event; it reports RETRY_PENDING only if the platform answered with this very product out of
  stock, inactive and in a version newer than the one the event observed, and otherwise reports that
  it still waits and has written nothing.
\<close>

theorem sold_out_confirmed_only:
  assumes "pc_reconciler pc = Some (sold_out_reconcile port)"
    and "get_application i p (wd_events w) = Inr a" and "ap_state a = A_WAITING_RECONCILIATION" and "ap_emergency a = Some child"
    and "list_nodes child None (wd_plans w) = Inr ns" and "filter (\<lambda>n. nv_logical_key n = ''mark-sold-out'') ns = [n]"
    and "nv_state n = N_WAITING_RECONCILIATION" and "reconcile_waiting pc i p t w = (Inr x, w')"
  shows "\<exists>inbox rs q answer w1. get_inbox i (wd_events w) = Inr inbox
    \<and> list_node_runs child (Some (nv_id n)) (wd_plans w) = Inr rs \<and> asks_about pc rs inbox q
    \<and> port (sold_out_query q) w = (Inr answer, w1)
    \<and> (case px_status x of
         P_RETRY_PENDING \<Rightarrow> (\<exists>fields product m j. answer = AdapterOk fields
           \<and> map_of fields ''sold_out_product'' = Some (JObj product)
           \<and> map_of product ''product_id'' = Some (JStr (ev_product_id (ir_event inbox)))
           \<and> map_of product ''inventory'' = Some j \<and> json_eq j (JInt 0)
           \<and> map_of product ''is_active'' = Some (JBool False)
           \<and> map_of product ''version'' = Some (JInt m) \<and> ev_observed_version (ir_event inbox) < m)
       | P_WAITING_RECONCILIATION \<Rightarrow> w' = w1
       | _ \<Rightarrow> False)"
proof -
  obtain inbox us confirmed w2 where inbox: "get_inbox i (wd_events w) = Inr inbox"
    and c: "confirm_sold_out pc (sold_out_reconcile port) inbox child n us w = (Inr confirmed, w2)"
    and go: "(if \<not> confirmed then sreturn (outcome_result P_WAITING_RECONCILIATION i p)
       else sbind (move_application i p A_WAITING_RECONCILIATION A_EMERGENCY_RUNNING (Aware us) None None None) (\<lambda>_.
            reopen_inbox i p (Aware us))) w2 = (Inr x, w')"
    using assms by (auto simp: reconcile_waiting_def stepwise)
  obtain rs q answer w1 r where q: "list_node_runs child (Some (nv_id n)) (wd_plans w) = Inr rs" "asks_about pc rs inbox q"
    "port (sold_out_query q) w = (Inr answer, w1)" "sold_out_verdict q answer = Inr r"
    "confirmed \<longleftrightarrow> so_status r = CONFIRMED_SUCCESS" "\<not> confirmed \<longrightarrow> w2 = w1"
    by (rule confirm_sold_out_asks [OF c])
  show ?thesis
  proof (cases confirmed)
    case False
    then have "px_status x = P_WAITING_RECONCILIATION" "w' = w1" using go q(6) by auto
    then show ?thesis using inbox q(1-3) by auto
  next
    case True
    then have "px_status x = P_RETRY_PENDING" using go by (auto simp: reopen_inbox_def stepwise)
    moreover have confirmed: "so_status r = CONFIRMED_SUCCESS" using q(5) True by simp
    obtain fields product m where "answer = AdapterOk fields" "map_of fields ''sold_out_product'' = Some (JObj product)"
      "map_of product ''product_id'' = Some (JStr (sq_product_id q))" "map_of product ''is_active'' = Some (JBool False)"
      "map_of product ''version'' = Some (JInt m)" "sq_expected_version q < m" "facts_closed q product"
      by (rule confirmed_facts [OF q(4) confirmed])
    moreover from this have "\<exists>j. map_of product ''inventory'' = Some j \<and> json_eq j (JInt 0)"
      by (auto simp: facts_closed_def split: option.splits)
    ultimately show ?thesis using inbox q(1-3) by (auto simp: asks_about_def)
  qed
qed

text \<open>A write whose effect is unknown, for the event of the examples.\<close>

definition demo_unknown :: failure_fact where
  "demo_unknown = \<lparr>ff_category = SIDE_EFFECT_UNKNOWN, ff_external_code = ''timeout'', ff_side_effect_state = UNKNOWN_EFFECT,
     ff_attempt_id = ''attempt'', ff_retry_after_seconds = None\<rparr>"

definition demo_write :: node_rec where
  "demo_write = (demo_ready_card 3 ''q'')\<lparr>nd_logical_key := ''mark-sold-out'', nd_state := N_WAITING_RECONCILIATION,
     nd_deadline_at := None\<rparr>"

definition demo_write_run :: node_run_rec where
  "demo_write_run = demo_evidence\<lparr>nr_state := N_WAITING_RECONCILIATION, nr_output := JObj [(''failure'', dump_failure demo_unknown)]\<rparr>"

definition demo_unsure :: plan_store where
  "demo_unsure = put_node demo_write (put_node_run demo_write_run demo_card_done)"

definition demo_waiting :: application_record where
  "demo_waiting = demo_app A_WAITING_RECONCILIATION (Some (demo_ids 0)) None"

definition demo_held :: event_store where
  "demo_held = put_inbox (demo_inbox\<lparr>ir_state := I_WAITING_HUMAN\<rparr>) (demo_events demo_waiting)"

definition demo_platform :: "int \<Rightarrow> live_port" where
  "demo_platform n q w = (Inr (AdapterOk [(''sold_out_product'', JObj [(''product_id'', JStr ''p''), (''inventory'', JInt 0),
     (''is_active'', JBool False), (''version'', JInt n)])]), w)"

definition demo_asker :: "int \<Rightarrow> coordinator" where
  "demo_asker n = demo_driver\<lparr>pc_reconciler := Some (sold_out_reconcile (demo_platform n)),
     pc_parse_failure := (\<lambda>j. if j = dump_failure demo_unknown then Some demo_unknown else None)\<rparr>"

definition demo_uncertain :: world where
  "demo_uncertain = \<lparr>wd_engine = \<lparr>en_plans = demo_unsure, en_events = demo_held\<rparr>, wd_readings = 0\<rparr>"

lemma demo_uncertain_sel [simp]:
  "wd_plans demo_uncertain = demo_unsure" "wd_events demo_uncertain = demo_held" "wd_readings demo_uncertain = 0"
  "wd_engine demo_uncertain = \<lparr>en_plans = demo_unsure, en_events = demo_held\<rparr>"
  "demo_uncertain\<lparr>wd_engine := \<lparr>en_plans = demo_unsure, en_events = demo_held\<rparr>\<rparr> = demo_uncertain"
  by (simp_all add: demo_uncertain_def wd_plans_def wd_events_def)

lemma demo_held_sel [simp]:
  "es_inbox demo_held = [(''e'', demo_inbox\<lparr>ir_state := I_WAITING_HUMAN\<rparr>)]"
  "es_applications demo_held = [((''e'', demo_ids 0), demo_waiting)]"
  by (simp_all add: demo_held_def put_inbox_def demo_waiting_def)

lemma demo_unsure_nodes:
  "list_nodes (demo_ids 0) None demo_unsure = Inr (map demo_view [demo_prepare\<lparr>nd_state := N_SUCCEEDED, nd_deadline_at := None\<rparr>,
      demo_ready_card 2 ''p''\<lparr>nd_state := N_RUNNING, nd_deadline_at := None\<rparr>, demo_write, demo_collect])"
  by (simp add: demo_view_def list_nodes_def demo_unsure_def demo_card_done_store node_view_def node_view_ok_def
      min_length_1_def demo_write_def put_node_def put_node_run_def demo_write_run_def)

lemma demo_unsure_runs: "list_node_runs (demo_ids 0) (Some (demo_ids 3)) demo_unsure = Inr [demo_write_run]"
proof -
  have "is_sha256 (mi_fingerprint demo_input)" by (simp add: demo_input_def resolver_sha256_def)
  then show ?thesis
    by (simp add: list_node_runs_def demo_unsure_def demo_card_done_store node_run_view_def node_run_view_ok_def sha_option_ok_def
        min_length_1_def demo_write_run_def put_node_def put_node_run_def demo_write_def)
qed

lemma demo_recorded_failure: "recorded_failure (demo_asker k) [demo_write_run] = Inr demo_unknown"
  by (simp add: recorded_failure_def demo_write_run_def load_failure_def demo_asker_def demo_unknown_def)

lemma demo_sold_observed: "ev_observed_version demo_sold = 1"
  by (simp add: demo_sold_def demo_digestless_def)

lemma demo_query:
  "\<exists>a q. build_verified_event_authorization ''e'' (pv_provenance_id demo_ingress) (ev_payload_digest demo_sold) 1 = Inr a
     \<and> sold_out_request_create ''r'' (pl_trace_id demo_run) ''p'' 1 a demo_unknown (Aware us) = Inr q
     \<and> (\<exists>r. sold_out_verdict q (AdapterOk [(''sold_out_product'', JObj [(''product_id'', JStr ''p''), (''inventory'', JInt 0),
          (''is_active'', JBool False), (''version'', JInt 2)])]) = Inr r \<and> so_status r = CONFIRMED_SUCCESS)"
proof -
  have "\<exists>a. build_verified_event_authorization ''e'' (pv_provenance_id demo_ingress) (ev_payload_digest demo_sold) 1 = Inr a
     \<and> provenance_verified a \<and> ea_observed_version a = 1"
    using demo_authentic
    by (simp add: event_authentic_def event_fields_ok_def provenance_fields_ok_def
        build_verified_event_authorization_def event_authorization_validate_def provenance_verified_def ea_identity_def)
  then show ?thesis
    using demo_view
    by (auto simp: sold_out_request_create_def plan_run_view_def plan_run_view_ok_def outcome demo_unknown_def
        sold_out_verdict_def facts_closed_def sold_out_result_create_def)
qed

lemma demo_closes_write:
  "\<exists>v t. reconcile_plan_reference 0 (demo_ids 0) (demo_ids 3) (py_node_state N_SUCCEEDED) (py_of_json j) demo_unsure = (Inr v, t)"
  by (simp add: reconcile_plan_reference_def py_node_state_def enum_call_def node_state_members_def json_safe_copy_def
      reconcile_reference_locked_def close_reconciliation_def demo_unsure_def demo_card_done_store put_node_def
      put_node_run_def demo_write_def demo_write_run_def current_node_run_id_def history_def Let_def inv_guard_def
      ready_satisfied_dependents_def states_by_logical_key_def all_succeeded_def node_view_def node_view_ok_def min_length_1_def)

lemma demo_resumes_waiting:
  "\<exists>a t b s. transition_application ''e'' (demo_ids 0) A_WAITING_RECONCILIATION A_EMERGENCY_RUNNING (Aware 5) None None None None demo_held = (Inr a, t)
     \<and> transition_inbox ''e'' I_WAITING_HUMAN I_VERIFIED (Aware 5) None None None t = (Inr b, s)"
  by (simp add: transition_application_def ev_utc_def get_application_def ev_guard_def
      application_record_init_def application_fields_ok_def min_length_1_def write_once_def or_else_def
      assert_application_transition_def demo_waiting_def demo_app_def new_application_def put_application_def
      transition_inbox_def get_inbox_def put_inbox_def copy_inbox_def inbox_record_init_def
      lease_shape_ok_def nested_ok_def demo_authentic assert_inbox_transition_def)

lemma demo_confirms:
  "\<exists>x w'. reconcile_waiting (demo_asker 2) ''e'' (demo_ids 0) (Aware 5) demo_uncertain = (Inr x, w') \<and> px_status x = P_RETRY_PENDING"
proof -
  obtain a q r where q: "build_verified_event_authorization ''e'' (pv_provenance_id demo_ingress) (ev_payload_digest demo_sold) 1 = Inr a"
    "sold_out_request_create ''r'' (pl_trace_id demo_run) ''p'' 1 a demo_unknown (Aware (5 + seconds 30)) = Inr q"
    "sold_out_verdict q (AdapterOk [(''sold_out_product'', JObj [(''product_id'', JStr ''p''), (''inventory'', JInt 0),
       (''is_active'', JBool False), (''version'', JInt 2)])]) = Inr r" "so_status r = CONFIRMED_SUCCESS"
    using demo_query by blast
  obtain v t where closes: "reconcile_plan_reference 0 (demo_ids 0) (demo_ids 3) (py_node_state N_SUCCEEDED)
      (py_of_json (JObj [(''side_effect_reconciliation'', dump_sold_out_result r)])) demo_unsure = (Inr v, t)"
    using demo_closes_write by blast
  obtain b s c s' where resumes: "transition_application ''e'' (demo_ids 0) A_WAITING_RECONCILIATION A_EMERGENCY_RUNNING (Aware 5)
      None None None None demo_held = (Inr b, s)" "transition_inbox ''e'' I_WAITING_HUMAN I_VERIFIED (Aware 5) None None None s = (Inr c, s')"
    using demo_resumes_waiting by blast
  have run: "get_plan_run (demo_ids 0) demo_unsure = Inr demo_run"
    using demo_view by (simp add: get_plan_run_def demo_unsure_def demo_card_done_store put_node_def put_node_run_def)
  have asker: "pc_reconciler (demo_asker 2) = Some (sold_out_reconcile (demo_platform 2))" "wall_clock (demo_asker 2) w = (Inr 0, w\<lparr>wd_readings := wd_readings w + 1\<rparr>)" for w
    by (simp_all add: demo_asker_def demo_driver_def wall_clock_def)
  have "confirm_sold_out (demo_asker 2) (sold_out_reconcile (demo_platform 2)) (demo_inbox\<lparr>ir_state := I_WAITING_HUMAN\<rparr>)
      (demo_ids 0) (demo_view demo_write) 5 demo_uncertain
    = (Inr True, demo_uncertain\<lparr>wd_readings := 1, wd_engine := \<lparr>en_plans = t, en_events = demo_held\<rparr>\<rparr>)"
  proof -
    have "nv_id (demo_view demo_write) = demo_ids 3" by (simp add: demo_view_def demo_write_def)
    then show ?thesis
      using q closes
      by (simp add: confirm_sold_out_def model_step_def sbind_def pure_step_def on_engine_def plan_query_def sread_def
          demo_unsure_runs demo_recorded_failure demo_sold_observed run asker sold_out_reconcile_def demo_platform_def plan_call_def)
  qed
  moreover have "nv_logical_key (demo_view demo_write) = ''mark-sold-out''" "nv_state (demo_view demo_write) = N_WAITING_RECONCILIATION"
    by (simp_all add: demo_view_def demo_write_def)
  ultimately show ?thesis
    using resumes
    by (simp add: reconcile_waiting_def asker sbind_def pure_step_def on_engine_def event_query_def plan_query_def sread_def
        get_application_def get_inbox_def demo_unsure_nodes demo_waiting_def require_def move_application_def reopen_inbox_def
        event_call_def) (simp add: demo_view_def demo_ready_card_def)
qed


theorem sold_out_confirmed_only_witness:
  "\<exists>x w' inbox q product. reconcile_waiting (demo_asker 2) ''e'' (demo_ids 0) (Aware 5) demo_uncertain = (Inr x, w')
     \<and> px_status x = P_RETRY_PENDING \<and> get_inbox ''e'' demo_held = Inr inbox \<and> asks_about (demo_asker 2) [demo_write_run] inbox q
     \<and> demo_platform 2 (sold_out_query q) demo_uncertain = (Inr (AdapterOk [(''sold_out_product'', JObj product)]), demo_uncertain)
     \<and> map_of product ''version'' = Some (JInt 2)"
proof -
  obtain x w' where r: "reconcile_waiting (demo_asker 2) ''e'' (demo_ids 0) (Aware 5) demo_uncertain = (Inr x, w')"
    "px_status x = P_RETRY_PENDING" using demo_confirms by blast
  have port: "pc_reconciler (demo_asker 2) = Some (sold_out_reconcile (demo_platform 2))" by (simp add: demo_asker_def)
  have app: "get_application ''e'' (demo_ids 0) (wd_events demo_uncertain) = Inr demo_waiting"
    "ap_state demo_waiting = A_WAITING_RECONCILIATION" "ap_emergency demo_waiting = Some (demo_ids 0)"
    by (simp_all add: get_application_def demo_waiting_def)
  let ?ns = "map demo_view [demo_prepare\<lparr>nd_state := N_SUCCEEDED, nd_deadline_at := None\<rparr>,
      demo_ready_card 2 ''p''\<lparr>nd_state := N_RUNNING, nd_deadline_at := None\<rparr>, demo_write, demo_collect]"
  have nodes: "list_nodes (demo_ids 0) None (wd_plans demo_uncertain) = Inr ?ns" by (simp add: demo_unsure_nodes)
  have only: "filter (\<lambda>n. nv_logical_key n = ''mark-sold-out'') ?ns = [demo_view demo_write]"
    "nv_state (demo_view demo_write) = N_WAITING_RECONCILIATION"
    by (simp_all add: demo_view_def demo_write_def demo_ready_card_def)
  have id: "nv_id (demo_view demo_write) = demo_ids 3" by (simp add: demo_view_def demo_write_def)
  from sold_out_confirmed_only [OF port app nodes only r(1)] show ?thesis
    using r by (auto simp: id demo_unsure_runs demo_platform_def)
qed

end
