(* ===== verification/Uuid5.thy ===== *)
theory Uuid5
  imports Sha256
begin

section \<open>Name-based identifiers\<close>

text \<open>
  \<open>uuid.uuid5(NAMESPACE_URL, name)\<close>, the stable identifier of an operation: the first 16 bytes of the
  SHA-1 digest of the namespace and the name, with the version and variant bits set, written as
  8-4-4-4-12 hexadecimal digits. SHA-1 follows FIPS 180-4; padding and words are those of SHA-256.
\<close>

definition sha1_f :: "nat \<Rightarrow> u32 \<Rightarrow> u32 \<Rightarrow> u32 \<Rightarrow> u32" where
  "sha1_f t b c d = (if t < 20 then sha_ch b c d else if t < 40 then b XOR c XOR d
     else if t < 60 then sha_maj b c d else b XOR c XOR d)"

definition sha1_k :: "nat \<Rightarrow> u32" where
  "sha1_k t = (if t < 20 then 1518500249 else if t < 40 then 1859775393 else if t < 60 then 2400959708 else 3395469782)"

fun sha1_schedule :: "nat \<Rightarrow> u32 list \<Rightarrow> u32 list" where
  "sha1_schedule 0 w = w"
| "sha1_schedule (Suc n) w = sha1_schedule n (w @ [word_rotl 1 (w ! (length w - 3) XOR w ! (length w - 8)
     XOR w ! (length w - 14) XOR w ! (length w - 16))])"

fun sha1_round :: "u32 list \<Rightarrow> nat \<times> u32 \<Rightarrow> u32 list" where
  "sha1_round [a, b, c, d, e] (t, w) =
     [word_rotl 5 a + sha1_f t b c d + e + sha1_k t + w, a, word_rotl 30 b, c, d]"
| "sha1_round st _ = st"

definition sha1_block :: "u32 list \<Rightarrow> u32 list \<Rightarrow> u32 list" where
  "sha1_block hs block = map2 (+) hs (foldl sha1_round hs (zip [0..<80] (sha1_schedule 64 block)))"

fun sha1_blocks :: "nat \<Rightarrow> u32 list \<Rightarrow> u32 list \<Rightarrow> u32 list" where
  "sha1_blocks 0 hs ws = hs"
| "sha1_blocks (Suc n) hs ws = sha1_blocks n (sha1_block hs (take 16 ws)) (drop 16 ws)"

definition sha1_init :: "u32 list" where
  "sha1_init = [1732584193, 4023233417, 2562383102, 271733878, 3285377520]"

definition sha1_bytes :: "nat list \<Rightarrow> nat list" where
  "sha1_bytes bs =
     (let ws = be_words (sha_pad bs)
      in concat (map (\<lambda>w. be_bytes 4 (unat w)) (sha1_blocks (length ws div 16) sha1_init ws)))"

text \<open>\<open>uuid.NAMESPACE_URL\<close>, 6ba7b811-9dad-11d1-80b4-00c04fd430c8.\<close>

definition namespace_url :: "nat list" where
  "namespace_url = [107, 167, 184, 17, 157, 173, 17, 209, 128, 180, 0, 192, 79, 212, 48, 200]"

definition uuid_text :: "nat list \<Rightarrow> string" where
  "uuid_text bs = (let hex = \<lambda>xs. concat (map (hex_nat 2) xs)
     in hex (take 4 bs) @ ''-'' @ hex (take 2 (drop 4 bs)) @ ''-'' @ hex (take 2 (drop 6 bs)) @ ''-''
        @ hex (take 2 (drop 8 bs)) @ ''-'' @ hex (take 6 (drop 10 bs)))"

definition uuid5_url :: "string \<Rightarrow> string" where
  "uuid5_url name =
     (let h = take 16 (sha1_bytes (namespace_url @ map of_char name))
      in uuid_text (h[6 := h ! 6 mod 16 + 80, 8 := h ! 8 mod 64 + 128]))"

lemma length_sha1_round [simp]: "length (sha1_round st x) = length st"
  by (induction st x rule: sha1_round.induct) auto

lemma length_sha1_block [simp]: "length (sha1_block hs b) = length hs"
proof -
  have "length (foldl sha1_round st xs) = length st" for st xs by (induction xs arbitrary: st) auto
  then show ?thesis by (simp add: sha1_block_def)
qed

lemma length_sha1_blocks [simp]: "length (sha1_blocks n hs ws) = length hs"
  by (induction n arbitrary: hs ws) auto

lemma length_be_bytes [simp]: "length (be_bytes k n) = k"
  by (induction k arbitrary: n) auto

lemma length_sha1_bytes [simp]: "length (sha1_bytes bs) = 20"
proof -
  have "length (concat (map (\<lambda>w. be_bytes 4 (f w)) ws)) = 4 * length ws" for f and ws :: "u32 list" by (induction ws) auto
  then show ?thesis by (simp add: sha1_bytes_def Let_def sha1_init_def)
qed

lemma length_uuid5_url [simp]: "length (uuid5_url name) = 36"
proof -
  have "length (concat (map (hex_nat 2) xs)) = 2 * length xs" for xs by (induction xs) auto
  then show ?thesis by (simp add: uuid5_url_def uuid_text_def Let_def)
qed

end
