(* ===== verification/AttemptStore.thy ===== *)
theory AttemptStore
  imports Uuid5 Worker
begin

section \<open>The ledger of execution attempts\<close>

text \<open>
  \<open>attempt_store.py\<close>: one operation per business identity, one attempt per operation, and a terminal
  fact that is written once. A lock makes every method atomic. Identifiers come from \<open>u\<close>, the clock
  reading of a new record is an argument.
\<close>

subsection \<open>Operations\<close>

datatype attempt_state = T_INTENT_RECORDED | T_SUCCEEDED | T_FAILED | T_SIDE_EFFECT_UNKNOWN

record operation_request =
  oq_skill_id :: string
  oq_skill_version :: string
  oq_room_id :: string
  oq_idempotency_key :: string
  oq_deadline_at :: int
  oq_intent :: "(string \<times> json) list"

definition operation_request_create ::
  "string \<Rightarrow> string \<Rightarrow> string \<Rightarrow> string \<Rightarrow> pytime \<Rightarrow> (string \<times> json) list \<Rightarrow> validation_error + operation_request" where
  "operation_request_create skill version room key deadline intent =
     rbind (guard (skill \<noteq> '''' \<and> version \<noteq> '''' \<and> room \<noteq> '''' \<and> key \<noteq> '''') FieldInvalid) (\<lambda>_.
     rbind (aware_utc FieldInvalid deadline) (\<lambda>us.
     Inr \<lparr>oq_skill_id = skill, oq_skill_version = version, oq_room_id = room, oq_idempotency_key = key,
          oq_deadline_at = us, oq_intent = intent\<rparr>))"

text \<open>The separator of the four parts is the control character 0x1F.\<close>

definition unit_separator :: char where
  "unit_separator = CHR 0x1F"

definition operation_identity :: "operation_request \<Rightarrow> string" where
  "operation_identity q = oq_skill_id q @ unit_separator # oq_skill_version q @ unit_separator # oq_room_id q
     @ unit_separator # oq_idempotency_key q"

definition operation_id :: "operation_request \<Rightarrow> string" where
  "operation_id q = uuid5_url (operation_identity q)"

definition intent_digest :: "operation_request \<Rightarrow> string" where
  "intent_digest q = canonical_sha256 (JObj (oq_intent q))"

subsection \<open>Attempts\<close>

record attempt_record =
  at_operation_id :: string
  at_attempt_id :: string
  at_request :: operation_request
  at_state :: attempt_state
  at_created_at :: int
  at_payload :: "(string, pyval) dict option"
  at_failure :: "failure_fact option"

record attempt_store =
  as_by_operation :: "(string, attempt_record) dict"
  as_digest :: "(string, string) dict"
  as_by_attempt :: "(string, attempt_record) dict"
  as_draws :: nat

definition empty_attempt_store :: attempt_store where
  "empty_attempt_store = \<lparr>as_by_operation = [], as_digest = [], as_by_attempt = [], as_draws = 0\<rparr>"

text \<open>\<open>AttemptInvariantError\<close> and the one other exception a method can raise.\<close>

datatype attempt_error =
    ConflictingReplay | ForeignFailure | AttemptNotFound | NotAwaiting | BadTerminalOutput | AttemptKeyError

definition is_attempt_invariant :: "attempt_error \<Rightarrow> bool" where
  "is_attempt_invariant e \<longleftrightarrow> e \<noteq> AttemptKeyError"

type_synonym 'a attempt_outcome = "(attempt_error + 'a) \<times> attempt_store"

definition new_attempt :: "string \<Rightarrow> int \<Rightarrow> operation_request \<Rightarrow> attempt_record" where
  "new_attempt attempt_id now q = \<lparr>at_operation_id = operation_id q, at_attempt_id = attempt_id, at_request = q,
     at_state = T_INTENT_RECORDED, at_created_at = now, at_payload = None, at_failure = None\<rparr>"

definition replace_record :: "attempt_record \<Rightarrow> attempt_store \<Rightarrow> attempt_store" where
  "replace_record r s = s\<lparr>as_by_operation := dset (at_operation_id r) r (as_by_operation s),
     as_by_attempt := dset (at_attempt_id r) r (as_by_attempt s)\<rparr>"

definition claim_or_replay ::
  "(nat \<Rightarrow> string) \<Rightarrow> int \<Rightarrow> operation_request \<Rightarrow> attempt_store \<Rightarrow> (attempt_record \<times> bool) attempt_outcome" where
  "claim_or_replay u now q s =
     (case dget (as_by_operation s) (operation_id q) of
        Some existing \<Rightarrow>
          (rbind (of_option AttemptKeyError (dget (as_digest s) (operation_id q))) (\<lambda>digest.
           rbind (guard (digest = intent_digest q) ConflictingReplay) (\<lambda>_. Inr (existing, False))), s)
      | None \<Rightarrow>
          (let r = new_attempt (u (as_draws s)) now q
           in (Inr (r, True), (replace_record r s)\<lparr>as_digest := dset (operation_id q) (intent_digest q) (as_digest s),
                 as_draws := Suc (as_draws s)\<rparr>)))"

definition awaiting_record :: "string \<Rightarrow> attempt_store \<Rightarrow> attempt_error + attempt_record" where
  "awaiting_record attempt_id s =
     rbind (of_option AttemptNotFound (dget (as_by_attempt s) attempt_id)) (\<lambda>r.
     rbind (guard (at_state r = T_INTENT_RECORDED) NotAwaiting) (\<lambda>_. Inr r))"

definition complete_success ::
  "string \<Rightarrow> (string, pyval) dict \<Rightarrow> attempt_store \<Rightarrow> attempt_record attempt_outcome" where
  "complete_success attempt_id payload s = commit (awaiting_record attempt_id s)
     (\<lambda>r. let r' = r\<lparr>at_state := T_SUCCEEDED, at_payload := Some payload\<rparr> in (Inr r', replace_record r' s))
     s"

definition complete_failure ::
  "string \<Rightarrow> failure_fact \<Rightarrow> attempt_store \<Rightarrow> attempt_record attempt_outcome" where
  "complete_failure attempt_id f s = commit
     (rbind (guard (ff_attempt_id f = attempt_id) ForeignFailure) (\<lambda>_. awaiting_record attempt_id s))
     (\<lambda>r. let r' = r\<lparr>at_state := (if ff_category f = SIDE_EFFECT_UNKNOWN then T_SIDE_EFFECT_UNKNOWN else T_FAILED),
                     at_failure := Some f\<rparr> in (Inr r', replace_record r' s))
     s"

subsection \<open>The invariant\<close>

definition attempt_shape :: "attempt_record \<Rightarrow> bool" where
  "attempt_shape r \<longleftrightarrow> (case at_state r of
       T_INTENT_RECORDED \<Rightarrow> at_payload r = None \<and> at_failure r = None
     | T_SUCCEEDED \<Rightarrow> at_payload r \<noteq> None \<and> at_failure r = None
     | T_FAILED \<Rightarrow> at_payload r = None \<and> (\<exists>f. at_failure r = Some f \<and> ff_attempt_id f = at_attempt_id r
         \<and> ff_category f \<noteq> SIDE_EFFECT_UNKNOWN)
     | T_SIDE_EFFECT_UNKNOWN \<Rightarrow> at_payload r = None \<and> (\<exists>f. at_failure r = Some f \<and> ff_attempt_id f = at_attempt_id r
         \<and> ff_category f = SIDE_EFFECT_UNKNOWN))"

definition attempts_wf :: "(nat \<Rightarrow> string) \<Rightarrow> attempt_store \<Rightarrow> bool" where
  "attempts_wf u s \<longleftrightarrow>
     (\<forall>i r. dget (as_by_operation s) i = Some r \<longrightarrow> i = operation_id (at_request r) \<and> at_operation_id r = i
        \<and> dget (as_by_attempt s) (at_attempt_id r) = Some r \<and> dget (as_digest s) i = Some (intent_digest (at_request r))
        \<and> attempt_shape r)
     \<and> (\<forall>a r. dget (as_by_attempt s) a = Some r \<longrightarrow> at_attempt_id r = a
        \<and> dget (as_by_operation s) (at_operation_id r) = Some r \<and> (\<exists>k < as_draws s. a = u k))"

text \<open>An attempt keeps its identity; once terminal it never changes.\<close>

definition attempt_grows :: "attempt_record \<Rightarrow> attempt_record \<Rightarrow> bool" where
  "attempt_grows r r' \<longleftrightarrow> at_operation_id r' = at_operation_id r \<and> at_attempt_id r' = at_attempt_id r
     \<and> at_request r' = at_request r \<and> at_created_at r' = at_created_at r
     \<and> (at_state r \<noteq> T_INTENT_RECORDED \<longrightarrow> r' = r)"

definition attempts_evolve :: "attempt_store \<Rightarrow> attempt_store \<Rightarrow> bool" where
  "attempts_evolve s t \<longleftrightarrow> dict_rel attempt_grows (as_by_operation s) (as_by_operation t)"

text \<open>What may happen to the ledger: its three methods, and identifiers drawn by others.\<close>

inductive attempt_step :: "(nat \<Rightarrow> string) \<Rightarrow> attempt_store \<Rightarrow> attempt_store \<Rightarrow> bool" for u where
  attempt_claim: "attempt_step u s (snd (claim_or_replay u now q s))"
| attempt_success: "attempt_step u s (snd (complete_success a payload s))"
| attempt_failure: "attempt_step u s (snd (complete_failure a f s))"
| attempt_draw: "attempt_step u s (s\<lparr>as_draws := Suc (as_draws s)\<rparr>)"

lemma attempts_wf_empty: "attempts_wf u empty_attempt_store"
  by (simp add: attempts_wf_def empty_attempt_store_def)

lemma attempt_grows_refl [simp]: "attempt_grows r r"
  by (simp add: attempt_grows_def)

lemma attempt_grows_trans: "attempt_grows a b \<Longrightarrow> attempt_grows b c \<Longrightarrow> attempt_grows a c"
  by (auto simp: attempt_grows_def)

lemma attempts_evolve_refl [simp]: "attempts_evolve s s"
  by (simp add: attempts_evolve_def dict_rel_refl)

lemma attempts_evolve_trans: "attempts_evolve a b \<Longrightarrow> attempts_evolve b c \<Longrightarrow> attempts_evolve a c"
  unfolding attempts_evolve_def by (rule dict_rel_trans) (auto intro: attempt_grows_trans)

lemma attempts_wfD:
  assumes "attempts_wf u s"
  shows "dget (as_by_operation s) i = Some r \<Longrightarrow> i = operation_id (at_request r) \<and> at_operation_id r = i
      \<and> dget (as_by_attempt s) (at_attempt_id r) = Some r \<and> dget (as_digest s) i = Some (intent_digest (at_request r))
      \<and> attempt_shape r"
    and "dget (as_by_attempt s) a = Some r \<Longrightarrow> at_attempt_id r = a \<and> dget (as_by_operation s) (at_operation_id r) = Some r
      \<and> (\<exists>k < as_draws s. a = u k)"
  using assms unfolding attempts_wf_def by blast+

lemma replace_record_lookup:
  "dget (as_by_operation (replace_record r s)) j = (if j = at_operation_id r then Some r else dget (as_by_operation s) j)"
  "dget (as_by_attempt (replace_record r s)) a = (if a = at_attempt_id r then Some r else dget (as_by_attempt s) a)"
  "as_digest (replace_record r s) = as_digest s" "as_draws (replace_record r s) = as_draws s"
  by (simp_all add: replace_record_def)

lemma replace_record_good:
  assumes wf: "attempts_wf u s" and r: "dget (as_by_attempt s) (at_attempt_id r) = Some r" "at_state r = T_INTENT_RECORDED"
    and r': "at_operation_id r' = at_operation_id r" "at_attempt_id r' = at_attempt_id r" "at_request r' = at_request r"
      "at_created_at r' = at_created_at r" "attempt_shape r'"
  shows "attempts_wf u (replace_record r' s) \<and> attempts_evolve s (replace_record r' s)"
proof -
  have op: "dget (as_by_operation s) (at_operation_id r) = Some r" and drawn: "\<exists>k < as_draws s. at_attempt_id r = u k"
    using attempts_wfD(2) [OF wf r(1)] by simp_all
  have i: "at_operation_id r = operation_id (at_request r)" "dget (as_digest s) (at_operation_id r) = Some (intent_digest (at_request r))"
    using attempts_wfD(1) [OF wf op] by blast+
  have grows: "attempt_grows r r'" using r' r(2) by (simp add: attempt_grows_def)
  have "attempts_evolve s (replace_record r' s)"
    unfolding attempts_evolve_def dict_rel_def replace_record_lookup r'(1) using op grows by auto
  moreover have "attempts_wf u (replace_record r' s)"
    unfolding attempts_wf_def replace_record_lookup r'(1,2)
  proof (intro conjI allI impI)
    fix j x assume x: "(if j = at_operation_id r then Some r' else dget (as_by_operation s) j) = Some x"
    have "j = operation_id (at_request x) \<and> at_operation_id x = j
        \<and> (if at_attempt_id x = at_attempt_id r then Some r' else dget (as_by_attempt s) (at_attempt_id x)) = Some x
        \<and> dget (as_digest s) j = Some (intent_digest (at_request x)) \<and> attempt_shape x"
    proof (cases "j = at_operation_id r")
      case True
      then have "x = r'" using x by simp
      then show ?thesis using i True r' by metis
    next
      case False
      then have x': "dget (as_by_operation s) j = Some x" using x by simp
      note fx = attempts_wfD(1) [OF wf x']
      have "at_attempt_id x \<noteq> at_attempt_id r" using fx r(1) False by (metis option.inject)
      then have "(if at_attempt_id x = at_attempt_id r then Some r' else dget (as_by_attempt s) (at_attempt_id x)) = Some x"
        using fx by (metis (full_types))
      then show ?thesis using fx by blast
    qed
    then show "j = operation_id (at_request x)" "at_operation_id x = j"
      "(if at_attempt_id x = at_attempt_id r then Some r' else dget (as_by_attempt s) (at_attempt_id x)) = Some x"
      "dget (as_digest s) j = Some (intent_digest (at_request x))" "attempt_shape x" by blast+
  next
    fix a x assume x: "(if a = at_attempt_id r then Some r' else dget (as_by_attempt s) a) = Some x"
    have "at_attempt_id x = a \<and> (if at_operation_id x = at_operation_id r then Some r' else dget (as_by_operation s) (at_operation_id x)) = Some x
        \<and> (\<exists>k < as_draws s. a = u k)"
    proof (cases "a = at_attempt_id r")
      case True
      then have "x = r'" using x by simp
      then show ?thesis using True r'(1,2) drawn by metis
    next
      case False
      then have x': "dget (as_by_attempt s) a = Some x" using x by simp
      note fx = attempts_wfD(2) [OF wf x']
      have "at_operation_id x \<noteq> at_operation_id r" using fx op False by (metis option.inject)
      then show ?thesis using fx by simp
    qed
    then show "at_attempt_id x = a"
      "(if at_operation_id x = at_operation_id r then Some r' else dget (as_by_operation s) (at_operation_id x)) = Some x"
      "\<exists>k < as_draws s. a = u k" by blast+
  qed
  ultimately show ?thesis by simp
qed

lemma awaiting_record_eq:
  "awaiting_record a s = Inr r \<longleftrightarrow> dget (as_by_attempt s) a = Some r \<and> at_state r = T_INTENT_RECORDED"
  by (auto simp: awaiting_record_def outcome)

lemma attempt_step_good:
  assumes "attempt_step u s t" and wf: "attempts_wf u s" and inj: "inj u"
  shows "attempts_wf u t \<and> attempts_evolve s t"
  using assms(1)
proof cases
  case (attempt_claim now q)
  show ?thesis
  proof (cases "dget (as_by_operation s) (operation_id q)")
    case (Some r)
    then show ?thesis using attempt_claim wf by (simp add: claim_or_replay_def)
  next
    case None
    have fresh: "dget (as_by_attempt s) (u (as_draws s)) = None"
      using attempts_wfD(2) [OF wf, of "u (as_draws s)"] inj
      by (cases "dget (as_by_attempt s) (u (as_draws s))") (auto simp: inj_eq)
    define r where "r = new_attempt (u (as_draws s)) now q"
    have r: "at_operation_id r = operation_id q" "at_attempt_id r = u (as_draws s)" "at_request r = q" "attempt_shape r"
      by (simp_all add: r_def new_attempt_def attempt_shape_def)
    have t: "t = (replace_record r s)\<lparr>as_digest := dset (operation_id q) (intent_digest q) (as_digest s),
        as_draws := Suc (as_draws s)\<rparr>"
      using attempt_claim None by (simp add: claim_or_replay_def r_def Let_def)
    have other: "at_attempt_id x \<noteq> u (as_draws s)" if "dget (as_by_operation s) j = Some x" for j x
      using attempts_wfD(1) [OF wf that] fresh by auto
    have "attempts_wf u t"
      unfolding attempts_wf_def
    proof (intro conjI allI impI)
      fix j x assume x: "dget (as_by_operation t) j = Some x"
      show "j = operation_id (at_request x)" "at_operation_id x = j" "dget (as_by_attempt t) (at_attempt_id x) = Some x"
        "dget (as_digest t) j = Some (intent_digest (at_request x))" "attempt_shape x"
        using x r attempts_wfD(1) [OF wf, of j x] other [of j x] by (auto simp: t replace_record_def split: if_splits)
    next
      fix a x assume x: "dget (as_by_attempt t) a = Some x"
      show "at_attempt_id x = a" "dget (as_by_operation t) (at_operation_id x) = Some x" "\<exists>k < as_draws t. a = u k"
        using x r None attempts_wfD(2) [OF wf, of a x] by (auto simp: t replace_record_def less_Suc_eq split: if_splits)
    qed
    moreover have "attempts_evolve s t"
      using None by (auto simp: t r attempts_evolve_def replace_record_def intro!: dict_rel_update)
    ultimately show ?thesis by simp
  qed
next
  case (attempt_success a payload)
  show ?thesis
  proof (cases "awaiting_record a s")
    case (Inl e)
    then show ?thesis using attempt_success wf by (simp add: complete_success_def)
  next
    case (Inr r)
    then have r: "dget (as_by_attempt s) a = Some r" "at_state r = T_INTENT_RECORDED" by (simp_all add: awaiting_record_eq)
    then have "at_attempt_id r = a" "attempt_shape r" using attempts_wfD [OF wf] by blast+
    then show ?thesis
      using replace_record_good [OF wf, of r "r\<lparr>at_state := T_SUCCEEDED, at_payload := Some payload\<rparr>"] r Inr attempt_success
      by (simp add: complete_success_def Let_def attempt_shape_def)
  qed
next
  case (attempt_failure a f)
  show ?thesis
  proof (cases "ff_attempt_id f = a \<and> (\<exists>r. awaiting_record a s = Inr r)")
    case False
    then show ?thesis using attempt_failure wf by (cases "awaiting_record a s") (auto simp: complete_failure_def guard_def)
  next
    case True
    then obtain r where aw: "awaiting_record a s = Inr r" by blast
    then have r: "dget (as_by_attempt s) a = Some r" "at_state r = T_INTENT_RECORDED" by (simp_all add: awaiting_record_eq)
    then have "at_attempt_id r = a" "attempt_shape r" using attempts_wfD [OF wf] by blast+
    then show ?thesis
      using replace_record_good [OF wf, of r "r\<lparr>at_state := (if ff_category f = SIDE_EFFECT_UNKNOWN then T_SIDE_EFFECT_UNKNOWN
          else T_FAILED), at_failure := Some f\<rparr>"] r True aw attempt_failure
      by (simp add: complete_failure_def Let_def attempt_shape_def split: if_splits)
  qed
next
  case attempt_draw
  then show ?thesis using wf by (fastforce simp: attempts_wf_def attempts_evolve_def dict_rel_refl less_Suc_eq)
qed

lemma attempt_steps_good:
  "steps (attempt_step u) s t \<Longrightarrow> attempts_wf u s \<Longrightarrow> inj u \<Longrightarrow> attempts_wf u t \<and> attempts_evolve s t"
proof (induction rule: steps.induct)
  case (steps_step s t w)
  then show ?case using attempt_step_good attempts_evolve_trans by blast
qed simp

text \<open>The terminal record of an operation is written once.\<close>

definition final_attempt :: "attempt_store \<Rightarrow> string \<Rightarrow> attempt_record option" where
  "final_attempt s i = (case dget (as_by_operation s) i of
       None \<Rightarrow> None | Some r \<Rightarrow> if at_state r = T_INTENT_RECORDED then None else Some r)"

lemma final_attempt_eq: "final_attempt s i = Some r \<longleftrightarrow> dget (as_by_operation s) i = Some r \<and> at_state r \<noteq> T_INTENT_RECORDED"
  by (auto simp: final_attempt_def split: option.split)

interpretation settled: first_write_wins "\<lambda>s. attempts_wf u s \<and> inj u" "attempt_step u" final_attempt
  for u :: "nat \<Rightarrow> string"
proof unfold_locales
  show "final_attempt t i = Some r"
    if inv: "attempts_wf u s \<and> inj u" and st: "attempt_step u s t" and f: "final_attempt s i = Some r" for s t i r
  proof -
    have "attempts_evolve s t" using attempt_step_good inv st by blast
    then obtain r' where "dget (as_by_operation t) i = Some r'" "attempt_grows r r'"
      using f unfolding attempts_evolve_def dict_rel_def final_attempt_eq by blast
    then show ?thesis using f by (auto simp: final_attempt_eq attempt_grows_def)
  qed
qed (use attempt_step_good in blast)

text \<open>
  The fields of an identity are joined without an escape: free of the separator they can be read
  back, with it two operations can share an identity.
\<close>

lemma split_unique: "c \<notin> set xs \<Longrightarrow> c \<notin> set xs' \<Longrightarrow> xs @ c # ys = xs' @ c # ys' \<longleftrightarrow> xs = xs' \<and> ys = ys'"
proof (induction xs arbitrary: xs')
  case Nil
  then show ?case by (cases xs') auto
next
  case (Cons x xs)
  then show ?case by (cases xs') auto
qed

lemma operation_identity_injective:
  assumes "\<forall>q' \<in> {q1, q2}. unit_separator \<notin> set (oq_skill_id q') \<union> set (oq_skill_version q') \<union> set (oq_room_id q')"
  shows "operation_identity q1 = operation_identity q2 \<longleftrightarrow> oq_skill_id q1 = oq_skill_id q2 \<and> oq_skill_version q1 = oq_skill_version q2
    \<and> oq_room_id q1 = oq_room_id q2 \<and> oq_idempotency_key q1 = oq_idempotency_key q2"
  using assms by (auto simp: operation_identity_def split_unique)

lemma operation_identity_collides:
  "operation_id (q\<lparr>oq_room_id := room @ unit_separator # x, oq_idempotency_key := key\<rparr>)
     = operation_id (q\<lparr>oq_room_id := room, oq_idempotency_key := x @ unit_separator # key\<rparr>)"
  by (simp add: operation_id_def operation_identity_def)

end
