(* ===== verification/SkillGate.thy ===== *)
theory SkillGate
  imports AttemptStore
begin

section \<open>Skills and the gate before their handlers\<close>

text \<open>
  \<open>skill_runtime/models.py\<close>, \<open>catalog.py\<close>, \<open>policy_view.py\<close>, \<open>core/security_hooks.py\<close> and the checks
  \<open>SkillExecutor\<close> makes before it touches the ledger. The texts for humans (\<open>summary\<close>, \<open>reason\<close>,
  \<open>description\<close>) carry no decision and are left out; the JSON Schema validator is a parameter.
\<close>

subsection \<open>Frozen JSON of the runtime\<close>

text \<open>\<open>_deep_freeze\<close>: only exact containers, and numbers that are finite.\<close>

fun deep_freeze :: "pyval \<Rightarrow> py_error + json"
  and deep_freeze_list :: "pyval list \<Rightarrow> py_error + json list"
  and deep_freeze_items :: "(pyval \<times> pyval) list \<Rightarrow> py_error + (string \<times> json) list" where
  "deep_freeze PyNone = Inr JNull"
| "deep_freeze (PyBool b) = Inr (JBool b)"
| "deep_freeze (PyInt n) = Inr (JInt n)"
| "deep_freeze (PyFloat (Finite v r)) = Inr (JFloat v r)"
| "deep_freeze (PyStr s) = Inr (JStr s)"
| "deep_freeze (PyStrSub s) = Inr (JStr s)"
| "deep_freeze (PyList xs) = rbind (deep_freeze_list xs) (\<lambda>ys. Inr (JList ys))"
| "deep_freeze (PyDict kvs) = (if all_str_keys kvs then rbind (deep_freeze_items kvs) (\<lambda>ys. Inr (JObj ys))
     else Inl ValueError)"
| "deep_freeze _ = Inl ValueError"
| "deep_freeze_list [] = Inr []"
| "deep_freeze_list (x # xs) = rbind (deep_freeze x) (\<lambda>y. rbind (deep_freeze_list xs) (\<lambda>ys. Inr (y # ys)))"
| "deep_freeze_items [] = Inr []"
| "deep_freeze_items ((k, v) # kvs) =
     rbind (deep_freeze v) (\<lambda>y. rbind (deep_freeze_items kvs) (\<lambda>ys. Inr ((key_text k, y) # ys)))"

text \<open>A field of type \<open>dict[str, Any]\<close> with this validator: pydantic takes any mapping with string keys.\<close>

definition frozen_fields :: "pyval \<Rightarrow> validation_error + (string \<times> json) list" where
  "frozen_fields v = (case v of
       PyDict kvs \<Rightarrow> if all_str_keys kvs then map_sum (\<lambda>_. FieldInvalid) id (deep_freeze_items kvs) else Inl FieldInvalid
     | PyMapping kvs \<Rightarrow> if all_str_keys kvs then map_sum (\<lambda>_. FieldInvalid) id (deep_freeze_items kvs) else Inl FieldInvalid
     | _ \<Rightarrow> Inl FieldInvalid)"

subsection \<open>Gates\<close>

datatype gate_decision = G_AUTO | G_SOFT_GATE | G_HARD_GATE | G_BLOCK

record gate_result =
  gr_allowed :: bool
  gr_decision :: gate_decision
  gr_requires_confirmation :: bool

definition evaluate_tool_gate :: "gate_decision \<Rightarrow> bool \<Rightarrow> gate_result" where
  "evaluate_tool_gate gate confirmed = (case gate of
       G_AUTO \<Rightarrow> \<lparr>gr_allowed = True, gr_decision = G_AUTO, gr_requires_confirmation = False\<rparr>
     | G_SOFT_GATE \<Rightarrow> \<lparr>gr_allowed = True, gr_decision = G_SOFT_GATE, gr_requires_confirmation = False\<rparr>
     | G_HARD_GATE \<Rightarrow>
         if confirmed then \<lparr>gr_allowed = True, gr_decision = G_HARD_GATE, gr_requires_confirmation = False\<rparr>
         else \<lparr>gr_allowed = False, gr_decision = G_HARD_GATE, gr_requires_confirmation = True\<rparr>
     | G_BLOCK \<Rightarrow> \<lparr>gr_allowed = False, gr_decision = G_BLOCK, gr_requires_confirmation = False\<rparr>)"

text \<open>\<open>None\<close> is the \<open>PermissionError\<close>.\<close>

definition require_allowed_tool_gate :: "gate_decision \<Rightarrow> bool \<Rightarrow> gate_result option" where
  "require_allowed_tool_gate gate confirmed =
     (let r = evaluate_tool_gate gate confirmed in if gr_allowed r then Some r else None)"

subsection \<open>Manifests and the policy view\<close>

datatype authorization_requirement = NO_AUTHORIZATION | HUMAN_APPROVAL | TRUSTED_EVENT_OR_HUMAN

text \<open>The manifest with the fields that the plan engine does not read.\<close>

record governed_manifest = skill_manifest +
  gm_schema :: "(string \<times> json) list"
  gm_gate :: gate_decision
  gm_requires_key :: bool
  gm_authorization :: authorization_requirement

record skill_policy =
  po_skill_id :: string
  po_version :: string
  po_lifecycle :: "string list"
  po_risk_level :: string
  po_schema :: "(string \<times> json) list"
  po_gate :: gate_decision
  po_requires_key :: bool
  po_authorization :: authorization_requirement

type_synonym policy_view = "(string, skill_policy) dict"

definition policy_of :: "governed_manifest \<Rightarrow> skill_policy" where
  "policy_of m = \<lparr>po_skill_id = sm_skill_id m, po_version = sm_version m, po_lifecycle = sm_lifecycle m,
     po_risk_level = sm_risk_level m, po_schema = gm_schema m, po_gate = gm_gate m,
     po_requires_key = gm_requires_key m, po_authorization = gm_authorization m\<rparr>"

fun policy_view_add :: "governed_manifest list \<Rightarrow> policy_view \<Rightarrow> py_error + policy_view" where
  "policy_view_add [] view = Inr view"
| "policy_view_add (m # ms) view =
     (if dget view (sm_skill_id m) \<noteq> None then Inl ValueError
      else policy_view_add ms (dset (sm_skill_id m) (policy_of m) view))"

definition policy_view_init :: "governed_manifest list \<Rightarrow> py_error + policy_view" where
  "policy_view_init ms = policy_view_add ms []"

definition policy_skill_ids :: "policy_view \<Rightarrow> string list" where
  "policy_skill_ids view = sort (dkeys view)"

definition policy_available :: "policy_view \<Rightarrow> string \<Rightarrow> string \<Rightarrow> bool option" where
  "policy_available view skill stage = map_option (\<lambda>p. stage \<in> set (po_lifecycle p)) (dget view skill)"

text \<open>\<open>==\<close> of the governance tuples: frozensets and dicts do not depend on order.\<close>

definition same_governance :: "skill_policy \<Rightarrow> skill_policy \<Rightarrow> bool" where
  "same_governance p q \<longleftrightarrow> po_version p = po_version q \<and> set (po_lifecycle p) = set (po_lifecycle q)
     \<and> po_risk_level p = po_risk_level q \<and> json_eq (JObj (po_schema p)) (JObj (po_schema q)) \<and> po_gate p = po_gate q
     \<and> po_requires_key p = po_requires_key q \<and> po_authorization p = po_authorization q"

definition catalog_dict :: "governed_manifest list \<Rightarrow> (string, governed_manifest) dict" where
  "catalog_dict ms = fold (\<lambda>m. dset (sm_skill_id m) m) ms []"

definition view_matches_catalog :: "governed_manifest list \<Rightarrow> policy_view \<Rightarrow> bool" where
  "view_matches_catalog ms view \<longleftrightarrow> (\<forall>k \<in> set (dkeys (catalog_dict ms) @ dkeys view).
     case (dget (catalog_dict ms) k, dget view k) of
       (Some m, Some p) \<Rightarrow> same_governance p (policy_of m) | _ \<Rightarrow> False)"

text \<open>\<open>validate_manifests\<close>; \<open>schema_ok\<close> is \<open>Draft202012Validator.check_schema\<close>.\<close>

fun validate_manifests ::
  "((string \<times> json) list \<Rightarrow> bool) \<Rightarrow> string list \<Rightarrow> governed_manifest list \<Rightarrow> py_error + governed_manifest list" where
  "validate_manifests schema_ok seen [] = Inr []"
| "validate_manifests schema_ok seen (m # ms) =
     (if sm_skill_id m \<in> set seen then Inl ValueError
      else if gm_schema m \<noteq> [] \<and> \<not> schema_ok (gm_schema m) then Inl ValueError
      else if sm_version m = '''' then Inl ValueError
      else rbind (validate_manifests schema_ok (sm_skill_id m # seen) ms) (\<lambda>rest. Inr (m # rest)))"

subsection \<open>Calls and results\<close>

datatype approval_decision = APPROVED_DECISION | REJECTED_DECISION

record approval =
  av_decision :: approval_decision
  av_operator :: "string option"
  av_audit_id :: "string option"
  av_verified :: bool

text \<open>\<open>ApprovalContext\<close>: only the internal factory passes the token that verifies the provenance.\<close>

definition approval_create ::
  "bool \<Rightarrow> approval_decision \<Rightarrow> string option \<Rightarrow> string option \<Rightarrow> validation_error + approval" where
  "approval_create token decision operator audit =
     rbind (guard (operator \<noteq> None \<and> operator \<noteq> Some '''') ShapeInvalid) (\<lambda>_.
     rbind (guard (audit \<noteq> None \<and> audit \<noteq> Some '''') ShapeInvalid) (\<lambda>_.
     rbind (guard token ShapeInvalid) (\<lambda>_.
     Inr \<lparr>av_decision = decision, av_operator = operator, av_audit_id = audit, av_verified = True\<rparr>)))"

record skill_context =
  cx_room_id :: string
  cx_trace_id :: string
  cx_lifecycle :: lifecycle_stage
  cx_idempotency_key :: "string option"
  cx_approval :: "approval option"
  cx_event_authorization :: "event_authorization option"
  cx_attempt_id :: "string option"
  cx_deadline_at :: int

definition skill_context_create ::
  "string \<Rightarrow> string \<Rightarrow> lifecycle_stage \<Rightarrow> string option \<Rightarrow> approval option \<Rightarrow> event_authorization option \<Rightarrow> pytime
     \<Rightarrow> validation_error + skill_context" where
  "skill_context_create room trace stage key approval authorization deadline =
     rbind (aware_utc FieldInvalid deadline) (\<lambda>us.
     rbind (guard (approval = None \<or> authorization = None) ShapeInvalid) (\<lambda>_.
     rbind (guard (case authorization of None \<Rightarrow> True | Some a \<Rightarrow> provenance_verified a) ShapeInvalid) (\<lambda>_.
     Inr \<lparr>cx_room_id = room, cx_trace_id = trace, cx_lifecycle = stage, cx_idempotency_key = key,
          cx_approval = approval, cx_event_authorization = authorization, cx_attempt_id = None, cx_deadline_at = us\<rparr>)))"

record execution_call =
  ec_skill_id :: string
  ec_version :: string
  ec_context :: skill_context
  ec_arguments :: "(string \<times> json) list"

definition execution_call_create ::
  "string \<Rightarrow> string \<Rightarrow> skill_context \<Rightarrow> pyval \<Rightarrow> validation_error + execution_call" where
  "execution_call_create skill version context arguments =
     rbind (frozen_fields arguments) (\<lambda>fields.
     Inr \<lparr>ec_skill_id = skill, ec_version = version, ec_context = context, ec_arguments = fields\<rparr>)"

datatype skill_error_code =
    SKILL_NOT_FOUND | VERSION_MISMATCH | LIFECYCLE_MISMATCH | INVALID_ARGUMENTS | IDEMPOTENCY_REQUIRED
  | APPROVAL_REQUIRED | APPROVAL_REJECTED | HANDLER_NOT_FOUND | HANDLER_FAILED

record execution_result =
  xr_skill_id :: string
  xr_version :: string
  xr_status :: execution_status
  xr_error_code :: "skill_error_code option"
  xr_output :: "(string \<times> json) list option"
  xr_audit_id :: "string option"
  xr_attempt_id :: "string option"
  xr_failure :: "failure_fact option"

definition answer :: "execution_call \<Rightarrow> execution_status \<Rightarrow> skill_error_code option \<Rightarrow> execution_result" where
  "answer call status code = \<lparr>xr_skill_id = ec_skill_id call, xr_version = ec_version call, xr_status = status,
     xr_error_code = code, xr_output = None, xr_audit_id = None, xr_attempt_id = None, xr_failure = None\<rparr>"

definition error_answer :: "execution_call \<Rightarrow> skill_error_code \<Rightarrow> execution_result" where
  "error_answer call code = answer call ERROR (Some code)"

definition pending_authorization :: "execution_call \<Rightarrow> execution_result" where
  "pending_authorization call = answer call PENDING_STATUS (Some APPROVAL_REQUIRED)"

definition failure_answer :: "execution_call \<Rightarrow> failure_fact \<Rightarrow> execution_result" where
  "failure_answer call f = (error_answer call HANDLER_FAILED)\<lparr>xr_attempt_id := Some (ff_attempt_id f), xr_failure := Some f\<rparr>"

text \<open>A successful result, with the output as the validator freezes it: \<open>None\<close> passes too.\<close>

definition result_output :: "pyval \<Rightarrow> validation_error + (string \<times> json) list option" where
  "result_output v = (case v of PyNone \<Rightarrow> Inr None | _ \<Rightarrow> map_sum id Some (frozen_fields v))"

definition success_answer ::
  "execution_call \<Rightarrow> pyval \<Rightarrow> string option \<Rightarrow> string option \<Rightarrow> validation_error + execution_result" where
  "success_answer call output audit attempt =
     rbind (result_output output) (\<lambda>fields.
     Inr ((answer call SUCCESS None)\<lparr>xr_output := fields, xr_audit_id := audit, xr_attempt_id := attempt\<rparr>))"

subsection \<open>\<open>_validate_call\<close>\<close>

text \<open>The identifiers, governance and schema check of an executor, without its handlers.\<close>

record skill_gate =
  sg_catalog :: "(string, governed_manifest) dict"
  sg_policies :: policy_view
  sg_accepts :: "(string \<times> json) list \<Rightarrow> json \<Rightarrow> bool"

definition skill_gate_init ::
  "governed_manifest list \<Rightarrow> policy_view \<Rightarrow> ((string \<times> json) list \<Rightarrow> json \<Rightarrow> bool) \<Rightarrow> py_error + skill_gate" where
  "skill_gate_init ms view accepts =
     rbind (guard (view_matches_catalog ms view) ValueError) (\<lambda>_.
     Inr \<lparr>sg_catalog = catalog_dict ms, sg_policies = view, sg_accepts = accepts\<rparr>)"

definition stage_value :: "lifecycle_stage \<Rightarrow> string" where
  "stage_value s = (case s of PRE_LIVE \<Rightarrow> ''PRE_LIVE'' | ON_LIVE \<Rightarrow> ''ON_LIVE'' | POST_LIVE \<Rightarrow> ''POST_LIVE'')"

definition approved_human :: "execution_call \<Rightarrow> bool" where
  "approved_human call = (case cx_approval (ec_context call) of
       None \<Rightarrow> False | Some a \<Rightarrow> av_verified a \<and> av_decision a = APPROVED_DECISION)"

text \<open>\<open>Inl\<close> is the result that ends the call, \<open>Inr\<close> whether it is confirmed.\<close>

definition event_version_matches :: "execution_call \<Rightarrow> event_authorization \<Rightarrow> bool" where
  "event_version_matches call a =
     (map_of (ec_arguments call) ''expected_version'' = Some (JInt (ea_observed_version a)))"

definition validate_authorization :: "execution_call \<Rightarrow> governed_manifest \<Rightarrow> execution_result + bool" where
  "validate_authorization call m =
     (let approval = cx_approval (ec_context call); event = cx_event_authorization (ec_context call);
          rejected = Inl (error_answer call APPROVAL_REJECTED); pending = Inl (pending_authorization call)
      in if approval \<noteq> None \<and> event \<noteq> None then rejected
         else case gm_authorization m of
           NO_AUTHORIZATION \<Rightarrow> Inr (approved_human call)
         | HUMAN_APPROVAL \<Rightarrow> if approval = None then pending else if approved_human call then Inr True else rejected
         | TRUSTED_EVENT_OR_HUMAN \<Rightarrow>
             if approved_human call then Inr True
             else if approval \<noteq> None then rejected
             else case event of
               None \<Rightarrow> pending
             | Some a \<Rightarrow> if \<not> provenance_verified a then rejected
                 else if \<not> event_version_matches call a then rejected else Inr True)"

text \<open>The outer sum is the \<open>SkillPolicyNotFoundError\<close> of the view.\<close>

definition pass_gate :: "skill_gate \<Rightarrow> execution_call \<Rightarrow> governed_manifest \<Rightarrow> bool \<Rightarrow> unit + (execution_result + governed_manifest)" where
  "pass_gate g call m confirmed =
     rbind (of_option () (dget (sg_policies g) (ec_skill_id call))) (\<lambda>p.
     let r = evaluate_tool_gate (po_gate p) confirmed
     in Inr (if gr_allowed r then Inr m
             else if gr_requires_confirmation r \<and> cx_approval (ec_context call) = None then Inl (pending_authorization call)
             else Inl (error_answer call APPROVAL_REJECTED)))"

definition has_key :: "execution_call \<Rightarrow> bool" where
  "has_key call \<longleftrightarrow> cx_idempotency_key (ec_context call) \<noteq> None \<and> cx_idempotency_key (ec_context call) \<noteq> Some ''''"

definition validate_call :: "skill_gate \<Rightarrow> execution_call \<Rightarrow> unit + (execution_result + governed_manifest)" where
  "validate_call g call = (case dget (sg_catalog g) (ec_skill_id call) of
       None \<Rightarrow> Inr (Inl (error_answer call SKILL_NOT_FOUND))
     | Some m \<Rightarrow>
         if ec_version call \<noteq> sm_version m then Inr (Inl (error_answer call VERSION_MISMATCH))
         else if stage_value (cx_lifecycle (ec_context call)) \<notin> set (sm_lifecycle m)
         then Inr (Inl (error_answer call LIFECYCLE_MISMATCH))
         else if gm_schema m \<noteq> [] \<and> \<not> sg_accepts g (gm_schema m) (JObj (ec_arguments call))
         then Inr (Inl (error_answer call INVALID_ARGUMENTS))
         else if gm_requires_key m \<and> \<not> has_key call then Inr (Inl (error_answer call IDEMPOTENCY_REQUIRED))
         else case validate_authorization call m of
           Inl result \<Rightarrow> Inr (Inl result)
         | Inr confirmed \<Rightarrow> pass_gate g call m confirmed)"

end
