(* ===== verification/SkillExecutor.thy ===== *)
theory SkillExecutor
  imports SkillGate
begin

section \<open>The executor of skills\<close>

text \<open>
  \<open>skill_runtime/executor.py\<close>. A call passes the gate, opens an operation in the ledger when it has an
  idempotency key, hands over to its handler, and settles the attempt by what comes back; the
  coroutine is split at its \<open>await\<close>. The state is the ledger and the number of clock readings. A handler
  is a parameter: it may take its time, use the ledger and let others use it, and what \<open>wait_for\<close>
  makes of it is the outcome. Fresh identifiers of failures without an attempt are drawn from the same
  supply as those of the ledger.
\<close>

record runtime =
  rt_attempts :: attempt_store
  rt_readings :: nat

datatype skill_exception =
    PolicyNotFound | RequestRejected | LedgerRaised attempt_error | ResultRejected | Cancelled

type_synonym 'a runtime_program = "(skill_exception, runtime, 'a) program"

text \<open>How the awaited handler ended.\<close>

datatype handler_outcome =
    HandlerCancelled | HandlerTimedOut | HandlerRaised
  | HandlerFailure failure_fact
  | HandlerAdapter "(string \<times> json) list" \<comment> \<open>an \<open>AdapterSuccess\<close>\<close>
  | HandlerResult pyval "string option" \<comment> \<open>a \<open>_SkillHandlerResult\<close>\<close>
  | HandlerOutput pyval \<comment> \<open>anything else\<close>

type_synonym skill_handler =
  "string \<Rightarrow> (string \<times> json) list \<Rightarrow> skill_context \<Rightarrow> int \<Rightarrow> runtime \<Rightarrow> handler_outcome \<times> runtime"

record skill_executor =
  ex_gate :: skill_gate
  ex_handlers :: "(string, skill_handler) dict"
  ex_clock :: "nat \<Rightarrow> int"

definition on_ledger :: "'a attempt_outcome \<Rightarrow> runtime \<Rightarrow> (attempt_error + 'a) \<times> runtime" where
  "on_ledger r w = (fst r, w\<lparr>rt_attempts := snd r\<rparr>)"

definition runtime_now :: "skill_executor \<Rightarrow> int runtime_program" where
  "runtime_now ex w = (Inr (ex_clock ex (rt_readings w)), w\<lparr>rt_readings := rt_readings w + 1\<rparr>)"

definition draw_id :: "(nat \<Rightarrow> string) \<Rightarrow> string runtime_program" where
  "draw_id u w = (let s = rt_attempts w
     in (Inr (u (as_draws s)), w\<lparr>rt_attempts := s\<lparr>as_draws := Suc (as_draws s)\<rparr>\<rparr>))"

subsection \<open>Failures\<close>

definition runtime_failure ::
  "failure_category \<Rightarrow> string \<Rightarrow> side_effect_state \<Rightarrow> string \<Rightarrow> failure_fact" where
  "runtime_failure category code effect attempt = \<lparr>ff_category = category, ff_external_code = code,
     ff_side_effect_state = effect, ff_attempt_id = attempt, ff_retry_after_seconds = None\<rparr>"

definition failure_id :: "(nat \<Rightarrow> string) \<Rightarrow> string \<Rightarrow> attempt_record option \<Rightarrow> string runtime_program" where
  "failure_id u tag held = (case held of
       Some r \<Rightarrow> sreturn (at_attempt_id r)
     | None \<Rightarrow> sbind (draw_id u) (\<lambda>i. sreturn (tag @ i)))"

definition not_sent_failure :: "(nat \<Rightarrow> string) \<Rightarrow> attempt_record option \<Rightarrow> failure_fact runtime_program" where
  "not_sent_failure u held = sbind (failure_id u ''not-sent-'' held) (\<lambda>i.
     sreturn (runtime_failure TRANSIENT_INFRA ''runtime.deadline_before_handler'' NOT_SENT i))"

definition unknown_failure :: "(nat \<Rightarrow> string) \<Rightarrow> attempt_record option \<Rightarrow> failure_fact runtime_program" where
  "unknown_failure u held = sbind (failure_id u ''unknown-'' held) (\<lambda>i.
     sreturn (runtime_failure SIDE_EFFECT_UNKNOWN ''runtime.handler_timeout_unknown'' UNKNOWN_EFFECT i))"

definition internal_failure :: "(nat \<Rightarrow> string) \<Rightarrow> attempt_record option \<Rightarrow> failure_fact runtime_program" where
  "internal_failure u held = sbind (failure_id u ''internal-'' held) (\<lambda>i.
     sreturn (runtime_failure INTERNAL_INVARIANT ''runtime.handler_failed'' UNKNOWN_EFFECT i))"

text \<open>A handler cannot close the attempt of another operation.\<close>

definition normalize_failure :: "failure_fact \<Rightarrow> attempt_record option \<Rightarrow> failure_fact" where
  "normalize_failure f held = (case held of
       None \<Rightarrow> f
     | Some r \<Rightarrow> if ff_attempt_id f = at_attempt_id r then f
         else runtime_failure INTERNAL_INVARIANT ''runtime.failure_attempt_mismatch'' UNKNOWN_EFFECT (at_attempt_id r))"

text \<open>\<open>_complete_failure\<close>: the ledger first; a conflict is reported, not hidden.\<close>

definition complete_failed ::
  "execution_call \<Rightarrow> attempt_record option \<Rightarrow> failure_fact \<Rightarrow> execution_result runtime_program" where
  "complete_failed call held f w = (case held of
       None \<Rightarrow> (Inr (failure_answer call f), w)
     | Some r \<Rightarrow> (case on_ledger (complete_failure (at_attempt_id r) f (rt_attempts w)) w of
           (Inr _, w') \<Rightarrow> (Inr (failure_answer call f), w')
         | (Inl e, w') \<Rightarrow>
             if is_attempt_invariant e
             then (Inr (failure_answer call (runtime_failure INTERNAL_INVARIANT ''runtime.attempt_completion_conflict''
                    UNKNOWN_EFFECT (at_attempt_id r))), w')
             else (Inl (LedgerRaised e), w')))"

subsection \<open>Replays\<close>

definition output_key :: string where
  "output_key = ''__skill_runtime_output__''"

definition audit_key :: string where
  "audit_key = ''__skill_runtime_audit_id__''"

definition success_payload :: "pyval \<Rightarrow> string option \<Rightarrow> (string, pyval) dict" where
  "success_payload output audit = [(output_key, output), (audit_key, case audit of None \<Rightarrow> PyNone | Some a \<Rightarrow> PyStr a)]"

definition payload_value :: "(string, pyval) dict option \<Rightarrow> pyval" where
  "payload_value payload = (case payload of
       None \<Rightarrow> PyDict [] | Some p \<Rightarrow> PyDict (map (\<lambda>(k, v). (PyStr k, v)) p))"

definition is_py_dict :: "pyval \<Rightarrow> bool" where
  "is_py_dict v = (case v of PyDict _ \<Rightarrow> True | _ \<Rightarrow> False)"

definition unpack_payload :: "(string, pyval) dict option \<Rightarrow> attempt_error + (pyval \<times> string option)" where
  "unpack_payload payload = (case Option.bind payload (\<lambda>p. map_option (Pair p) (dget p output_key)) of
       None \<Rightarrow> Inr (payload_value payload, None)
     | Some (p, output) \<Rightarrow>
         rbind (guard (is_py_dict output) BadTerminalOutput) (\<lambda>_.
         case dget p audit_key of
           None \<Rightarrow> Inr (output, None)
         | Some PyNone \<Rightarrow> Inr (output, None)
         | Some (PyStr a) \<Rightarrow> Inr (output, Some a)
         | Some (PyStrSub a) \<Rightarrow> Inr (output, Some a)
         | Some _ \<Rightarrow> Inl BadTerminalOutput))"

definition replay_result :: "execution_call \<Rightarrow> attempt_record \<Rightarrow> skill_exception + execution_result" where
  "replay_result call r =
     (if at_state r = T_SUCCEEDED
      then rbind (map_sum LedgerRaised id (unpack_payload (at_payload r))) (\<lambda>(output, audit).
           map_sum (\<lambda>_. ResultRejected) id (success_answer call output audit (Some (at_attempt_id r))))
      else Inr (case at_failure r of
        Some f \<Rightarrow> failure_answer call f
      | None \<Rightarrow> error_answer call HANDLER_FAILED))"

subsection \<open>\<open>execute\<close>, up to the handler\<close>

datatype call_start =
    Answered execution_result
  | Running "attempt_record option" skill_handler skill_context int

definition call_request :: "execution_call \<Rightarrow> validation_error + operation_request" where
  "call_request call = operation_request_create (ec_skill_id call) (ec_version call) (cx_room_id (ec_context call))
     (case cx_idempotency_key (ec_context call) of None \<Rightarrow> '''' | Some k \<Rightarrow> k)
     (Aware (cx_deadline_at (ec_context call))) (ec_arguments call)"

text \<open>\<open>Inl\<close> answers the call, \<open>Inr\<close> is the new attempt, or none for a call without a key.\<close>

definition open_operation ::
  "(nat \<Rightarrow> string) \<Rightarrow> skill_executor \<Rightarrow> execution_call \<Rightarrow> (execution_result + attempt_record option) runtime_program" where
  "open_operation u ex call =
     (if \<not> has_key call then sreturn (Inr None)
      else sbind (sread (\<lambda>_. map_sum (\<lambda>_. RequestRejected) id (call_request call))) (\<lambda>q.
           sbind (runtime_now ex) (\<lambda>now w.
           case on_ledger (claim_or_replay u now q (rt_attempts w)) w of
             (Inl e, w') \<Rightarrow>
               if is_attempt_invariant e then (Inr (Inl (error_answer call HANDLER_FAILED)), w') else (Inl (LedgerRaised e), w')
           | (Inr (r, created), w') \<Rightarrow>
               if created then (Inr (Inr (Some r)), w') else (map_sum id Inl (replay_result call r), w'))))"

definition begin_call :: "(nat \<Rightarrow> string) \<Rightarrow> skill_executor \<Rightarrow> execution_call \<Rightarrow> call_start runtime_program" where
  "begin_call u ex call =
     sbind (sread (\<lambda>_. map_sum (\<lambda>_. PolicyNotFound) id (validate_call (ex_gate ex) call))) (\<lambda>v. case v of
       Inl result \<Rightarrow> sreturn (Answered result)
     | Inr m \<Rightarrow> (case dget (ex_handlers ex) (ec_skill_id call) of
         None \<Rightarrow> sreturn (Answered (error_answer call HANDLER_NOT_FOUND))
       | Some handler \<Rightarrow>
           sbind (open_operation u ex call) (\<lambda>claim. case claim of
             Inl result \<Rightarrow> sreturn (Answered result)
           | Inr held \<Rightarrow>
               sbind (runtime_now ex) (\<lambda>now.
               let timeout = min (cx_deadline_at (ec_context call) - now) (seconds (sm_max_attempt_seconds m))
               in if timeout \<le> 0
                  then sbind (not_sent_failure u held) (\<lambda>f. sbind (complete_failed call held f) (\<lambda>r. sreturn (Answered r)))
                  else sreturn (Running held handler
                    (case held of None \<Rightarrow> ec_context call
                      | Some r \<Rightarrow> (ec_context call)\<lparr>cx_attempt_id := Some (at_attempt_id r)\<rparr>) timeout)))))"

subsection \<open>\<open>execute\<close>, after the handler\<close>

text \<open>The success is recorded before the result is validated; an exception of either fails the call.\<close>

definition settle_success ::
  "(nat \<Rightarrow> string) \<Rightarrow> execution_call \<Rightarrow> attempt_record option \<Rightarrow> pyval \<Rightarrow> string option \<Rightarrow> execution_result runtime_program" where
  "settle_success u call held output audit w =
     (let (recorded, w') = (case held of
            None \<Rightarrow> (Inr (), w)
          | Some r \<Rightarrow> map_prod (map_sum id (\<lambda>_. ())) id
              (on_ledger (complete_success (at_attempt_id r) (success_payload output audit) (rt_attempts w)) w));
          failed = sbind (internal_failure u held) (complete_failed call held)
      in case recorded of
           Inl e \<Rightarrow> if is_attempt_invariant e then failed w' else (Inl (LedgerRaised e), w')
         | Inr _ \<Rightarrow> (case success_answer call output audit (map_option at_attempt_id held) of
             Inl _ \<Rightarrow> failed w'
           | Inr result \<Rightarrow> (Inr result, w')))"

definition settle_call ::
  "(nat \<Rightarrow> string) \<Rightarrow> execution_call \<Rightarrow> attempt_record option \<Rightarrow> handler_outcome \<Rightarrow> execution_result runtime_program" where
  "settle_call u call held outcome = (case outcome of
       HandlerCancelled \<Rightarrow> (\<lambda>w. (Inl Cancelled, snd (sbind (unknown_failure u held) (complete_failed call held) w)))
     | HandlerTimedOut \<Rightarrow> sbind (unknown_failure u held) (complete_failed call held)
     | HandlerRaised \<Rightarrow> sbind (internal_failure u held) (complete_failed call held)
     | HandlerFailure f \<Rightarrow> complete_failed call held (normalize_failure f held)
     | HandlerAdapter output \<Rightarrow> settle_success u call held (py_of_json (JObj output)) None
     | HandlerResult output audit \<Rightarrow> settle_success u call held output audit
     | HandlerOutput output \<Rightarrow> settle_success u call held output None)"

definition execute_skill :: "(nat \<Rightarrow> string) \<Rightarrow> skill_executor \<Rightarrow> execution_call \<Rightarrow> execution_result runtime_program" where
  "execute_skill u ex call = sbind (begin_call u ex call) (\<lambda>start. case start of
       Answered result \<Rightarrow> sreturn result
     | Running held handler context timeout \<Rightarrow> (\<lambda>w.
         case handler (ec_skill_id call) (ec_arguments call) context timeout w of
           (outcome, w') \<Rightarrow> settle_call u call held outcome w'))"

end
