(* ===== verification/SkillProofs.thy ===== *)
theory SkillProofs
  imports SkillExecutor
begin

section \<open>What the executor does to its ledger\<close>

definition ledger_moves :: "(nat \<Rightarrow> string) \<Rightarrow> runtime \<Rightarrow> runtime \<Rightarrow> bool" where
  "ledger_moves u w w' \<longleftrightarrow> steps (attempt_step u) (rt_attempts w) (rt_attempts w')"

definition lawful_skill :: "(nat \<Rightarrow> string) \<Rightarrow> skill_handler \<Rightarrow> bool" where
  "lawful_skill u h \<longleftrightarrow> (\<forall>i args cx d w. ledger_moves u w (snd (h i args cx d w)))"

definition orderly :: "(nat \<Rightarrow> string) \<Rightarrow> 'a runtime_program \<Rightarrow> bool" where
  "orderly u m \<longleftrightarrow> (\<forall>w. ledger_moves u w (snd (m w)))"

lemma ledger_moves_refl [simp]: "rt_attempts w' = rt_attempts w \<Longrightarrow> ledger_moves u w w'"
  by (simp add: ledger_moves_def steps_refl)

lemma ledger_moves_trans: "ledger_moves u a b \<Longrightarrow> ledger_moves u b c \<Longrightarrow> ledger_moves u a c"
  unfolding ledger_moves_def by (rule steps_trans)

lemma ledger_moves_step: "attempt_step u (rt_attempts w) (rt_attempts w') \<Longrightarrow> ledger_moves u w w'"
  unfolding ledger_moves_def by (rule steps_step [OF steps_refl])

lemma orderly_bind: "orderly u m \<Longrightarrow> (\<And>x. orderly u (f x)) \<Longrightarrow> orderly u (sbind m f)"
  unfolding orderly_def
proof
  fix w assume m: "\<forall>w. ledger_moves u w (snd (m w))" and f: "\<And>x. \<forall>w. ledger_moves u w (snd (f x w))"
  show "ledger_moves u w (snd (sbind m f w))"
    using m [rule_format, of w] f ledger_moves_trans by (cases "m w"; cases "fst (m w)") (auto simp: sbind_def)
qed

lemma orderly_silent: "orderly u (sread g)" "orderly u (sreturn x)" "orderly u (runtime_now ex)"
  by (simp_all add: orderly_def runtime_now_def)

lemma orderly_draw: "orderly u (draw_id u)"
  by (auto simp: orderly_def draw_id_def Let_def intro!: ledger_moves_step attempt_draw)

lemma orderly_failures: "orderly u (not_sent_failure u held)" "orderly u (unknown_failure u held)" "orderly u (internal_failure u held)"
proof -
  have "orderly u (failure_id u tag held)" for tag
    by (cases held) (auto simp: failure_id_def intro!: orderly_bind orderly_silent orderly_draw)
  then show "orderly u (not_sent_failure u held)" "orderly u (unknown_failure u held)" "orderly u (internal_failure u held)"
    by (auto simp: not_sent_failure_def unknown_failure_def internal_failure_def intro!: orderly_bind orderly_silent)
qed

lemma orderly_complete_failed: "orderly u (complete_failed call held f)"
proof -
  have "ledger_moves u w (w\<lparr>rt_attempts := snd (complete_failure a f (rt_attempts w))\<rparr>)" for a w
    by (rule ledger_moves_step) (simp add: attempt_failure)
  then show ?thesis
    by (auto simp: orderly_def complete_failed_def on_ledger_def split: option.split sum.split prod.split)
qed

lemma orderly_open: "orderly u (open_operation u ex call)"
proof -
  have "ledger_moves u w (w\<lparr>rt_attempts := snd (claim_or_replay u now q (rt_attempts w))\<rparr>)" for now q w
    by (rule ledger_moves_step) (simp add: attempt_claim)
  then have "orderly u (\<lambda>w. case on_ledger (claim_or_replay u now q (rt_attempts w)) w of
             (Inl e, w') \<Rightarrow>
               if is_attempt_invariant e then (Inr (Inl (error_answer call HANDLER_FAILED)), w') else (Inl (LedgerRaised e), w')
           | (Inr (r, created), w') \<Rightarrow>
               if created then (Inr (Inr (Some r)), w') else (map_sum id Inl (replay_result call r), w'))" for now q
    by (auto simp: orderly_def on_ledger_def split: sum.split prod.split)
  then show ?thesis unfolding open_operation_def by (auto intro!: orderly_bind orderly_silent)
qed

lemma orderly_begin: "orderly u (begin_call u ex call)"
  unfolding begin_call_def Let_def
  by (auto intro!: orderly_bind orderly_silent orderly_open orderly_failures orderly_complete_failed
      split: sum.split option.split)

lemma orderly_settle_success: "orderly u (settle_success u call held output audit)"
proof -
  have failed: "ledger_moves u w (snd (sbind (internal_failure u held) (complete_failed call held) w))" for w :: runtime
    using orderly_bind [of u "internal_failure u held" "complete_failed call held"] orderly_failures(3) orderly_complete_failed
    unfolding orderly_def by blast
  have success: "ledger_moves u w (w\<lparr>rt_attempts := snd (complete_success a p (rt_attempts w))\<rparr>)" for a p and w :: runtime
    by (rule ledger_moves_step) (simp add: attempt_success)
  show ?thesis
    unfolding orderly_def
  proof
    fix w :: runtime
    define w' :: runtime where "w' = (case held of None \<Rightarrow> w | Some r \<Rightarrow>
      w\<lparr>rt_attempts := snd (complete_success (at_attempt_id r) (success_payload output audit) (rt_attempts w))\<rparr>)"
    have one: "ledger_moves u w w'" using success by (simp add: w'_def split: option.split)
    have "snd (settle_success u call held output audit w) = w'
        \<or> snd (settle_success u call held output audit w) = snd (sbind (internal_failure u held) (complete_failed call held) w')"
      by (auto simp: settle_success_def w'_def on_ledger_def Let_def split: option.split sum.split prod.split)
    then show "ledger_moves u w (snd (settle_success u call held output audit w))"
      using one failed [of w'] ledger_moves_trans by metis
  qed
qed

lemma orderly_settle: "orderly u (settle_call u call held outcome)"
proof -
  have "orderly u (sbind (unknown_failure u held) (complete_failed call held))"
    "orderly u (sbind (internal_failure u held) (complete_failed call held))"
    by (intro orderly_bind orderly_failures orderly_complete_failed)+
  then show ?thesis
    using orderly_settle_success orderly_complete_failed by (cases outcome) (auto simp: settle_call_def orderly_def)
qed

subsection \<open>One operation, one attempt, one call of the handler\<close>

lemma call_request_known: "has_key call \<Longrightarrow> call_request call = Inr q \<Longrightarrow>
  q = \<lparr>oq_skill_id = ec_skill_id call, oq_skill_version = ec_version call, oq_room_id = cx_room_id (ec_context call),
       oq_idempotency_key = the (cx_idempotency_key (ec_context call)), oq_deadline_at = cx_deadline_at (ec_context call),
       oq_intent = ec_arguments call\<rparr>"
  by (auto simp: call_request_def operation_request_create_def has_key_def outcome)

text \<open>What opening an operation comes to.\<close>

lemma open_operation_cases:
  assumes "has_key call" and "call_request call = Inr q"
  obtains (created) r w1 where "dget (as_by_operation (rt_attempts w)) (operation_id q) = None"
      "open_operation u ex call w = (Inr (Inr (Some r)), w1)"
      "r = new_attempt (u (as_draws (rt_attempts w))) (ex_clock ex (rt_readings w)) q"
      "rt_attempts w1 = snd (claim_or_replay u (ex_clock ex (rt_readings w)) q (rt_attempts w))"
      "dget (as_by_operation (rt_attempts w1)) (operation_id q) = Some r"
      "dget (as_by_attempt (rt_attempts w1)) (at_attempt_id r) = Some r"
  | (known) r where "dget (as_by_operation (rt_attempts w)) (operation_id q) = Some r"
      "rt_attempts (snd (open_operation u ex call w)) = rt_attempts w"
      "fst (open_operation u ex call w) =
         (if dget (as_digest (rt_attempts w)) (operation_id q) = Some (intent_digest q)
          then map_sum id Inl (replay_result call r)
          else if dget (as_digest (rt_attempts w)) (operation_id q) = None then Inl (LedgerRaised AttemptKeyError)
          else Inr (Inl (error_answer call HANDLER_FAILED)))"
proof (cases "dget (as_by_operation (rt_attempts w)) (operation_id q)")
  case None
  define r where "r = new_attempt (u (as_draws (rt_attempts w))) (ex_clock ex (rt_readings w)) q"
  have r: "at_operation_id r = operation_id q" by (simp add: r_def new_attempt_def)
  define s where "s = snd (claim_or_replay u (ex_clock ex (rt_readings w)) q (rt_attempts w))"
  have claim: "claim_or_replay u (ex_clock ex (rt_readings w)) q (rt_attempts w) = (Inr (r, True), s)"
    using None by (simp add: claim_or_replay_def r_def s_def Let_def)
  have s: "dget (as_by_operation s) (operation_id q) = Some r" "dget (as_by_attempt s) (at_attempt_id r) = Some r"
    using None by (simp_all add: s_def claim_or_replay_def Let_def r_def [symmetric] replace_record_def r)
  have "open_operation u ex call w = (Inr (Inr (Some r)), w\<lparr>rt_readings := rt_readings w + 1, rt_attempts := s\<rparr>)"
    using assms claim by (simp add: open_operation_def sbind_def runtime_now_def on_ledger_def)
  then show ?thesis using created [OF None _ r_def] s by (simp add: s_def)
next
  case (Some r)
  show ?thesis
  proof (rule known [OF Some])
    show "rt_attempts (snd (open_operation u ex call w)) = rt_attempts w"
      using Some assms
      by (simp add: open_operation_def sbind_def runtime_now_def on_ledger_def claim_or_replay_def split: sum.split prod.split)
    show "fst (open_operation u ex call w) =
         (if dget (as_digest (rt_attempts w)) (operation_id q) = Some (intent_digest q)
          then map_sum id Inl (replay_result call r)
          else if dget (as_digest (rt_attempts w)) (operation_id q) = None then Inl (LedgerRaised AttemptKeyError)
          else Inr (Inl (error_answer call HANDLER_FAILED)))"
      using Some assms
      by (auto simp: open_operation_def sbind_def runtime_now_def on_ledger_def claim_or_replay_def is_attempt_invariant_def
          guard_def of_option_def split: sum.split prod.split option.split)
  qed
qed

lemma open_rejected: "has_key call \<Longrightarrow> call_request call = Inl e \<Longrightarrow> open_operation u ex call w = (Inl RequestRejected, w)"
  by (simp add: open_operation_def sbind_def)

text \<open>A handler runs only for a call without a key or for an operation that was not in the ledger.\<close>

lemma begin_running:
  assumes "begin_call u ex call w = (Inr (Running held h cx d), w1)"
  obtains m w2 where "validate_call (ex_gate ex) call = Inr (Inr m)" "dget (ex_handlers ex) (ec_skill_id call) = Some h"
    "open_operation u ex call w = (Inr (Inr held), w2)" "w1 = w2\<lparr>rt_readings := rt_readings w2 + 1\<rparr>"
    "cx = (case held of None \<Rightarrow> ec_context call | Some r \<Rightarrow> (ec_context call)\<lparr>cx_attempt_id := Some (at_attempt_id r)\<rparr>)"
    "d = min (cx_deadline_at (ec_context call) - ex_clock ex (rt_readings w2)) (seconds (sm_max_attempt_seconds m))" "0 < d"
proof -
  obtain v where v: "validate_call (ex_gate ex) call = Inr v"
    using assms by (cases "validate_call (ex_gate ex) call") (simp_all add: begin_call_def sbind_def)
  obtain m where m: "v = Inr m" using assms v by (cases v) (simp_all add: begin_call_def sbind_def)
  obtain h' where h': "dget (ex_handlers ex) (ec_skill_id call) = Some h'"
    using assms v m by (cases "dget (ex_handlers ex) (ec_skill_id call)") (simp_all add: begin_call_def sbind_def)
  obtain claim w2 where c: "open_operation u ex call w = (Inr claim, w2)"
    using assms v m h' by (cases "open_operation u ex call w"; cases "fst (open_operation u ex call w)") (simp_all add: begin_call_def sbind_def)
  obtain held' where held': "claim = Inr held'" using assms v m h' c by (cases claim) (simp_all add: begin_call_def sbind_def)
  have open_now: "runtime_now ex w2 = (Inr (ex_clock ex (rt_readings w2)), w2\<lparr>rt_readings := rt_readings w2 + 1\<rparr>)"
    by (simp add: runtime_now_def)
  define timeout where "timeout = min (cx_deadline_at (ec_context call) - ex_clock ex (rt_readings w2)) (seconds (sm_max_attempt_seconds m))"
  have "begin_call u ex call w = (if timeout \<le> 0
      then sbind (not_sent_failure u held') (\<lambda>f. sbind (complete_failed call held' f) (\<lambda>r. sreturn (Answered r)))
      else sreturn (Running held' h' (case held' of None \<Rightarrow> ec_context call
         | Some r \<Rightarrow> (ec_context call)\<lparr>cx_attempt_id := Some (at_attempt_id r)\<rparr>) timeout)) (w2\<lparr>rt_readings := rt_readings w2 + 1\<rparr>)"
    by (simp add: begin_call_def sbind_def v m h' c held' open_now timeout_def Let_def)
  note rest = assms [unfolded this]
  have "\<not> timeout \<le> 0"
  proof
    assume "timeout \<le> 0"
    then show False using rest by (auto simp: sbind_eq_Inr)
  qed
  then have eq: "held' = held" "h' = h" "w1 = w2\<lparr>rt_readings := rt_readings w2 + 1\<rparr>" "d = timeout"
    "cx = (case held of None \<Rightarrow> ec_context call | Some r \<Rightarrow> (ec_context call)\<lparr>cx_attempt_id := Some (at_attempt_id r)\<rparr>)"
    using rest by auto
  show ?thesis
  proof (rule that)
    show "validate_call (ex_gate ex) call = Inr (Inr m)" using v m by simp
    show "dget (ex_handlers ex) (ec_skill_id call) = Some h" using h' eq by simp
    show "open_operation u ex call w = (Inr (Inr held), w2)" using c held' eq by simp
    show "d = min (cx_deadline_at (ec_context call) - ex_clock ex (rt_readings w2)) (seconds (sm_max_attempt_seconds m))"
      using eq(4) by (simp add: timeout_def)
    show "0 < d" using eq(4) \<open>\<not> timeout \<le> 0\<close> by simp
  qed (rule eq)+
qed

lemma execute_orderly:
  assumes "\<And>h. h \<in> set (dvalues (ex_handlers ex)) \<Longrightarrow> lawful_skill u h"
  shows "orderly u (execute_skill u ex call)"
  unfolding orderly_def
proof
  fix w
  obtain r w1 where b: "begin_call u ex call w = (r, w1)" by fastforce
  have one: "ledger_moves u w w1" using orderly_begin b unfolding orderly_def by (metis snd_conv)
  show "ledger_moves u w (snd (execute_skill u ex call w))"
  proof (cases "\<exists>held h cx d. r = Inr (Running held h cx d)")
    case False
    then show ?thesis using b one by (cases r) (auto simp: execute_skill_def sbind_def split: call_start.splits)
  next
    case True
    then obtain held h cx d where r: "r = Inr (Running held h cx d)" by blast
    obtain outcome w2 where o: "h (ec_skill_id call) (ec_arguments call) cx d w1 = (outcome, w2)" by fastforce
    have "dget (ex_handlers ex) (ec_skill_id call) = Some h" using b unfolding r by (rule begin_running)
    then have "h \<in> set (dvalues (ex_handlers ex))" by (force dest: map_of_SomeD)
    then have "ledger_moves u w1 w2" using assms o unfolding lawful_skill_def by (metis snd_conv)
    then show ?thesis
      using one orderly_settle b r o unfolding orderly_def execute_skill_def
      by (auto simp: sbind_def intro: ledger_moves_trans)
  qed
qed

subsection \<open>Settling an open attempt\<close>

text \<open>The record that an outcome of the handler leaves, and what the caller is told.\<close>

definition handler_failure :: "handler_outcome \<Rightarrow> attempt_record \<Rightarrow> failure_fact option" where
  "handler_failure out r = (case out of
       HandlerCancelled \<Rightarrow> Some (runtime_failure SIDE_EFFECT_UNKNOWN ''runtime.handler_timeout_unknown'' UNKNOWN_EFFECT (at_attempt_id r))
     | HandlerTimedOut \<Rightarrow> Some (runtime_failure SIDE_EFFECT_UNKNOWN ''runtime.handler_timeout_unknown'' UNKNOWN_EFFECT (at_attempt_id r))
     | HandlerRaised \<Rightarrow> Some (runtime_failure INTERNAL_INVARIANT ''runtime.handler_failed'' UNKNOWN_EFFECT (at_attempt_id r))
     | HandlerFailure f \<Rightarrow> Some (normalize_failure f (Some r))
     | _ \<Rightarrow> None)"

definition handler_output :: "handler_outcome \<Rightarrow> pyval \<times> string option" where
  "handler_output out = (case out of
       HandlerAdapter kvs \<Rightarrow> (py_of_json (JObj kvs), None)
     | HandlerResult output audit \<Rightarrow> (output, audit)
     | HandlerOutput output \<Rightarrow> (output, None)
     | _ \<Rightarrow> (PyNone, None))"

definition failed_record :: "failure_fact \<Rightarrow> attempt_record \<Rightarrow> attempt_record" where
  "failed_record f r = r\<lparr>at_state := (if ff_category f = SIDE_EFFECT_UNKNOWN then T_SIDE_EFFECT_UNKNOWN else T_FAILED),
     at_failure := Some f\<rparr>"

definition closed_record :: "handler_outcome \<Rightarrow> attempt_record \<Rightarrow> attempt_record" where
  "closed_record out r = (case handler_failure out r of
       Some f \<Rightarrow> failed_record f r
     | None \<Rightarrow> r\<lparr>at_state := T_SUCCEEDED,
         at_payload := Some (success_payload (fst (handler_output out)) (snd (handler_output out)))\<rparr>)"

definition completion_conflict :: "attempt_record \<Rightarrow> failure_fact" where
  "completion_conflict r = runtime_failure INTERNAL_INVARIANT ''runtime.attempt_completion_conflict'' UNKNOWN_EFFECT (at_attempt_id r)"

definition settled_answer :: "execution_call \<Rightarrow> handler_outcome \<Rightarrow> attempt_record \<Rightarrow> skill_exception + execution_result" where
  "settled_answer call out r = (if out = HandlerCancelled then Inl Cancelled else Inr (case handler_failure out r of
       Some f \<Rightarrow> failure_answer call f
     | None \<Rightarrow> (case success_answer call (fst (handler_output out)) (snd (handler_output out)) (Some (at_attempt_id r)) of
           Inl _ \<Rightarrow> failure_answer call (completion_conflict r)
         | Inr result \<Rightarrow> result)))"

definition open_attempt :: "attempt_record \<Rightarrow> runtime \<Rightarrow> bool" where
  "open_attempt r w \<longleftrightarrow> dget (as_by_attempt (rt_attempts w)) (at_attempt_id r) = Some r \<and> at_state r = T_INTENT_RECORDED"

lemma complete_failed_open:
  assumes "open_attempt r w" and "ff_attempt_id f = at_attempt_id r"
  shows "complete_failed call (Some r) f w =
    (Inr (failure_answer call f), w\<lparr>rt_attempts := replace_record (failed_record f r) (rt_attempts w)\<rparr>)"
proof -
  have "awaiting_record (at_attempt_id r) (rt_attempts w) = Inr r" using assms by (simp add: awaiting_record_eq open_attempt_def)
  then show ?thesis using assms
    by (simp add: complete_failed_def on_ledger_def complete_failure_def failed_record_def Let_def)
qed

lemma failure_programs [simp]:
  "not_sent_failure u (Some r) = sreturn (runtime_failure TRANSIENT_INFRA ''runtime.deadline_before_handler'' NOT_SENT (at_attempt_id r))"
  "unknown_failure u (Some r) = sreturn (runtime_failure SIDE_EFFECT_UNKNOWN ''runtime.handler_timeout_unknown'' UNKNOWN_EFFECT (at_attempt_id r))"
  "internal_failure u (Some r) = sreturn (runtime_failure INTERNAL_INVARIANT ''runtime.handler_failed'' UNKNOWN_EFFECT (at_attempt_id r))"
  by (simp_all add: fun_eq_iff not_sent_failure_def unknown_failure_def internal_failure_def failure_id_def sbind_def)

lemma runtime_failure_attempt [simp]: "ff_attempt_id (runtime_failure c x e a) = a"
  by (simp add: runtime_failure_def)

lemma handler_failure_attempt: "handler_failure out r = Some f \<Longrightarrow> ff_attempt_id f = at_attempt_id r"
  by (auto simp: handler_failure_def normalize_failure_def split: handler_outcome.splits)

lemma sbind_return [simp]: "sbind (sreturn x) f = f x"
  by (simp add: fun_eq_iff sbind_def)

text \<open>A success is recorded before its output is looked at.\<close>

lemma settle_success_open:
  assumes "open_attempt r w"
  shows "settle_success u call (Some r) output audit w =
    (Inr (case success_answer call output audit (Some (at_attempt_id r)) of
        Inl _ \<Rightarrow> failure_answer call (completion_conflict r) | Inr result \<Rightarrow> result),
     w\<lparr>rt_attempts := replace_record (r\<lparr>at_state := T_SUCCEEDED, at_payload := Some (success_payload output audit)\<rparr>) (rt_attempts w)\<rparr>)"
proof -
  define r' where "r' = r\<lparr>at_state := T_SUCCEEDED, at_payload := Some (success_payload output audit)\<rparr>"
  define w' where "w' = w\<lparr>rt_attempts := replace_record r' (rt_attempts w)\<rparr>"
  have "awaiting_record (at_attempt_id r) (rt_attempts w) = Inr r" using assms by (simp add: awaiting_record_eq open_attempt_def)
  then have c: "on_ledger (complete_success (at_attempt_id r) (success_payload output audit) (rt_attempts w)) w = (Inr r', w')"
    by (simp add: on_ledger_def complete_success_def Let_def r'_def w'_def)
  have "awaiting_record (at_attempt_id r) (rt_attempts w') = Inl NotAwaiting"
    by (simp add: awaiting_record_def w'_def replace_record_lookup r'_def guard_def)
  then have f: "complete_failed call (Some r) (runtime_failure INTERNAL_INVARIANT ''runtime.handler_failed'' UNKNOWN_EFFECT
      (at_attempt_id r)) w' = (Inr (failure_answer call (completion_conflict r)), w')"
    by (simp add: complete_failed_def on_ledger_def complete_failure_def is_attempt_invariant_def completion_conflict_def)
  show ?thesis
    unfolding settle_success_def by (simp add: c f r'_def [symmetric] w'_def [symmetric] split: sum.split)
qed

lemma settle_open:
  assumes "open_attempt r w"
  shows "settle_call u call (Some r) out w =
    (settled_answer call out r, w\<lparr>rt_attempts := replace_record (closed_record out r) (rt_attempts w)\<rparr>)"
proof (cases "handler_failure out r")
  case (Some f)
  note done' = complete_failed_open [OF assms handler_failure_attempt [OF Some]]
  show ?thesis
    using Some done' by (cases out) (auto simp: settle_call_def settled_answer_def closed_record_def handler_failure_def)
next
  case None
  then show ?thesis
    using settle_success_open [OF assms]
    by (cases out) (auto simp: settle_call_def settled_answer_def closed_record_def handler_failure_def handler_output_def)
qed

text \<open>An attempt that is still open is the one that was created.\<close>

lemma attempt_still:
  assumes wf: "attempts_wf u (rt_attempts w)" and inj: "inj u"
    and r: "dget (as_by_operation (rt_attempts w)) i = Some r" and "ledger_moves u w w'"
  obtains r' where "dget (as_by_operation (rt_attempts w')) i = Some r'" "attempt_grows r r'" "attempts_wf u (rt_attempts w')"
    "dget (as_by_attempt (rt_attempts w')) (at_attempt_id r) = Some r'"
    "at_state r' = T_INTENT_RECORDED \<Longrightarrow> r' = r"
proof -
  have good: "attempts_wf u (rt_attempts w')" "attempts_evolve (rt_attempts w) (rt_attempts w')"
    using attempt_steps_good [OF assms(4) [unfolded ledger_moves_def] wf inj] by simp_all
  obtain r' where r': "dget (as_by_operation (rt_attempts w')) i = Some r'" "attempt_grows r r'"
    using good(2) r unfolding attempts_evolve_def dict_rel_def by blast
  have "dget (as_by_attempt (rt_attempts w')) (at_attempt_id r) = Some r'"
    using attempts_wfD(1) [OF good(1) r'(1)] r'(2) by (simp add: attempt_grows_def)
  moreover have "r' = r" if "at_state r' = T_INTENT_RECORDED"
  proof -
    have "at_state r = T_INTENT_RECORDED" using r'(2) that by (auto simp: attempt_grows_def)
    moreover have "attempt_shape r" "attempt_shape r'"
      using attempts_wfD(1) [OF wf r] attempts_wfD(1) [OF good(1) r'(1)] by simp_all
    ultimately show ?thesis
      using r'(2) that by (cases r; cases r') (simp add: attempt_grows_def attempt_shape_def)
  qed
  ultimately show ?thesis using that r' good(1) by blast
qed

subsection \<open>Calls of one operation\<close>

definition same_operation :: "execution_call \<Rightarrow> execution_call \<Rightarrow> bool" where
  "same_operation call again \<longleftrightarrow> ec_skill_id again = ec_skill_id call \<and> ec_version again = ec_version call
     \<and> cx_room_id (ec_context again) = cx_room_id (ec_context call)
     \<and> cx_idempotency_key (ec_context again) = cx_idempotency_key (ec_context call)"

lemma same_operation_request:
  assumes "same_operation call again" and "has_key call" and "call_request call = Inr q"
  obtains q' where "has_key again" "call_request again = Inr q'" "operation_id q' = operation_id q"
    "oq_intent q' = ec_arguments again" "oq_intent q = ec_arguments call"
proof -
  have key: "has_key again" using assms by (simp add: same_operation_def has_key_def)
  obtain q' where q': "call_request again = Inr q'"
    using assms by (auto simp: call_request_def operation_request_create_def same_operation_def outcome)
  show ?thesis
    using that [OF key q'] call_request_known [OF key q'] call_request_known [OF assms(2,3)] assms(1)
    by (simp add: operation_id_def operation_identity_def same_operation_def)
qed

text \<open>What a call that runs its handler has put into the ledger.\<close>

lemma begin_opens:
  assumes "begin_call u ex call w = (Inr (Running (Some r) h cx d), w1)"
  obtains q where "has_key call" "call_request call = Inr q" "dget (as_by_operation (rt_attempts w)) (operation_id q) = None"
    "at_request r = q" "at_operation_id r = operation_id q" "at_state r = T_INTENT_RECORDED"
    "dget (as_by_operation (rt_attempts w1)) (operation_id q) = Some r"
    "dget (as_by_attempt (rt_attempts w1)) (at_attempt_id r) = Some r"
proof -
  obtain w2 :: runtime where o: "open_operation u ex call w = (Inr (Inr (Some r)), w2)" and w1: "w1 = w2\<lparr>rt_readings := rt_readings w2 + 1\<rparr>"
    using assms by (rule begin_running)
  have key: "has_key call" using o by (cases "has_key call") (auto simp: open_operation_def)
  obtain q where q: "call_request call = Inr q"
    using o open_rejected [OF key] by (cases "call_request call") auto
  show ?thesis
  proof (rule open_operation_cases [OF key q, of w u ex])
    fix r' w1' assume c: "dget (as_by_operation (rt_attempts w)) (operation_id q) = None"
      "open_operation u ex call w = (Inr (Inr (Some r')), w1')"
      "r' = new_attempt (u (as_draws (rt_attempts w))) (ex_clock ex (rt_readings w)) q"
      "dget (as_by_operation (rt_attempts w1')) (operation_id q) = Some r'"
      "dget (as_by_attempt (rt_attempts w1')) (at_attempt_id r') = Some r'"
    have e: "r' = r" "w1' = w2" using c(2) o by simp_all
    have "at_request r = q \<and> at_operation_id r = operation_id q \<and> at_state r = T_INTENT_RECORDED"
      unfolding c(3) [unfolded e] by (simp add: new_attempt_def)
    then show ?thesis using that [OF key q c(1)] c(4,5) e w1 by simp
  next
    fix r' assume c: "fst (open_operation u ex call w) =
         (if dget (as_digest (rt_attempts w)) (operation_id q) = Some (intent_digest q)
          then map_sum id Inl (replay_result call r')
          else if dget (as_digest (rt_attempts w)) (operation_id q) = None then Inl (LedgerRaised AttemptKeyError)
          else Inr (Inl (error_answer call HANDLER_FAILED)))"
    show ?thesis using c o by (cases "replay_result call r'") (simp_all split: if_splits)
  qed
qed

text \<open>A known operation is replayed or refused, and the ledger stays as it is.\<close>

definition known_answer :: "execution_call \<Rightarrow> operation_request \<Rightarrow> attempt_record \<Rightarrow> runtime \<Rightarrow> skill_exception + execution_result" where
  "known_answer call q r w = (case dget (as_digest (rt_attempts w)) (operation_id q) of
       None \<Rightarrow> Inl (LedgerRaised AttemptKeyError)
     | Some digest \<Rightarrow> if digest = intent_digest q then replay_result call r else Inr (error_answer call HANDLER_FAILED))"

lemma open_known:
  assumes "has_key call" and "call_request call = Inr q"
    and "dget (as_by_operation (rt_attempts w)) (operation_id q) = Some r"
  shows "open_operation u ex call w = (map_sum id Inl (known_answer call q r w), w\<lparr>rt_readings := rt_readings w + 1\<rparr>)"
  using assms
  by (cases "dget (as_digest (rt_attempts w)) (operation_id q)")
    (auto simp: open_operation_def sbind_def runtime_now_def on_ledger_def claim_or_replay_def is_attempt_invariant_def
      known_answer_def guard_def of_option_def)

lemma begin_known:
  assumes "has_key call" and "call_request call = Inr q"
    and "dget (as_by_operation (rt_attempts w)) (operation_id q) = Some r"
  shows "begin_call u ex call w = (case validate_call (ex_gate ex) call of
       Inl _ \<Rightarrow> (Inl PolicyNotFound, w)
     | Inr (Inl result) \<Rightarrow> (Inr (Answered result), w)
     | Inr (Inr m) \<Rightarrow> (case dget (ex_handlers ex) (ec_skill_id call) of
         None \<Rightarrow> (Inr (Answered (error_answer call HANDLER_NOT_FOUND)), w)
       | Some h \<Rightarrow> (map_sum id Answered (known_answer call q r w), w\<lparr>rt_readings := rt_readings w + 1\<rparr>)))"
  using open_known [OF assms]
  by (cases "known_answer call q r w") (auto simp: begin_call_def sbind_def split: sum.split option.split)

lemma begin_known_quiet:
  assumes "has_key call" and "call_request call = Inr q"
    and "dget (as_by_operation (rt_attempts w)) (operation_id q) = Some r"
  shows "fst (begin_call u ex call w) \<noteq> Inr (Running held h cx d)"
    and "rt_attempts (snd (begin_call u ex call w)) = rt_attempts w"
  unfolding begin_known [OF assms]
  by (cases "known_answer call q r w"; auto split: sum.split option.split)+

lemma settle_closed:
  assumes "dget (as_by_attempt (rt_attempts w)) (at_attempt_id r) = Some r'" and "at_state r' \<noteq> T_INTENT_RECORDED"
  shows "settle_call u call (Some r) out w =
    (if out = HandlerCancelled then Inl Cancelled else Inr (failure_answer call (completion_conflict r)), w)"
proof -
  have aw: "awaiting_record (at_attempt_id r) (rt_attempts w) = Inl NotAwaiting"
    using assms by (simp add: awaiting_record_def guard_def)
  have failed: "complete_failed call (Some r) f w = (Inr (failure_answer call (completion_conflict r)), w)"
    if "ff_attempt_id f = at_attempt_id r" for f
    using aw that by (simp add: complete_failed_def on_ledger_def complete_failure_def is_attempt_invariant_def completion_conflict_def)
  have "settle_success u call (Some r) v audit w = (Inr (failure_answer call (completion_conflict r)), w)" for v audit
    using aw failed by (simp add: settle_success_def on_ledger_def complete_success_def is_attempt_invariant_def Let_def)
  moreover have "ff_attempt_id (normalize_failure f (Some r)) = at_attempt_id r" for f
    using handler_failure_attempt [of "HandlerFailure f" r] by (simp add: handler_failure_def)
  ultimately show ?thesis by (cases out) (simp_all add: settle_call_def failed)
qed

lemma settled_record:
  "at_operation_id (closed_record out r) = at_operation_id r" "at_attempt_id (closed_record out r) = at_attempt_id r"
  "at_request (closed_record out r) = at_request r" "at_state (closed_record out r) \<noteq> T_INTENT_RECORDED"
  "at_state (closed_record out r) = T_SUCCEEDED \<longleftrightarrow> handler_failure out r = None"
  by (auto simp: closed_record_def failed_record_def split: option.split)

subsection \<open>Replays of a settled attempt\<close>

lemma deep_freeze_list_id:
  "(\<And>x. x \<in> set xs \<Longrightarrow> deep_freeze (py_of_json x) = Inr x) \<Longrightarrow> deep_freeze_list (map py_of_json xs) = Inr xs"
  by (induction xs) auto

lemma deep_freeze_items_id:
  "(\<And>x. x \<in> snd ` set kvs \<Longrightarrow> deep_freeze (py_of_json x) = Inr x) \<Longrightarrow>
     deep_freeze_items (map (\<lambda>(k, v). (PyStr k, py_of_json v)) kvs) = Inr kvs"
  by (induction kvs) (auto simp: key_text_def)

lemma deep_freeze_of_json [simp]: "deep_freeze (py_of_json j) = Inr j"
proof (induction j)
  case (JList xs)
  then show ?case by (simp add: deep_freeze_list_id)
next
  case (JObj kvs)
  then have "deep_freeze_items (map (\<lambda>(k, v). (PyStr k, py_of_json v)) kvs) = Inr kvs"
    by (intro deep_freeze_items_id) (auto simp: snds.simps)
  then show ?case by simp
qed auto

lemma frozen_fields_of_json [simp]: "frozen_fields (py_of_json (JObj kvs)) = Inr kvs"
  by (simp add: frozen_fields_def deep_freeze_items_id)

text \<open>The outputs that a replay can give back.\<close>

definition plain_output :: "pyval \<Rightarrow> bool" where
  "plain_output v \<longleftrightarrow> is_py_dict v \<and> (\<exists>kvs. frozen_fields v = Inr kvs)"

lemma answers_same_operation:
  assumes "same_operation call again"
  shows "failure_answer again f = failure_answer call f" "error_answer again c = error_answer call c"
    "success_answer again output audit attempt = success_answer call output audit attempt"
  using assms by (simp_all add: same_operation_def failure_answer_def error_answer_def answer_def success_answer_def)

lemma unpack_success:
  "unpack_payload (Some (success_payload output audit)) = (if is_py_dict output then Inr (output, audit) else Inl BadTerminalOutput)"
  by (cases audit) (simp_all add: unpack_payload_def success_payload_def output_key_def audit_key_def guard_def)

lemma replay_settled:
  assumes "same_operation call again" and "out \<noteq> HandlerCancelled"
    and "handler_failure out r = None \<Longrightarrow> plain_output (fst (handler_output out))"
  shows "replay_result again (closed_record out r) = settled_answer call out r"
proof (cases "handler_failure out r")
  case (Some f)
  then show ?thesis using assms(2)
    by (simp add: replay_result_def closed_record_def failed_record_def settled_answer_def answers_same_operation [OF assms(1)])
next
  case None
  then obtain kvs where p: "is_py_dict (fst (handler_output out))" "frozen_fields (fst (handler_output out)) = Inr kvs"
    using assms(3) by (auto simp: plain_output_def)
  then have "fst (handler_output out) \<noteq> PyNone" by (auto simp: is_py_dict_def)
  then have "success_answer call (fst (handler_output out)) (snd (handler_output out)) (Some (at_attempt_id r)) \<noteq> Inl e" for e
    using p by (cases "fst (handler_output out)") (simp_all add: success_answer_def result_output_def)
  then obtain x where "success_answer call (fst (handler_output out)) (snd (handler_output out)) (Some (at_attempt_id r)) = Inr x"
    by (cases "success_answer call (fst (handler_output out)) (snd (handler_output out)) (Some (at_attempt_id r))") auto
  then show ?thesis using None assms(2) p(1)
    by (cases "handler_output out") (simp add: replay_result_def closed_record_def settled_answer_def unpack_success answers_same_operation [OF assms(1)])
qed

subsection \<open>An execution and the operation it opens\<close>

lemma later_wf: "ledger_moves u w w' \<Longrightarrow> attempts_wf u (rt_attempts w) \<Longrightarrow> inj u \<Longrightarrow> attempts_wf u (rt_attempts w')"
  using attempt_steps_good unfolding ledger_moves_def by blast

lemma begin_moves: "begin_call u ex call w = (x, w1) \<Longrightarrow> ledger_moves u w w1"
  using orderly_begin unfolding orderly_def by (metis snd_conv)

text \<open>From the call of a handler to a later state of the ledger.\<close>

lemma opened_operation_known:
  assumes "begin_call u ex call w = (Inr (Running (Some r) h cx d), w1)" and "attempts_wf u (rt_attempts w)" and "inj u"
    and "ledger_moves u w1 w2"
  obtains q r' where "has_key call" "call_request call = Inr q" "at_request r = q" "at_operation_id r = operation_id q"
    "dget (as_by_operation (rt_attempts w2)) (operation_id q) = Some r'" "attempt_grows r r'"
    "dget (as_by_attempt (rt_attempts w2)) (at_attempt_id r) = Some r'"
    "at_state r' = T_INTENT_RECORDED \<Longrightarrow> r' = r"
proof -
  obtain q where q: "has_key call" "call_request call = Inr q" "at_request r = q" "at_operation_id r = operation_id q"
    "dget (as_by_operation (rt_attempts w1)) (operation_id q) = Some r"
    using assms(1) by (rule begin_opens)
  have wf: "attempts_wf u (rt_attempts w1)" using later_wf begin_moves [OF assms(1)] assms(2,3) by blast
  show ?thesis
    by (rule attempt_still [OF wf assms(3) q(5) assms(4)]) (use that q in blast)
qed

text \<open>A settled attempt, seen by any later call of the operation.\<close>

lemma settled_operation_known:
  assumes start: "begin_call u ex call w = (Inr (Running (Some r) h cx d), w1)" and wf: "attempts_wf u (rt_attempts w)" "inj u"
    and run: "ledger_moves u w1 w2" "open_attempt r w2"
    and settle: "settle_call u call (Some r) out w2 = (x, w3)" and later: "ledger_moves u w3 w4"
    and again: "same_operation call again" "ec_arguments again = ec_arguments call"
  obtains q where "has_key again" "call_request again = Inr q"
    "dget (as_by_operation (rt_attempts w4)) (operation_id q) = Some (closed_record out r)"
    "known_answer again q (closed_record out r) w4 = replay_result again (closed_record out r)"
proof -
  obtain q where q: "has_key call" "call_request call = Inr q" "at_request r = q" "at_operation_id r = operation_id q"
    using start wf run(1) by (rule opened_operation_known)
  obtain q' where q': "has_key again" "call_request again = Inr q'" "operation_id q' = operation_id q" "oq_intent q' = oq_intent q"
    using same_operation_request [OF again(1) q(1,2)] again(2) by metis
  have w3: "rt_attempts w3 = replace_record (closed_record out r) (rt_attempts w2)"
    using settle settle_open [OF run(2), of u call out] by (metis Pair_inject runtime.select_convs(1) runtime.surjective runtime.update_convs(1))
  have moves: "ledger_moves u w w3"
    using begin_moves [OF start] run(1) settle orderly_settle [of u call "Some r" out] ledger_moves_trans
    unfolding orderly_def by (metis snd_conv)
  have i: "dget (as_by_operation (rt_attempts w3)) (operation_id q) = Some (closed_record out r)"
    by (simp add: w3 replace_record_lookup settled_record q(4))
  have "final_attempt (rt_attempts w4) (operation_id q) = Some (closed_record out r)"
    using settled.recorded_forever [OF later [unfolded ledger_moves_def]] later_wf [OF moves wf] wf(2) i settled_record(4)
    by (simp add: final_attempt_eq)
  then have r4: "dget (as_by_operation (rt_attempts w4)) (operation_id q) = Some (closed_record out r)" by (simp add: final_attempt_eq)
  have wf4: "attempts_wf u (rt_attempts w4)" using later_wf later moves wf by blast
  have "dget (as_digest (rt_attempts w4)) (operation_id q) = Some (intent_digest q)"
    using attempts_wfD(1) [OF wf4 r4] by (simp add: settled_record q(3))
  then have "known_answer again q' (closed_record out r) w4 = replay_result again (closed_record out r)"
    using q'(3,4) by (simp add: known_answer_def intent_digest_def)
  then show ?thesis using that [OF q'(1,2)] r4 q'(3) by simp
qed

text \<open>A later call that passes the gate is answered from the ledger.\<close>

lemma execute_known:
  assumes "has_key call" and "call_request call = Inr q" and "dget (as_by_operation (rt_attempts w)) (operation_id q) = Some r"
    and "validate_call (ex_gate ex) call = Inr (Inr m)" and "dget (ex_handlers ex) (ec_skill_id call) = Some h"
  shows "execute_skill u ex call w = (known_answer call q r w, w\<lparr>rt_readings := rt_readings w + 1\<rparr>)"
  using assms(4,5) by (cases "known_answer call q r w") (simp_all add: execute_skill_def sbind_def begin_known [OF assms(1-3)])

lemma open_held:
  assumes "has_key call" and o: "open_operation u ex call w = (Inr (Inr held), w')"
  shows "held \<noteq> None"
proof -
  have "map_sum id Inl x \<noteq> Inr (Inr held)" for x :: "skill_exception + execution_result" by (cases x) auto
  then show ?thesis
    using assms
    by (cases "call_request call")
      (auto simp: open_operation_def sbind_def runtime_now_def on_ledger_def split: prod.splits sum.splits if_splits)
qed

text \<open>A call for a new operation, admitted and in time, reaches its handler.\<close>

lemma begin_fresh:
  assumes key: "has_key call" and q: "call_request call = Inr q" and new: "dget (as_by_operation (rt_attempts w)) (operation_id q) = None"
    and v: "validate_call (ex_gate ex) call = Inr (Inr m)" and h: "dget (ex_handlers ex) (ec_skill_id call) = Some h"
    and time: "ex_clock ex (rt_readings w + 1) < cx_deadline_at (ec_context call)" "1 \<le> sm_max_attempt_seconds m"
  shows "\<exists>r cx d w1. begin_call u ex call w = (Inr (Running (Some r) h cx d), w1)"
proof -
  obtain r s where claim: "claim_or_replay u (ex_clock ex (rt_readings w)) q (rt_attempts w) = (Inr (r, True), s)"
    using new by (simp add: claim_or_replay_def Let_def)
  have o: "open_operation u ex call w = (Inr (Inr (Some r)), w\<lparr>rt_readings := rt_readings w + 1, rt_attempts := s\<rparr>)"
    using key q claim by (simp add: open_operation_def sbind_def runtime_now_def on_ledger_def)
  show ?thesis using o v h time
    by (simp add: begin_call_def sbind_def runtime_now_def seconds_def Let_def min_le_iff_disj)
qed

end
