(* ===== verification/SkillProperties.thy ===== *)
theory SkillProperties
  imports SkillProofs WorkerProperties
begin

section \<open>Properties of the skill runtime\<close>

text \<open>
  The world that the witnesses run in: one governed skill, a handler that succeeds, an executor over
  an empty ledger.
\<close>

definition trial_skill :: governed_manifest where
  "trial_skill = \<lparr>sm_skill_id = ''handle_sold_out_event'', sm_version = ''2.0.0'', sm_lifecycle = [''ON_LIVE''],
     sm_risk_level = ''HIGH'', sm_max_attempt_seconds = 15, gm_schema = [(''type'', JStr ''object'')], gm_gate = G_AUTO,
     gm_requires_key = True, gm_authorization = TRUSTED_EVENT_OR_HUMAN\<rparr>"

definition trial_gate :: skill_gate where
  "trial_gate = \<lparr>sg_catalog = catalog_dict [trial_skill], sg_policies = [(sm_skill_id trial_skill, policy_of trial_skill)],
     sg_accepts = (\<lambda>_ _. True)\<rparr>"

definition trial_handler :: skill_handler where
  "trial_handler _ _ _ _ w = (HandlerResult (PyDict [(PyStr ''ok'', PyBool True)]) (Some ''audit-1''), w)"

definition trial_executor :: skill_executor where
  "trial_executor = \<lparr>ex_gate = trial_gate, ex_handlers = [(sm_skill_id trial_skill, trial_handler)], ex_clock = int\<rparr>"

definition trial_approval :: approval where
  "trial_approval = \<lparr>av_decision = APPROVED_DECISION, av_operator = Some ''op'', av_audit_id = Some ''a'', av_verified = True\<rparr>"

definition trial_context :: skill_context where
  "trial_context = \<lparr>cx_room_id = ''room'', cx_trace_id = ''trace'', cx_lifecycle = ON_LIVE, cx_idempotency_key = Some ''k'',
     cx_approval = Some trial_approval, cx_event_authorization = None, cx_attempt_id = None, cx_deadline_at = 1000000\<rparr>"

definition trial_call :: execution_call where
  "trial_call = \<lparr>ec_skill_id = sm_skill_id trial_skill, ec_version = ''2.0.0'', ec_context = trial_context,
     ec_arguments = [(''expected_version'', JInt 1)]\<rparr>"

definition trial_runtime :: runtime where
  "trial_runtime = \<lparr>rt_attempts = empty_attempt_store, rt_readings = 0\<rparr>"

definition trial_request :: operation_request where
  "trial_request = \<lparr>oq_skill_id = ''handle_sold_out_event'', oq_skill_version = ''2.0.0'', oq_room_id = ''room'',
     oq_idempotency_key = ''k'', oq_deadline_at = 1000000, oq_intent = [(''expected_version'', JInt 1)]\<rparr>"

definition trial_attempt :: attempt_record where
  "trial_attempt = new_attempt (demo_ids 0) 0 trial_request"

definition trial_started :: runtime where
  "trial_started = \<lparr>rt_attempts = snd (claim_or_replay demo_ids 0 trial_request empty_attempt_store), rt_readings = 2\<rparr>"

definition trial_first :: "skill_exception + call_start" where
  "trial_first = Inr (Running (Some trial_attempt) trial_handler (trial_context\<lparr>cx_attempt_id := Some (demo_ids 0)\<rparr>) 999999)"

lemmas trial_defs = trial_executor_def trial_gate_def trial_call_def trial_context_def trial_skill_def trial_approval_def

lemma trial_validates: "validate_call (ex_gate trial_executor) trial_call = Inr (Inr trial_skill)"
  by (simp add: trial_defs validate_call_def catalog_dict_def stage_value_def has_key_def validate_authorization_def
      approved_human_def pass_gate_def policy_of_def evaluate_tool_gate_def Let_def)

lemma trial_registered: "dget (ex_handlers trial_executor) (ec_skill_id trial_call) = Some trial_handler"
  by (simp add: trial_defs)

lemma trial_requests: "has_key trial_call" "call_request trial_call = Inr trial_request"
  by (simp_all add: trial_defs has_key_def call_request_def operation_request_create_def trial_request_def guard_def)

lemma trial_begins: "begin_call demo_ids trial_executor trial_call trial_runtime = (trial_first, trial_started)"
proof -
  have "claim_or_replay demo_ids 0 trial_request empty_attempt_store = (Inr (trial_attempt, True), rt_attempts trial_started)"
    by (simp add: claim_or_replay_def empty_attempt_store_def trial_attempt_def trial_started_def Let_def)
  then have "open_operation demo_ids trial_executor trial_call trial_runtime
      = (Inr (Inr (Some trial_attempt)), \<lparr>rt_attempts = rt_attempts trial_started, rt_readings = 1\<rparr>)"
    using trial_requests
    by (simp add: open_operation_def sbind_def runtime_now_def on_ledger_def trial_runtime_def trial_executor_def)
  moreover have "at_attempt_id trial_attempt = demo_ids 0" by (simp add: trial_attempt_def new_attempt_def)
  moreover have "min (cx_deadline_at (ec_context trial_call) - ex_clock trial_executor 1) (seconds (sm_max_attempt_seconds trial_skill)) = 999999"
    by (simp add: trial_defs seconds_def)
  ultimately show ?thesis
    using trial_validates trial_registered
    by (simp add: begin_call_def sbind_def runtime_now_def trial_first_def trial_started_def Let_def trial_call_def)
qed

lemma trial_wf: "attempts_wf demo_ids (rt_attempts trial_runtime)"
  by (simp add: trial_runtime_def attempts_wf_empty)

lemma trial_open: "open_attempt trial_attempt trial_started"
  using trial_begins [unfolded trial_first_def] begin_opens unfolding open_attempt_def by metis

subsection \<open>Once\<close>

text \<open>
  C18: One operation, one call of its handler. Once an execution has handed an operation over to its
  handler, no later call with the same skill, version, room and idempotency key reaches a handler
  again: whatever else happened to the ledger in between, whichever executor sees the call, whatever
  its arguments, trace, approval or deadline, and even if the first execution has not ended. The
  ledger stays as it is. The proviso \<open>inj u\<close> is that identifiers do not repeat.
\<close>

theorem operation_runs_once:
  assumes "begin_call u ex call w = (Inr (Running (Some r) h cx d), w1)" and "attempts_wf u (rt_attempts w)" and "inj u"
    and "ledger_moves u w1 w2" and "same_operation call again"
  shows "(\<forall>held h' cx' d'. fst (begin_call u ex' again w2) \<noteq> Inr (Running held h' cx' d'))
    \<and> rt_attempts (snd (begin_call u ex' again w2)) = rt_attempts w2
    \<and> rt_attempts (snd (execute_skill u ex' again w2)) = rt_attempts w2"
proof -
  obtain q r' where q: "has_key call" "call_request call = Inr q"
    and known: "dget (as_by_operation (rt_attempts w2)) (operation_id q) = Some r'"
    using assms(1-4) by (rule opened_operation_known)
  obtain q' where q': "has_key again" "call_request again = Inr q'" "operation_id q' = operation_id q"
    using assms(5) q by (rule same_operation_request)
  note quiet = begin_known_quiet [OF q'(1,2) known [folded q'(3)], of u ex']
  moreover have "snd (execute_skill u ex' again w2) = snd (begin_call u ex' again w2)"
    using quiet(1) by (cases "begin_call u ex' again w2"; cases "fst (begin_call u ex' again w2)")
      (auto simp: execute_skill_def sbind_def split: call_start.split)
  ultimately show ?thesis by simp
qed

theorem operation_runs_once_witness:
  "fst (begin_call demo_ids trial_executor trial_call trial_started) \<noteq> trial_first"
  using operation_runs_once [OF trial_begins [unfolded trial_first_def] trial_wf demo_ids_inj ledger_moves_refl [OF refl],
      of trial_call trial_executor]
  by (simp add: same_operation_def trial_first_def)

text \<open>
  C20: Replay. Let an attempt that is still open be settled by what its handler did: a timeout, an
  exception, a failure fact, or an output that is a JSON dictionary. Then any later call of the
  same operation with the same arguments, at any executor that admits it and knows the skill,
  returns the very result of the first (status, error code, output, audit record, attempt and
  failure) without changing the ledger, even after the deadline of the call.
\<close>

theorem replay_returns_first_result:
  assumes "begin_call u ex call w = (Inr (Running (Some r) h cx d), w1)" and "attempts_wf u (rt_attempts w)" "inj u"
    and "ledger_moves u w1 w2" "open_attempt r w2"
    and settle: "settle_call u call (Some r) out w2 = (Inr result, w3)"
    and plain: "handler_failure out r = None \<longrightarrow> plain_output (fst (handler_output out))"
    and "ledger_moves u w3 w4"
    and "same_operation call again" "ec_arguments again = ec_arguments call"
    and "validate_call (ex_gate ex') again = Inr (Inr m)" and "dget (ex_handlers ex') (ec_skill_id again) = Some h'"
  shows "execute_skill u ex' again w4 = (Inr result, w4\<lparr>rt_readings := rt_readings w4 + 1\<rparr>)"
proof -
  have result: "settled_answer call out r = Inr result" using settle settle_open [OF assms(5)] by simp
  then have "out \<noteq> HandlerCancelled" by (auto simp: settled_answer_def)
  then have replay: "replay_result again (closed_record out r) = Inr result"
    using replay_settled [OF assms(9)] plain result by simp
  obtain q where q: "has_key again" "call_request again = Inr q"
    "dget (as_by_operation (rt_attempts w4)) (operation_id q) = Some (closed_record out r)"
    "known_answer again q (closed_record out r) w4 = replay_result again (closed_record out r)"
    using assms(1-5) settle assms(8-10) by (rule settled_operation_known)
  show ?thesis using execute_known [OF q(1-3) assms(11,12)] q(4) replay by simp
qed

definition trial_outcome :: handler_outcome where
  "trial_outcome = fst (trial_handler (ec_skill_id trial_call) [] trial_context 0 trial_started)"

definition trial_result :: execution_result where
  "trial_result = (answer trial_call SUCCESS None)\<lparr>xr_output := Some [(''ok'', JBool True)], xr_audit_id := Some ''audit-1'',
     xr_attempt_id := Some (demo_ids 0)\<rparr>"

definition trial_settled :: runtime where
  "trial_settled = trial_started\<lparr>rt_attempts := replace_record (closed_record trial_outcome trial_attempt) (rt_attempts trial_started)\<rparr>"

lemma trial_outcome_plain: "handler_failure trial_outcome r = None" "plain_output (fst (handler_output trial_outcome))"
  by (simp_all add: trial_outcome_def trial_handler_def handler_failure_def handler_output_def plain_output_def is_py_dict_def
      frozen_fields_def all_str_keys_def key_text_def)

lemma trial_settles: "settle_call demo_ids trial_call (Some trial_attempt) trial_outcome trial_started = (Inr trial_result, trial_settled)"
proof -
  have "settled_answer trial_call trial_outcome trial_attempt = Inr trial_result"
    by (simp add: settled_answer_def trial_outcome_def trial_handler_def handler_failure_def handler_output_def success_answer_def
        result_output_def frozen_fields_def all_str_keys_def key_text_def trial_result_def trial_attempt_def new_attempt_def)
  then show ?thesis by (simp add: settle_open [OF trial_open] trial_settled_def)
qed

theorem replay_returns_first_result_witness:
  "fst (execute_skill demo_ids trial_executor trial_call trial_settled) = Inr trial_result"
  using replay_returns_first_result [OF trial_begins [unfolded trial_first_def] trial_wf demo_ids_inj ledger_moves_refl [OF refl]
      trial_open trial_settles _ ledger_moves_refl [OF refl] _ refl trial_validates trial_registered] trial_outcome_plain
  by (simp add: same_operation_def)

subsection \<open>Outputs that cannot be replayed\<close>

text \<open>
  C23: The store is told of a success before the result is validated. If a handler returns anything
  but a JSON dictionary, the attempt is recorded as succeeded for good. A value that the result
  rejects is reported to the caller as a conflict of the attempt, not as the internal failure that
  the code asks to record; \<open>None\<close> is reported as a success. Either way every replay of the operation
  raises instead of answering.
\<close>

theorem unusable_output_recorded_as_success:
  assumes "begin_call u ex call w = (Inr (Running (Some r) h cx d), w1)" and "attempts_wf u (rt_attempts w)" "inj u"
    and "ledger_moves u w1 w2" "open_attempt r w2"
    and bad: "\<not> plain_output v" and settle: "settle_call u call (Some r) (HandlerOutput v) w2 = (x, w3)"
    and "ledger_moves u w3 w4"
    and "same_operation call again" "ec_arguments again = ec_arguments call"
    and "validate_call (ex_gate ex') again = Inr (Inr m)" and "dget (ex_handlers ex') (ec_skill_id again) = Some h'"
  shows "(\<exists>r'. dget (as_by_operation (rt_attempts w3)) (at_operation_id r) = Some r' \<and> at_state r' = T_SUCCEEDED)
    \<and> (\<forall>e. result_output v = Inl e \<longrightarrow> x = Inr (failure_answer call (completion_conflict r)))
    \<and> (v = PyNone \<longrightarrow> (\<exists>result. x = Inr result \<and> xr_status result = SUCCESS))
    \<and> fst (execute_skill u ex' again w4) = Inl (if is_py_dict v then ResultRejected else LedgerRaised BadTerminalOutput)"
proof -
  define out where "out = HandlerOutput v"
  note settle = settle [folded out_def]
  have out: "handler_failure out r = None" "handler_output out = (v, None)"
    by (simp_all add: out_def handler_failure_def handler_output_def)
  note open' = settle_open [OF assms(5), of u call out, unfolded settle]
  have x: "x = Inr (case success_answer call v None (Some (at_attempt_id r)) of
      Inl _ \<Rightarrow> failure_answer call (completion_conflict r) | Inr result \<Rightarrow> result)"
    using open' out by (simp add: settled_answer_def out_def)
  obtain q where q: "has_key again" "call_request again = Inr q"
    "dget (as_by_operation (rt_attempts w4)) (operation_id q) = Some (closed_record out r)"
    "known_answer again q (closed_record out r) w4 = replay_result again (closed_record out r)"
    using assms(1-5) settle assms(8-10) by (rule settled_operation_known)
  have "dget (as_by_operation (rt_attempts w3)) (at_operation_id r) = Some (closed_record out r)"
    using open' by (simp add: replace_record_lookup settled_record)
  moreover have "at_state (closed_record out r) = T_SUCCEEDED" using settled_record(5) out(1) by blast
  moreover have "x = Inr (failure_answer call (completion_conflict r))" if "result_output v = Inl e" for e
    using x that by (simp add: success_answer_def)
  moreover have "\<exists>result. x = Inr result \<and> xr_status result = SUCCESS" if "v = PyNone"
    using x that by (simp add: success_answer_def result_output_def answer_def)
  moreover have "replay_result again (closed_record out r) = Inl (if is_py_dict v then ResultRejected else LedgerRaised BadTerminalOutput)"
  proof (cases "is_py_dict v")
    case True
    then obtain e where "frozen_fields v = Inl e" using bad by (cases "frozen_fields v") (auto simp: plain_output_def)
    then have "result_output v = Inl e" using True by (cases v) (simp_all add: result_output_def is_py_dict_def)
    then show ?thesis
      using True out by (simp add: replay_result_def closed_record_def unpack_success success_answer_def)
  next
    case False
    then show ?thesis using out by (simp add: replay_result_def closed_record_def unpack_success)
  qed
  ultimately show ?thesis using execute_known [OF q(1-3) assms(11,12)] q(4) by simp
qed

theorem unusable_output_recorded_as_success_witness:
  "fst (execute_skill demo_ids trial_executor trial_call
     (snd (settle_call demo_ids trial_call (Some trial_attempt) (HandlerOutput PyNone) trial_started)))
   = Inl (LedgerRaised BadTerminalOutput)"
  using unusable_output_recorded_as_success [OF trial_begins [unfolded trial_first_def] trial_wf demo_ids_inj
      ledger_moves_refl [OF refl] trial_open _ surjective_pairing ledger_moves_refl [OF refl] _ refl trial_validates
      trial_registered, of PyNone]
  by (simp add: same_operation_def plain_output_def is_py_dict_def)

subsection \<open>No attempt is left open\<close>

text \<open>A call answered before its handler: a new operation is closed as not sent.\<close>

lemma begin_answered_closed:
  assumes key: "has_key call" and q: "call_request call = Inr q" and new: "dget (as_by_operation (rt_attempts w)) (operation_id q) = None"
    and start: "begin_call u ex call w = (x, w1)" and "\<And>held h cx d. x \<noteq> Inr (Running held h cx d)"
    and r: "dget (as_by_operation (rt_attempts w1)) (operation_id q) = Some r"
  shows "at_state r = T_FAILED \<and> (\<exists>f. x = Inr (Answered (failure_answer call f)))"
proof -
  obtain m h where v: "validate_call (ex_gate ex) call = Inr (Inr m)" and h: "dget (ex_handlers ex) (ec_skill_id call) = Some h"
    using start new r
    by (cases "validate_call (ex_gate ex) call"; cases "projr (validate_call (ex_gate ex) call)";
        cases "dget (ex_handlers ex) (ec_skill_id call)") (auto simp: begin_call_def sbind_def)
  show ?thesis
  proof (rule open_operation_cases [OF key q, of w u ex])
    fix r' w2 assume o: "open_operation u ex call w = (Inr (Inr (Some r')), w2)"
      "r' = new_attempt (u (as_draws (rt_attempts w))) (ex_clock ex (rt_readings w)) q"
      "dget (as_by_attempt (rt_attempts w2)) (at_attempt_id r') = Some r'"
    have r': "at_state r' = T_INTENT_RECORDED" "at_operation_id r' = operation_id q" unfolding o(2) by (simp_all add: new_attempt_def)
    define f where "f = runtime_failure TRANSIENT_INFRA ''runtime.deadline_before_handler'' NOT_SENT (at_attempt_id r')"
    define w3 where "w3 = w2\<lparr>rt_readings := rt_readings w2 + 1\<rparr>"
    have "open_attempt r' w3" using o(3) r' by (simp add: open_attempt_def w3_def)
    note closed = complete_failed_open [OF this, of f call]
    have "runtime_now ex w2 = (Inr (ex_clock ex (rt_readings w2)), w3)" by (simp add: runtime_now_def w3_def)
    then have eq: "x = Inr (Answered (failure_answer call f)) \<and> w1 = w3\<lparr>rt_attempts := replace_record (failed_record f r') (rt_attempts w3)\<rparr>"
      using start assms(5) closed v h o(1)
      by (auto simp: begin_call_def sbind_def Let_def f_def split: if_splits)
    then have "r = failed_record f r'" using r r'(2) by (simp add: replace_record_lookup failed_record_def)
    then show ?thesis using eq by (auto simp: failed_record_def f_def runtime_failure_def)
  qed (use new in simp)
qed

text \<open>Settling leaves a terminal record, and success is claimed for a recorded success only.\<close>

lemma settle_terminal:
  assumes a: "dget (as_by_attempt (rt_attempts w)) (at_attempt_id r) = Some r2" and i: "at_state r2 = T_INTENT_RECORDED \<Longrightarrow> r2 = r"
    and settle: "settle_call u call (Some r) out w = (x, w')"
    and r2: "dget (as_by_operation (rt_attempts w)) (at_operation_id r) = Some r2"
    and r': "dget (as_by_operation (rt_attempts w')) (at_operation_id r) = Some r'"
  shows "at_state r' \<noteq> T_INTENT_RECORDED
    \<and> (\<forall>result. x = Inr result \<and> xr_status result = SUCCESS \<longrightarrow>
         at_state r' = T_SUCCEEDED \<and> xr_attempt_id result = Some (at_attempt_id r'))"
proof (cases "at_state r2 = T_INTENT_RECORDED")
  case True
  then have "open_attempt r w" using a i by (simp add: open_attempt_def)
  note s = settle_open [OF this, of u call out, unfolded settle]
  have "r' = closed_record out r" using s r' by (simp add: replace_record_lookup settled_record)
  then show ?thesis using s
    by (auto simp: settled_record settled_answer_def failure_answer_def error_answer_def answer_def success_answer_def outcome
        split: option.splits sum.splits if_splits)
next
  case False
  then show ?thesis
    using settle_closed [OF a False, of u call out] settle r' r2
    by (auto simp: failure_answer_def error_answer_def answer_def split: if_splits)
qed

text \<open>
  C21: Every execution settles what it opens. If the operation of a call is not in the ledger before
  an execution and is there after it, its attempt is terminal: after a return, an exception or a
  cancellation, whatever the handler returned, and whether or not it was called in time. A result
  that claims success is that of an attempt recorded as succeeded. The handlers may use the ledger
  and let others use it.
\<close>

theorem no_attempt_left_open:
  assumes key: "has_key call" and q: "call_request call = Inr q" and "attempts_wf u (rt_attempts w)" and "inj u"
    and lawful: "\<forall>h \<in> set (dvalues (ex_handlers ex)). lawful_skill u h"
    and new: "dget (as_by_operation (rt_attempts w)) (operation_id q) = None"
    and run: "execute_skill u ex call w = (x, w')"
    and r': "dget (as_by_operation (rt_attempts w')) (operation_id q) = Some r'"
  shows "at_state r' \<noteq> T_INTENT_RECORDED
    \<and> (\<forall>result. x = Inr result \<and> xr_status result = SUCCESS \<longrightarrow>
         at_state r' = T_SUCCEEDED \<and> xr_attempt_id result = Some (at_attempt_id r'))"
proof -
  obtain y w1 where b: "begin_call u ex call w = (y, w1)" by fastforce
  show ?thesis
  proof (cases "\<exists>held h cx d. y = Inr (Running held h cx d)")
    case False
    then have "w' = w1 \<and> (\<forall>res. y = Inr (Answered res) \<longrightarrow> x = Inr res)"
      using run b by (cases y) (auto simp: execute_skill_def sbind_def split: call_start.splits)
    then show ?thesis
      using begin_answered_closed [OF key q new b] False r' by (fastforce simp: failure_answer_def error_answer_def answer_def)
  next
    case True
    then obtain held h cx d where b': "begin_call u ex call w = (Inr (Running held h cx d), w1)" using b by blast
    obtain w1' :: runtime where "open_operation u ex call w = (Inr (Inr held), w1')"
      and h: "dget (ex_handlers ex) (ec_skill_id call) = Some h" using b' by (rule begin_running)
    then obtain r where held: "held = Some r" using open_operation_cases [OF key q, of w u ex] new by fastforce
    note b' = b' [unfolded held]
    obtain out w2 where o: "h (ec_skill_id call) (ec_arguments call) cx d w1 = (out, w2)" by fastforce
    have "h \<in> set (dvalues (ex_handlers ex))" using h by (force dest: map_of_SomeD)
    then have moves: "ledger_moves u w1 w2" using lawful o unfolding lawful_skill_def by (metis snd_conv)
    have settle: "settle_call u call (Some r) out w2 = (x, w')"
      using run b' o by (simp add: execute_skill_def sbind_def)
    obtain q' r2 where k: "call_request call = Inr q'" "at_operation_id r = operation_id q'"
      "dget (as_by_operation (rt_attempts w2)) (operation_id q') = Some r2" "attempt_grows r r2"
      "dget (as_by_attempt (rt_attempts w2)) (at_attempt_id r) = Some r2" "at_state r2 = T_INTENT_RECORDED \<Longrightarrow> r2 = r"
      using opened_operation_known [OF b' assms(3,4) moves] by metis
    have q': "q' = q" using k(1) q by simp
    note id = k(2) [unfolded q'] and k2 = k(3) [unfolded q']
    show ?thesis by (rule settle_terminal [OF k(5,6) settle]) (simp_all only: id k2 r')
  qed
qed

theorem no_attempt_left_open_witness:
  "at_state (closed_record trial_outcome trial_attempt) \<noteq> T_INTENT_RECORDED"
proof -
  have run: "execute_skill demo_ids trial_executor trial_call trial_runtime = (Inr trial_result, trial_settled)"
    using trial_begins trial_settles
    by (simp add: execute_skill_def sbind_def trial_first_def trial_outcome_def trial_handler_def)
  have "dget (as_by_operation (rt_attempts trial_settled)) (operation_id trial_request) = Some (closed_record trial_outcome trial_attempt)"
    by (simp add: trial_settled_def replace_record_lookup settled_record trial_attempt_def new_attempt_def)
  moreover have "\<forall>h \<in> set (dvalues (ex_handlers trial_executor)). lawful_skill demo_ids h"
    by (simp add: trial_executor_def lawful_skill_def trial_handler_def)
  moreover have "dget (as_by_operation (rt_attempts trial_runtime)) (operation_id trial_request) = None"
    by (simp add: trial_runtime_def empty_attempt_store_def)
  ultimately show ?thesis using no_attempt_left_open [OF trial_requests trial_wf demo_ids_inj _ _ run] by blast
qed

subsection \<open>Who may run a skill\<close>

text \<open>What the authorization of a manifest asks of a call.\<close>

definition authorized :: "governed_manifest \<Rightarrow> execution_call \<Rightarrow> bool" where
  "authorized m call \<longleftrightarrow> (let approval = cx_approval (ec_context call); event = cx_event_authorization (ec_context call)
     in (approval = None \<or> event = None)
       \<and> (case gm_authorization m of
            NO_AUTHORIZATION \<Rightarrow> gm_gate m = G_HARD_GATE \<longrightarrow> approved_human call
          | HUMAN_APPROVAL \<Rightarrow> approved_human call
          | TRUSTED_EVENT_OR_HUMAN \<Rightarrow> approved_human call
              \<or> (\<exists>a. event = Some a \<and> provenance_verified a \<and> event_version_matches call a)))"

lemma catalog_policy:
  assumes "view_matches_catalog ms view" and "dget (catalog_dict ms) i = Some m"
  obtains p where "dget view i = Some p" "po_gate p = gm_gate m"
proof -
  have "i \<in> set (dkeys (catalog_dict ms) @ dkeys view)" using assms(2) by (force dest: map_of_SomeD)
  then have "case (dget (catalog_dict ms) i, dget view i) of (Some m, Some p) \<Rightarrow> same_governance p (policy_of m) | _ \<Rightarrow> False"
    using assms(1) unfolding view_matches_catalog_def by blast
  then obtain p where "dget view i = Some p" "same_governance p (policy_of m)"
    using assms(2) by (auto split: option.splits)
  then show ?thesis using that by (simp add: same_governance_def policy_of_def)
qed

text \<open>
  C22: The gate admits a call exactly when the catalog knows its skill under the same version, the
  stage is allowed, the schema accepts the arguments, a required idempotency key is there, the skill
  is not blocked and the authorization that the manifest asks for is given: an approval whose
  provenance is verified and that says yes, or a verified event whose observed version is the
  \<open>expected_version\<close> of the arguments, never both sources at once. For an executor whose policies
  agree with its catalog the lookup of a policy never fails.
\<close>

theorem gate_admits_exactly:
  assumes "skill_gate_init ms view accepts = Inr g"
  shows "(validate_call g call = Inr (Inr m) \<longleftrightarrow>
      dget (catalog_dict ms) (ec_skill_id call) = Some m \<and> ec_version call = sm_version m
      \<and> stage_value (cx_lifecycle (ec_context call)) \<in> set (sm_lifecycle m)
      \<and> (gm_schema m = [] \<or> accepts (gm_schema m) (JObj (ec_arguments call)))
      \<and> (gm_requires_key m \<longrightarrow> has_key call) \<and> gm_gate m \<noteq> G_BLOCK \<and> authorized m call)
    \<and> validate_call g call \<noteq> Inl ()"
proof (cases "dget (catalog_dict ms) (ec_skill_id call)")
  case None
  then show ?thesis using assms by (auto simp: skill_gate_init_def outcome validate_call_def)
next
  case (Some m')
  have g: "g = \<lparr>sg_catalog = catalog_dict ms, sg_policies = view, sg_accepts = accepts\<rparr>" "view_matches_catalog ms view"
    using assms by (auto simp: skill_gate_init_def outcome)
  obtain p where p: "dget view (ec_skill_id call) = Some p" "po_gate p = gm_gate m'" using catalog_policy [OF g(2) Some] .
  have auth: "(case validate_authorization call m' of Inl result \<Rightarrow> Inr (Inl result) | Inr c \<Rightarrow> pass_gate g call m' c) = Inr (Inr m)
      \<longleftrightarrow> m' = m \<and> gm_gate m' \<noteq> G_BLOCK \<and> authorized m' call"
    "(case validate_authorization call m' of Inl result \<Rightarrow> Inr (Inl result) | Inr c \<Rightarrow> pass_gate g call m' c) \<noteq> Inl ()"
    using p
    by (cases "gm_authorization m'"; cases "gm_gate m'"; cases "cx_approval (ec_context call)";
        cases "cx_event_authorization (ec_context call)";
        auto simp: g(1) validate_authorization_def authorized_def pass_gate_def evaluate_tool_gate_def approved_human_def Let_def)+
  show ?thesis unfolding validate_call_def using auth by (auto simp: g(1) Some)
qed

theorem gate_admits_exactly_witness: "validate_call trial_gate trial_call = Inr (Inr trial_skill)"
proof -
  have "skill_gate_init [trial_skill] [(sm_skill_id trial_skill, policy_of trial_skill)] (\<lambda>_ _. True) = Inr trial_gate"
    by (simp add: skill_gate_init_def view_matches_catalog_def catalog_dict_def trial_gate_def same_governance_def trial_skill_def
        policy_of_def guard_def)
  then show ?thesis
    by (rule gate_admits_exactly [THEN conjunct1, THEN iffD2])
      (simp add: trial_defs catalog_dict_def stage_value_def has_key_def authorized_def approved_human_def)
qed

subsection \<open>The worker's calls\<close>

text \<open>The call of the worker as the executor sees it; without an approval.\<close>

definition worker_call :: "skill_call \<Rightarrow> execution_call" where
  "worker_call c = \<lparr>ec_skill_id = sc_skill_id c, ec_version = sc_version c,
     ec_context = \<lparr>cx_room_id = sc_room_id c, cx_trace_id = sc_trace_id c, cx_lifecycle = sc_lifecycle c,
       cx_idempotency_key = sc_idempotency_key c, cx_approval = None, cx_event_authorization = sc_authorization c,
       cx_attempt_id = None, cx_deadline_at = sc_deadline_at c\<rparr>,
     ec_arguments = (case sc_arguments c of JObj kvs \<Rightarrow> kvs | _ \<Rightarrow> [])\<rparr>"

text \<open>
  C19: The composition of worker and executor. All calls that any worker prepares for the sold-out
  node of a plan at one version of the plan are one operation: once one of them has reached its
  handler, the platform is not asked again by any claim, retry, reclaim or restart of that node,
  whatever its claim, arguments or deadline.
\<close>

theorem sold_out_sent_once:
  assumes first: "prepare_call wk c m args d e = Inr call" and second: "prepare_call wk' c' m' args' d' e' = Inr call'"
    and runs: "get_plan_run (nr_plan_run_id c) (en_plans e) = Inr run" "get_plan_run (nr_plan_run_id c) (en_plans e') = Inr run'"
      "pl_room_id run' = pl_room_id run" "pl_current_version run' = pl_current_version run"
    and node: "nr_plan_run_id c' = nr_plan_run_id c" "nr_node_id c' = nr_node_id c"
    and skill: "sm_skill_id m = ''handle_sold_out_event''" "sm_skill_id m' = sm_skill_id m" "sm_version m' = sm_version m"
    and sent: "begin_call u ex (worker_call call) w = (Inr (Running held h cx t), w1)"
    and ledger: "attempts_wf u (rt_attempts w)" "inj u" "ledger_moves u w1 w2"
  shows "held \<noteq> None
    \<and> (\<forall>held' h' cx' t'. fst (begin_call u ex' (worker_call call') w2) \<noteq> Inr (Running held' h' cx' t'))
    \<and> rt_attempts (snd (begin_call u ex' (worker_call call') w2)) = rt_attempts w2"
proof -
  have key: "has_key (worker_call call)"
    using first runs(1) skill(1) by (auto simp: prepare_call_def outcome worker_call_def has_key_def node_idempotency_key_def)
  have same: "same_operation (worker_call call) (worker_call call')"
    using first second runs node skill
    by (auto simp: prepare_call_def outcome worker_call_def same_operation_def node_idempotency_key_def)
  obtain w' :: runtime where o: "open_operation u ex (worker_call call) w = (Inr (Inr held), w')" using sent by (rule begin_running)
  have "held \<noteq> None" using open_held [OF key o] .
  then obtain r where r: "held = Some r" by blast
  obtain q r' where q: "call_request (worker_call call) = Inr q"
    and known: "dget (as_by_operation (rt_attempts w2)) (operation_id q) = Some r'"
    using sent [unfolded r] ledger by (rule opened_operation_known)
  obtain q' where q': "has_key (worker_call call')" "call_request (worker_call call') = Inr q'" "operation_id q' = operation_id q"
    using same key q by (rule same_operation_request)
  show ?thesis using begin_known_quiet [OF q'(1,2) known [folded q'(3)]] r by simp
qed

text \<open>The executor of the plan's world: it knows the sold-out skill under the version of the plan.\<close>

definition platform_skill :: governed_manifest where
  "platform_skill = trial_skill\<lparr>sm_version := sm_version sold_out_manifest\<rparr>"

definition platform_executor :: skill_executor where
  "platform_executor = \<lparr>ex_gate = \<lparr>sg_catalog = catalog_dict [platform_skill],
       sg_policies = [(sm_skill_id platform_skill, policy_of platform_skill)], sg_accepts = (\<lambda>_ _. True)\<rparr>,
     ex_handlers = [(sm_skill_id platform_skill, trial_handler)], ex_clock = int\<rparr>"

theorem sold_out_sent_once_witness:
  "\<exists>args call held h cx t w1. prepare_call sold_out_worker sold_out_claim sold_out_manifest args 60000000 (wd_engine sold_out_world) = Inr call
     \<and> begin_call demo_ids platform_executor (worker_call call) trial_runtime = (Inr (Running held h cx t), w1)
     \<and> held \<noteq> None \<and> fst (begin_call demo_ids platform_executor (worker_call call) w1) \<noteq> Inr (Running held h cx t)"
proof -
  obtain a where a: "verified_event_authorization sold_out_worker demo_run demo_registered = Inr a"
    using sold_out_authorization by blast
  then have verified: "provenance_verified a" using verified_event_authorization_sound by blast
  define args where "args = JObj [(''expected_version'', JInt (ea_observed_version a))]"
  have run: "get_plan_run (nr_plan_run_id sold_out_claim) (en_plans (wd_engine sold_out_world)) = Inr demo_run"
    using demo_cards_run by (simp add: sold_out_world_def demo_input_queries)
  have skill: "sm_skill_id sold_out_manifest = ''handle_sold_out_event''" by (simp add: sold_out_manifest_def)
  obtain call where call: "prepare_call sold_out_worker sold_out_claim sold_out_manifest args 60000000 (wd_engine sold_out_world) = Inr call"
    and parts: "sc_skill_id call = ''handle_sold_out_event''" "sc_version call = sm_version sold_out_manifest"
      "sc_room_id call = pl_room_id demo_run" "sc_lifecycle call = ON_LIVE" "sc_deadline_at call = 60000000"
      "sc_idempotency_key call = Some (node_idempotency_key sold_out_claim demo_run)" "sc_authorization call = Some a"
      "sc_arguments call = args"
    using a run skill by (simp add: prepare_call_def sold_out_world_def on_live_skills_def)
  have key: "has_key (worker_call call)" by (simp add: has_key_def worker_call_def parts node_idempotency_key_def)
  have valid: "validate_call (ex_gate platform_executor) (worker_call call) = Inr (Inr platform_skill)"
    using verified
    by (simp add: platform_executor_def platform_skill_def trial_skill_def validate_call_def catalog_dict_def stage_value_def has_key_def
        validate_authorization_def approved_human_def pass_gate_def policy_of_def evaluate_tool_gate_def Let_def worker_call_def parts
        event_version_matches_def args_def node_idempotency_key_def)
  have "sm_version sold_out_manifest \<noteq> []" "pl_room_id demo_run \<noteq> []"
    by (simp_all add: sold_out_manifest_def demo_manifest_def demo_run_def new_plan_run_def demo_plan_def Let_def planning_room_def demo_batch_def)
  then obtain q where q: "call_request (worker_call call) = Inr q"
    by (simp add: call_request_def operation_request_create_def worker_call_def parts node_idempotency_key_def guard_def)
  obtain r cx t w1 where b: "begin_call demo_ids platform_executor (worker_call call) trial_runtime = (Inr (Running (Some r) trial_handler cx t), w1)"
    using begin_fresh [OF key q _ valid, of trial_runtime trial_handler demo_ids]
    by (auto simp: trial_runtime_def empty_attempt_store_def platform_executor_def platform_skill_def trial_skill_def worker_call_def parts)
  show ?thesis
    using sold_out_sent_once [OF call call run run refl refl refl refl skill refl refl b _ demo_ids_inj ledger_moves_refl [OF refl],
        of platform_executor] b call
    by (intro exI conjI) (auto simp: trial_runtime_def attempts_wf_empty)
qed

end
