(* ===== verification/Spec2Isabelle.thy ===== *)
theory Spec2Isabelle
  imports StoreProperties ModelProperties EventProperties StoreProgress ReplanProperties WorkerProperties
    ServiceProperties PreemptionProperties SkillProperties
begin

text \<open>
  A verification development of the plan engine and the Skill runtime of LiveAgent.

  The program. LiveAgent assists a live-stream host. Its plan engine (\<open>src/src/plan_engine/\<close>) turns a
  frozen planning input into a DAG of nodes, stores it, lets workers claim and execute the nodes
  under leases, and lets a human approve, reject, reconcile or resume. A planning input becomes a
  candidate proposal through one of two fixed providers (\<open>proposal.py\<close>, \<open>emergency.py\<close>); the proposal
  and the trusted capabilities of its nodes (\<open>capabilities.py\<close>) are closed into a \<open>MaterializedPlan\<close>
  (\<open>store.py\<close>); \<open>create_or_resume\<close> writes plan run, version and nodes; a worker claims ready nodes,
  resolves the input of each (\<open>bindings.py\<close>), executes it and records the result, or asks the failure
  policy (\<open>failure_policy.py\<close>) whether to retry; results open dependent nodes and close the plan;
  an inventory event (\<open>events.py\<close>) is driven by the preemption coordinator (\<open>preemption.py\<close>): it
  freezes what it affects, runs an emergency plan, and a replan publishes the next version of the
  plan it interrupted; commands (\<open>commands.py\<close>) are decided once and kept in a ledger. The worker
  hands the call of a Skill to the Skill runtime (\<open>src/src/skill_runtime/\<close>): a gate checks version,
  stage, arguments and authorization, a ledger opens one attempt per operation, the handler runs
  under a deadline, and what it did is recorded once and replayed from then on.

  Theories and sources.
   \<^item> \<open>Prelude\<close>: dictionaries as association lists in insertion order, results with an error,
     \<open>commit\<close> (checks first, then writes), times in microseconds, reachability (\<open>steps\<close>) and the two
     interfaces of the store as locales: \<open>fenced_lease\<close> (tokens that only grow) and
     \<open>first_write_wins\<close> (entries that never change).
   \<^item> \<open>Sha256\<close>, \<open>Json\<close>: SHA-256 on 32-bit words, Python values, JSON, the four validators
     (\<open>_freeze_json\<close>, \<open>_strict_json_copy\<close>, \<open>_copy_strict_json\<close>, \<open>_freeze_command_json\<close>) and the
     canonical encoders with their digests.
   \<^item> \<open>StateMachines\<close>: \<open>state_machine.py\<close> and \<open>event_state_machine.py\<close>.
   \<^item> \<open>PlanModels\<close>, \<open>PlanInputs\<close>: \<open>models.py\<close> and \<open>events.py\<close>: bindings, nodes, proposals and the cycle
     search; the two planning inputs, events, provenance and authorization.
   \<^item> \<open>Capabilities\<close>: \<open>capabilities.py\<close>, \<open>proposal.py\<close>, \<open>emergency.py\<close>.
   \<^item> \<open>Bindings\<close>, \<open>Materialize\<close>: \<open>bindings.py\<close>, \<open>MaterializedPlan\<close> of \<open>store.py\<close>, \<open>failure_policy.py\<close>.
   \<^item> \<open>PlanStore\<close>, \<open>StoreClaims\<close>, \<open>StoreResults\<close>, \<open>StorePlans\<close>: \<open>InMemoryPlanStore\<close> of \<open>store.py\<close>, one
     definition per method, on the record \<open>plan_store\<close> whose fields are the dictionaries of the
     class; \<open>CommandService\<close> of \<open>commands.py\<close>.
   \<^item> \<open>StoreInvariant\<close>, \<open>StoreSteps\<close>, \<open>StoreReach\<close>: the invariant \<open>wf\<close> of the store, the relation
     \<open>evolves\<close> (what no call ever takes back), every operation preserves the one and stays within the
     other, the step relation \<open>store_step\<close> and the interpretations of the locales on the store.
   \<^item> \<open>StoreLocks\<close>, \<open>ClaimOrder\<close>, \<open>StoreStaffing\<close>: exclusion of resource locks for clocks that do not run
     backwards, the order in which work is handed out, and the capability every stored node keeps.
   \<^item> \<open>EventStore\<close>, \<open>EventInvariant\<close>, \<open>EventSteps\<close>: the records and \<open>InMemoryEventStore\<close> of
     \<open>event_store.py\<close>, its invariant \<open>ev_wf\<close>, what no call takes back (\<open>ev_evolves\<close>), the step relation
     \<open>event_step\<close> and the interpretations of \<open>fenced_lease\<close> and \<open>first_write_wins\<close> on it.
   \<^item> \<open>Impact\<close>, \<open>ImpactFreeze\<close>: \<open>impact.py\<close>, the closure as reachability, and the composition of the
     analyzer with \<open>apply_impact_freeze\<close>.
   \<^item> \<open>Engine\<close>: programs over both stores at once (\<open>engine\<close>): each call of a store is one step, a
     query is none, the first exception ends the program and keeps what was written before; \<open>obeys\<close>
     says that all steps a program makes are lawful ones (\<open>engine_step\<close>).
   \<^item> \<open>Replan\<close>: \<open>replan.py\<close> as such a program.
   \<^item> \<open>World\<close>, \<open>Worker\<close>, \<open>WorkerProofs\<close>: programs that also read a clock and catch exceptions; \<open>worker.py\<close>,
     each coroutine split at its \<open>await\<close>, a batch as the interleaving of its coroutines under a \<open>schedule\<close>:
     which calls end without suspending, the order in which the others complete, and whether the
     loop is closed after an exception, which cancels those still running; what a worker leaves behind.
   \<^item> \<open>Reconciliation\<close>, \<open>Service\<close>, \<open>ReconciliationProofs\<close>: \<open>reconciliation.py\<close> with the checkpointer as a
     parameter, \<open>service.py\<close> and the \<open>ProductCard\<close> of \<open>product_card_generator.py\<close>; what reconciling a
     plan changes.
   \<^item> \<open>SideEffects\<close>, \<open>Preemption\<close>, \<open>PreemptionProofs\<close>: \<open>side_effect_reconciliation.py\<close> with the platform
     port as a parameter, \<open>preemption.py\<close> stage by stage; \<open>lawful\<close> programs, which leave the stores only
     by lawful calls, and what each stage hands on.
   \<^item> \<open>Uuid5\<close>, \<open>AttemptStore\<close>: SHA-1 and \<open>uuid5\<close>; \<open>InMemoryAttemptStore\<close> of \<open>attempt_store.py\<close>, its
     invariant \<open>attempts_wf\<close>, the step relation \<open>attempt_step\<close> and \<open>first_write_wins\<close> on terminal records.
   \<^item> \<open>SkillGate\<close>: \<open>models.py\<close>, \<open>policy_view.py\<close>, \<open>validate_manifests\<close> of \<open>catalog.py\<close>, the tool gate of
     \<open>core/security_hooks.py\<close> and \<open>_validate_call\<close> of \<open>executor.py\<close>.
   \<^item> \<open>SkillExecutor\<close>, \<open>SkillProofs\<close>: \<open>SkillExecutor\<close> of \<open>executor.py\<close>, \<open>execute\<close> split at its \<open>await\<close> into
     \<open>begin_call\<close> and \<open>settle_call\<close>, with the handler as a parameter that may use the ledger.
   \<^item> \<open>Example\<close>: a concrete batch in a concrete store, for the witnesses.
   \<^item> \<open>StoreProperties\<close>, \<open>StoreProgress\<close>, \<open>EventProperties\<close>, \<open>ReplanProperties\<close>, \<open>WorkerProperties\<close>,
     \<open>ServiceProperties\<close>, \<open>PreemptionProperties\<close>, \<open>SkillProperties\<close>, \<open>ModelProperties\<close>: the properties.

  What the lemmas show. Of the store: in every store that calls can reach the dictionaries agree, so
  no lookup of a published id fails; a node keeps its identity and moves along the state machine; a
  node starts only after its dependencies succeeded; two live claims share no resource; a superseded
  token is dead for good; a command and a run key are decided once; work is handed out by priority,
  age and id, and never left lying, also under a deadline; every stored node keeps a capability of
  its kind; a plan has at most three versions. Of events: a delivery counts
  once and is classified exactly, the fact first stored is never replaced, the inbox refines a life
  cycle per event, a worker that lost its lease cannot write, a raising call changes nothing; the
  analyzer affects exactly what is downstream of a product, finds products only by their encoded ids,
  and the store accepts its analysis. Of both stores together: an
  applied application names a published version that lists its event, a replan that returns has
  published and settled what it merged, and reuses only unaffected work with an unchanged input.
  Of the worker: whatever its executor does and whoever calls the stores meanwhile, every claim it
  took is settled or lost, the executor sees only what the store has recorded, and the write to the
  platform carries the authorization of a live event. Of reconciliation and the service: a checkpoint
  never makes up a fact, each verdict says what the store holds, a driven plan that is returned has
  ended with the cards the store has collected, and a batch asked for twice is created once. Of the
  preemption coordinator: what it reports is what the stores hold, it may be interrupted anywhere, an
  uncertain write is confirmed only by what the platform shows, and an event whose plan was replanned
  under it stays open for good. Of the Skill runtime: an operation reaches its handler once, every
  later call is answered with the first result, no execution leaves its attempt open, the gate admits
  exactly the authorized calls, all calls that workers prepare for the sold-out node of one plan
  version are one operation, and an output that is no JSON dictionary spoils its operation for good.
  Of the values: digests do not depend on key order; the validators agree where they
  accept; the DAG validator accepts exactly the closed acyclic proposals; authorizations cannot be
  forged; resource keys are injective; both providers pass the validator; the resolver reads only
  what a binding declares; retries are bounded and end before the deadline.

  Bounds and fuel. A process-wide lock makes every method of the store atomic, so a call is one
  step. Identifiers come from a parameter \<open>u\<close> that the properties assume injective, as \<open>uuid4\<close> is.
  The fuel of \<open>drive_to_terminal\<close> is the code's own bound on the cycles (16 unless configured), and
  that of \<open>run_child\<close> the code's own 16 rounds. The
  fuel of \<open>reuse_evidence\<close> is no bound: it refuses a node seen twice, so one more round than
  there are nodes is enough. The depth-first search of the DAG validator is total by the measure of
  unvisited nodes; the chains of reused nodes (\<open>source_runs\<close>, \<open>reused_runs\<close>) have one round more than
  the store has nodes. Integers are unbounded, as in Python; times are whole microseconds.

  Not modelled. \<open>PostgresPlanStore\<close>, \<open>PostgresEventStore\<close> and \<open>PostgresAttemptStore\<close> (the same methods
  as SQL transactions); the policies that copy one setting at start-up; the handlers of the Skills;
  the decision support and the specialist runtime; the LangGraph graphs, gateways and LLM clients, which are input and
  output or third-party control flow. Mutable containers are values here, so the defensive copies
  and the frozen containers of the code have no counterpart; overflow of \<open>datetime\<close> (years beyond
  9999) and memory exhaustion are ignored.
\<close>

end
